(* ===== verification/Babel_Prelude.thy ===== *)
theory Babel_Prelude
  imports
    "HOL-Library.Word"
    "HOL-Library.Signed_Division"
    "HOL-Library.List_Lexorder"
    "HOL-Library.Product_Lexorder"
begin

unbundle bit_operations_syntax

text \<open>
  The prelude of the development: the machine types the C code uses, the collections of
  simplification rules the component theories fill, \<open>memcmp\<close>, and the binary search that
  \<open>source.c\<close> and \<open>route.c\<close> both write out, with its correctness stated once as a locale.

  Conventions.  A C \<open>unsigned char\<close> that is a byte of an address is an \<open>8 word\<close>, a sequence
  number is a \<open>16 word\<close>, and every other C integer is an \<open>int\<close> or a \<open>nat\<close> with the
  truncation of an assignment written out.  Prefix lengths are \<open>nat\<close>.
\<close>

section \<open>Machine types\<close>

type_synonym byte = "8 word"
type_synonym u16 = "16 word"
type_synonym u32 = "32 word"
type_synonym ptr = nat

named_theorems babel_defs \<open>definitions that unfold one layer of the model\<close>
named_theorems frame \<open>which components an operation leaves alone\<close>

text \<open>\<open>INFINITY\<close> of \<open>babeld.h\<close>: all ones in an \<open>unsigned short\<close>.\<close>

definition INFINITY_METRIC :: int where
  "INFINITY_METRIC = 65535"

text \<open>The truncation of an assignment to an \<open>unsigned short\<close> and to an \<open>unsigned char\<close>.\<close>

definition to_ushort :: "int \<Rightarrow> int" where
  "to_ushort x = x mod 65536"

definition to_uchar :: "nat \<Rightarrow> nat" where
  "to_uchar n = n mod 256"

lemma to_ushort_bounds: "0 \<le> to_ushort x \<and> to_ushort x \<le> INFINITY_METRIC"
  by (simp add: to_ushort_def INFINITY_METRIC_def)

lemma to_ushort_id: "0 \<le> x \<Longrightarrow> x \<le> INFINITY_METRIC \<Longrightarrow> to_ushort x = x"
  by (simp add: to_ushort_def INFINITY_METRIC_def)

lemma to_ushort_word [simp]: "to_ushort (uint (w :: u16)) = uint w"
  using uint_lt2p [of w] by (simp add: to_ushort_def)

lemma unat_u16: "unat (w :: u16) < 65536"
  using unsigned_less [where w = w and 'a = nat] by simp

lemma unat_byte: "unat (b :: byte) < 256"
  using unsigned_less [where w = b and 'a = nat] by simp

section \<open>Comparing bytes\<close>

text \<open>
  \<open>memcmp\<close>: the C library promises the sign of the result only, so the model returns
  \<open>-1\<close>, \<open>0\<close> or \<open>1\<close>.
\<close>

fun bytes_cmp :: "byte list \<Rightarrow> byte list \<Rightarrow> int" where
  "bytes_cmp [] [] = 0"
| "bytes_cmp [] (_ # _) = -1"
| "bytes_cmp (_ # _) [] = 1"
| "bytes_cmp (x # xs) (y # ys) =
     (if x < y then -1 else if y < x then 1 else bytes_cmp xs ys)"

definition memcmp :: "byte list \<Rightarrow> byte list \<Rightarrow> nat \<Rightarrow> int" where
  "memcmp a b n = bytes_cmp (take n a) (take n b)"

lemma bytes_cmp_eq_0 [simp]: "bytes_cmp a b = 0 \<longleftrightarrow> a = b"
  by (induction a b rule: bytes_cmp.induct) auto

lemma bytes_cmp_less_0 [simp]: "bytes_cmp a b < 0 \<longleftrightarrow> a < b"
  by (induction a b rule: bytes_cmp.induct) auto

lemma bytes_cmp_swap: "bytes_cmp b a = - bytes_cmp a b"
  by (induction a b rule: bytes_cmp.induct) auto

lemma bytes_cmp_greater_0 [simp]: "0 < bytes_cmp a b \<longleftrightarrow> b < a"
  using bytes_cmp_less_0 [of b a] bytes_cmp_swap [of b a] by linarith

lemma memcmp_eq_0 [simp]: "memcmp a b n = 0 \<longleftrightarrow> take n a = take n b"
  by (simp add: memcmp_def)

lemma memcmp_less_0 [simp]: "memcmp a b n < 0 \<longleftrightarrow> take n a < take n b"
  by (simp add: memcmp_def)

lemma memcmp_greater_0 [simp]: "0 < memcmp a b n \<longleftrightarrow> take n b < take n a"
  by (simp add: memcmp_def)

section \<open>Binary search\<close>

text \<open>
  Both tables are arrays of pointers searched by the same \<open>do\<close>/\<open>while\<close> loop over
  \<open>p\<close>, \<open>m\<close>, \<open>g\<close>.  The comparison of the wanted key with the entry at an index is the
  argument \<open>c\<close>.  The result is the index of the entry or the place to insert it, which
  the C code returns through \<open>new_return\<close>.
\<close>

datatype slot = Found nat | Missing nat

function slot_loop :: "(nat \<Rightarrow> int) \<Rightarrow> int \<Rightarrow> int \<Rightarrow> slot" where
  "slot_loop c p g =
     (let m = (p + g) div 2; r = c (nat m) in
      if r = 0 then Found (nat m)
      else if r < 0
        then (if p \<le> m - 1 then slot_loop c p (m - 1) else Missing (nat p))
        else (if m + 1 \<le> g then slot_loop c (m + 1) g else Missing (nat (m + 1))))"
  by pat_completeness auto
termination
  by (relation "measure (\<lambda>(c, p, g). nat (g - p + 1))") auto

declare slot_loop.simps [simp del]

definition slot_search :: "(nat \<Rightarrow> int) \<Rightarrow> nat \<Rightarrow> slot" where
  "slot_search c n = (if n < 1 then Missing 0 else slot_loop c 0 (int n - 1))"

lemma slot_search_0 [simp]: "slot_search c 0 = Missing 0"
  by (simp add: slot_search_def)

lemma slot_loop_found:
  "slot_loop c p g = Found i \<Longrightarrow> 0 \<le> p \<Longrightarrow> p \<le> g \<Longrightarrow> p \<le> int i \<and> int i \<le> g \<and> c i = 0"
proof (induction c p g rule: slot_loop.induct)
  case (1 c p g)
  define m where "m = (p + g) div 2"
  have m: "p \<le> m" "m \<le> g" using 1(5) by (auto simp: m_def)
  consider "c (nat m) = 0" | "c (nat m) < 0" | "0 < c (nat m)" by linarith
  then show ?case
  proof cases
    case 1
    then show ?thesis using "1.prems" m by (auto simp: slot_loop.simps [of c p g] m_def Let_def)
  next
    case 2
    then have "p \<le> m - 1" and "slot_loop c p (m - 1) = Found i"
      using "1.prems"(1) by (auto simp: slot_loop.simps [of c p g] m_def Let_def split: if_splits)
    then show ?thesis using "1.IH"(1) [OF m_def refl] 2 "1.prems"(2) m by force
  next
    case 3
    then have "m + 1 \<le> g" and "slot_loop c (m + 1) g = Found i"
      using "1.prems"(1) by (auto simp: slot_loop.simps [of c p g] m_def Let_def split: if_splits)
    then show ?thesis using "1.IH"(2) [OF m_def refl] 3 "1.prems"(2) m by force
  qed
qed

text \<open>Where the comparisons fall along the array, a miss returns the place that separates them.\<close>

definition descending :: "(nat \<Rightarrow> int) \<Rightarrow> nat \<Rightarrow> bool" where
  "descending c n \<longleftrightarrow> (\<forall>i < n. \<forall>j < i. (0 \<le> c i \<longrightarrow> 0 < c j) \<and> (c j \<le> 0 \<longrightarrow> c i < 0))"

lemma slot_loop_missing:
  assumes "descending c n"
  shows "slot_loop c p g = Missing i \<Longrightarrow> 0 \<le> p \<Longrightarrow> p \<le> g \<Longrightarrow> g < int n \<Longrightarrow>
    (\<forall>j. int j < p \<longrightarrow> 0 < c j) \<Longrightarrow> (\<forall>j < n. g < int j \<longrightarrow> c j < 0) \<Longrightarrow>
    i \<le> n \<and> (\<forall>j < i. 0 < c j) \<and> (\<forall>j < n. i \<le> j \<longrightarrow> c j < 0)"
  using assms
proof (induction c p g rule: slot_loop.induct)
  case (1 c p g)
  define m where "m = (p + g) div 2"
  have m: "p \<le> m" "m \<le> g" using 1(5) by (auto simp: m_def)
  have mn: "nat m < n" using m "1.prems"(2,4) by linarith
  have desc: "\<And>i j. i < n \<Longrightarrow> j < i \<Longrightarrow> (0 \<le> c i \<longrightarrow> 0 < c j) \<and> (c j \<le> 0 \<longrightarrow> c i < 0)"
    using "1.prems"(7) by (simp add: descending_def)
  consider "c (nat m) = 0" | "c (nat m) < 0" | "0 < c (nat m)" by linarith
  then show ?case
  proof cases
    case 1
    then show ?thesis using "1.prems" by (simp add: slot_loop.simps [of c p g] m_def Let_def)
  next
    case 2
    have above: "\<forall>j < n. m - 1 < int j \<longrightarrow> c j < 0"
    proof (intro allI impI)
      fix j assume j: "j < n" "m - 1 < int j"
      show "c j < 0"
      proof (cases "j = nat m")
        case False
        then have "nat m < j" using j by linarith
        then show ?thesis using desc [OF j(1), of "nat m"] 2 by auto
      qed (use 2 in simp)
    qed
    show ?thesis
    proof (cases "p \<le> m - 1")
      case True
      then have "slot_loop c p (m - 1) = Missing i"
        using "1.prems"(1) 2 by (simp add: slot_loop.simps [of c p g] m_def Let_def)
      then show ?thesis
        using "1.IH"(1) [OF m_def refl] 2 True "1.prems" m above by auto
    next
      case False
      then have i: "i = nat p" and pm: "p = m"
        using "1.prems"(1) 2 m by (auto simp: slot_loop.simps [of c p g] m_def Let_def)
      show ?thesis using above "1.prems"(2,5) mn unfolding i pm by auto
    qed
  next
    case 3
    have below: "\<forall>j. int j < m + 1 \<longrightarrow> 0 < c j"
    proof (intro allI impI)
      fix j assume j: "int j < m + 1"
      show "0 < c j"
      proof (cases "j = nat m")
        case False
        then have "j < nat m" using j by linarith
        then show ?thesis using desc [OF mn, of j] 3 by auto
      qed (use 3 in simp)
    qed
    show ?thesis
    proof (cases "m + 1 \<le> g")
      case True
      then have "slot_loop c (m + 1) g = Missing i"
        using "1.prems"(1) 3 by (simp add: slot_loop.simps [of c p g] m_def Let_def)
      then show ?thesis
        using "1.IH"(2) [OF m_def refl] 3 True "1.prems" m below by auto
    next
      case False
      then have i: "i = nat (m + 1)" and gm: "g = m"
        using "1.prems"(1) 3 m by (auto simp: slot_loop.simps [of c p g] m_def Let_def)
      show ?thesis using below "1.prems"(2,4,6) m unfolding i gm by auto
    qed
  qed
qed

lemma slot_search_found: "slot_search c n = Found i \<Longrightarrow> i < n \<and> c i = 0"
  using slot_loop_found [of c 0 "int n - 1" i]
  by (auto simp: slot_search_def split: if_splits)

lemma slot_search_missing:
  assumes "descending c n" and "slot_search c n = Missing i"
  shows "i \<le> n \<and> (\<forall>j < i. 0 < c j) \<and> (\<forall>j < n. i \<le> j \<longrightarrow> c j < 0)"
  using assms slot_loop_missing [OF assms(1), of 0 "int n - 1" i]
  by (auto simp: slot_search_def split: if_splits)

text \<open>
  A table is kept in strictly increasing order of its entries' keys.
\<close>

definition sorted_by :: "('e \<Rightarrow> 'k::linorder) \<Rightarrow> 'e list \<Rightarrow> bool" where
  "sorted_by key es \<longleftrightarrow> sorted_wrt (\<lambda>a b. key a < key b) es"

lemma sorted_by_nth: "sorted_by key es \<Longrightarrow> i < j \<Longrightarrow> j < length es \<Longrightarrow> key (es ! i) < key (es ! j)"
  by (simp add: sorted_by_def sorted_wrt_iff_nth_less)

lemma sorted_by_filter: "sorted_by key es \<Longrightarrow> sorted_by key (filter P es)"
  by (simp add: sorted_by_def sorted_wrt_filter)

lemma sorted_by_distinct: "sorted_by key es \<Longrightarrow> distinct (map key es)"
  by (induction es) (auto simp: sorted_by_def)

lemma sorted_by_map: "sorted_by key (map f es) \<longleftrightarrow> sorted_by (key \<circ> f) es"
  by (simp add: sorted_by_def sorted_wrt_map)

lemma sorted_by_keys: "sorted_by key es \<longleftrightarrow> sorted_wrt (<) (map key es)"
  by (simp add: sorted_by_def sorted_wrt_map)

lemma sorted_by_cong: "(\<And>e. e \<in> set es \<Longrightarrow> key e = key' e) \<Longrightarrow> sorted_by key es = sorted_by key' es"
  unfolding sorted_by_def by (intro iffI; erule sorted_wrt_mono_rel [rotated]) auto

lemma sorted_by_insert:
  assumes "sorted_by key es" and "\<forall>j < n. key (es ! j) < key e"
    and "\<forall>j < length es. n \<le> j \<longrightarrow> key e < key (es ! j)" and "n \<le> length es"
  shows "sorted_by key (take n es @ e # drop n es)"
proof -
  have *: "sorted_by key (take n es @ drop n es)" using assms(1) by simp
  have "\<forall>x \<in> set (take n es). key x < key e" using assms(2,4) by (auto simp: in_set_conv_nth)
  moreover have "\<forall>y \<in> set (drop n es). key e < key y"
    using assms(3,4) by (auto simp: in_set_conv_nth)
  ultimately show ?thesis
    using * unfolding sorted_by_def sorted_wrt_append by force
qed

section \<open>The contract of a searchable table\<close>

text \<open>
  What a client of the search relies on: a comparison function whose sign agrees with a
  linear order on keys.  \<open>source_compare\<close> and \<open>route_compare\<close> both provide it.
\<close>

locale searchable =
  fixes cmp :: "'r \<Rightarrow> 'e \<Rightarrow> int"
    and rkey :: "'r \<Rightarrow> 'k::linorder"
    and key :: "'e \<Rightarrow> 'k"
  assumes cmp_less: "cmp r e < 0 \<longleftrightarrow> rkey r < key e"
    and cmp_eq: "cmp r e = 0 \<longleftrightarrow> rkey r = key e"
begin

lemma cmp_greater: "0 < cmp r e \<longleftrightarrow> key e < rkey r"
  using cmp_less [of r e] cmp_eq [of r e] by (metis linorder_less_linear order_less_asym)

lemma descending_cmp:
  assumes "sorted_by key es"
  shows "descending (\<lambda>i. cmp r (es ! i)) (length es)"
  unfolding descending_def
proof (intro allI impI)
  fix i j assume "i < length es" "j < i"
  then have "key (es ! j) < key (es ! i)" using sorted_by_nth [OF assms] by blast
  then show "(0 \<le> cmp r (es ! i) \<longrightarrow> 0 < cmp r (es ! j)) \<and> (cmp r (es ! j) \<le> 0 \<longrightarrow> cmp r (es ! i) < 0)"
    unfolding cmp_greater cmp_less le_less not_less [symmetric, of "0 :: int"] cmp_eq
    using cmp_greater cmp_less by (auto simp: cmp_eq eq_commute [of 0])
qed

lemma search_found:
  "slot_search (\<lambda>i. cmp r (es ! i)) (length es) = Found i \<Longrightarrow> i < length es \<and> key (es ! i) = rkey r"
  using slot_search_found [of "\<lambda>i. cmp r (es ! i)"] by (auto simp: cmp_eq)

lemma search_missing:
  assumes "sorted_by key es" and "slot_search (\<lambda>i. cmp r (es ! i)) (length es) = Missing i"
  shows "i \<le> length es \<and> (\<forall>j < i. key (es ! j) < rkey r) \<and>
    (\<forall>j < length es. i \<le> j \<longrightarrow> rkey r < key (es ! j))"
  using slot_search_missing [OF descending_cmp [OF assms(1)] assms(2)]
  by (simp add: cmp_less cmp_greater)

lemma search_missing_notin:
  assumes "sorted_by key es" and "slot_search (\<lambda>i. cmp r (es ! i)) (length es) = Missing i"
  shows "\<forall>e \<in> set es. key e \<noteq> rkey r"
proof
  fix e assume "e \<in> set es"
  then obtain j where j: "j < length es" "es ! j = e" by (auto simp: in_set_conv_nth)
  then show "key e \<noteq> rkey r"
    using search_missing [OF assms] by (cases "j < i") force+
qed

lemma search_complete:
  assumes "sorted_by key es" and "e \<in> set es" and "key e = rkey r"
  shows "\<exists>i < length es. slot_search (\<lambda>i. cmp r (es ! i)) (length es) = Found i \<and> es ! i = e"
proof (cases "slot_search (\<lambda>i. cmp r (es ! i)) (length es)")
  case (Missing i)
  then show ?thesis using search_missing_notin [OF assms(1)] assms(2,3) by blast
next
  case (Found i)
  then have i: "i < length es" "key (es ! i) = rkey r" using search_found by blast+
  obtain j where j: "j < length es" "es ! j = e" using assms(2) by (auto simp: in_set_conv_nth)
  have "i = j"
    using sorted_by_nth [OF assms(1), of i j] sorted_by_nth [OF assms(1), of j i] i j assms(3)
    by (metis less_irrefl linorder_neqE_nat)
  then show ?thesis using Found i j by blast
qed

lemma insert_sorted:
  assumes "sorted_by key es" and "slot_search (\<lambda>i. cmp r (es ! i)) (length es) = Missing i"
    and "key e = rkey r"
  shows "sorted_by key (take i es @ e # drop i es)"
  using search_missing [OF assms(1,2)] sorted_by_insert [OF assms(1)] assms(3) by auto

end

end
