(* ===== verification/Util.thy ===== *)
theory Util
  imports Babel_Prelude
begin

text \<open>
  \<open>util.c\<close> and \<open>util.h\<close>: sequence numbers modulo \<open>2^16\<close>, times, randomised delays,
  fixed-point numbers, addresses and prefixes.  An address is a list of bytes; the C code
  passes pointers to 16 bytes, and the definitions read the first 16 of the list.
\<close>

section \<open>Sequence numbers\<close>

definition seqno_compare :: "u16 \<Rightarrow> u16 \<Rightarrow> int" where
  "seqno_compare s1 s2 =
     (if s1 = s2 then 0 else if (s2 - s1) AND 0x8000 \<noteq> 0 then 1 else -1)"

definition seqno_minus :: "u16 \<Rightarrow> u16 \<Rightarrow> int" where
  "seqno_minus s1 s2 = sint (s1 - s2)"

definition seqno_plus :: "u16 \<Rightarrow> int \<Rightarrow> u16" where
  "seqno_plus s k = s + word_of_int k"

lemma and_8000_iff: "(w :: u16) AND 0x8000 \<noteq> 0 \<longleftrightarrow> 0x8000 \<le> w"
proof -
  have "(w AND 2 ^ 15 = 0) \<longleftrightarrow> \<not> bit w 15" by (rule and_exp_eq_0_iff_not_bit)
  moreover have "bit w 15 \<longleftrightarrow> bit (unat w) 15" by (simp add: bit_unsigned_iff)
  then have "bit w 15 \<longleftrightarrow> odd (unat w div 2 ^ 15)" by (simp only: bit_iff_odd [of "unat w"])
  moreover have "unat w div 2 ^ 15 < 2" using unat_u16 [of w] by simp
  then have "odd (unat w div 2 ^ 15) \<longleftrightarrow> 2 ^ 15 \<le> unat w"
    by (cases "unat w div 2 ^ 15 = 0") (auto simp: div_eq_0_iff less_2_cases_iff)
  ultimately show ?thesis by (simp add: word_le_nat_alt)
qed

lemma seqno_compare_eq_0 [simp]: "seqno_compare a b = 0 \<longleftrightarrow> a = b"
  by (simp add: seqno_compare_def)

lemma seqno_compare_refl [simp]: "seqno_compare a a = 0"
  by simp

lemma seqno_compare_pos: "0 < seqno_compare a b \<longleftrightarrow> 0x8000 \<le> b - a"
  by (auto simp: seqno_compare_def and_8000_iff word_le_nat_alt)

lemma seqno_compare_neg: "seqno_compare a b < 0 \<longleftrightarrow> a \<noteq> b \<and> b - a < 0x8000"
  by (auto simp: seqno_compare_def and_8000_iff not_le)

lemma unat_minus_swap: "(a :: u16) \<noteq> b \<Longrightarrow> unat (a - b) = 2 ^ 16 - unat (b - a)"
proof -
  assume "a \<noteq> b"
  then have "unat a \<noteq> unat b" by (simp add: word_unat_eq_iff)
  with unat_u16 [of a] unat_u16 [of b] show ?thesis
    by (auto simp: unat_sub_if_size word_size)
qed

lemma seqno_plus_minus: "seqno_plus s k - s = word_of_int k"
  by (simp add: seqno_plus_def)

text \<open>
  (functional) Within half the circle, adding to a sequence number makes it newer whatever
  wraps around: \<open>seqno_compare\<close> orders the two in both directions and \<open>seqno_minus\<close> gives
  the distance back.
\<close>

theorem seqno_plus_newer:
  assumes "0 < k" and "k < 32768"
  shows "seqno_compare (seqno_plus s k) s = 1 \<and> seqno_compare s (seqno_plus s k) = -1 \<and>
    seqno_minus (seqno_plus s k) s = k \<and> seqno_minus s (seqno_plus s k) = - k"
proof -
  let ?d = "word_of_int k :: u16"
  have u: "uint ?d = k" using assms by (simp add: uint_word_of_int)
  then have d: "unat ?d = nat k" by (simp add: unat_eq_nat_uint)
  have neq: "seqno_plus s k \<noteq> s"
    using d assms by (metis cancel_comm_monoid_add_class.diff_cancel nat_0_iff not_less seqno_plus_minus unat_0)
  have "\<not> 0x8000 \<le> ?d" using d assms by (simp add: word_le_nat_alt)
  moreover have "unat (s - seqno_plus s k) = 65536 - nat k"
    using unat_minus_swap [OF neq [symmetric]] d by (simp add: seqno_plus_minus)
  then have "0x8000 \<le> s - seqno_plus s k" using assms by (simp add: word_le_nat_alt)
  moreover have "s - seqno_plus s k = word_of_int (- k)"
    by (simp add: seqno_plus_def)
  then have "sint (s - seqno_plus s k) = - k"
    using assms by (simp only: sint_sbintrunc') (simp add: signed_take_bit_int_eq_self)
  moreover have "sint ?d = k"
    using assms by (simp only: sint_sbintrunc') (simp add: signed_take_bit_int_eq_self)
  ultimately show ?thesis
    using neq and_8000_iff by (auto simp: seqno_compare_def seqno_minus_def seqno_plus_minus)
qed

theorem seqno_plus_newer_witness: "seqno_compare (seqno_plus 0xFFFF 2) 0xFFFF = 1"
  using seqno_plus_newer [of 2 "0xFFFF"] by simp

section \<open>Times\<close>

record timeval =
  tv_sec :: int
  tv_usec :: int

definition tv_zero :: timeval where
  "tv_zero = \<lparr>tv_sec = 0, tv_usec = 0\<rparr>"

definition tv_ok :: "timeval \<Rightarrow> bool" where
  "tv_ok t \<longleftrightarrow> 0 \<le> tv_usec t \<and> tv_usec t < 1000000"

definition tv_us :: "timeval \<Rightarrow> int" where
  "tv_us t = tv_sec t * 1000000 + tv_usec t"

definition time_us :: "timeval \<Rightarrow> u32" where
  "time_us t = word_of_int (tv_sec t * 1000000 + tv_usec t)"

definition timeval_minus :: "timeval \<Rightarrow> timeval \<Rightarrow> timeval" where
  "timeval_minus s1 s2 =
     (if tv_usec s2 \<le> tv_usec s1
      then \<lparr>tv_sec = tv_sec s1 - tv_sec s2, tv_usec = tv_usec s1 - tv_usec s2\<rparr>
      else \<lparr>tv_sec = tv_sec s1 - tv_sec s2 - 1, tv_usec = tv_usec s1 + 1000000 - tv_usec s2\<rparr>)"

definition timeval_minus_msec :: "timeval \<Rightarrow> timeval \<Rightarrow> int" where
  "timeval_minus_msec s1 s2 =
     (if tv_sec s1 < tv_sec s2 then 0
      else if 2000000 < tv_sec s1 - tv_sec s2 then 2000000000
      else if tv_sec s2 < tv_sec s1
        then (tv_sec s1 - tv_sec s2) * 1000 + (tv_usec s1 - tv_usec s2) sdiv 1000
      else if tv_usec s1 \<le> tv_usec s2 then 0
      else (tv_usec s1 - tv_usec s2) sdiv 1000)"

definition timeval_add_msec :: "timeval \<Rightarrow> int \<Rightarrow> timeval" where
  "timeval_add_msec s msecs =
     (let sec = tv_sec s + msecs sdiv 1000;
          usecs = tv_usec s + (msecs smod 1000) * 1000
      in if usecs < 1000000 then \<lparr>tv_sec = sec, tv_usec = usecs\<rparr>
         else \<lparr>tv_sec = sec + 1, tv_usec = usecs - 1000000\<rparr>)"

definition timeval_compare :: "timeval \<Rightarrow> timeval \<Rightarrow> int" where
  "timeval_compare s1 s2 =
     (if tv_sec s1 < tv_sec s2 then -1
      else if tv_sec s2 < tv_sec s1 then 1
      else if tv_usec s1 < tv_usec s2 then -1
      else if tv_usec s2 < tv_usec s1 then 1
      else 0)"

text \<open>A time whose seconds are 0 stands for infinity.\<close>

definition timeval_min :: "timeval \<Rightarrow> timeval \<Rightarrow> timeval" where
  "timeval_min d s =
     (if tv_sec s = 0 then d
      else if tv_sec d = 0 \<or> 0 < timeval_compare d s then s
      else d)"

definition timeval_min_sec :: "int \<Rightarrow> timeval \<Rightarrow> int \<Rightarrow> timeval" where
  "timeval_min_sec r d secs =
     (if tv_sec d = 0 \<or> secs < tv_sec d
      then \<lparr>tv_sec = secs, tv_usec = r mod 1000000\<rparr> else d)"

lemma sdiv_pos: "0 \<le> a \<Longrightarrow> 0 < b \<Longrightarrow> (a :: int) sdiv b = a div b"
  by (auto simp: signed_divide_int_def sgn_if)

lemma smod_pos: "0 \<le> a \<Longrightarrow> 0 < b \<Longrightarrow> (a :: int) smod b = a mod b"
  by (simp add: smod_int_alt_def sgn_if)

lemma timeval_compare_us:
  assumes "tv_ok a" and "tv_ok b"
  shows "timeval_compare a b = sgn (tv_us a - tv_us b)"
  using assms unfolding timeval_compare_def tv_us_def tv_ok_def by (auto simp: sgn_if)

lemma timeval_add_msec_ok:
  assumes "tv_ok t" and "0 \<le> msecs"
  shows "tv_ok (timeval_add_msec t msecs) \<and> tv_us (timeval_add_msec t msecs) = tv_us t + 1000 * msecs"
proof -
  obtain q r where "msecs div 1000 = q" "msecs mod 1000 = r" by blast
  moreover from this have "msecs = 1000 * q + r" "0 \<le> r" "r < 1000" by auto
  ultimately show ?thesis
    using assms by (auto simp: timeval_add_msec_def Let_def sdiv_pos smod_pos tv_ok_def tv_us_def)
qed

text \<open>
  (roundtrip) \<open>timeval_minus_msec\<close> undoes \<open>timeval_add_msec\<close> for every delay below the
  two million seconds at which it saturates, and the sum is a normalised, later time.
\<close>

theorem timeval_add_minus_msec:
  assumes "tv_ok t" and "0 \<le> msecs" and "msecs < 2000000000"
  shows "timeval_minus_msec (timeval_add_msec t msecs) t = msecs \<and>
    tv_ok (timeval_add_msec t msecs) \<and>
    timeval_compare (timeval_add_msec t msecs) t = (if msecs = 0 then 0 else 1)"
proof -
  let ?t = "timeval_add_msec t msecs"
  have ok: "tv_ok ?t" and us: "tv_us ?t = tv_us t + 1000 * msecs"
    using timeval_add_msec_ok [OF assms(1,2)] by auto
  define ds where "ds = tv_sec ?t - tv_sec t"
  define du where "du = tv_usec ?t - tv_usec t"
  have e: "ds * 1000000 + du = 1000 * msecs" using us by (simp add: ds_def du_def tv_us_def algebra_simps)
  have b: "- 1000000 < du" "du < 1000000" using ok assms(1) by (auto simp: du_def tv_ok_def)
  define k where "k = msecs - ds * 1000"
  have k: "du = 1000 * k" using e by (simp add: k_def algebra_simps)
  have sd: "du sdiv 1000 = k"
    by (auto simp: k signed_divide_int_def abs_mult sgn_mult) (auto simp: sgn_if)
  have m: "msecs = ds * 1000 + k" by (simp add: k_def)
  have "0 \<le> ds" "ds \<le> 2000000" using m b k assms by linarith+
  have sec: "tv_sec ?t = tv_sec t + ds" and usec: "tv_usec ?t = tv_usec t + du"
    by (simp_all add: ds_def du_def)
  have "timeval_minus_msec ?t t = msecs"
    using \<open>0 \<le> ds\<close> \<open>ds \<le> 2000000\<close> assms(2) k m sd unfolding timeval_minus_msec_def sec usec
    by simp
  moreover have "timeval_compare ?t t = (if msecs = 0 then 0 else 1)"
    using timeval_compare_us [OF ok assms(1)] us assms(2) by (simp add: sgn_if)
  ultimately show ?thesis using ok by simp
qed

theorem timeval_add_minus_msec_witness:
  "timeval_minus_msec (timeval_add_msec \<lparr>tv_sec = 10, tv_usec = 999999\<rparr> 1501) \<lparr>tv_sec = 10, tv_usec = 999999\<rparr> = 1501"
  using timeval_add_minus_msec [of "\<lparr>tv_sec = 10, tv_usec = 999999\<rparr>" 1501] by (simp add: tv_ok_def)

section \<open>Randomised delays\<close>

text \<open>
  \<open>roughly\<close> draws one value of \<open>random()\<close> when its argument is larger than 1 in magnitude;
  the value drawn is the first argument here.  \<open>roughly_draws\<close> says whether one is drawn.
\<close>

definition roughly_draws :: "int \<Rightarrow> bool" where
  "roughly_draws value \<longleftrightarrow> 1 < \<bar>value\<bar>"

definition roughly_pos :: "int \<Rightarrow> int \<Rightarrow> int" where
  "roughly_pos r value =
     (if value \<le> 1 then value else value * 3 div 4 + r mod (value div 2))"

definition roughly :: "int \<Rightarrow> int \<Rightarrow> int" where
  "roughly r value = (if value < 0 then - roughly_pos r (- value) else roughly_pos r value)"

lemma roughly_pos_bounds:
  assumes "0 \<le> value"
  shows "value * 3 div 4 \<le> roughly_pos r value \<and> 4 * roughly_pos r value \<le> 5 * value"
proof (cases "value \<le> 1")
  case True
  then show ?thesis using assms by (auto simp: roughly_pos_def)
next
  case False
  then have h: "0 < value div 2" by simp
  have "r mod (value div 2) < value div 2" "0 \<le> r mod (value div 2)" using h by auto
  moreover have "4 * (value * 3 div 4) \<le> value * 3" "2 * (value div 2) \<le> value" by auto
  moreover have "roughly_pos r value = value * 3 div 4 + r mod (value div 2)"
    using False by (simp add: roughly_pos_def)
  ultimately show ?thesis by linarith
qed

lemma roughly_neg: "roughly r (- v) = - roughly r v"
  by (auto simp: roughly_def roughly_pos_def)

lemma roughly_between:
  assumes "0 \<le> value"
  shows "0 \<le> roughly r value"
  using roughly_pos_bounds [OF assms, of r] assms by (auto simp: roughly_def)

text \<open>
  (bounds) \<open>roughly\<close> stays within a quarter of its argument on either side whatever
  \<open>random()\<close> returns, so a jittered interval is never zero unless the interval is.
\<close>

theorem roughly_bounds:
  assumes "0 \<le> value"
  shows "3 * value \<le> 4 * roughly r value + 3 \<and> 4 * roughly r value \<le> 5 * value \<and>
    (roughly r value = 0 \<longleftrightarrow> value = 0)"
proof -
  have "3 * value \<le> 4 * roughly r value + 3" "4 * roughly r value \<le> 5 * value"
    using roughly_pos_bounds [OF assms, of r] assms by (auto simp: roughly_def)
  moreover have "roughly r value = 0 \<longleftrightarrow> value = 0"
  proof (cases "value \<le> 1")
    case False
    then have "0 < value * 3 div 4" by (simp add: pos_imp_zdiv_pos_iff)
    then show ?thesis using roughly_pos_bounds [OF assms, of r] assms False by (auto simp: roughly_def)
  qed (use assms in \<open>auto simp: roughly_def roughly_pos_def\<close>)
  ultimately show ?thesis by blast
qed

theorem roughly_bounds_witness: "4 * roughly 12345 4000 \<le> 20000 \<and> roughly 12345 4000 \<noteq> 0"
  using roughly_bounds [of 4000 12345] by simp

section \<open>Fixed-point numbers\<close>

text \<open>
  \<open>parse_thousands\<close> reads a decimal with a fraction and returns 1000 times its value.  The
  accumulators are \<open>unsigned int\<close>s and wrap.  A C string ends at its first NUL, so the
  list is the bytes before it.
\<close>

definition is_blank :: "char \<Rightarrow> bool" where
  "is_blank c \<longleftrightarrow> c = CHR '' '' \<or> c = CHR 0x09"

definition is_dec :: "char \<Rightarrow> bool" where
  "is_dec c \<longleftrightarrow> 48 \<le> (of_char c :: nat) \<and> (of_char c :: nat) \<le> 57"

definition dec_value :: "char \<Rightarrow> nat" where
  "dec_value c = of_char c - 48"

fun read_dec :: "u32 \<Rightarrow> string \<Rightarrow> u32 \<times> nat \<times> string" where
  "read_dec acc [] = (acc, 0, [])"
| "read_dec acc (c # cs) =
     (if is_dec c
      then (case read_dec (acc * 10 + of_nat (dec_value c)) cs of (v, j, rest) \<Rightarrow> (v, Suc j, rest))
      else (acc, 0, c # cs))"

definition scale_fraction :: "u32 \<Rightarrow> nat \<Rightarrow> u32" where
  "scale_fraction fl j =
     (if 3 < j then ((\<lambda>x. x div 10) ^^ (j - 3)) fl else ((\<lambda>x. x * 10) ^^ (3 - j)) fl)"

definition parse_thousands :: "string \<Rightarrow> int" where
  "parse_thousands str =
     (case read_dec 0 (dropWhile is_blank str) of (inn, _, rest) \<Rightarrow>
       (case (case rest of
                c # cs \<Rightarrow> if c = CHR ''.''
                  then (case read_dec 0 cs of (v, j, rest') \<Rightarrow> (scale_fraction v j, rest'))
                  else (0, rest)
              | [] \<Rightarrow> (0, rest)) of (fl, rest'') \<Rightarrow>
         if dropWhile is_blank rest'' = [] then sint (inn * 1000 + fl) else -1))"

text \<open>\<open>format_thousands\<close> prints with \<open>"%d.%.3d"\<close>.\<close>

fun show_dec :: "nat \<Rightarrow> string" where
  "show_dec n =
     (if n < 10 then [char_of (48 + n)] else show_dec (n div 10) @ [char_of (48 + n mod 10)])"

declare show_dec.simps [simp del]

definition show_dec3 :: "nat \<Rightarrow> string" where
  "show_dec3 n = [char_of (48 + n div 100), char_of (48 + n div 10 mod 10), char_of (48 + n mod 10)]"

definition format_thousands :: "u32 \<Rightarrow> string" where
  "format_thousands value = show_dec (unat value div 1000) @ CHR ''.'' # show_dec3 (unat value mod 1000)"

lemma of_char_digit: "(d :: nat) < 10 \<Longrightarrow> of_char (char_of (48 + d) :: char) = (48 + d :: nat)"
  by simp

lemma is_dec_digit: "(d :: nat) < 10 \<Longrightarrow> is_dec (char_of (48 + d))"
  by (simp add: is_dec_def)

lemma dec_value_digit: "(d :: nat) < 10 \<Longrightarrow> dec_value (char_of (48 + d)) = d"
  by (simp add: dec_value_def)

lemma read_dec_append:
  assumes "\<forall>c \<in> set cs. is_dec c"
  shows "read_dec acc (cs @ rest) =
    (case read_dec acc cs of (v, j, _) \<Rightarrow> case read_dec v rest of (v', j', r) \<Rightarrow> (v', j + j', r))"
  using assms by (induction cs arbitrary: acc) (auto split: prod.splits)

lemma show_dec_digits: "\<forall>c \<in> set (show_dec n). is_dec c"
proof (induction n rule: show_dec.induct)
  case (1 n)
  then show ?case by (subst show_dec.simps) (auto simp: is_dec_digit)
qed

lemma read_dec_show: "read_dec 0 (show_dec n) = (of_nat n, length (show_dec n), [])"
proof (induction n rule: show_dec.induct)
  case (1 n)
  show ?case
  proof (cases "n < 10")
    case True
    then show ?thesis by (simp add: show_dec.simps [of n] is_dec_digit dec_value_digit)
  next
    case False
    have "of_nat (n div 10) * 10 + of_nat (n mod 10) = (of_nat n :: u32)"
      by (metis div_mult_mod_eq of_nat_add of_nat_mult of_nat_numeral)
    then show ?thesis
      using False 1 show_dec_digits [of "n div 10"]
      by (simp add: show_dec.simps [of n] read_dec_append is_dec_digit dec_value_digit)
  qed
qed

lemma show_dec_nonblank: "dropWhile is_blank (show_dec n @ cs) = show_dec n @ cs"
proof -
  have "show_dec n \<noteq> []" by (subst show_dec.simps) simp
  moreover have "\<not> is_blank (hd (show_dec n))"
    using show_dec_digits [of n] calculation by (cases "show_dec n") (auto simp: is_dec_def is_blank_def)
  ultimately show ?thesis by (cases "show_dec n") auto
qed

lemma read_dec_show3:
  assumes "r < 1000"
  shows "read_dec 0 (show_dec3 r) = (of_nat r, 3, [])"
proof -
  have r: "r div 100 < 10" "r div 10 mod 10 < 10" "r mod 10 < 10" using assms by auto
  have "((of_nat (r div 100) * 10 + of_nat (r div 10 mod 10)) * 10 + of_nat (r mod 10) :: u32)
      = of_nat ((r div 100 * 10 + r div 10 mod 10) * 10 + r mod 10)"
    by (simp only: of_nat_add of_nat_mult of_nat_numeral)
  also have "(r div 100 * 10 + r div 10 mod 10) * 10 + r mod 10 = r"
  proof -
    have "r div 100 = r div 10 div 10" by (simp add: div_mult2_eq [symmetric])
    then show ?thesis by (simp only: div_mult_mod_eq)
  qed
  finally show ?thesis
    using r by (simp only: show_dec3_def read_dec.simps is_dec_digit dec_value_digit if_True prod.case
        mult_zero_left add_0_left) simp
qed

lemma parse_thousands_parts:
  assumes "r < 1000"
  shows "parse_thousands (show_dec q @ CHR ''.'' # show_dec3 r) = sint (of_nat (q * 1000 + r) :: u32)"
proof -
  have dot: "\<not> is_dec (CHR ''.'')" by (simp add: is_dec_def)
  have "read_dec 0 (show_dec q @ CHR ''.'' # show_dec3 r) =
      (of_nat q, length (show_dec q), CHR ''.'' # show_dec3 r)"
    using show_dec_digits [of q] by (simp add: read_dec_append read_dec_show dot)
  then show ?thesis
    by (simp add: parse_thousands_def show_dec_nonblank scale_fraction_def read_dec_show3 [OF assms])
qed

text \<open>
  What \<open>format_thousands\<close> prints, \<open>parse_thousands\<close> reads back as the same 32 bits, for
  every value; the parser returns them as an \<open>int\<close>.\<close>

theorem parse_format_thousands:
  "parse_thousands (format_thousands value) = sint value"
  using parse_thousands_parts [of "unat value mod 1000" "unat value div 1000"]
  by (simp add: format_thousands_def)

section \<open>Addresses\<close>

definition v4prefix :: "byte list" where
  "v4prefix = [0, 0, 0, 0, 0, 0, 0, 0, 0, 0, 0xFF, 0xFF, 0, 0, 0, 0]"

definition llprefix :: "byte list" where
  "llprefix = [0xFE, 0x80, 0, 0, 0, 0, 0, 0, 0, 0, 0, 0, 0, 0, 0, 0]"

definition zeroes :: "byte list" where
  "zeroes = replicate 16 0"

text \<open>
  \<open>v6_equal\<close> is decided here by \<open>memcmp\<close> (\<open>v6_equal2\<close>); \<open>v6_nequal\<close> is the word form
  that the code calls, two 64-bit words read in little-endian order, and the property below
  says that both agree on 16-byte addresses.
\<close>

definition v6_equal2 :: "byte list \<Rightarrow> byte list \<Rightarrow> bool" where
  "v6_equal2 p1 p2 \<longleftrightarrow> memcmp p1 p2 16 = 0"

fun le_word :: "byte list \<Rightarrow> 64 word" where
  "le_word [] = 0"
| "le_word (b # bs) = ucast b + 256 * le_word bs"

definition v6_nequal :: "byte list \<Rightarrow> byte list \<Rightarrow> 64 word" where
  "v6_nequal p1 p2 =
     (le_word (take 8 p1) XOR le_word (take 8 p2)) OR
     (le_word (take 8 (drop 8 p1)) XOR le_word (take 8 (drop 8 p2)))"

definition v6_equal :: "byte list \<Rightarrow> byte list \<Rightarrow> bool" where
  "v6_equal p1 p2 \<longleftrightarrow> v6_equal2 p1 p2"

definition v4mapped2 :: "byte list \<Rightarrow> bool" where
  "v4mapped2 address \<longleftrightarrow> memcmp address v4prefix 12 = 0"

definition v4mapped_word :: "byte list \<Rightarrow> bool" where
  "v4mapped_word address \<longleftrightarrow>
     (le_word (take 8 address) XOR 0) OR
     (le_word (take 4 (drop 8 address)) XOR le_word [0, 0, 0xFF, 0xFF]) = 0"

definition v4mapped :: "byte list \<Rightarrow> bool" where
  "v4mapped address \<longleftrightarrow> v4mapped2 address"

definition linklocal :: "byte list \<Rightarrow> bool" where
  "linklocal address \<longleftrightarrow> le_word (take 2 address) = le_word [0xFE, 0x80]"

definition v4tov6 :: "byte list \<Rightarrow> byte list" where
  "v4tov6 src = take 12 v4prefix @ take 4 src"

lemma v6_equal_iff [simp]: "v6_equal a b \<longleftrightarrow> take 16 a = take 16 b"
  by (simp add: v6_equal_def v6_equal2_def)

lemma le_word_unat:
  "length bs \<le> 8 \<Longrightarrow> unat (le_word bs) = foldr (\<lambda>b n. unat b + 256 * n) bs 0 \<and>
    foldr (\<lambda>b n. unat b + 256 * n) bs (0 :: nat) < 256 ^ length bs"
proof (induction bs)
  case (Cons b bs)
  let ?n = "foldr (\<lambda>b n. unat b + 256 * n) bs (0 :: nat)"
  have IH: "unat (le_word bs) = ?n" "?n < 256 ^ length bs" using Cons by auto
  have b: "unat b < 256" by (rule unat_byte)
  have lt: "unat b + 256 * ?n < 256 ^ length (b # bs)" using IH(2) b by simp
  also have "\<dots> \<le> 256 ^ 8" using Cons.prems by (intro power_increasing) auto
  finally have "unat b + 256 * ?n < 2 ^ 64" by simp
  moreover have "le_word (b # bs) = of_nat (unat b + 256 * ?n)"
    unfolding IH(1) [symmetric] by simp
  ultimately have "unat (le_word (b # bs)) = unat b + 256 * ?n"
    by (simp only: unsigned_of_nat) (simp add: take_bit_nat_eq_self)
  then show ?case using lt by simp
qed simp

lemma digits_inj:
  "length a = length b \<Longrightarrow>
   foldr (\<lambda>x n. unat (x :: byte) + 256 * n) a (0 :: nat) = foldr (\<lambda>x n. unat x + 256 * n) b 0 \<Longrightarrow> a = b"
proof (induction a b rule: list_induct2)
  case (Cons x xs y ys)
  let ?n = "foldr (\<lambda>x n. unat (x :: byte) + 256 * n) xs (0 :: nat)"
  let ?m = "foldr (\<lambda>x n. unat (x :: byte) + 256 * n) ys (0 :: nat)"
  have eq: "unat x + 256 * ?n = unat y + 256 * ?m" using Cons.prems by simp
  then have "(unat x + 256 * ?n) mod 256 = (unat y + 256 * ?m) mod 256" by simp
  then have "unat x = unat y" using unat_byte [of x] unat_byte [of y] by simp
  then show ?case using eq Cons.IH by (auto intro: unsigned_word_eqI [where 'a = nat])
qed simp

lemma le_word_inj: "length a = length b \<Longrightarrow> length a \<le> 8 \<Longrightarrow> le_word a = le_word b \<longleftrightarrow> a = b"
  using le_word_unat [of a] le_word_unat [of b] digits_inj [of a b] by auto

lemma xor_eq_0_iff: "(a :: 64 word) XOR b = 0 \<longleftrightarrow> a = b"
  by (auto simp: bit_eq_iff bit_simps)

lemma or_eq_0_iff64: "(a :: 64 word) OR b = 0 \<longleftrightarrow> a = 0 \<and> b = 0"
  by (auto simp: bit_eq_iff bit_simps)

lemma take_16_split: "take 16 xs = take 8 xs @ take 8 (drop 8 xs)"
  using take_add [of 8 8 xs] by simp

text \<open>
  C40: The word comparison of addresses that the code calls (\<open>v6_nequal\<close>, two 64-bit
  exclusive ors) and the word test for IPv4-mapped addresses agree with the byte comparisons
  (\<open>v6_equal2\<close>, \<open>v4mapped2\<close>) on every pair of 16-byte addresses.\<close>

theorem v6_nequal_agrees:
  assumes "length p1 = 16" and "length p2 = 16"
  shows "(v6_nequal p1 p2 = 0 \<longleftrightarrow> v6_equal2 p1 p2) \<and> (v4mapped_word p1 \<longleftrightarrow> v4mapped2 p1)"
proof
  have "v6_nequal p1 p2 = 0 \<longleftrightarrow> take 8 p1 = take 8 p2 \<and> take 8 (drop 8 p1) = take 8 (drop 8 p2)"
    using assms by (simp add: v6_nequal_def xor_eq_0_iff or_eq_0_iff64 le_word_inj)
  also have "\<dots> \<longleftrightarrow> take 16 p1 = take 16 p2"
    unfolding take_16_split using assms by (metis append_eq_append_conv length_take)
  finally show "v6_nequal p1 p2 = 0 \<longleftrightarrow> v6_equal2 p1 p2" by (simp add: v6_equal2_def)
next
  have z: "le_word (replicate 8 0) = 0" by (simp add: numeral_eq_Suc)
  have v: "take 12 v4prefix = replicate 8 0 @ [0, 0, 0xFF, 0xFF]"
    by (simp add: v4prefix_def numeral_eq_Suc)
  have "v4mapped_word p1 \<longleftrightarrow> le_word (take 8 p1) = le_word (replicate 8 0) \<and>
      le_word (take 4 (drop 8 p1)) = le_word [0, 0, 0xFF, 0xFF]"
    unfolding v4mapped_word_def or_eq_0_iff64 xor_eq_0_iff z ..
  also have "\<dots> \<longleftrightarrow> take 8 p1 = replicate 8 0 \<and> take 4 (drop 8 p1) = [0, 0, 0xFF, 0xFF]"
    using assms by (subst (1 2) le_word_inj) auto
  also have "\<dots> \<longleftrightarrow> take 8 p1 @ take 4 (drop 8 p1) = take 12 v4prefix"
    unfolding v by (subst append_eq_append_conv) (simp_all add: assms)
  also have "take 8 p1 @ take 4 (drop 8 p1) = take 12 p1"
    using take_add [of 8 4 p1] by simp
  finally show "v4mapped_word p1 \<longleftrightarrow> v4mapped2 p1" by (simp add: v4mapped2_def)
qed

theorem v6_nequal_agrees_witness:
  "v6_nequal v4prefix llprefix \<noteq> 0 \<and> v4mapped_word v4prefix"
  using v6_nequal_agrees [of v4prefix llprefix]
  by (simp add: v4prefix_def llprefix_def v6_equal2_def v4mapped2_def)

end
