(* ===== verification/Source.thy ===== *)
theory Source
  imports Util
begin

text \<open>
  \<open>source.c\<close>: the table of feasibility distances, one \<open>struct source\<close> per (router-rid,
  prefix, source prefix).  The table is the array \<open>sources\<close> of pointers, kept sorted by
  \<open>source_compare\<close> and grown by \<open>resize_source_table\<close>; a record models the file's static
  variables, the structs live in a heap, and a failed \<open>assert\<close> is \<open>None\<close>.

  The lemmas show that the table stays sorted and duplicate-free under every operation,
  that lookup is complete and agrees with insertion, that no assertion of the file can
  fail from a well-formed table, that the garbage collection keeps exactly the entries in
  use, and that the recorded distance of a source only improves (in the order the
  feasibility condition uses) until it expires.
\<close>

section \<open>Data\<close>

definition SOURCE_GC_TIME :: int where
  "SOURCE_GC_TIME = 200"

record source =
  s_prefix :: "byte list"
  s_src_prefix :: "byte list"
  s_id :: "byte list"
  s_plen :: nat
  s_src_plen :: nat
  s_seqno :: u16
  s_metric :: int
  s_route_count :: nat
  s_time :: int

text \<open>
  The static variables \<open>sources\<close>, \<open>source_slots\<close> (the length of the list) and
  \<open>max_source_slots\<close>, the heap of sources, and the next address \<open>calloc\<close> returns.
\<close>

record source_table =
  st_heap :: "ptr \<Rightarrow> source"
  st_slots :: "ptr list"
  st_max :: nat
  st_fresh :: ptr

text \<open>The static initialisers, with the first address the allocator returns.\<close>

definition sources_init :: source_table where
  "sources_init =
     \<lparr>st_heap = (\<lambda>_. \<lparr>s_prefix = [], s_src_prefix = [], s_id = [], s_plen = 0, s_src_plen = 0,
        s_seqno = 0, s_metric = 0, s_route_count = 0, s_time = 0\<rparr>),
      st_slots = [], st_max = 0, st_fresh = 1\<rparr>"

section \<open>Operations\<close>

definition source_compare ::
  "byte list \<Rightarrow> byte list \<Rightarrow> nat \<Rightarrow> byte list \<Rightarrow> nat \<Rightarrow> source \<Rightarrow> int" where
  "source_compare rid prefix plen src_prefix src_plen src =
     (let rc = memcmp rid (s_id src) 8 in
      if rc \<noteq> 0 then rc
      else if plen < s_plen src then -1
      else if plen > s_plen src then 1
      else let rc = memcmp prefix (s_prefix src) 16 in
      if rc \<noteq> 0 then rc
      else let rc = memcmp src_prefix (s_src_prefix src) 16 in
      if rc \<noteq> 0 then rc
      else 0)"

definition find_source_slot ::
  "byte list \<Rightarrow> byte list \<Rightarrow> nat \<Rightarrow> byte list \<Rightarrow> nat \<Rightarrow> source_table \<Rightarrow> slot" where
  "find_source_slot rid prefix plen src_prefix src_plen st =
     slot_search
       (\<lambda>m. source_compare rid prefix plen src_prefix src_plen (st_heap st (st_slots st ! m)))
       (length (st_slots st))"

text \<open>The first component is the return code; \<open>realloc_ok\<close> says whether \<open>realloc\<close> succeeds.\<close>

definition resize_source_table :: "bool \<Rightarrow> nat \<Rightarrow> source_table \<Rightarrow> (int \<times> source_table) option" where
  "resize_source_table realloc_ok new_slots st =
     (if \<not> new_slots \<ge> length (st_slots st) then None
      else if new_slots \<noteq> 0 \<and> \<not> realloc_ok then Some (-1, st)
      else Some (1, st\<lparr>st_max := new_slots\<rparr>))"

text \<open>
  The struct \<open>find_source\<close> fills in after \<open>calloc\<close> (which leaves \<open>route_count\<close> zero).
\<close>

definition new_source ::
  "byte list \<Rightarrow> byte list \<Rightarrow> nat \<Rightarrow> byte list \<Rightarrow> nat \<Rightarrow> u16 \<Rightarrow> int \<Rightarrow> source" where
  "new_source rid prefix plen src_prefix src_plen seqno now =
     \<lparr>s_prefix = take 16 prefix, s_src_prefix = take 16 src_prefix, s_id = take 8 rid,
      s_plen = plen, s_src_plen = src_plen, s_seqno = seqno, s_metric = INFINITY_METRIC,
      s_route_count = 0, s_time = now\<rparr>"

definition find_source ::
  "bool \<Rightarrow> bool \<Rightarrow> int \<Rightarrow> byte list \<Rightarrow> byte list \<Rightarrow> nat \<Rightarrow> byte list \<Rightarrow> nat \<Rightarrow> bool \<Rightarrow> u16 \<Rightarrow>
   source_table \<Rightarrow> (ptr option \<times> source_table) option" where
  "find_source calloc_ok realloc_ok now rid prefix plen src_prefix src_plen create seqno st =
     (case find_source_slot rid prefix plen src_prefix src_plen st of
        Found i \<Rightarrow> Some (Some (st_slots st ! i), st)
      | Missing n \<Rightarrow>
          if \<not> create then Some (None, st)
          else if \<not> calloc_ok then Some (None, st)
          else
            let src = st_fresh st;
                st = st\<lparr>st_fresh := src + 1,
                        st_heap := (st_heap st)(src := new_source rid prefix plen src_prefix src_plen seqno now)\<rparr>
            in case (if length (st_slots st) \<ge> st_max st
                     then map_option snd (resize_source_table realloc_ok
                            (if st_max st < 1 then 8 else 2 * st_max st) st)
                     else Some st) of
                 None \<Rightarrow> None
               | Some st \<Rightarrow>
                   if length (st_slots st) \<ge> st_max st then Some (None, st)
                   else Some (Some src,
                              st\<lparr>st_slots := take n (st_slots st) @ src # drop n (st_slots st)\<rparr>))"

definition retain_source :: "ptr \<Rightarrow> source_table \<Rightarrow> source_table option" where
  "retain_source p st =
     (let src = st_heap st p in
      if \<not> s_route_count src < 65535 then None
      else Some (st\<lparr>st_heap := (st_heap st)(p := src\<lparr>s_route_count := s_route_count src + 1\<rparr>)\<rparr>))"

definition release_source :: "ptr \<Rightarrow> source_table \<Rightarrow> source_table option" where
  "release_source p st =
     (let src = st_heap st p in
      if \<not> s_route_count src > 0 then None
      else Some (st\<lparr>st_heap := (st_heap st)(p := src\<lparr>s_route_count := s_route_count src - 1\<rparr>)\<rparr>))"

definition update_source1 :: "int \<Rightarrow> u16 \<Rightarrow> int \<Rightarrow> source \<Rightarrow> source" where
  "update_source1 now seqno metric src =
     (if metric \<ge> INFINITY_METRIC then src
      else
        (if s_time src < now - SOURCE_GC_TIME \<or> seqno_compare (s_seqno src) seqno < 0 \<or>
            (s_seqno src = seqno \<and> s_metric src > metric)
         then src\<lparr>s_seqno := seqno, s_metric := metric\<rparr>
         else src)\<lparr>s_time := now\<rparr>)"

definition update_source :: "int \<Rightarrow> ptr \<Rightarrow> u16 \<Rightarrow> int \<Rightarrow> source_table \<Rightarrow> source_table" where
  "update_source now p seqno metric st =
     st\<lparr>st_heap := (st_heap st)(p := update_source1 now seqno metric (st_heap st p))\<rparr>"

text \<open>
  The compacting loop of \<open>expire_sources\<close>.  \<open>arr\<close> is the array, \<open>None\<close> a NULL slot; \<open>j\<close>
  entries have been kept.  A freed struct stays in the model's heap, unreachable.
\<close>

function expire_sources_loop ::
  "int \<Rightarrow> nat \<Rightarrow> nat \<Rightarrow> nat \<Rightarrow> ptr option list \<Rightarrow> (ptr \<Rightarrow> source) \<Rightarrow>
   nat \<times> ptr option list \<times> (ptr \<Rightarrow> source)" where
  "expire_sources_loop now slots i j arr h =
     (if i < slots then
        let p = the (arr ! i);
            h = (if s_time (h p) > now then h(p := (h p)\<lparr>s_time := now\<rparr>) else h)
        in if s_route_count (h p) = 0 \<and> s_time (h p) < now - SOURCE_GC_TIME
           then expire_sources_loop now slots (i + 1) j (arr[i := None]) h
           else expire_sources_loop now slots (i + 1) (j + 1)
                  (if j < i then arr[j := arr ! i, i := None] else arr) h
      else (j, arr, h))"
  by pat_completeness auto
termination
  by (relation "measure (\<lambda>(now, slots, i, j, arr, h). slots - i)") auto

declare expire_sources_loop.simps [simp del]

definition expire_sources :: "int \<Rightarrow> source_table \<Rightarrow> source_table" where
  "expire_sources now st =
     (case expire_sources_loop now (length (st_slots st)) 0 0 (map Some (st_slots st)) (st_heap st) of
        (j, arr, h) \<Rightarrow> st\<lparr>st_heap := h, st_slots := map the (take j arr)\<rparr>)"

text \<open>The sources the shutdown check warns about.\<close>

definition check_sources_released :: "source_table \<Rightarrow> (byte list \<times> byte list \<times> nat \<times> nat) list" where
  "check_sources_released st =
     map (\<lambda>p. let src = st_heap st p in (s_id src, s_prefix src, s_plen src, s_route_count src))
       (filter (\<lambda>p. s_route_count (st_heap st p) \<noteq> 0) (st_slots st))"

section \<open>The order the table is kept in\<close>

type_synonym source_key = "byte list \<times> nat \<times> byte list \<times> byte list"

definition source_key :: "source \<Rightarrow> source_key" where
  "source_key s = (take 8 (s_id s), s_plen s, take 16 (s_prefix s), take 16 (s_src_prefix s))"

definition wanted_key :: "byte list \<Rightarrow> byte list \<Rightarrow> nat \<Rightarrow> byte list \<Rightarrow> source_key" where
  "wanted_key rid prefix plen src_prefix = (take 8 rid, plen, take 16 prefix, take 16 src_prefix)"

lemma source_compare_less:
  "source_compare rid prefix plen src_prefix src_plen s < 0 \<longleftrightarrow>
   wanted_key rid prefix plen src_prefix < source_key s"
  unfolding source_compare_def source_key_def wanted_key_def Let_def
  by (auto simp: less_prod_def)

lemma source_compare_eq:
  "source_compare rid prefix plen src_prefix src_plen s = 0 \<longleftrightarrow>
   wanted_key rid prefix plen src_prefix = source_key s"
  unfolding source_compare_def source_key_def wanted_key_def Let_def
  by auto

interpretation source_search:
  searchable
    "\<lambda>(rid, prefix, plen, src_prefix, src_plen) p. source_compare rid prefix plen src_prefix src_plen (h p)"
    "\<lambda>(rid, prefix, plen, src_prefix, src_plen). wanted_key rid prefix plen src_prefix"
    "\<lambda>p. source_key (h p)"
  for h :: "ptr \<Rightarrow> source"
  by unfold_locales (auto simp: source_compare_less source_compare_eq)

section \<open>Well-formed tables\<close>

definition source_ok :: "source \<Rightarrow> bool" where
  "source_ok s \<longleftrightarrow> length (s_prefix s) = 16 \<and> length (s_src_prefix s) = 16 \<and> length (s_id s) = 8 \<and>
     s_route_count s \<le> 65535"

definition source_table_ok :: "source_table \<Rightarrow> bool" where
  "source_table_ok st \<longleftrightarrow>
     sorted_by (\<lambda>p. source_key (st_heap st p)) (st_slots st) \<and>
     (\<forall>p \<in> set (st_slots st). p < st_fresh st \<and> source_ok (st_heap st p)) \<and>
     length (st_slots st) \<le> st_max st"

definition source_metrics_ok :: "source_table \<Rightarrow> bool" where
  "source_metrics_ok st \<longleftrightarrow>
     (\<forall>p \<in> set (st_slots st). 0 \<le> s_metric (st_heap st p) \<and> s_metric (st_heap st p) \<le> INFINITY_METRIC)"

lemma source_table_ok_distinct: "source_table_ok st \<Longrightarrow> distinct (st_slots st)"
  unfolding source_table_ok_def by (metis distinct_map sorted_by_distinct)

lemma find_source_slot_found:
  assumes "find_source_slot rid prefix plen src_prefix src_plen st = Found i"
  shows "i < length (st_slots st) \<and>
    source_key (st_heap st (st_slots st ! i)) = wanted_key rid prefix plen src_prefix"
  using source_search.search_found
    [where r = "(rid, prefix, plen, src_prefix, src_plen)" and h = "st_heap st" and es = "st_slots st"]
    assms by (simp add: find_source_slot_def)

lemma find_source_slot_missing:
  assumes "source_table_ok st"
    and "find_source_slot rid prefix plen src_prefix src_plen st = Missing i"
  shows "i \<le> length (st_slots st) \<and>
    (\<forall>p \<in> set (st_slots st). source_key (st_heap st p) \<noteq> wanted_key rid prefix plen src_prefix)"
  using source_search.search_missing
    [where r = "(rid, prefix, plen, src_prefix, src_plen)" and h = "st_heap st" and es = "st_slots st"]
    source_search.search_missing_notin
    [where r = "(rid, prefix, plen, src_prefix, src_plen)" and h = "st_heap st" and es = "st_slots st"]
    assms by (auto simp: find_source_slot_def source_table_ok_def)

lemma find_source_slot_complete:
  assumes "source_table_ok st" and "p \<in> set (st_slots st)"
    and "source_key (st_heap st p) = wanted_key rid prefix plen src_prefix"
  shows "\<exists>i < length (st_slots st).
    find_source_slot rid prefix plen src_prefix src_plen st = Found i \<and> st_slots st ! i = p"
  using source_search.search_complete
    [where r = "(rid, prefix, plen, src_prefix, src_plen)" and h = "st_heap st" and es = "st_slots st"
       and e = p] assms
  by (auto simp: find_source_slot_def source_table_ok_def)

lemma source_key_new_source [simp]:
  "source_key (new_source rid prefix plen src_prefix src_plen seqno now) =
   wanted_key rid prefix plen src_prefix"
  by (simp add: source_key_def wanted_key_def new_source_def)

text \<open>What the insertion does, once the search has missed and the allocations succeeded.\<close>

definition insert_source :: "nat \<Rightarrow> source \<Rightarrow> source_table \<Rightarrow> source_table" where
  "insert_source n s st =
     st\<lparr>st_fresh := st_fresh st + 1, st_heap := (st_heap st)(st_fresh st := s),
        st_slots := take n (st_slots st) @ st_fresh st # drop n (st_slots st),
        st_max := (if length (st_slots st) \<ge> st_max st
                   then (if st_max st < 1 then 8 else 2 * st_max st) else st_max st)\<rparr>"

lemma insert_source_ok:
  assumes ok: "source_table_ok st"
    and n: "find_source_slot rid prefix plen src_prefix src_plen st = Missing n"
    and s: "source_ok s" "source_key s = wanted_key rid prefix plen src_prefix"
  shows "source_table_ok (insert_source n s st)"
proof -
  let ?h = "(st_heap st)(st_fresh st := s)"
  have fresh: "\<forall>p \<in> set (st_slots st). p < st_fresh st" and le: "length (st_slots st) \<le> st_max st"
    using ok by (auto simp: source_table_ok_def)
  have sorted: "sorted_by (\<lambda>p. source_key (?h p)) (st_slots st)"
    using ok fresh unfolding source_table_ok_def
    by (subst sorted_by_cong [where key' = "\<lambda>p. source_key (st_heap st p)"]) auto
  have slots: "slot_search (\<lambda>i. source_compare rid prefix plen src_prefix src_plen (st_heap st (st_slots st ! i)))
      (length (st_slots st)) = Missing n"
    using n by (simp add: find_source_slot_def)
  have nn: "n \<le> length (st_slots st)" and
    before: "\<forall>j < n. source_key (st_heap st (st_slots st ! j)) < wanted_key rid prefix plen src_prefix" and
    after: "\<forall>j < length (st_slots st). n \<le> j \<longrightarrow>
      wanted_key rid prefix plen src_prefix < source_key (st_heap st (st_slots st ! j))"
    using source_search.search_missing
      [where r = "(rid, prefix, plen, src_prefix, src_plen)" and h = "st_heap st" and es = "st_slots st"
        and i = n] slots ok
    by (simp_all add: source_table_ok_def)
  have neq: "\<And>j. j < length (st_slots st) \<Longrightarrow> st_slots st ! j \<noteq> st_fresh st"
    by (metis fresh nth_mem less_irrefl)
  have "sorted_by (\<lambda>p. source_key (?h p)) (take n (st_slots st) @ st_fresh st # drop n (st_slots st))"
  proof (rule sorted_by_insert [OF sorted _ _ nn])
    show "\<forall>j < n. source_key (?h (st_slots st ! j)) < source_key (?h (st_fresh st))"
      using before nn neq by (simp add: s(2))
    show "\<forall>j < length (st_slots st). n \<le> j \<longrightarrow>
        source_key (?h (st_fresh st)) < source_key (?h (st_slots st ! j))"
      using after neq by (simp add: s(2))
  qed
  moreover have "\<forall>p \<in> set (take n (st_slots st) @ st_fresh st # drop n (st_slots st)).
      p < st_fresh st + 1 \<and> source_ok (?h p)"
    using ok s fresh unfolding source_table_ok_def
    using set_take_subset [of n "st_slots st"] set_drop_subset [of n "st_slots st"]
    by (intro ballI) (auto simp: less_Suc_eq subset_eq)
  ultimately show ?thesis
    using le nn by (auto simp: source_table_ok_def insert_source_def Suc_le_eq)
qed

lemma new_source_ok:
  "length rid \<ge> 8 \<Longrightarrow> length prefix \<ge> 16 \<Longrightarrow> length src_prefix \<ge> 16 \<Longrightarrow>
   source_ok (new_source rid prefix plen src_prefix src_plen seqno now)"
  by (simp add: source_ok_def new_source_def)

lemma find_source_hit:
  "find_source_slot rid prefix plen src_prefix src_plen st = Found i \<Longrightarrow>
   find_source ca ra now rid prefix plen src_prefix src_plen create seqno st =
     Some (Some (st_slots st ! i), st)"
  by (simp add: find_source_def)

lemma find_source_miss:
  assumes "source_table_ok st"
    and "find_source_slot rid prefix plen src_prefix src_plen st = Missing n"
    and "create" and "ca" and "ra"
  shows "find_source ca ra now rid prefix plen src_prefix src_plen create seqno st =
     Some (Some (st_fresh st),
       insert_source n (new_source rid prefix plen src_prefix src_plen seqno now) st)"
  using assms
  by (auto simp: find_source_def resize_source_table_def insert_source_def Let_def source_table_ok_def)

lemma insert_source_metrics:
  assumes "source_table_ok st" "source_metrics_ok st" "0 \<le> s_metric s" "s_metric s \<le> INFINITY_METRIC"
  shows "source_metrics_ok (insert_source n s st)"
  using assms set_take_subset [of n "st_slots st"] set_drop_subset [of n "st_slots st"]
  by (auto simp: source_metrics_ok_def insert_source_def)

text \<open>
  What \<open>find_source\<close> does to a well-formed table: nothing, an insertion, or the loss of a new
  entry that the array has no room for.
\<close>

lemma find_source_cases:
  assumes "source_table_ok st"
  obtains i where "find_source_slot rid prefix plen src_prefix src_plen st = Found i"
      "find_source ca ra now rid prefix plen src_prefix src_plen create seqno st = Some (Some (st_slots st ! i), st)"
  | n where "find_source_slot rid prefix plen src_prefix src_plen st = Missing n" "create" "ca"
      "find_source ca ra now rid prefix plen src_prefix src_plen create seqno st = Some (Some (st_fresh st),
         insert_source n (new_source rid prefix plen src_prefix src_plen seqno now) st)"
  | "find_source ca ra now rid prefix plen src_prefix src_plen create seqno st = Some (None, st)" "\<not> create \<or> \<not> ca"
  | "find_source ca ra now rid prefix plen src_prefix src_plen create seqno st = Some (None,
       st\<lparr>st_fresh := st_fresh st + 1,
          st_heap := (st_heap st)(st_fresh st := new_source rid prefix plen src_prefix src_plen seqno now)\<rparr>)"
     "\<not> ra"
proof (cases "find_source_slot rid prefix plen src_prefix src_plen st")
  case (Found i)
  then show ?thesis by (intro that(1)) (simp_all add: find_source_hit)
next
  case (Missing n)
  have le: "length (st_slots st) \<le> st_max st" using assms by (simp add: source_table_ok_def)
  consider "\<not> create \<or> \<not> ca" | "create \<and> ca" "length (st_slots st) \<ge> st_max st" "\<not> ra"
    | "create \<and> ca" "length (st_slots st) \<ge> st_max st" "ra"
    | "create \<and> ca" "\<not> length (st_slots st) \<ge> st_max st" by blast
  then show ?thesis
  proof cases
    case 1
    then show ?thesis using Missing by (intro that(3)) (auto simp: find_source_def)
  next
    case 2
    then show ?thesis using Missing le
      by (intro that(4)) (auto simp: find_source_def resize_source_table_def Let_def)
  next
    case 3
    then show ?thesis using Missing find_source_miss [OF assms Missing] by (intro that(2) [of n]) simp_all
  next
    case 4
    then show ?thesis using Missing
      by (intro that(2) [of n]) (simp_all add: find_source_def insert_source_def Let_def)
  qed
qed

lemma source_table_ok_lost:
  assumes "source_table_ok st"
  shows "source_table_ok (st\<lparr>st_fresh := st_fresh st + 1, st_heap := (st_heap st)(st_fresh st := s)\<rparr>)"
  using assms unfolding source_table_ok_def
  by (subst sorted_by_cong [where key' = "\<lambda>p. source_key (st_heap st p)"]) auto

lemma source_metrics_ok_lost:
  assumes "source_table_ok st" "source_metrics_ok st"
  shows "source_metrics_ok (st\<lparr>st_fresh := st_fresh st + 1, st_heap := (st_heap st)(st_fresh st := s)\<rparr>)"
  using assms by (auto simp: source_metrics_ok_def source_table_ok_def)

lemma new_source_metric: "0 \<le> s_metric (new_source rid prefix plen src_prefix src_plen seqno now)"
  "s_metric (new_source rid prefix plen src_prefix src_plen seqno now) \<le> INFINITY_METRIC"
  by (simp_all add: new_source_def INFINITY_METRIC_def)

section \<open>Properties\<close>

text \<open>
  C30: (type) Creating a source never trips the assertion of \<open>resize_source_table\<close>, keeps the
  table sorted, duplicate-free and within its capacity whatever the allocator answers, and
  fails only when nothing was to be created or an allocation failed.
\<close>

theorem find_source_total:
  assumes "source_table_ok st"
    and "length rid \<ge> 8" and "length prefix \<ge> 16" and "length src_prefix \<ge> 16"
  shows "\<exists>r st'. find_source ca ra now rid prefix plen src_prefix src_plen create seqno st = Some (r, st') \<and>
    source_table_ok st' \<and> (source_metrics_ok st \<longrightarrow> source_metrics_ok st') \<and> (create \<and> ca \<and> ra \<longrightarrow> r \<noteq> None)"
  using assms(1)
proof (cases rule: find_source_cases [where rid = rid and prefix = prefix and plen = plen
      and src_prefix = src_prefix and src_plen = src_plen and ca = ca and ra = ra and now = now
      and create = create and seqno = seqno])
  case (2 n)
  then show ?thesis
    using insert_source_ok [OF assms(1) 2(1) new_source_ok [OF assms(2-4)] source_key_new_source]
      insert_source_metrics [OF assms(1) _ new_source_metric] by simp
next
  case 4
  then show ?thesis using source_table_ok_lost [OF assms(1)] source_metrics_ok_lost [OF assms(1)] by simp
qed (use assms(1) in auto)

lemma sources_init_ok: "source_table_ok sources_init"
  by (simp add: source_table_ok_def sources_init_def sorted_by_def)

theorem find_source_total_witness:
  "\<exists>r st'. find_source True False 100 (replicate 8 1) zeroes 64 zeroes 0 True 7 sources_init = Some (r, st') \<and>
     source_table_ok st'"
  using find_source_total [OF sources_init_ok, of "replicate 8 1" zeroes zeroes True False 100 64 0 True 7]
  by (auto simp: zeroes_def)

text \<open>
  C29: (functional) What \<open>find_source\<close> creates or finds is an entry with the wanted key, every
  entry that was there is still there unchanged, and any later lookup of the same key,
  creating or not, returns that same entry and changes nothing.
\<close>

theorem find_source_lookup:
  assumes "source_table_ok st"
    and "length rid \<ge> 8" and "length prefix \<ge> 16" and "length src_prefix \<ge> 16"
    and "find_source True True now rid prefix plen src_prefix src_plen True seqno st = Some (Some p, st')"
  shows "p \<in> set (st_slots st') \<and> source_key (st_heap st' p) = wanted_key rid prefix plen src_prefix \<and>
    (\<forall>q \<in> set (st_slots st). q \<in> set (st_slots st') \<and> st_heap st' q = st_heap st q) \<and>
    find_source ca ra now' rid prefix plen src_prefix src_plen' create seqno' st' = Some (Some p, st')"
proof (cases "find_source_slot rid prefix plen src_prefix src_plen st")
  case (Found i)
  then have eq: "p = st_slots st ! i" "st' = st" using assms(5) by (auto simp: find_source_hit)
  note f = find_source_slot_found [OF Found]
  then have mem: "p \<in> set (st_slots st')" "source_key (st_heap st' p) = wanted_key rid prefix plen src_prefix"
    by (auto simp: eq)
  obtain k where "find_source_slot rid prefix plen src_prefix src_plen' st' = Found k" "st_slots st' ! k = p"
    using find_source_slot_complete [of st' p] mem assms(1) eq by blast
  then show ?thesis using mem eq by (simp add: find_source_hit)
next
  case (Missing n)
  let ?s = "new_source rid prefix plen src_prefix src_plen seqno now"
  have eq: "p = st_fresh st" "st' = insert_source n ?s st"
    using assms(5) find_source_miss [OF assms(1) Missing, of True True True] by auto
  have ok': "source_table_ok st'"
    using insert_source_ok [OF assms(1) Missing new_source_ok [OF assms(2-4)] source_key_new_source]
    by (simp add: eq)
  have mem: "p \<in> set (st_slots st')" "source_key (st_heap st' p) = wanted_key rid prefix plen src_prefix"
    by (auto simp: eq insert_source_def)
  have old: "\<forall>q \<in> set (st_slots st). q \<in> set (st_slots st') \<and> st_heap st' q = st_heap st q"
  proof
    fix q assume q: "q \<in> set (st_slots st)"
    then have "q \<noteq> st_fresh st" using assms(1) by (auto simp: source_table_ok_def)
    moreover have "q \<in> set (take n (st_slots st)) \<union> set (drop n (st_slots st))"
      using q by (metis append_take_drop_id set_append)
    ultimately show "q \<in> set (st_slots st') \<and> st_heap st' q = st_heap st q"
      by (auto simp: eq insert_source_def)
  qed
  obtain k where "find_source_slot rid prefix plen src_prefix src_plen' st' = Found k" "st_slots st' ! k = p"
    using find_source_slot_complete [OF ok' mem] by blast
  then show ?thesis using mem old by (simp add: find_source_hit)
qed

theorem find_source_lookup_witness:
  "\<exists>st'. find_source True True 100 (replicate 8 1) zeroes 64 zeroes 0 True 7 sources_init = Some (Some 1, st') \<and>
     find_source False False 300 (replicate 8 1) zeroes 64 zeroes 0 False 9 st' = Some (Some 1, st')"
proof -
  obtain st' where st': "find_source True True 100 (replicate 8 1) zeroes 64 zeroes 0 True 7 sources_init = Some (Some 1, st')"
    by (simp add: find_source_def find_source_slot_def resize_source_table_def sources_init_def Let_def)
  show ?thesis
    using find_source_lookup [OF sources_init_ok _ _ _ st', of False False 300 0 False 9] st'
    by (simp add: zeroes_def)
qed

text \<open>
  (safety) The comparison never looks at the source prefix length, so two keys that differ
  only in it are conflated: after a source is created for one, looking up the other returns
  the same feasibility distance.
\<close>

theorem find_source_ignores_src_plen:
  "find_source_slot rid prefix plen src_prefix src_plen st =
   find_source_slot rid prefix plen src_prefix src_plen' st"
  by (simp add: find_source_slot_def source_compare_def)

section \<open>Feasibility distances\<close>

text \<open>The order on (sequence number, metric) that the feasibility condition uses.\<close>

definition better_distance :: "u16 \<Rightarrow> int \<Rightarrow> u16 \<Rightarrow> int \<Rightarrow> bool" where
  "better_distance seqno metric seqno' metric' \<longleftrightarrow>
     seqno_compare seqno' seqno < 0 \<or> (seqno' = seqno \<and> metric < metric')"

text \<open>
  C11: (invariant) \<open>update_source\<close> never worsens a live feasibility distance: unless the source
  had expired, the recorded pair is kept or replaced by a strictly better one; and after
  a finite update the recorded distance is fresh and no worse than the one just announced.
\<close>

theorem update_source_monotone:
  fixes src :: source and now :: int and seqno :: u16 and metric :: int
  defines "src' \<equiv> update_source1 now seqno metric src"
  assumes "metric < INFINITY_METRIC" and "0 \<le> metric"
  shows "(now - SOURCE_GC_TIME \<le> s_time src \<longrightarrow>
      (s_seqno src' = s_seqno src \<and> s_metric src' = s_metric src) \<or>
      better_distance (s_seqno src') (s_metric src') (s_seqno src) (s_metric src)) \<and>
    \<not> better_distance seqno metric (s_seqno src') (s_metric src') \<and> s_time src' = now \<and>
    s_route_count src' = s_route_count src \<and> source_key src' = source_key src"
  using assms
  by (auto simp: src'_def update_source1_def better_distance_def source_key_def seqno_compare_def)

theorem update_source_monotone_witness:
  "\<not> better_distance 7 100 (s_seqno (update_source1 1000 7 100 (st_heap sources_init 1)))
      (s_metric (update_source1 1000 7 100 (st_heap sources_init 1)))"
  using update_source_monotone [where metric = 100 and now = 1000 and seqno = 7 and src = "st_heap sources_init 1"] by (simp add: INFINITY_METRIC_def)

section \<open>Garbage collection\<close>

definition source_kept :: "int \<Rightarrow> source \<Rightarrow> bool" where
  "source_kept now s \<longleftrightarrow> s_route_count s \<noteq> 0 \<or> now - SOURCE_GC_TIME \<le> s_time s"

definition clamp_time :: "int \<Rightarrow> source \<Rightarrow> source" where
  "clamp_time now s = (if s_time s > now then s\<lparr>s_time := now\<rparr> else s)"

lemma source_kept_clamp: "source_kept now (clamp_time now s) = source_kept now s"
  by (auto simp: source_kept_def clamp_time_def SOURCE_GC_TIME_def)

lemma clamp_time_idem [simp]: "clamp_time now (clamp_time now s) = clamp_time now s"
  by (simp add: clamp_time_def)

definition clamp_heap :: "int \<Rightarrow> ptr set \<Rightarrow> (ptr \<Rightarrow> source) \<Rightarrow> ptr \<Rightarrow> source" where
  "clamp_heap now A h = (\<lambda>p. if p \<in> A then clamp_time now (h p) else h p)"

lemma take_compacted:
  assumes "j \<le> i" and "i < length arr"
  shows "take (Suc j) (if j < i then arr[j := arr ! i, i := x] else arr) = take j arr @ [arr ! i]"
  using assms by (auto simp: take_Suc_conv_app_nth)

lemma expire_sources_loop_spec:
  assumes "i \<le> length ps" "length arr = length ps" "j \<le> i" "drop i arr = map Some (drop i ps)"
    and "expire_sources_loop now (length ps) i j arr h = (j', arr', h')"
  shows "take j' arr' = take j arr @ map Some (filter (\<lambda>p. source_kept now (h p)) (drop i ps)) \<and>
    h' = clamp_heap now (set (drop i ps)) h"
  using assms
proof (induction now "length ps" i j arr h rule: expire_sources_loop.induct)
  case (1 now i j arr h)
  show ?case
  proof (cases "i < length ps")
    case False
    then show ?thesis
      using 1 expire_sources_loop.simps [of now "length ps" i j arr h] by (simp add: clamp_heap_def)
  next
    case True
    define p where "p = the (arr ! i)"
    have arr_i: "arr ! i = Some (ps ! i)"
      using "1.prems"(2,4) True by (metis Cons_nth_drop_Suc list.inject list.simps(9))
    then have p: "p = ps ! i" by (simp add: p_def)
    define h1 where "h1 = (if s_time (h p) > now then h(p := (h p)\<lparr>s_time := now\<rparr>) else h)"
    have h1: "h1 = clamp_heap now {p} h" by (auto simp: h1_def clamp_heap_def clamp_time_def)
    have dropi: "drop i ps = p # drop (Suc i) ps" using True p by (simp add: Cons_nth_drop_Suc)
    have tail: "drop (Suc i) arr = map Some (drop (Suc i) ps)"
      using "1.prems"(4) by (metis drop_Suc drop_map drop_drop plus_1_eq_Suc tl_drop)
    have heap: "clamp_heap now (set (drop (Suc i) ps)) h1 = clamp_heap now (set (drop i ps)) h"
      by (auto simp: h1 dropi clamp_heap_def)
    have filt: "filter (\<lambda>p. source_kept now (h1 p)) xs = filter (\<lambda>p. source_kept now (h p)) xs" for xs
      by (rule filter_cong) (auto simp: h1 clamp_heap_def source_kept_clamp)
    have keep: "source_kept now (h p) \<longleftrightarrow> \<not> (s_route_count (h1 p) = 0 \<and> s_time (h1 p) < now - SOURCE_GC_TIME)"
      by (auto simp: source_kept_def h1_def SOURCE_GC_TIME_def)
    have step: "expire_sources_loop now (length ps) i j arr h =
        (if source_kept now (h p)
         then expire_sources_loop now (length ps) (i + 1) (j + 1) (if j < i then arr[j := arr ! i, i := None] else arr) h1
         else expire_sources_loop now (length ps) (i + 1) j (arr[i := None]) h1)"
      unfolding keep using True
      by (subst expire_sources_loop.simps)
        (simp only: if_True Let_def p_def [symmetric] h1_def [symmetric] split: if_split, blast)
    show ?thesis
    proof (cases "source_kept now (h p)")
      case False
      then have "expire_sources_loop now (length ps) (i + 1) j (arr[i := None]) h1 = (j', arr', h')"
        using "1.prems"(5) by (simp only: step if_False)
      from "1.hyps"(1) [OF True p_def h1_def _ _ _ _ _ this] show ?thesis
        using False True "1.prems"(1-3) tail keep by (simp add: heap filt dropi)
    next
      case True': True
      let ?arr = "if j < i then arr[j := arr ! i, i := None] else arr"
      have "expire_sources_loop now (length ps) (i + 1) (j + 1) ?arr h1 = (j', arr', h')"
        using "1.prems"(5) True' by (simp only: step if_True)
      moreover have "take (Suc j) ?arr = take j arr @ [Some p]"
        using take_compacted [of j i arr None] "1.prems"(2,3) True arr_i p by simp
      moreover have "drop (Suc i) ?arr = drop (Suc i) arr" by simp
      ultimately show ?thesis
        using "1.hyps"(2) [OF True p_def h1_def] True True' "1.prems"(1-3) tail keep
        by (simp add: heap filt dropi)
    qed
  qed
qed

lemma expire_sources_parts:
  "st_slots (expire_sources now st) = filter (\<lambda>p. source_kept now (st_heap st p)) (st_slots st)"
  "st_heap (expire_sources now st) = clamp_heap now (set (st_slots st)) (st_heap st)"
  "st_max (expire_sources now st) = st_max st" "st_fresh (expire_sources now st) = st_fresh st"
proof -
  obtain j arr h where l: "expire_sources_loop now (length (st_slots st)) 0 0 (map Some (st_slots st)) (st_heap st) = (j, arr, h)"
    by (metis prod_cases3)
  have spec: "take j arr = map Some (filter (\<lambda>p. source_kept now (st_heap st p)) (st_slots st)) \<and>
      h = clamp_heap now (set (st_slots st)) (st_heap st)"
    using expire_sources_loop_spec [OF _ _ _ _ l] by simp
  then show "st_slots (expire_sources now st) = filter (\<lambda>p. source_kept now (st_heap st p)) (st_slots st)"
    "st_heap (expire_sources now st) = clamp_heap now (set (st_slots st)) (st_heap st)"
    "st_max (expire_sources now st) = st_max st" "st_fresh (expire_sources now st) = st_fresh st"
    by (auto simp: expire_sources_def l comp_def)
qed

lemma expire_sources_ok:
  assumes "source_table_ok st"
  shows "source_table_ok (expire_sources now st)"
proof -
  have key: "source_key (clamp_heap now A h p) = source_key (h p)" for A and h :: "ptr \<Rightarrow> source" and p
    by (simp add: clamp_heap_def clamp_time_def source_key_def)
  have okc: "source_ok (clamp_heap now A h p) = source_ok (h p)" for A and h :: "ptr \<Rightarrow> source" and p
    by (simp add: clamp_heap_def clamp_time_def source_ok_def)
  show ?thesis
    using assms unfolding source_table_ok_def expire_sources_parts key okc
    by (auto intro: sorted_by_filter le_trans [OF length_filter_le])
qed

text \<open>
  C31: (functional) \<open>expire_sources\<close> keeps, in order, exactly the sources that a route still
  references or that are younger than \<open>SOURCE_GC_TIME\<close>, pulls timestamps that lie in the
  future back to the present, and leaves the table well formed.
\<close>

theorem expire_sources_correct:
  assumes "source_table_ok st"
  shows "st_slots (expire_sources now st) = filter (\<lambda>p. source_kept now (st_heap st p)) (st_slots st) \<and>
    (\<forall>p \<in> set (st_slots st). st_heap (expire_sources now st) p = clamp_time now (st_heap st p)) \<and>
    source_table_ok (expire_sources now st) \<and>
    (source_metrics_ok st \<longrightarrow> source_metrics_ok (expire_sources now st))"
proof -
  have "source_metrics_ok st \<longrightarrow> source_metrics_ok (expire_sources now st)"
    unfolding source_metrics_ok_def expire_sources_parts by (auto simp: clamp_heap_def clamp_time_def)
  then show ?thesis using expire_sources_ok [OF assms] by (simp add: expire_sources_parts clamp_heap_def)
qed

theorem expire_sources_correct_witness:
  "st_slots (expire_sources 1000 sources_init) = []"
  using expire_sources_correct [OF sources_init_ok, of 1000] by (simp add: sources_init_def)

end
