(* ===== verification/Rib.thy ===== *)
theory Rib
  imports Source
begin

text \<open>
  The data structure of \<open>route.c\<close>: \<open>struct babel_route\<close>, the array \<open>routes\<close> of slots sorted
  by \<open>route_compare\<close>, each slot the linked list of the routes to one destination with the
  installed route, if any, at its head, and the operations that search, grow, shrink and
  reorder it, with the route streams.  A linked list is the list of its nodes' addresses;
  \<open>None\<close> is a failed \<open>assert\<close> or a NULL dereference.  The functions of \<open>route.c\<close> that also
  touch the kernel, the messages or other tables are in the theory \<open>Route\<close>.

  A route names its source by address, so every function that compares routes is given
  the heap of sources, \<open>sh\<close>.
\<close>

section \<open>Data\<close>

record babel_route =
  r_src :: ptr
  r_refmetric :: int
  r_cost :: int
  r_add_metric :: int
  r_seqno :: u16
  r_neigh :: ptr
  r_nexthop :: "byte list"
  r_time :: int
  r_hold_time :: int
  r_smoothed_metric :: int
  r_smoothed_metric_time :: int
  r_installed :: bool
  r_channels_len :: int
  r_channels :: "byte list"

text \<open>\<open>routes\<close>, \<open>route_slots\<close> (the length of the list) and \<open>max_route_slots\<close>.\<close>

record rib =
  rib_heap :: "ptr \<Rightarrow> babel_route"
  routes :: "ptr list list"
  max_route_slots :: nat
  rib_fresh :: ptr

definition route_zero :: babel_route where
  "route_zero =
     \<lparr>r_src = 0, r_refmetric = 0, r_cost = 0, r_add_metric = 0, r_seqno = 0, r_neigh = 0,
      r_nexthop = replicate 16 0, r_time = 0, r_hold_time = 0, r_smoothed_metric = 0,
      r_smoothed_metric_time = 0, r_installed = False, r_channels_len = 0, r_channels = []\<rparr>"

definition rib_init :: rib where
  "rib_init = \<lparr>rib_heap = (\<lambda>_. route_zero), routes = [], max_route_slots = 0, rib_fresh = 1\<rparr>"

section \<open>Metrics\<close>

definition route_metric :: "babel_route \<Rightarrow> int" where
  "route_metric r = (let m = r_refmetric r + r_cost r + r_add_metric r in min m INFINITY_METRIC)"

definition route_metric_noninterfering :: "int \<Rightarrow> babel_route \<Rightarrow> int" where
  "route_metric_noninterfering diversity_factor r =
     (let m = r_refmetric r + (diversity_factor * r_cost r + 128) sdiv 256 + r_add_metric r;
          m = max m (r_refmetric r + 1)
      in min m INFINITY_METRIC)"

section \<open>Searching\<close>

definition route_compare :: "byte list \<Rightarrow> nat \<Rightarrow> byte list \<Rightarrow> nat \<Rightarrow> source \<Rightarrow> int" where
  "route_compare prefix plen src_prefix src_plen src =
     (if src_plen = 0 \<and> s_src_plen src > 0 then 1
      else if src_plen > 0 \<and> s_src_plen src = 0 then -1
      else
        let i = memcmp prefix (s_prefix src) 16 in
        if i \<noteq> 0 then i
        else if plen < s_plen src then -1
        else if plen > s_plen src then 1
        else if src_plen = 0 then (if s_src_plen src > 0 then -1 else 0)
        else
          let i = memcmp src_prefix (s_src_prefix src) 16 in
          if i \<noteq> 0 then i
          else if src_plen < s_src_plen src then -1
          else if src_plen > s_src_plen src then 1
          else 0)"

definition route_source :: "(ptr \<Rightarrow> source) \<Rightarrow> rib \<Rightarrow> ptr \<Rightarrow> source" where
  "route_source sh rb p = sh (r_src (rib_heap rb p))"

definition find_route_slot ::
  "(ptr \<Rightarrow> source) \<Rightarrow> byte list \<Rightarrow> nat \<Rightarrow> byte list \<Rightarrow> nat \<Rightarrow> rib \<Rightarrow> slot" where
  "find_route_slot sh prefix plen src_prefix src_plen rb =
     slot_search
       (\<lambda>m. route_compare prefix plen src_prefix src_plen (route_source sh rb (hd (routes rb ! m))))
       (length (routes rb))"

definition find_route ::
  "(ptr \<Rightarrow> source) \<Rightarrow> byte list \<Rightarrow> nat \<Rightarrow> byte list \<Rightarrow> nat \<Rightarrow> ptr \<Rightarrow> byte list \<Rightarrow> rib \<Rightarrow> ptr option" where
  "find_route sh prefix plen src_prefix src_plen neigh nexthop rb =
     (case find_route_slot sh prefix plen src_prefix src_plen rb of
        Missing _ \<Rightarrow> None
      | Found i \<Rightarrow>
          find (\<lambda>p. r_neigh (rib_heap rb p) = neigh \<and> v6_equal (r_nexthop (rib_heap rb p)) nexthop)
            (routes rb ! i))"

definition find_installed_route ::
  "(ptr \<Rightarrow> source) \<Rightarrow> byte list \<Rightarrow> nat \<Rightarrow> byte list \<Rightarrow> nat \<Rightarrow> rib \<Rightarrow> ptr option" where
  "find_installed_route sh prefix plen src_prefix src_plen rb =
     (case find_route_slot sh prefix plen src_prefix src_plen rb of
        Missing _ \<Rightarrow> None
      | Found i \<Rightarrow>
          if r_installed (rib_heap rb (hd (routes rb ! i))) then Some (hd (routes rb ! i)) else None)"

definition installed_routes_estimate :: "rib \<Rightarrow> nat" where
  "installed_routes_estimate rb = length (routes rb)"

section \<open>Growing and shrinking\<close>

definition resize_route_table :: "bool \<Rightarrow> nat \<Rightarrow> rib \<Rightarrow> (int \<times> rib) option" where
  "resize_route_table realloc_ok new_slots rb =
     (if \<not> new_slots \<ge> length (routes rb) then None
      else if new_slots \<noteq> 0 \<and> \<not> realloc_ok then Some (-1, rb)
      else Some (1, rb\<lparr>max_route_slots := new_slots\<rparr>))"

text \<open>The slot of a route, by the key of its own source.\<close>

definition slot_of_route :: "(ptr \<Rightarrow> source) \<Rightarrow> ptr \<Rightarrow> rib \<Rightarrow> slot" where
  "slot_of_route sh p rb =
     (let s = route_source sh rb p
      in find_route_slot sh (s_prefix s) (s_plen s) (s_src_prefix s) (s_src_plen s) rb)"

definition insert_route :: "bool \<Rightarrow> (ptr \<Rightarrow> source) \<Rightarrow> ptr \<Rightarrow> rib \<Rightarrow> (ptr option \<times> rib) option" where
  "insert_route realloc_ok sh p rb =
     (if r_installed (rib_heap rb p) then None
      else case slot_of_route sh p rb of
        Missing n \<Rightarrow>
          (case (if length (routes rb) \<ge> max_route_slots rb
                 then map_option snd (resize_route_table realloc_ok
                        (if max_route_slots rb < 1 then 8 else 2 * max_route_slots rb) rb)
                 else Some rb) of
             None \<Rightarrow> None
           | Some rb \<Rightarrow>
               if length (routes rb) \<ge> max_route_slots rb then Some (None, rb)
               else Some (Some p, rb\<lparr>routes := take n (routes rb) @ [p] # drop n (routes rb)\<rparr>))
      | Found i \<Rightarrow> Some (Some p, rb\<lparr>routes := (routes rb)[i := routes rb ! i @ [p]]\<rparr>))"

text \<open>
  The unlinking in \<open>flush_route\<close>, from the comparison with the head of the slot to the
  destruction of the route.
\<close>

definition unlink_route :: "bool \<Rightarrow> ptr \<Rightarrow> nat \<Rightarrow> rib \<Rightarrow> rib option" where
  "unlink_route realloc_ok p i rb =
     (if p = hd (routes rb ! i) then
        let rest = tl (routes rb ! i);
            rb = (if rest = [] then rb\<lparr>routes := take i (routes rb) @ drop (i + 1) (routes rb)\<rparr>
                  else rb\<lparr>routes := (routes rb)[i := rest]\<rparr>)
        in if length (routes rb) = 0 then map_option snd (resize_route_table realloc_ok 0 rb)
           else if max_route_slots rb > 8 \<and> length (routes rb) < max_route_slots rb div 4
             then map_option snd (resize_route_table realloc_ok (max_route_slots rb div 2) rb)
           else Some rb
      else if p \<notin> set (routes rb ! i) then None
      else Some (rb\<lparr>routes := (routes rb)[i := remove1 p (routes rb ! i)]\<rparr>))"

definition move_installed_route :: "ptr \<Rightarrow> slot \<Rightarrow> rib \<Rightarrow> rib option" where
  "move_installed_route p sl rb =
     (case sl of
        Missing _ \<Rightarrow> None
      | Found i \<Rightarrow>
          if \<not> i < length (routes rb) then None
          else if \<not> r_installed (rib_heap rb p) then None
          else if p \<noteq> hd (routes rb ! i) then
            (if p \<notin> set (routes rb ! i) then None
             else Some (rb\<lparr>routes := (routes rb)[i := p # remove1 p (routes rb ! i)]\<rparr>))
          else Some rb)"

section \<open>Streams\<close>

definition check_specific_first :: "(ptr \<Rightarrow> source) \<Rightarrow> rib \<Rightarrow> bool" where
  "check_specific_first sh rb =
     snd (fold (\<lambda>slot (specific, ok).
            if \<not> ok then (specific, ok)
            else if s_src_plen (route_source sh rb (hd slot)) = 0 then (False, True)
            else if \<not> specific then (specific, False)
            else (specific, True)) (routes rb) (True, True))"

datatype stream_kind = ROUTE_ALL | ROUTE_INSTALLED | ROUTE_SS_INSTALLED

record stream =
  rs_index :: int
  rs_installed :: stream_kind
  rs_next :: "ptr option"

definition route_stream :: "stream_kind \<Rightarrow> stream" where
  "route_stream which =
     \<lparr>rs_index = (if which = ROUTE_ALL then -1 else 0), rs_installed = which, rs_next = None\<rparr>"

text \<open>\<open>route->next\<close>: the successor in the slot that holds the route.\<close>

fun next_in :: "ptr \<Rightarrow> ptr list \<Rightarrow> ptr option" where
  "next_in p [] = None"
| "next_in p (q # qs) = (if p = q then (case qs of [] \<Rightarrow> None | r # _ \<Rightarrow> Some r) else next_in p qs)"

definition route_next :: "rib \<Rightarrow> ptr \<Rightarrow> ptr option" where
  "route_next rb p =
     (case find (\<lambda>slot. p \<in> set slot) (routes rb) of None \<Rightarrow> None | Some slot \<Rightarrow> next_in p slot)"

text \<open>
  The \<open>while\<close> of \<open>route_stream_next\<close>: the index at which it stops, and whether it stopped
  at the early \<open>return\<close>.
\<close>

function stream_skip :: "(ptr \<Rightarrow> source) \<Rightarrow> rib \<Rightarrow> stream_kind \<Rightarrow> nat \<Rightarrow> nat \<times> bool" where
  "stream_skip sh rb which i =
     (if i < length (routes rb) then
        (if which = ROUTE_SS_INSTALLED \<and> s_src_plen (route_source sh rb (hd (routes rb ! i))) = 0
           then (i, True)
         else if r_installed (rib_heap rb (hd (routes rb ! i))) then (i, False)
         else stream_skip sh rb which (i + 1))
      else (i, False))"
  by pat_completeness auto
termination
  by (relation "measure (\<lambda>(sh, rb, which, i). length (routes rb) - i)") auto

declare stream_skip.simps [simp del]

definition route_stream_next :: "(ptr \<Rightarrow> source) \<Rightarrow> rib \<Rightarrow> stream \<Rightarrow> ptr option \<times> stream" where
  "route_stream_next sh rb st =
     (if rs_installed st \<noteq> ROUTE_ALL then
        (case stream_skip sh rb (rs_installed st) (nat (rs_index st)) of (i, early) \<Rightarrow>
           if early then (None, st\<lparr>rs_index := int i\<rparr>)
           else if i < length (routes rb) then (Some (hd (routes rb ! i)), st\<lparr>rs_index := int i + 1\<rparr>)
           else (None, st\<lparr>rs_index := int i\<rparr>))
      else
        let st = (if rs_next st = None then st\<lparr>rs_index := rs_index st + 1\<rparr> else st)
        in if rs_next st = None \<and> rs_index st \<ge> int (length (routes rb)) then (None, st)
           else let p = (case rs_next st of Some p \<Rightarrow> p | None \<Rightarrow> hd (routes rb ! nat (rs_index st)))
                in (Some p, st\<lparr>rs_next := route_next rb p\<rparr>))"

text \<open>
  What a loop over an installed stream sees: the routes returned until the first NULL.  One
  call more than there are slots is enough fuel (\<open>drain_installed\<close> below).
\<close>

fun drain :: "nat \<Rightarrow> (ptr \<Rightarrow> source) \<Rightarrow> rib \<Rightarrow> stream \<Rightarrow> ptr list" where
  "drain 0 sh rb st = []"
| "drain (Suc n) sh rb st =
     (case route_stream_next sh rb st of
        (None, _) \<Rightarrow> []
      | (Some p, st) \<Rightarrow> p # drain n sh rb st)"

definition stream_routes :: "(ptr \<Rightarrow> source) \<Rightarrow> rib \<Rightarrow> stream_kind \<Rightarrow> ptr list" where
  "stream_routes sh rb which = drain (Suc (length (routes rb))) sh rb (route_stream which)"

section \<open>The order of the slots\<close>

type_synonym route_key = "bool \<times> byte list \<times> nat \<times> byte list \<times> nat"

definition dest_key :: "byte list \<Rightarrow> nat \<Rightarrow> byte list \<Rightarrow> nat \<Rightarrow> route_key" where
  "dest_key prefix plen src_prefix src_plen =
     (src_plen = 0, take 16 prefix, plen,
      if src_plen = 0 then [] else take 16 src_prefix, src_plen)"

definition src_dest_key :: "source \<Rightarrow> route_key" where
  "src_dest_key s = dest_key (s_prefix s) (s_plen s) (s_src_prefix s) (s_src_plen s)"

lemma route_compare_less:
  "route_compare prefix plen src_prefix src_plen s < 0 \<longleftrightarrow>
   dest_key prefix plen src_prefix src_plen < src_dest_key s"
  unfolding route_compare_def src_dest_key_def dest_key_def Let_def
  by (auto simp: less_prod_def)

lemma route_compare_eq:
  "route_compare prefix plen src_prefix src_plen s = 0 \<longleftrightarrow>
   dest_key prefix plen src_prefix src_plen = src_dest_key s"
  unfolding route_compare_def src_dest_key_def dest_key_def Let_def
  by auto

text \<open>The entries of the table are its slots, keyed by the source of their head.\<close>

definition slot_key :: "(ptr \<Rightarrow> source) \<Rightarrow> (ptr \<Rightarrow> babel_route) \<Rightarrow> ptr list \<Rightarrow> route_key" where
  "slot_key sh h slot = src_dest_key (sh (r_src (h (hd slot))))"

interpretation route_search:
  searchable
    "\<lambda>(prefix, plen, src_prefix, src_plen) slot. route_compare prefix plen src_prefix src_plen (sh (r_src (h (hd slot))))"
    "\<lambda>(prefix, plen, src_prefix, src_plen). dest_key prefix plen src_prefix src_plen"
    "slot_key sh h"
  for sh :: "ptr \<Rightarrow> source" and h :: "ptr \<Rightarrow> babel_route"
  by unfold_locales (auto simp: route_compare_less route_compare_eq slot_key_def)

section \<open>Well-formed tables\<close>

text \<open>
  The comment in \<open>route.c\<close>: slots ordered by prefix, each a list of the routes to this
  prefix (\<open>rib_shape\<close>) with the installed route, if any, at the head (\<open>heads_installed\<close>).
\<close>

definition same_dest :: "(ptr \<Rightarrow> source) \<Rightarrow> (ptr \<Rightarrow> babel_route) \<Rightarrow> ptr list \<Rightarrow> bool" where
  "same_dest sh h slot \<longleftrightarrow>
     slot \<noteq> [] \<and> (\<forall>p \<in> set slot. src_dest_key (sh (r_src (h p))) = slot_key sh h slot)"

definition rib_shape :: "(ptr \<Rightarrow> source) \<Rightarrow> rib \<Rightarrow> bool" where
  "rib_shape sh rb \<longleftrightarrow>
     sorted_by (slot_key sh (rib_heap rb)) (routes rb) \<and>
     (\<forall>slot \<in> set (routes rb). same_dest sh (rib_heap rb) slot) \<and>
     distinct (concat (routes rb)) \<and>
     (\<forall>slot \<in> set (routes rb). \<forall>p \<in> set slot. p < rib_fresh rb) \<and>
     length (routes rb) \<le> max_route_slots rb"

definition heads_installed :: "rib \<Rightarrow> bool" where
  "heads_installed rb \<longleftrightarrow>
     (\<forall>slot \<in> set (routes rb). \<forall>p \<in> set (tl slot). \<not> r_installed (rib_heap rb p))"

definition rib_ok :: "(ptr \<Rightarrow> source) \<Rightarrow> rib \<Rightarrow> bool" where
  "rib_ok sh rb \<longleftrightarrow> rib_shape sh rb \<and> heads_installed rb"

definition rib_routes :: "rib \<Rightarrow> ptr set" where
  "rib_routes rb = set (concat (routes rb))"

lemma rib_init_ok: "rib_ok sh rib_init"
  by (simp add: rib_ok_def rib_shape_def heads_installed_def rib_init_def sorted_by_def)

lemma slot_of_route_eq:
  "slot_of_route sh p rb = (let s = route_source sh rb p in
     slot_search (\<lambda>m. (\<lambda>(prefix, plen, src_prefix, src_plen) slot.
         route_compare prefix plen src_prefix src_plen (sh (r_src (rib_heap rb (hd slot)))))
       (s_prefix s, s_plen s, s_src_prefix s, s_src_plen s) (routes rb ! m)) (length (routes rb)))"
  by (simp add: slot_of_route_def find_route_slot_def route_source_def Let_def)

lemma find_route_slot_found:
  assumes "find_route_slot sh prefix plen src_prefix src_plen rb = Found i"
  shows "i < length (routes rb) \<and>
    slot_key sh (rib_heap rb) (routes rb ! i) = dest_key prefix plen src_prefix src_plen"
  using route_search.search_found
    [where r = "(prefix, plen, src_prefix, src_plen)" and sh = sh and h = "rib_heap rb" and es = "routes rb"]
    assms by (simp add: find_route_slot_def route_source_def)

lemma find_route_slot_missing:
  assumes "rib_shape sh rb" and "find_route_slot sh prefix plen src_prefix src_plen rb = Missing i"
  shows "i \<le> length (routes rb) \<and>
    (\<forall>j < i. slot_key sh (rib_heap rb) (routes rb ! j) < dest_key prefix plen src_prefix src_plen) \<and>
    (\<forall>j < length (routes rb). i \<le> j \<longrightarrow>
       dest_key prefix plen src_prefix src_plen < slot_key sh (rib_heap rb) (routes rb ! j))"
  using route_search.search_missing
    [where r = "(prefix, plen, src_prefix, src_plen)" and sh = sh and h = "rib_heap rb" and es = "routes rb"]
    assms by (simp add: find_route_slot_def route_source_def rib_shape_def)

lemma find_route_slot_missing_notin:
  assumes "rib_shape sh rb" and "find_route_slot sh prefix plen src_prefix src_plen rb = Missing i"
    and "slot \<in> set (routes rb)"
  shows "slot_key sh (rib_heap rb) slot \<noteq> dest_key prefix plen src_prefix src_plen"
  using route_search.search_missing_notin
    [where r = "(prefix, plen, src_prefix, src_plen)" and sh = sh and h = "rib_heap rb" and es = "routes rb"]
    assms by (simp add: find_route_slot_def route_source_def rib_shape_def)

lemma find_route_slot_complete:
  assumes "rib_shape sh rb" and "i < length (routes rb)"
    and "slot_key sh (rib_heap rb) (routes rb ! i) = dest_key prefix plen src_prefix src_plen"
  shows "find_route_slot sh prefix plen src_prefix src_plen rb = Found i"
proof -
  have s: "sorted_by (slot_key sh (rib_heap rb)) (routes rb)" using assms(1) by (simp add: rib_shape_def)
  obtain j where j: "j < length (routes rb)" "find_route_slot sh prefix plen src_prefix src_plen rb = Found j"
    "routes rb ! j = routes rb ! i"
    using route_search.search_complete
      [where r = "(prefix, plen, src_prefix, src_plen)" and sh = sh and h = "rib_heap rb" and es = "routes rb"
         and e = "routes rb ! i"] assms(2,3) s
    by (auto simp: find_route_slot_def route_source_def)
  have "i = j"
    using sorted_by_nth [OF s, of i j] sorted_by_nth [OF s, of j i] j assms(2)
    by (metis less_irrefl linorder_neqE_nat)
  then show ?thesis using j(2) by simp
qed

lemma rib_routes_iff: "p \<in> rib_routes rb \<longleftrightarrow> (\<exists>i < length (routes rb). p \<in> set (routes rb ! i))"
  by (auto simp: rib_routes_def in_set_conv_nth) (metis nth_mem in_set_conv_nth)+

text \<open>Every route in the table is found in the slot that \<open>slot_of_route\<close> computes.\<close>

lemma slot_of_route_member:
  assumes "rib_shape sh rb" and "i < length (routes rb)" and "p \<in> set (routes rb ! i)"
  shows "slot_of_route sh p rb = Found i"
proof -
  have "same_dest sh (rib_heap rb) (routes rb ! i)" using assms(1,2) by (auto simp: rib_shape_def)
  then have "slot_key sh (rib_heap rb) (routes rb ! i) = src_dest_key (route_source sh rb p)"
    using assms(3) by (auto simp: same_dest_def route_source_def)
  then show ?thesis
    unfolding slot_of_route_def Let_def
    by (intro find_route_slot_complete assms) (simp add: src_dest_key_def)
qed

section \<open>Replacing one slot\<close>

lemma distinct_concat_update:
  assumes "distinct (concat xss)" and "i < length xss" and "distinct ys"
    and "set ys \<inter> set (concat xss) \<subseteq> set (xss ! i)"
  shows "distinct (concat (xss[i := ys]))"
proof -
  have "xss = take i xss @ xss ! i # drop (Suc i) xss" using assms(2) by (rule id_take_nth_drop)
  then have c: "concat xss = concat (take i xss) @ xss ! i @ concat (drop (Suc i) xss)"
    by (metis concat.simps(2) concat_append)
  have u: "concat (xss[i := ys]) = concat (take i xss) @ ys @ concat (drop (Suc i) xss)"
    using assms(2) by (simp add: upd_conv_take_nth_drop)
  show ?thesis using assms(1,3,4) unfolding c u distinct_append set_append by blast
qed

lemma rib_shape_update:
  assumes "rib_shape sh rb" and "i < length (routes rb)" and "same_dest sh (rib_heap rb) slot"
    and "slot_key sh (rib_heap rb) slot = slot_key sh (rib_heap rb) (routes rb ! i)"
    and "distinct slot" and "set slot \<inter> rib_routes rb \<subseteq> set (routes rb ! i)"
    and "\<forall>p \<in> set slot. p < rib_fresh rb"
  shows "rib_shape sh (rb\<lparr>routes := (routes rb)[i := slot]\<rparr>)"
proof -
  have "map (slot_key sh (rib_heap rb)) ((routes rb)[i := slot]) = map (slot_key sh (rib_heap rb)) (routes rb)"
    using assms(2,4) by (metis list_update_id map_update)
  then have "sorted_by (slot_key sh (rib_heap rb)) ((routes rb)[i := slot]) =
      sorted_by (slot_key sh (rib_heap rb)) (routes rb)"
    by (simp add: sorted_by_keys)
  moreover have sub: "x \<in> set ((routes rb)[i := slot]) \<Longrightarrow> x = slot \<or> x \<in> set (routes rb)" for x
    using set_update_subset_insert [of "routes rb" i slot] by blast
  have "\<forall>x \<in> set ((routes rb)[i := slot]). same_dest sh (rib_heap rb) x \<and> (\<forall>p \<in> set x. p < rib_fresh rb)"
  proof
    fix x assume "x \<in> set ((routes rb)[i := slot])"
    then have "x = slot \<or> x \<in> set (routes rb)" by (rule sub)
    then show "same_dest sh (rib_heap rb) x \<and> (\<forall>p \<in> set x. p < rib_fresh rb)"
      using assms(1,3,7) unfolding rib_shape_def by blast
  qed
  moreover have "distinct (concat ((routes rb)[i := slot]))"
    using distinct_concat_update [of "routes rb" i slot] assms(1,2,5,6)
    by (simp add: rib_shape_def rib_routes_def)
  ultimately show ?thesis using assms(1) by (simp add: rib_shape_def)
qed

lemma rib_shape_cong:
  assumes "\<forall>p \<in> rib_routes rb. src_dest_key (sh' (r_src (h p))) = src_dest_key (sh (r_src (rib_heap rb p)))"
  shows "rib_shape sh' (rb\<lparr>rib_heap := h\<rparr>) \<longleftrightarrow> rib_shape sh rb"
proof -
  have m: "p \<in> rib_routes rb" if "slot \<in> set (routes rb)" "p \<in> set slot" for slot p
    using that by (auto simp: rib_routes_def)
  have k: "slot_key sh' h slot = slot_key sh (rib_heap rb) slot" if "slot \<in> set (routes rb)" "slot \<noteq> []" for slot
    using that assms m by (simp add: slot_key_def)
  have d: "same_dest sh' h slot = same_dest sh (rib_heap rb) slot" if "slot \<in> set (routes rb)" for slot
    using that assms m k by (auto simp: same_dest_def)
  show ?thesis
  proof (cases "\<forall>slot \<in> set (routes rb). same_dest sh (rib_heap rb) slot")
    case True
    then have "sorted_by (slot_key sh' h) (routes rb) = sorted_by (slot_key sh (rib_heap rb)) (routes rb)"
      by (intro sorted_by_cong k) (auto simp: same_dest_def)
    then show ?thesis using d by (simp add: rib_shape_def)
  next
    case False
    then show ?thesis using d by (auto simp: rib_shape_def)
  qed
qed

lemma heads_installed_cong:
  assumes "\<forall>p \<in> rib_routes rb. r_installed (h p) = r_installed (rib_heap rb p)"
  shows "heads_installed (rb\<lparr>rib_heap := h\<rparr>) \<longleftrightarrow> heads_installed rb"
proof -
  have "p \<in> rib_routes rb" if "slot \<in> set (routes rb)" "p \<in> set (tl slot)" for slot p
  proof -
    have "p \<in> set slot" using that(2) by (cases slot) auto
    then show ?thesis using that(1) by (auto simp: rib_routes_def)
  qed
  then show ?thesis using assms by (auto simp: heads_installed_def)
qed

lemma rib_shape_max: "length (routes rb) \<le> m \<Longrightarrow> rib_shape sh (rb\<lparr>max_route_slots := m\<rparr>) \<longleftrightarrow>
    rib_shape sh (rb\<lparr>max_route_slots := length (routes rb)\<rparr>)"
  by (simp add: rib_shape_def)

section \<open>Insertion\<close>

lemma rib_shape_insert_slot:
  assumes ok: "rib_shape sh rb" and n: "slot_of_route sh p rb = Missing n"
    and p: "p \<notin> rib_routes rb" "p < rib_fresh rb" and m: "length (routes rb) < m"
  shows "rib_shape sh (rb\<lparr>routes := take n (routes rb) @ [p] # drop n (routes rb), max_route_slots := m\<rparr>)"
proof -
  let ?k = "slot_key sh (rib_heap rb)"
  let ?r = "take n (routes rb) @ [p] # drop n (routes rb)"
  note miss = find_route_slot_missing [OF ok n [unfolded slot_of_route_def Let_def]]
  have key: "?k [p] = dest_key (s_prefix (route_source sh rb p)) (s_plen (route_source sh rb p))
      (s_src_prefix (route_source sh rb p)) (s_src_plen (route_source sh rb p))"
    by (simp add: slot_key_def src_dest_key_def route_source_def)
  have "sorted_by ?k ?r"
    using ok miss by (intro sorted_by_insert) (auto simp: rib_shape_def key)
  moreover have "set ?r = insert [p] (set (routes rb))"
    by simp (metis append_take_drop_id set_append)
  moreover have "distinct (concat ?r)"
  proof -
    have "concat (routes rb) = concat (take n (routes rb)) @ concat (drop n (routes rb))"
      by (metis append_take_drop_id concat_append)
    then show ?thesis using ok p(1) by (auto simp: rib_shape_def rib_routes_def)
  qed
  moreover have "same_dest sh (rib_heap rb) [p]" by (simp add: same_dest_def slot_key_def)
  ultimately show ?thesis using ok p(2) m miss by (auto simp: rib_shape_def)
qed

lemma rib_routes_insert_slot:
  "rib_routes (rb\<lparr>routes := take n (routes rb) @ [p] # drop n (routes rb), max_route_slots := m\<rparr>) =
   insert p (rib_routes rb)"
proof -
  have "concat (routes rb) = concat (take n (routes rb)) @ concat (drop n (routes rb))"
    by (metis append_take_drop_id concat_append)
  then show ?thesis by (auto simp: rib_routes_def)
qed

text \<open>The two ways an insertion succeeds.\<close>

lemma insert_route_cases:
  assumes "rib_shape sh rb" and "insert_route ro sh p rb = Some (Some p', rb')"
  shows "p' = p \<and> \<not> r_installed (rib_heap rb p) \<and>
    ((\<exists>i. slot_of_route sh p rb = Found i \<and> rb' = rb\<lparr>routes := (routes rb)[i := routes rb ! i @ [p]]\<rparr>) \<or>
     (\<exists>n m. slot_of_route sh p rb = Missing n \<and> length (routes rb) < m \<and>
        rb' = rb\<lparr>routes := take n (routes rb) @ [p] # drop n (routes rb), max_route_slots := m\<rparr>))"
proof (cases "slot_of_route sh p rb")
  case (Found i)
  then show ?thesis using assms(2) by (auto simp: insert_route_def split: if_splits)
next
  case (Missing n)
  show ?thesis
  proof (cases "max_route_slots rb \<le> length (routes rb)")
    case True
    let ?m = "if max_route_slots rb < 1 then 8 else 2 * max_route_slots rb"
    have "length (routes rb) < ?m" "p' = p" "\<not> r_installed (rib_heap rb p)"
      "rb' = rb\<lparr>routes := take n (routes rb) @ [p] # drop n (routes rb), max_route_slots := ?m\<rparr>"
      using assms(2) Missing True
      by (cases ro; auto simp: insert_route_def resize_route_table_def split: if_splits)+
    then show ?thesis using Missing by blast
  next
    case False
    then have "rb' = rb\<lparr>routes := take n (routes rb) @ [p] # drop n (routes rb), max_route_slots := max_route_slots rb\<rparr>"
      "p' = p" "\<not> r_installed (rib_heap rb p)"
      using assms(2) Missing by (auto simp: insert_route_def split: if_splits)
    then show ?thesis using False Missing by (metis not_le)
  qed
qed

lemma insert_route_total:
  assumes "rib_shape sh rb" and "\<not> r_installed (rib_heap rb p)"
  shows "\<exists>r rb'. insert_route ro sh p rb = Some (r, rb') \<and> (ro \<longrightarrow> r = Some p) \<and> (r = None \<longrightarrow> rb' = rb)"
proof (cases "slot_of_route sh p rb")
  case (Found i)
  then show ?thesis using assms(2) by (auto simp: insert_route_def)
next
  case (Missing n)
  have "length (routes rb) \<le> max_route_slots rb" using assms(1) by (simp add: rib_shape_def)
  then show ?thesis
    using assms(2) Missing by (auto simp: insert_route_def resize_route_table_def)
qed

lemma tl_snoc_subset: "set (tl (xs @ [x])) \<subseteq> insert x (set (tl xs))"
  by (cases xs) auto

lemma insert_route_ok:
  assumes "rib_ok sh rb" and "p \<notin> rib_routes rb" and "p < rib_fresh rb"
    and "insert_route ro sh p rb = Some (Some p', rb')"
  shows "p' = p \<and> rib_ok sh rb' \<and> rib_routes rb' = insert p (rib_routes rb) \<and> rib_heap rb' = rib_heap rb \<and>
    (\<exists>i < length (routes rb'). slot_of_route sh p rb' = Found i \<and> p \<in> set (routes rb' ! i))"
proof -
  have ok: "rib_shape sh rb" "heads_installed rb" using assms(1) by (auto simp: rib_ok_def)
  note c = insert_route_cases [OF ok(1) assms(4)]
  then have p': "p' = p" and ni: "\<not> r_installed (rib_heap rb p)" by auto
  have "rib_shape sh rb' \<and> heads_installed rb' \<and> rib_routes rb' = insert p (rib_routes rb) \<and> rib_heap rb' = rib_heap rb"
    using c [THEN conjunct2, THEN conjunct2]
  proof
    assume "\<exists>i. slot_of_route sh p rb = Found i \<and> rb' = rb\<lparr>routes := (routes rb)[i := routes rb ! i @ [p]]\<rparr>"
    then obtain i where i: "slot_of_route sh p rb = Found i"
      and rb': "rb' = rb\<lparr>routes := (routes rb)[i := routes rb ! i @ [p]]\<rparr>" by blast
    note f = find_route_slot_found [OF i [unfolded slot_of_route_def Let_def]]
    let ?slot = "routes rb ! i"
    have mem: "?slot \<in> set (routes rb)" using f by simp
    have sd: "same_dest sh (rib_heap rb) ?slot" using ok(1) mem by (simp add: rib_shape_def)
    then have ne: "?slot \<noteq> []" by (simp add: same_dest_def)
    have key: "src_dest_key (sh (r_src (rib_heap rb p))) = slot_key sh (rib_heap rb) ?slot"
      using f by (simp add: src_dest_key_def route_source_def)
    have sk: "slot_key sh (rib_heap rb) (?slot @ [p]) = slot_key sh (rib_heap rb) ?slot"
      using ne by (simp add: slot_key_def)
    have "same_dest sh (rib_heap rb) (?slot @ [p])"
      using sd key sk by (auto simp: same_dest_def)
    moreover have "distinct ?slot" using ok(1) mem by (simp add: rib_shape_def distinct_concat_iff)
    moreover have "set ?slot \<subseteq> rib_routes rb" using mem by (auto simp: rib_routes_def)
    ultimately have "rib_shape sh rb'"
      unfolding rb' using ok(1) f assms(2,3) sk mem
      by (intro rib_shape_update) (auto simp: rib_shape_def)
    moreover have "heads_installed rb'"
      unfolding heads_installed_def
    proof (intro ballI)
      fix slot q assume s: "slot \<in> set (routes rb')" and q: "q \<in> set (tl slot)"
      have "slot = ?slot @ [p] \<or> slot \<in> set (routes rb)"
        using s set_update_subset_insert [of "routes rb" i "?slot @ [p]"] by (auto simp: rb')
      then show "\<not> r_installed (rib_heap rb' q)"
        using q ok(2) mem ni tl_snoc_subset [of ?slot p] by (auto simp: heads_installed_def rb')
    qed
    moreover have "rib_routes rb' = insert p (rib_routes rb)"
    proof -
      have "routes rb = take i (routes rb) @ ?slot # drop (Suc i) (routes rb)"
        using f by (simp add: id_take_nth_drop)
      then have "concat (routes rb) = concat (take i (routes rb)) @ ?slot @ concat (drop (Suc i) (routes rb))"
        by (metis concat.simps(2) concat_append)
      then show ?thesis using f by (auto simp: rb' rib_routes_def upd_conv_take_nth_drop)
    qed
    ultimately show ?thesis by (simp add: rb')
  next
    assume "\<exists>n m. slot_of_route sh p rb = Missing n \<and> length (routes rb) < m \<and>
        rb' = rb\<lparr>routes := take n (routes rb) @ [p] # drop n (routes rb), max_route_slots := m\<rparr>"
    then obtain n m where n: "slot_of_route sh p rb = Missing n" "length (routes rb) < m"
      and rb': "rb' = rb\<lparr>routes := take n (routes rb) @ [p] # drop n (routes rb), max_route_slots := m\<rparr>" by blast
    have "set (routes rb') \<subseteq> insert [p] (set (routes rb))"
      unfolding rb' using set_take_subset [of n "routes rb"] set_drop_subset [of n "routes rb"] by auto
    then have "heads_installed rb'"
      using ok(2) by (auto simp: heads_installed_def rb')
    then show ?thesis
      using rib_shape_insert_slot [OF ok(1) n(1) assms(2,3) n(2)] rib_routes_insert_slot [where rb = rb and n = n and p = p and m = m]
      by (simp add: rb')
  qed
  moreover from this obtain i where "i < length (routes rb')" "p \<in> set (routes rb' ! i)"
    by (metis insertI1 rib_routes_iff)
  ultimately show ?thesis using slot_of_route_member p' by (auto simp: rib_ok_def)
qed

text \<open>
  C25: (invariant) Inserting a route keeps the table's invariant (slots strictly sorted, one
  destination per slot, no route twice, the installed route only at a head, the array within
  its capacity), adds that route and nothing else, and afterwards its slot is found by a
  search for its destination.
\<close>

theorem insert_route_invariant:
  assumes "rib_ok sh rb" and "p \<notin> rib_routes rb" and "p < rib_fresh rb"
    and "insert_route ro sh p rb = Some (Some p', rb')"
  shows "p' = p \<and> rib_ok sh rb' \<and> rib_routes rb' = insert p (rib_routes rb) \<and> rib_heap rb' = rib_heap rb \<and>
    (\<exists>i < length (routes rb'). slot_of_route sh p rb' = Found i \<and> p \<in> set (routes rb' ! i))"
  using assms by (rule insert_route_ok)

section \<open>Removal\<close>

lemma rib_split:
  assumes "i < length (routes rb)"
  shows "concat (routes rb) =
    concat (take i (routes rb)) @ routes rb ! i @ concat (drop (Suc i) (routes rb))"
  using assms by (metis concat.simps(2) concat_append id_take_nth_drop)

lemma rib_routes_update:
  assumes "i < length (routes rb)" and "distinct (concat (routes rb))" and "set slot \<inter> rib_routes rb \<subseteq> set (routes rb ! i)"
  shows "rib_routes (rb\<lparr>routes := (routes rb)[i := slot]\<rparr>) =
    (rib_routes rb - set (routes rb ! i)) \<union> set slot"
proof -
  have "concat ((routes rb)[i := slot]) = concat (take i (routes rb)) @ slot @ concat (drop (Suc i) (routes rb))"
    using assms(1) by (simp add: upd_conv_take_nth_drop)
  moreover have "set (routes rb ! i) \<inter> set (concat (take i (routes rb))) = {}"
    "set (routes rb ! i) \<inter> set (concat (drop (Suc i) (routes rb))) = {}"
    using assms(2) unfolding rib_split [OF assms(1)] distinct_append set_append by blast+
  ultimately show ?thesis
    unfolding rib_routes_def rib_split [OF assms(1)] by (simp del: set_concat) blast
qed

text \<open>Shrinking a slot to a part of it that is not empty.\<close>

lemma rib_ok_shrink_slot:
  assumes ok: "rib_ok sh rb" and i: "i < length (routes rb)" and ne: "slot \<noteq> []"
    and sub: "set slot \<subseteq> set (routes rb ! i)" "set (tl slot) \<subseteq> set (tl (routes rb ! i))" and d: "distinct slot"
  shows "rib_ok sh (rb\<lparr>routes := (routes rb)[i := slot]\<rparr>)"
proof -
  let ?s = "routes rb ! i"
  have shape: "rib_shape sh rb" and heads: "heads_installed rb" using ok by (auto simp: rib_ok_def)
  have mem: "?s \<in> set (routes rb)" using i by simp
  have sd: "same_dest sh (rib_heap rb) ?s" using shape mem by (simp add: rib_shape_def)
  have "hd slot \<in> set ?s" using ne sub(1) by auto
  then have sk: "slot_key sh (rib_heap rb) slot = slot_key sh (rib_heap rb) ?s"
    using sd by (metis same_dest_def slot_key_def)
  have "same_dest sh (rib_heap rb) slot"
    using sd sub(1) ne sk by (auto simp: same_dest_def)
  moreover have "\<forall>p \<in> set slot. p < rib_fresh rb" using shape mem sub(1) by (auto simp: rib_shape_def)
  ultimately have "rib_shape sh (rb\<lparr>routes := (routes rb)[i := slot]\<rparr>)"
    using shape i sk d sub(1) by (intro rib_shape_update) auto
  moreover have "heads_installed (rb\<lparr>routes := (routes rb)[i := slot]\<rparr>)"
    unfolding heads_installed_def
  proof (intro ballI)
    fix s q assume s: "s \<in> set (routes (rb\<lparr>routes := (routes rb)[i := slot]\<rparr>))" and q: "q \<in> set (tl s)"
    have "s = slot \<or> s \<in> set (routes rb)"
      using s set_update_subset_insert [of "routes rb" i slot] by auto
    then show "\<not> r_installed (rib_heap (rb\<lparr>routes := (routes rb)[i := slot]\<rparr>) q)"
      using q heads mem sub(2) by (auto simp: heads_installed_def)
  qed
  ultimately show ?thesis by (simp add: rib_ok_def)
qed

text \<open>Dropping a whole slot.\<close>

lemma rib_ok_drop_slot:
  assumes ok: "rib_ok sh rb" and i: "i < length (routes rb)"
  shows "rib_ok sh (rb\<lparr>routes := take i (routes rb) @ drop (Suc i) (routes rb)\<rparr>)"
proof -
  let ?r = "take i (routes rb) @ drop (Suc i) (routes rb)"
  have shape: "rib_shape sh rb" and heads: "heads_installed rb" using ok by (auto simp: rib_ok_def)
  have sub: "set ?r \<subseteq> set (routes rb)"
    using set_take_subset [of i "routes rb"] set_drop_subset [of "Suc i" "routes rb"] by auto
  have "sorted_by (slot_key sh (rib_heap rb)) ?r"
  proof -
    have "sorted_by (slot_key sh (rib_heap rb)) (take i (routes rb) @ routes rb ! i # drop (Suc i) (routes rb))"
      using shape i by (simp add: rib_shape_def id_take_nth_drop [symmetric])
    then show ?thesis by (simp add: sorted_by_def sorted_wrt_append)
  qed
  moreover have "distinct (concat ?r)"
    using shape unfolding rib_shape_def rib_split [OF i] by auto
  moreover have "length (routes rb) \<le> max_route_slots rb" using shape by (simp add: rib_shape_def)
  then have "length ?r \<le> max_route_slots rb" using i by simp
  ultimately show ?thesis
    using shape heads sub unfolding rib_ok_def rib_shape_def heads_installed_def
    by (simp del: set_append set_concat) blast
qed

lemma rib_ok_resize:
  assumes "rib_ok sh rb" and "resize_route_table ro m rb = Some (rc, rb')"
  shows "rib_ok sh rb' \<and> routes rb' = routes rb \<and> rib_heap rb' = rib_heap rb"
  using assms by (auto simp: resize_route_table_def rib_ok_def rib_shape_def heads_installed_def split: if_splits)

lemma resize_route_table_total:
  "m \<ge> length (routes rb) \<Longrightarrow> \<exists>rc rb'. resize_route_table ro m rb = Some (rc, rb')"
  by (simp add: resize_route_table_def)

lemma unlink_route_ok:
  assumes "rib_ok sh rb" and "p \<in> rib_routes rb" and "slot_of_route sh p rb = Found i"
  shows "\<exists>rb'. unlink_route ro p i rb = Some rb' \<and> rib_ok sh rb' \<and>
    rib_routes rb' = rib_routes rb - {p} \<and> rib_heap rb' = rib_heap rb"
proof -
  have shape: "rib_shape sh rb" using assms(1) by (simp add: rib_ok_def)
  obtain k where "k < length (routes rb)" "p \<in> set (routes rb ! k)" using assms(2) by (auto simp: rib_routes_iff)
  with slot_of_route_member [OF shape this] assms(3) have i: "i < length (routes rb)" "p \<in> set (routes rb ! i)"
    by auto
  let ?s = "routes rb ! i"
  have mem: "?s \<in> set (routes rb)" using i by simp
  have dc: "distinct (concat (routes rb))" using shape by (simp add: rib_shape_def)
  then have d: "distinct ?s" using mem by (simp add: distinct_concat_iff)
  show ?thesis
  proof (cases "p = hd ?s")
    case False
    then have "?s = hd ?s # tl ?s" using i(2) by (cases ?s) auto
    then have r: "remove1 p ?s = hd ?s # remove1 p (tl ?s)" using False by (metis remove1.simps(2))
    have "rib_ok sh (rb\<lparr>routes := (routes rb)[i := remove1 p ?s]\<rparr>)"
    proof (rule rib_ok_shrink_slot [OF assms(1) i(1)])
      show "remove1 p ?s \<noteq> []" by (simp add: r)
      show "set (remove1 p ?s) \<subseteq> set ?s" by (rule set_remove1_subset)
      show "set (tl (remove1 p ?s)) \<subseteq> set (tl ?s)" unfolding r by (simp add: set_remove1_subset)
      show "distinct (remove1 p ?s)" using d by simp
    qed
    moreover have "rib_routes (rb\<lparr>routes := (routes rb)[i := remove1 p ?s]\<rparr>) = rib_routes rb - {p}"
      using rib_routes_update [OF i(1) dc, of "remove1 p ?s"] d i(2) mem
      by (auto simp: set_remove1_eq rib_routes_def)
    ultimately show ?thesis using False i(2) by (simp add: unlink_route_def)
  next
    case True
    then have s: "?s = p # tl ?s" using i(2) by (cases ?s) auto
    define rb1 where "rb1 = (if tl ?s = [] then rb\<lparr>routes := take i (routes rb) @ drop (i + 1) (routes rb)\<rparr>
      else rb\<lparr>routes := (routes rb)[i := tl ?s]\<rparr>)"
    have rb1: "rib_ok sh rb1 \<and> rib_routes rb1 = rib_routes rb - {p} \<and> rib_heap rb1 = rib_heap rb \<and>
        max_route_slots rb1 = max_route_slots rb"
    proof (cases "tl ?s = []")
      case True
      then have s1: "?s = [p]" using s by simp
      have "rib_routes rb1 = rib_routes rb - {p}"
        using dc True unfolding rb1_def rib_routes_def rib_split [OF i(1)] s1 by auto
      then show ?thesis
        using True rib_ok_drop_slot [OF assms(1) i(1)] by (simp add: rb1_def)
    next
      case False
      have dt: "distinct (tl ?s)" using d by (rule distinct_tl)
      have st: "set (tl ?s) \<subseteq> set ?s" "set (tl (tl ?s)) \<subseteq> set (tl ?s)"
        by (metis list.set_sel(2) list.sel(2) subsetI)+
      have "set (tl ?s) = set ?s - {p}" using s d by (metis distinct.simps(2) set_ConsD Diff_insert_absorb list.simps(15))
      then have "rib_routes rb1 = rib_routes rb - {p}"
        using rib_routes_update [OF i(1) dc, of "tl ?s"] i(2) mem st(1) False
        by (auto simp: rb1_def rib_routes_def)
      then show ?thesis
        using False rib_ok_shrink_slot [OF assms(1) i(1) False st dt] by (simp add: rb1_def)
    qed
    have eq: "unlink_route ro p i rb =
       (if length (routes rb1) = 0 then map_option snd (resize_route_table ro 0 rb1)
        else if max_route_slots rb1 > 8 \<and> length (routes rb1) < max_route_slots rb1 div 4
          then map_option snd (resize_route_table ro (max_route_slots rb1 div 2) rb1)
        else Some rb1)"
      using True by (simp add: unlink_route_def rb1_def Let_def)
    have resized: "\<exists>rb'. map_option snd (resize_route_table ro m rb1) = Some rb' \<and> rib_ok sh rb' \<and>
        rib_routes rb' = rib_routes rb - {p} \<and> rib_heap rb' = rib_heap rb"
      if m: "m \<ge> length (routes rb1)" for m
    proof -
      obtain rc rb' where r: "resize_route_table ro m rb1 = Some (rc, rb')"
        using resize_route_table_total [OF m] by blast
      then show ?thesis using rib_ok_resize [OF _ r] rb1 by (auto simp: rib_routes_def)
    qed
    show ?thesis unfolding eq using rb1 resized [of 0] resized [of "max_route_slots rb1 div 2"]
      by (auto split: if_splits)
  qed
qed

text \<open>
  C26: (invariant) Unlinking a route that is in the table never dereferences NULL or trips an
  assertion, removes that route and no other, drops its slot when it was the last, and
  keeps the invariant, whether or not the array could be shrunk.
\<close>

theorem unlink_route_invariant:
  assumes "rib_ok sh rb" and "p \<in> rib_routes rb" and "slot_of_route sh p rb = Found i"
  shows "\<exists>rb'. unlink_route ro p i rb = Some rb' \<and> rib_ok sh rb' \<and>
    rib_routes rb' = rib_routes rb - {p} \<and> rib_heap rb' = rib_heap rb"
  using assms by (rule unlink_route_ok)

section \<open>Moving the installed route to the head\<close>

lemma rib_shape_permute_slot:
  assumes "rib_shape sh rb" and "i < length (routes rb)" and "set slot = set (routes rb ! i)"
    and "distinct slot"
  shows "rib_shape sh (rb\<lparr>routes := (routes rb)[i := slot]\<rparr>)"
proof -
  let ?s = "routes rb ! i"
  have mem: "?s \<in> set (routes rb)" using assms(2) by simp
  have sd: "same_dest sh (rib_heap rb) ?s" using assms(1) mem by (simp add: rib_shape_def)
  then have ne: "slot \<noteq> []" using assms(3) by (auto simp: same_dest_def)
  then have "hd slot \<in> set ?s" using assms(3) by (metis hd_in_set)
  then have sk: "slot_key sh (rib_heap rb) slot = slot_key sh (rib_heap rb) ?s"
    using sd by (metis same_dest_def slot_key_def)
  show ?thesis
    using assms sd ne sk mem
    by (intro rib_shape_update) (auto simp: same_dest_def rib_shape_def)
qed

lemma move_installed_route_ok:
  assumes "rib_shape sh rb" and "slot_of_route sh p rb = Found i" and "p \<in> rib_routes rb"
    and "r_installed (rib_heap rb p)"
    and "\<forall>q \<in> set (routes rb ! i). r_installed (rib_heap rb q) \<longrightarrow> q = p"
    and "\<forall>j < length (routes rb). j \<noteq> i \<longrightarrow> (\<forall>q \<in> set (tl (routes rb ! j)). \<not> r_installed (rib_heap rb q))"
  shows "\<exists>rb'. move_installed_route p (Found i) rb = Some rb' \<and> rib_ok sh rb' \<and>
    rib_routes rb' = rib_routes rb \<and> rib_heap rb' = rib_heap rb \<and>
    routes rb' = (routes rb)[i := p # remove1 p (routes rb ! i)]"
proof -
  obtain k where "k < length (routes rb)" "p \<in> set (routes rb ! k)" using assms(3) by (auto simp: rib_routes_iff)
  with slot_of_route_member [OF assms(1) this] assms(2) have i: "i < length (routes rb)" "p \<in> set (routes rb ! i)"
    by auto
  let ?s = "routes rb ! i"
  let ?n = "p # remove1 p ?s"
  let ?rb = "rb\<lparr>routes := (routes rb)[i := ?n]\<rparr>"
  have mem: "?s \<in> set (routes rb)" using i by simp
  have dc: "distinct (concat (routes rb))" using assms(1) by (simp add: rib_shape_def)
  then have d: "distinct ?s" using mem by (simp add: distinct_concat_iff)
  have set: "set ?n = set ?s" using d i(2) by (auto simp: set_remove1_eq)
  have "rib_shape sh ?rb"
    using assms(1) i(1) set d by (intro rib_shape_permute_slot) (auto simp: set_remove1_eq)
  moreover have "heads_installed ?rb"
    unfolding heads_installed_def
  proof (intro ballI)
    fix slot q assume slot: "slot \<in> set (routes ?rb)" and q: "q \<in> set (tl slot)"
    obtain j where j: "j < length (routes rb)" "slot = (routes rb)[i := ?n] ! j"
      using slot by (auto simp: in_set_conv_nth)
    show "\<not> r_installed (rib_heap ?rb q)"
    proof (cases "j = i")
      case True
      then have "q \<in> set (remove1 p ?s)" using q j i by simp
      then show ?thesis using assms(5) d by (auto simp: set_remove1_eq)
    next
      case False
      then show ?thesis using assms(6) j q by auto
    qed
  qed
  moreover have "rib_routes ?rb = rib_routes rb"
  proof -
    have "set ?s \<subseteq> rib_routes rb" using mem by (auto simp: rib_routes_def)
    then show ?thesis
      using rib_routes_update [OF i(1) dc, of ?n] set by auto
  qed
  moreover have "move_installed_route p (Found i) rb = Some ?rb"
  proof (cases "p = hd ?s")
    case True
    then have "?n = ?s" using i(2) by (cases ?s) auto
    then show ?thesis using True i assms(4) by (simp add: move_installed_route_def)
  next
    case False
    then show ?thesis using i assms(4) by (simp add: move_installed_route_def)
  qed
  ultimately show ?thesis by (simp add: rib_ok_def)
qed

text \<open>
  (invariant) \<open>move_installed_route\<close> restores the invariant after the installed flag has moved
  to another route of the slot: if that route is now the only installed one of its slot, it
  becomes the head, no route is lost, duplicated or reordered otherwise, and nothing else in
  the table changes.
\<close>

theorem move_installed_route_invariant:
  assumes "rib_shape sh rb" and "slot_of_route sh p rb = Found i" and "p \<in> rib_routes rb"
    and "r_installed (rib_heap rb p)"
    and "\<forall>q \<in> set (routes rb ! i). r_installed (rib_heap rb q) \<longrightarrow> q = p"
    and "\<forall>j < length (routes rb). j \<noteq> i \<longrightarrow> (\<forall>q \<in> set (tl (routes rb ! j)). \<not> r_installed (rib_heap rb q))"
  shows "\<exists>rb'. move_installed_route p (Found i) rb = Some rb' \<and> rib_ok sh rb' \<and>
    rib_routes rb' = rib_routes rb \<and> rib_heap rb' = rib_heap rb \<and>
    routes rb' = (routes rb)[i := p # remove1 p (routes rb ! i)]"
  using assms by (rule move_installed_route_ok)

section \<open>Source-specific routes first\<close>

lemma specific_first_sorted:
  assumes "sorted_by (slot_key sh h) slots"
  shows "sorted_wrt (\<lambda>a b. s_src_plen (sh (r_src (h (hd b)))) \<noteq> 0 \<longrightarrow> s_src_plen (sh (r_src (h (hd a)))) \<noteq> 0) slots"
proof -
  have *: "fst x \<longrightarrow> fst y" if "x < y" for x y :: "bool \<times> 'k::linorder"
    using that by (cases x; cases y) auto
  show ?thesis
    using assms unfolding sorted_by_def
  proof (rule sorted_wrt_mono_rel [rotated])
    fix a b assume "slot_key sh h a < slot_key sh h b"
    from * [OF this] show "s_src_plen (sh (r_src (h (hd b)))) \<noteq> 0 \<longrightarrow> s_src_plen (sh (r_src (h (hd a)))) \<noteq> 0"
      by (auto simp: slot_key_def src_dest_key_def dest_key_def)
  qed
qed

lemma check_specific_first_aux:
  assumes "sorted_wrt (\<lambda>a b. s_src_plen (route_source sh rb (hd b)) \<noteq> 0 \<longrightarrow>
      s_src_plen (route_source sh rb (hd a)) \<noteq> 0) slots"
    and "specific \<or> (\<forall>slot \<in> set slots. s_src_plen (route_source sh rb (hd slot)) = 0)"
  shows "snd (fold (\<lambda>slot (specific, ok).
            if \<not> ok then (specific, ok)
            else if s_src_plen (route_source sh rb (hd slot)) = 0 then (False, True)
            else if \<not> specific then (specific, False)
            else (specific, True)) slots (specific, True))"
  using assms
proof (induction slots arbitrary: specific)
  case (Cons slot slots)
  show ?case
  proof (cases "s_src_plen (route_source sh rb (hd slot)) = 0")
    case True
    then have "\<forall>slot' \<in> set slots. s_src_plen (route_source sh rb (hd slot')) = 0"
      using Cons.prems(1) by auto
    then show ?thesis using Cons.IH [of False] Cons.prems(1) True by simp
  next
    case False
    then have specific using Cons.prems(2) by simp
    then show ?thesis using Cons.IH [of True] Cons.prems(1) False by simp
  qed
qed simp

lemma check_specific_first_ok: "rib_shape sh rb \<Longrightarrow> check_specific_first sh rb"
  unfolding check_specific_first_def
  using specific_first_sorted [of sh "rib_heap rb" "routes rb"]
  by (intro check_specific_first_aux) (auto simp: rib_shape_def route_source_def)

lemma takeWhile_sorted_filter: "sorted_wrt (\<lambda>a b. P b \<longrightarrow> P a) xs \<Longrightarrow> takeWhile P xs = filter P xs"
  by (induction xs) (auto simp: filter_empty_conv)

section \<open>What a stream returns\<close>

definition installed_heads :: "rib \<Rightarrow> ptr list list \<Rightarrow> ptr list" where
  "installed_heads rb slots = filter (\<lambda>p. r_installed (rib_heap rb p)) (map hd slots)"

definition stream_slots :: "(ptr \<Rightarrow> source) \<Rightarrow> rib \<Rightarrow> stream_kind \<Rightarrow> ptr list list \<Rightarrow> ptr list list" where
  "stream_slots sh rb which slots =
     (if which = ROUTE_SS_INSTALLED
      then takeWhile (\<lambda>slot. s_src_plen (route_source sh rb (hd slot)) \<noteq> 0) slots else slots)"

lemma stream_skip_spec:
  assumes "i \<le> length (routes rb)" and "which \<noteq> ROUTE_ALL"
  shows "(case stream_skip sh rb which i of (j, early) \<Rightarrow>
     i \<le> j \<and> j \<le> length (routes rb) \<and>
     installed_heads rb (stream_slots sh rb which (drop i (routes rb))) =
       (if \<not> early \<and> j < length (routes rb)
        then hd (routes rb ! j) # installed_heads rb (stream_slots sh rb which (drop (Suc j) (routes rb)))
        else []))"
  using assms
proof (induction sh rb which i rule: stream_skip.induct)
  case (1 sh rb which i)
  note step = stream_skip.simps [of sh rb which i]
  show ?case
  proof (cases "i < length (routes rb)")
    case False
    then have "stream_skip sh rb which i = (i, False)" by (simp add: step)
    then show ?thesis using "1.prems"(1) False by (simp add: installed_heads_def stream_slots_def)
  next
    case True
    then have d: "drop i (routes rb) = routes rb ! i # drop (Suc i) (routes rb)" by (simp add: Cons_nth_drop_Suc)
    show ?thesis
    proof (cases "which = ROUTE_SS_INSTALLED \<and> s_src_plen (route_source sh rb (hd (routes rb ! i))) = 0")
      case early: True
      then have "stream_skip sh rb which i = (i, True)" unfolding step using True by simp
      then show ?thesis using early True by (simp add: d installed_heads_def stream_slots_def)
    next
      case nearly: False
      show ?thesis
      proof (cases "r_installed (rib_heap rb (hd (routes rb ! i)))")
        case inst: True
        have "stream_skip sh rb which i = (i, False)" using True nearly inst by (auto simp: step)
        then show ?thesis using inst True nearly by (auto simp: d installed_heads_def stream_slots_def)
      next
        case False
        have IH: "case stream_skip sh rb which (i + 1) of (j, early) \<Rightarrow>
           i + 1 \<le> j \<and> j \<le> length (routes rb) \<and>
           installed_heads rb (stream_slots sh rb which (drop (i + 1) (routes rb))) =
             (if \<not> early \<and> j < length (routes rb)
              then hd (routes rb ! j) # installed_heads rb (stream_slots sh rb which (drop (Suc j) (routes rb)))
              else [])"
          using "1.IH" [OF True nearly False] True "1.prems"(2) by simp
        have "installed_heads rb (stream_slots sh rb which (drop i (routes rb))) =
            installed_heads rb (stream_slots sh rb which (drop (Suc i) (routes rb)))"
          using nearly False by (auto simp: d installed_heads_def stream_slots_def)
        moreover have "stream_skip sh rb which i = stream_skip sh rb which (i + 1)"
          using True nearly False by (auto simp: step)
        ultimately show ?thesis using IH by (auto split: prod.splits)
      qed
    qed
  qed
qed

lemma drain_installed:
  assumes "which \<noteq> ROUTE_ALL" and "i \<le> length (routes rb)" and "length (routes rb) - i < n"
  shows "drain n sh rb \<lparr>rs_index = int i, rs_installed = which, rs_next = None\<rparr> =
    installed_heads rb (stream_slots sh rb which (drop i (routes rb)))"
  using assms
proof (induction n arbitrary: i)
  case (Suc n)
  obtain j early where s: "stream_skip sh rb which i = (j, early)" by force
  note spec = stream_skip_spec [OF Suc.prems(2,1), of sh, unfolded s prod.case]
  show ?case
  proof (cases "\<not> early \<and> j < length (routes rb)")
    case False
    then show ?thesis using spec Suc.prems(1) by (auto simp: route_stream_next_def s)
  next
    case True
    then have "drain n sh rb \<lparr>rs_index = int (Suc j), rs_installed = which, rs_next = None\<rparr> =
        installed_heads rb (stream_slots sh rb which (drop (Suc j) (routes rb)))"
      using Suc.prems spec by (intro Suc.IH) auto
    then show ?thesis using True spec Suc.prems(1) by (simp add: route_stream_next_def s algebra_simps)
  qed
qed simp

lemma installed_head_iff:
  assumes "rib_ok sh rb" and "slot \<in> set (routes rb)" and "p \<in> set slot" and "r_installed (rib_heap rb p)"
  shows "hd slot = p"
proof -
  obtain q qs where "slot = q # qs" using assms(3) by (cases slot) auto
  then show ?thesis using assms by (auto simp: rib_ok_def heads_installed_def)
qed

lemma installed_heads_set:
  assumes "rib_ok sh rb" and "set slots \<subseteq> set (routes rb)"
  shows "set (installed_heads rb slots) = {p. p \<in> set (concat slots) \<and> r_installed (rib_heap rb p)}"
proof -
  have "slot \<noteq> []" if "slot \<in> set slots" for slot
    using that assms by (auto simp: rib_ok_def rib_shape_def same_dest_def)
  moreover have "hd slot = p" if "slot \<in> set slots" "p \<in> set slot" "r_installed (rib_heap rb p)" for slot p
    using that installed_head_iff [OF assms(1)] assms(2) by blast
  ultimately show ?thesis by (force simp: installed_heads_def)
qed

lemma route_streams_spec:
  assumes "rib_ok sh rb"
  shows "set (stream_routes sh rb ROUTE_INSTALLED) = {p \<in> rib_routes rb. r_installed (rib_heap rb p)} \<and>
    set (stream_routes sh rb ROUTE_SS_INSTALLED) =
      {p \<in> rib_routes rb. r_installed (rib_heap rb p) \<and> s_src_plen (route_source sh rb p) \<noteq> 0} \<and>
    distinct (stream_routes sh rb ROUTE_INSTALLED) \<and> check_specific_first sh rb"
proof -
  have shape: "rib_shape sh rb" using assms by (simp add: rib_ok_def)
  have s: "stream_routes sh rb which = installed_heads rb (stream_slots sh rb which (routes rb))"
    if "which \<noteq> ROUTE_ALL" for which
    using drain_installed [OF that, of 0 rb] that by (simp add: stream_routes_def route_stream_def del: drain.simps)
  have "set (stream_routes sh rb ROUTE_INSTALLED) = {p \<in> rib_routes rb. r_installed (rib_heap rb p)}"
    using installed_heads_set [OF assms, of "routes rb"] by (simp add: s stream_slots_def rib_routes_def)
  moreover have "set (stream_routes sh rb ROUTE_SS_INSTALLED) =
      {p \<in> rib_routes rb. r_installed (rib_heap rb p) \<and> s_src_plen (route_source sh rb p) \<noteq> 0}"
  proof -
    let ?P = "\<lambda>slot. s_src_plen (route_source sh rb (hd slot)) \<noteq> 0"
    have "sorted_wrt (\<lambda>a b. ?P b \<longrightarrow> ?P a) (routes rb)"
      using specific_first_sorted [of sh "rib_heap rb" "routes rb"] shape by (simp add: rib_shape_def route_source_def)
    then have tw: "takeWhile ?P (routes rb) = filter ?P (routes rb)"
      by (rule takeWhile_sorted_filter)
    have "s_src_plen (route_source sh rb (hd slot)) = s_src_plen (route_source sh rb p)"
      if "slot \<in> set (routes rb)" "p \<in> set slot" for slot p
    proof -
      have "src_dest_key (sh (r_src (rib_heap rb p))) = slot_key sh (rib_heap rb) slot"
        using shape that by (auto simp: rib_shape_def same_dest_def)
      then show ?thesis by (simp add: slot_key_def src_dest_key_def dest_key_def route_source_def)
    qed
    then show ?thesis
      using installed_heads_set [OF assms, of "filter ?P (routes rb)"]
      by (auto simp: s stream_slots_def tw [simplified] rib_routes_def)
  qed
  moreover have "distinct (stream_routes sh rb ROUTE_INSTALLED)"
  proof -
    have "distinct (map hd slots)" if "distinct (concat slots)" "\<forall>slot \<in> set slots. slot \<noteq> []" for slots :: "ptr list list"
      using that
    proof (induction slots)
      case (Cons a slots)
      have "hd a \<notin> set (map hd slots)"
      proof
        assume "hd a \<in> set (map hd slots)"
        then obtain x where x: "x \<in> set slots" "hd a = hd x" by auto
        have "hd a \<in> set a" "hd x \<in> set x" using Cons.prems(2) x(1) by auto
        then have "hd a \<in> set a" "hd a \<in> set (concat slots)" using x by auto
        then show False using Cons.prems(1) by auto
      qed
      then show ?case using Cons by simp
    qed simp
    then have "distinct (map hd (routes rb))"
      using shape by (auto simp: rib_shape_def same_dest_def)
    then show ?thesis by (simp add: s stream_slots_def installed_heads_def)
  qed
  ultimately show ?thesis using check_specific_first_ok [OF shape] by blast
qed


section \<open>Lookups\<close>

lemma find_route_slot_dest:
  assumes "rib_shape sh rb"
  shows "(case find_route_slot sh prefix plen src_prefix src_plen rb of
      Found i \<Rightarrow> i < length (routes rb) \<and>
        (\<forall>p \<in> rib_routes rb. src_dest_key (route_source sh rb p) = dest_key prefix plen src_prefix src_plen \<longleftrightarrow>
           p \<in> set (routes rb ! i))
    | Missing _ \<Rightarrow> \<forall>p \<in> rib_routes rb. src_dest_key (route_source sh rb p) \<noteq> dest_key prefix plen src_prefix src_plen)"
proof -
  have key: "src_dest_key (route_source sh rb p) = slot_key sh (rib_heap rb) slot"
    if "slot \<in> set (routes rb)" "p \<in> set slot" for slot p
    using that assms by (auto simp: rib_shape_def same_dest_def route_source_def)
  show ?thesis
  proof (cases "find_route_slot sh prefix plen src_prefix src_plen rb")
    case (Missing n)
    then show ?thesis
      using find_route_slot_missing_notin [OF assms Missing] key by (auto simp: rib_routes_def)
  next
    case (Found i)
    note f = find_route_slot_found [OF Found]
    have "p \<in> set (routes rb ! i)"
      if p: "p \<in> rib_routes rb" "src_dest_key (route_source sh rb p) = dest_key prefix plen src_prefix src_plen" for p
    proof -
      obtain j where j: "j < length (routes rb)" "p \<in> set (routes rb ! j)" using p(1) by (auto simp: rib_routes_iff)
      then have "slot_key sh (rib_heap rb) (routes rb ! j) = dest_key prefix plen src_prefix src_plen"
        using key p(2) by (metis nth_mem)
      then show ?thesis using find_route_slot_complete [OF assms j(1)] Found j by simp
    qed
    moreover have "src_dest_key (route_source sh rb p) = dest_key prefix plen src_prefix src_plen"
      if "p \<in> set (routes rb ! i)" for p
      using key [OF nth_mem that] f by simp
    ultimately show ?thesis using f Found by auto
  qed
qed

lemma find_routes_spec:
  assumes "rib_ok sh rb"
  shows "(\<forall>p. find_installed_route sh prefix plen src_prefix src_plen rb = Some p \<longleftrightarrow>
      p \<in> rib_routes rb \<and> r_installed (rib_heap rb p) \<and>
      src_dest_key (route_source sh rb p) = dest_key prefix plen src_prefix src_plen) \<and>
    (find_route sh prefix plen src_prefix src_plen neigh nexthop rb = None \<longleftrightarrow>
      (\<forall>p \<in> rib_routes rb. src_dest_key (route_source sh rb p) = dest_key prefix plen src_prefix src_plen \<longrightarrow>
         r_neigh (rib_heap rb p) \<noteq> neigh \<or> take 16 (r_nexthop (rib_heap rb p)) \<noteq> take 16 nexthop))"
proof -
  have shape: "rib_shape sh rb" using assms by (simp add: rib_ok_def)
  note d = find_route_slot_dest [OF shape, of prefix plen src_prefix src_plen]
  show ?thesis
  proof (cases "find_route_slot sh prefix plen src_prefix src_plen rb")
    case (Missing n)
    then show ?thesis using d by (auto simp: find_installed_route_def find_route_def)
  next
    case (Found i)
    let ?s = "routes rb ! i"
    have i: "i < length (routes rb)" and mem: "?s \<in> set (routes rb)" using d Found by auto
    have sub: "set ?s \<subseteq> rib_routes rb" using mem by (auto simp: rib_routes_def)
    have k: "p \<in> rib_routes rb \<Longrightarrow>
        src_dest_key (route_source sh rb p) = dest_key prefix plen src_prefix src_plen \<longleftrightarrow> p \<in> set ?s" for p
      using d Found by simp
    have "?s \<noteq> []" using shape mem by (auto simp: rib_shape_def same_dest_def)
    then have "find_installed_route sh prefix plen src_prefix src_plen rb = Some p \<longleftrightarrow>
        p \<in> set ?s \<and> r_installed (rib_heap rb p)" for p
      using Found installed_head_iff [OF assms mem] by (auto simp: find_installed_route_def)
    moreover have "find_route sh prefix plen src_prefix src_plen neigh nexthop rb = None \<longleftrightarrow>
        (\<forall>p \<in> set ?s. r_neigh (rib_heap rb p) \<noteq> neigh \<or> take 16 (r_nexthop (rib_heap rb p)) \<noteq> take 16 nexthop)"
      using Found by (auto simp: find_route_def find_None_iff)
    ultimately show ?thesis using sub k by blast
  qed
qed


section \<open>A concrete table\<close>

text \<open>One IPv6 route, installed, through one source; the witnesses use it.\<close>

definition a_source :: source where
  "a_source = new_source (replicate 8 1) (replicate 16 2) 64 zeroes 0 7 100"

definition a_route :: babel_route where
  "a_route = route_zero\<lparr>r_src := 1, r_installed := True, r_neigh := 1\<rparr>"

definition one_route :: rib where
  "one_route = \<lparr>rib_heap = (\<lambda>p. if p = 5 then a_route else route_zero\<lparr>r_src := 1\<rparr>), routes = [[5]],
     max_route_slots = 8, rib_fresh = 7\<rparr>"

lemma one_route_ok: "rib_ok (\<lambda>_. a_source) one_route"
  by (simp add: rib_ok_def rib_shape_def heads_installed_def one_route_def same_dest_def slot_key_def sorted_by_def)

lemma one_route_slot: "slot_of_route (\<lambda>_. a_source) p one_route = Found 0"
  by (simp add: slot_of_route_def find_route_slot_def slot_search_def slot_loop.simps route_source_def
      one_route_def route_compare_def a_source_def new_source_def Let_def)

theorem insert_route_invariant_witness:
  "\<exists>rb'. insert_route True (\<lambda>_. a_source) 6 one_route = Some (Some 6, rb') \<and> rib_ok (\<lambda>_. a_source) rb'"
proof -
  obtain rb' where i: "insert_route True (\<lambda>_. a_source) 6 one_route = Some (Some 6, rb')"
  proof -
    have "\<not> r_installed (rib_heap one_route 6)" by (simp add: one_route_def route_zero_def)
    then show ?thesis using that by (simp add: insert_route_def one_route_slot)
  qed
  show ?thesis
    using insert_route_invariant [OF one_route_ok _ _ i] i
    by (simp add: one_route_def rib_routes_def)
qed

theorem unlink_route_invariant_witness:
  "\<exists>rb'. unlink_route True 5 0 one_route = Some rb' \<and> rib_ok (\<lambda>_. a_source) rb' \<and> rib_routes rb' = {}"
proof -
  have r: "rib_routes one_route = {5}" by (simp add: one_route_def rib_routes_def)
  then have "5 \<in> rib_routes one_route" by simp
  from unlink_route_invariant [OF one_route_ok this one_route_slot, of True] show ?thesis by (auto simp: r)
qed

theorem move_installed_route_invariant_witness:
  "\<exists>rb'. move_installed_route 5 (Found 0) one_route = Some rb' \<and> rib_ok (\<lambda>_. a_source) rb'"
proof -
  have shape: "rib_shape (\<lambda>_. a_source) one_route" using one_route_ok by (simp add: rib_ok_def)
  have "5 \<in> rib_routes one_route" "r_installed (rib_heap one_route 5)" "routes one_route = [[5]]"
    by (simp_all add: one_route_def rib_routes_def a_route_def)
  with move_installed_route_invariant [OF shape one_route_slot this(1,2)] show ?thesis by fastforce
qed



end
