(* ===== verification/Prefix.thy ===== *)
theory Prefix
  imports Util
begin

text \<open>
  The prefix operations of \<open>util.c\<close> and \<open>util.h\<close>: \<open>in_prefix\<close>, \<open>normalize_prefix\<close>,
  \<open>prefix_cmp\<close>, \<open>martian_prefix\<close>, with the bits of an address as their specification.
  \<open>prefix_cmp\<close> is given the bytes from its pointers on (16 or more): as written it reads
  one byte further than the one it means, see the last section.
\<close>

section \<open>The operations\<close>

definition in_prefix :: "byte list \<Rightarrow> byte list \<Rightarrow> nat \<Rightarrow> bool" where
  "in_prefix address prefix plen0 =
     (let plen = (if 128 < plen0 then 128 else plen0) in
      if memcmp address prefix (plen div 8) \<noteq> 0 then False
      else if plen mod 8 = 0 then True
      else let m = push_bit (8 - plen mod 8) 0xFF
           in address ! (plen div 8) AND m = prefix ! (plen div 8) AND m)"

definition normalize_prefix :: "byte list \<Rightarrow> nat \<Rightarrow> byte list" where
  "normalize_prefix prefix plen =
     (if 128 \<le> plen then take 16 prefix
      else let ret = take (plen div 8) prefix @ replicate (16 - plen div 8) 0
           in if plen mod 8 \<noteq> 0
              then ret[plen div 8 := prefix ! (plen div 8) AND push_bit (8 - plen mod 8) 0xFF]
              else ret)"

datatype prefix_status = PST_EQUALS | PST_DISJOINT | PST_MORE_SPECIFIC | PST_LESS_SPECIFIC

definition prefix_cmp :: "byte list \<Rightarrow> nat \<Rightarrow> byte list \<Rightarrow> nat \<Rightarrow> prefix_status" where
  "prefix_cmp p1 plen1 p2 plen2 =
     (let plen = min plen1 plen2; i = plen div 8 + 1; mask = push_bit (plen mod 8) (0xFF :: byte) in
      if v4mapped p1 \<noteq> v4mapped p2 then PST_DISJOINT
      else if memcmp p1 p2 (plen div 8) \<noteq> 0 then PST_DISJOINT
      else if plen mod 8 \<noteq> 0 \<and> p1 ! i AND mask \<noteq> p2 ! i AND mask then PST_DISJOINT
      else if plen1 < plen2 then PST_LESS_SPECIFIC
      else if plen2 < plen1 then PST_MORE_SPECIFIC
      else PST_EQUALS)"

definition martian_prefix :: "byte list \<Rightarrow> nat \<Rightarrow> bool" where
  "martian_prefix prefix plen \<longleftrightarrow>
     (8 \<le> plen \<and> prefix ! 0 = 0xFF) \<or>
     (10 \<le> plen \<and> prefix ! 0 = 0xFE \<and> prefix ! 1 AND 0xC0 = 0x80) \<or>
     (128 \<le> plen \<and> memcmp prefix zeroes 15 = 0 \<and> (prefix ! 15 = 0 \<or> prefix ! 15 = 1)) \<or>
     (96 \<le> plen \<and> v4mapped prefix \<and>
       ((104 \<le> plen \<and> (prefix ! 12 = 127 \<or> prefix ! 12 = 0)) \<or>
        (100 \<le> plen \<and> prefix ! 12 AND 0xE0 = 0xE0)))"

section \<open>The bits of an address\<close>

definition addr_bit :: "byte list \<Rightarrow> nat \<Rightarrow> bool" where
  "addr_bit a i \<longleftrightarrow> bit (a ! (i div 8)) (7 - i mod 8)"

definition same_bits :: "byte list \<Rightarrow> byte list \<Rightarrow> nat \<Rightarrow> bool" where
  "same_bits a b n \<longleftrightarrow> (\<forall>i < n. addr_bit a i = addr_bit b i)"

lemma bit_high_mask:
  assumes "r \<le> 8"
  shows "bit (push_bit (8 - r) 0xFF :: byte) k \<longleftrightarrow> 8 - r \<le> k \<and> k < 8"
proof -
  have "(0xFF :: byte) = - 1" by simp
  then have "bit (push_bit (8 - r) 0xFF :: byte) k \<longleftrightarrow> bit (push_bit (8 - r) (- 1) :: byte) k" by metis
  then show ?thesis unfolding bit_push_bit_iff by (auto simp: bit_simps)
qed

lemma high_mask_eq_iff:
  assumes "r \<le> 8"
  shows "(x :: byte) AND push_bit (8 - r) 0xFF = y AND push_bit (8 - r) 0xFF \<longleftrightarrow>
    (\<forall>k < r. bit x (7 - k) = bit y (7 - k))"
proof
  assume eq: "x AND push_bit (8 - r) 0xFF = y AND push_bit (8 - r) 0xFF"
  show "\<forall>k < r. bit x (7 - k) = bit y (7 - k)"
  proof (intro allI impI)
    fix k assume "k < r"
    then have "bit (push_bit (8 - r) 0xFF :: byte) (7 - k)"
      unfolding bit_high_mask [OF assms] using assms by linarith
    then show "bit x (7 - k) = bit y (7 - k)" using eq by (metis bit_and_iff)
  qed
next
  assume same: "\<forall>k < r. bit x (7 - k) = bit y (7 - k)"
  show "x AND push_bit (8 - r) 0xFF = y AND push_bit (8 - r) 0xFF"
  proof (rule bit_word_eqI)
    fix n :: nat assume "n < LENGTH(8)"
    then have n: "n < 8" by simp
    show "bit (x AND push_bit (8 - r) 0xFF) n = bit (y AND push_bit (8 - r) 0xFF) n"
    proof (cases "8 - r \<le> n")
      case True
      then have "7 - n < r" and "7 - (7 - n) = n" using n assms by auto
      then show ?thesis using same by (metis bit_and_iff)
    qed (simp add: bit_and_iff bit_high_mask [OF assms])
  qed
qed

lemma byte_eq_bits: "(x :: byte) = y \<longleftrightarrow> (\<forall>k < 8. bit x (7 - k) = bit y (7 - k))"
proof -
  have "(push_bit (8 - 8) 0xFF :: byte) = - 1" by simp
  then show ?thesis using high_mask_eq_iff [of 8 x y] by (metis and.right_neutral order_refl)
qed

text \<open>Bits are grouped by byte.\<close>

lemma all_bits_split:
  "(\<forall>i < (n :: nat). P i) \<longleftrightarrow> (\<forall>j < n div 8. \<forall>k < 8. P (8 * j + k)) \<and> (\<forall>k < n mod 8. P (8 * (n div 8) + k))"
  (is "?l \<longleftrightarrow> ?r")
proof
  assume l: ?l
  have n: "8 * (n div 8) + n mod 8 = n" by simp
  show ?r
  proof (intro conjI allI impI)
    fix j k :: nat assume "j < n div 8" "k < 8"
    then have "8 * j + k < n" using n by linarith
    then show "P (8 * j + k)" using l by blast
  next
    fix k assume "k < n mod 8"
    then have "8 * (n div 8) + k < n" using n by linarith
    then show "P (8 * (n div 8) + k)" using l by blast
  qed
next
  assume r: ?r
  show ?l
  proof (intro allI impI)
    fix i assume i: "i < n"
    have d: "8 * (i div 8) + i mod 8 = i" by simp
    show "P i"
    proof (cases "i div 8 < n div 8")
      case True
      moreover have "i mod 8 < 8" by simp
      ultimately have "P (8 * (i div 8) + i mod 8)" using r by blast
      then show ?thesis using d by simp
    next
      case False
      then have e: "i div 8 = n div 8" using i by (simp add: div_le_mono antisym not_less less_imp_le)
      then have "i mod 8 < n mod 8" using i by (metis div_mult_mod_eq nat_add_left_cancel_less)
      then have "P (8 * (n div 8) + i mod 8)" using r by blast
      then show ?thesis using d e by simp
    qed
  qed
qed

lemma take_eq_iff_nth:
  "length a = 16 \<Longrightarrow> length b = 16 \<Longrightarrow> n \<le> 16 \<Longrightarrow> take n a = take n b \<longleftrightarrow> (\<forall>j < n. a ! j = b ! j)"
  by (auto simp: list_eq_iff_nth_eq)

lemma same_bits_iff:
  assumes "length a = 16" and "length b = 16" and "n \<le> 128"
  shows "same_bits a b n \<longleftrightarrow> take (n div 8) a = take (n div 8) b \<and>
    (\<forall>k < n mod 8. bit (a ! (n div 8)) (7 - k) = bit (b ! (n div 8)) (7 - k))"
proof -
  have "n div 8 \<le> 16" using assms(3) by simp
  then have "take (n div 8) a = take (n div 8) b \<longleftrightarrow> (\<forall>j < n div 8. a ! j = b ! j)"
    by (rule take_eq_iff_nth [OF assms(1,2)])
  moreover have "(\<forall>j < n div 8. a ! j = b ! j) \<longleftrightarrow>
      (\<forall>j < n div 8. \<forall>k < 8. addr_bit a (8 * j + k) = addr_bit b (8 * j + k))"
    by (simp add: byte_eq_bits addr_bit_def)
  moreover have "n mod 8 < 8" by simp
  then have "(\<forall>k < n mod 8. addr_bit a (8 * (n div 8) + k) = addr_bit b (8 * (n div 8) + k)) \<longleftrightarrow>
      (\<forall>k < n mod 8. bit (a ! (n div 8)) (7 - k) = bit (b ! (n div 8)) (7 - k))"
    by (auto simp: addr_bit_def)
  ultimately show ?thesis unfolding same_bits_def by (subst all_bits_split) simp
qed

lemma same_bits_refl [simp]: "same_bits a a n"
  by (simp add: same_bits_def)

lemma same_bits_sym: "same_bits a b n \<Longrightarrow> same_bits b a n"
  by (simp add: same_bits_def)

lemma same_bits_trans: "same_bits a b n \<Longrightarrow> same_bits b c n \<Longrightarrow> same_bits a c n"
  by (simp add: same_bits_def)

lemma same_bits_mono: "same_bits a b n \<Longrightarrow> m \<le> n \<Longrightarrow> same_bits a b m"
  by (simp add: same_bits_def)

section \<open>What the operations compute\<close>

lemma in_prefix_bits:
  assumes "length a = 16" and "length p = 16"
  shows "in_prefix a p plen \<longleftrightarrow> same_bits a p (min plen 128)"
proof -
  let ?n = "min plen 128"
  have n: "?n \<le> 128" "?n mod 8 \<le> 8" by auto
  have "in_prefix a p plen \<longleftrightarrow> take (?n div 8) a = take (?n div 8) p \<and>
      (?n mod 8 \<noteq> 0 \<longrightarrow> a ! (?n div 8) AND push_bit (8 - ?n mod 8) 0xFF =
        p ! (?n div 8) AND push_bit (8 - ?n mod 8) 0xFF)"
    by (auto simp: in_prefix_def Let_def min_def)
  also have "\<dots> \<longleftrightarrow> same_bits a p ?n"
    unfolding same_bits_iff [OF assms n(1)] high_mask_eq_iff [OF n(2)] by (cases "?n mod 8 = 0") auto
  finally show ?thesis .
qed

text \<open>
  C38: \<open>in_prefix\<close> holds exactly when the address has the prefix's first \<open>plen\<close> bits; a
  length above 128 is taken as 128.\<close>

theorem in_prefix_correct:
  assumes "length address = 16" and "length prefix = 16"
  shows "in_prefix address prefix plen \<longleftrightarrow>
    (\<forall>i < min plen 128. addr_bit address i = addr_bit prefix i)"
  using in_prefix_bits [OF assms] by (simp add: same_bits_def)

theorem in_prefix_correct_witness:
  "in_prefix v4prefix v4prefix 200 \<longleftrightarrow>
    (\<forall>i < min 200 128. addr_bit v4prefix i = addr_bit v4prefix i)"
  by (rule in_prefix_correct) (simp_all add: v4prefix_def)

lemma length_normalize_prefix: "length p = 16 \<Longrightarrow> length (normalize_prefix p plen) = 16"
  by (auto simp: normalize_prefix_def Let_def)

lemma bit_normalize_prefix:
  assumes "length p = 16" and "i < 128"
  shows "addr_bit (normalize_prefix p plen) i \<longleftrightarrow> i < plen \<and> addr_bit p i"
proof (cases "128 \<le> plen")
  case True
  then show ?thesis using assms by (simp add: normalize_prefix_def)
next
  case False
  have d: "8 * (i div 8) + i mod 8 = i" "8 * (plen div 8) + plen mod 8 = plen" by simp_all
  have m: "i mod 8 < 8" "plen mod 8 \<le> 8" by auto
  have i16: "i div 8 < 16" "plen div 8 < 16" using assms(2) False by auto
  let ?ret = "take (plen div 8) p @ replicate (16 - plen div 8) (0 :: byte)"
  have len: "length ?ret = 16" using assms(1) i16 by simp
  consider "i div 8 < plen div 8" | "i div 8 = plen div 8" | "plen div 8 < i div 8" by linarith
  then show ?thesis
  proof cases
    case 1
    then have "i < plen" using d m by linarith
    moreover have "normalize_prefix p plen ! (i div 8) = p ! (i div 8)"
      using 1 False assms(1) i16 by (auto simp: normalize_prefix_def Let_def nth_append)
    ultimately show ?thesis by (simp add: addr_bit_def)
  next
    case 2
    have e: "normalize_prefix p plen ! (i div 8) =
        (if plen mod 8 \<noteq> 0 then p ! (i div 8) AND push_bit (8 - plen mod 8) 0xFF else 0)"
      using 2 False assms(1) i16 len by (auto simp: normalize_prefix_def Let_def nth_append)
    have "i < plen \<longleftrightarrow> i mod 8 < plen mod 8" using 2 d by linarith
    moreover have "8 - plen mod 8 \<le> 7 - i mod 8 \<and> 7 - i mod 8 < 8 \<longleftrightarrow> i mod 8 < plen mod 8"
      if "plen mod 8 \<noteq> 0" using m that by linarith
    ultimately show ?thesis
      unfolding addr_bit_def e by (auto simp: bit_and_iff bit_high_mask [OF m(2)])
  next
    case 3
    then have "\<not> i < plen" using d m by linarith
    moreover have "normalize_prefix p plen ! (i div 8) = 0"
      using 3 False assms(1) i16 by (auto simp: normalize_prefix_def Let_def nth_append)
    ultimately show ?thesis by (simp add: addr_bit_def)
  qed
qed

lemma addr_eq_bits:
  assumes "length a = 16" and "length b = 16"
  shows "a = b \<longleftrightarrow> same_bits a b 128"
  using same_bits_iff [OF assms, of 128] assms by simp

text \<open>
  C39: \<open>normalize_prefix\<close> keeps the first \<open>plen\<close> bits and clears the others; the result
  matches the original, and normalising twice changes nothing.\<close>

theorem normalize_prefix_correct:
  assumes "length prefix = 16"
  shows "length (normalize_prefix prefix plen) = 16 \<and>
    (\<forall>i < 128. addr_bit (normalize_prefix prefix plen) i = (i < plen \<and> addr_bit prefix i)) \<and>
    in_prefix prefix (normalize_prefix prefix plen) plen \<and>
    normalize_prefix (normalize_prefix prefix plen) plen = normalize_prefix prefix plen"
proof -
  let ?n = "normalize_prefix prefix plen"
  have len: "length ?n = 16" by (rule length_normalize_prefix [OF assms])
  have bits: "\<forall>i < 128. addr_bit ?n i = (i < plen \<and> addr_bit prefix i)"
    using bit_normalize_prefix [OF assms] by blast
  have "same_bits prefix ?n (min plen 128)" using bits by (simp add: same_bits_def)
  then have "in_prefix prefix ?n plen" using in_prefix_bits [OF assms len] by simp
  moreover have "same_bits (normalize_prefix ?n plen) ?n 128"
    using bits bit_normalize_prefix [OF len] by (auto simp: same_bits_def)
  then have "normalize_prefix ?n plen = ?n"
    using addr_eq_bits [OF length_normalize_prefix [OF len] len] by simp
  ultimately show ?thesis using len bits by blast
qed

theorem normalize_prefix_correct_witness:
  "length (normalize_prefix v4prefix 85) = 16 \<and>
    normalize_prefix (normalize_prefix v4prefix 85) 85 = normalize_prefix v4prefix 85"
proof -
  have "length v4prefix = 16" by (simp add: v4prefix_def)
  from normalize_prefix_correct [OF this, of 85] show ?thesis by simp
qed

section \<open>Comparing prefixes\<close>

text \<open>
  The last partial byte of the shorter prefix is byte \<open>plen / 8\<close>, and its \<open>plen % 8\<close>
  high bits count.  The code reads byte \<open>plen / 8 + 1\<close> and masks with
  \<open>0xFF << (plen % 8)\<close>.  It is right when the shorter length is a whole number of bytes.
\<close>

definition prefix_rel :: "byte list \<Rightarrow> nat \<Rightarrow> byte list \<Rightarrow> nat \<Rightarrow> prefix_status" where
  "prefix_rel p1 plen1 p2 plen2 =
     (if v4mapped p1 \<noteq> v4mapped p2 \<or> \<not> same_bits p1 p2 (min plen1 plen2) then PST_DISJOINT
      else if plen1 < plen2 then PST_LESS_SPECIFIC
      else if plen2 < plen1 then PST_MORE_SPECIFIC
      else PST_EQUALS)"

lemma same_bits_take:
  assumes "n \<le> 128"
  shows "same_bits (take 16 a) (take 16 b) n \<longleftrightarrow> same_bits a b n"
proof -
  have "i div 8 < 16" if "i < n" for i using that assms by simp
  then show ?thesis by (simp add: same_bits_def addr_bit_def)
qed

text \<open>
  When the shorter of the two lengths is a multiple of 8, \<open>prefix_cmp\<close> classifies the
  pair by the bits they share: disjoint, equal, or one more specific than the other.\<close>

theorem prefix_cmp_whole_bytes:
  assumes "16 \<le> length p1" and "16 \<le> length p2" and "min plen1 plen2 \<le> 128"
    and "min plen1 plen2 mod 8 = 0"
  shows "prefix_cmp p1 plen1 p2 plen2 = prefix_rel p1 plen1 p2 plen2"
proof -
  let ?n = "min plen1 plen2"
  have n16: "?n div 8 \<le> 16" using assms(3) by simp
  have "same_bits p1 p2 ?n \<longleftrightarrow> take (?n div 8) (take 16 p1) = take (?n div 8) (take 16 p2)"
    using same_bits_iff [of "take 16 p1" "take 16 p2" ?n] same_bits_take [OF assms(3)] assms by simp
  also have "\<dots> \<longleftrightarrow> take (?n div 8) p1 = take (?n div 8) p2" using n16 by (simp add: min_absorb1)
  finally show ?thesis using assms(4) by (simp add: prefix_cmp_def prefix_rel_def Let_def)
qed

theorem prefix_cmp_whole_bytes_witness:
  "prefix_cmp llprefix 16 zeroes 24 = prefix_rel llprefix 16 zeroes 24"
  by (rule prefix_cmp_whole_bytes) (simp_all add: llprefix_def zeroes_def)

text \<open>
  When the length is not a multiple of 8, \<open>prefix_cmp\<close> never looks at the byte that holds
  the last bits of the prefix: whatever that byte is changed to, the two prefixes compare as
  equal, even when the change flips a bit of the prefix and makes them disjoint.\<close>

theorem prefix_cmp_ignores_last_byte:
  assumes "96 < plen" and "plen < 128" and "plen mod 8 \<noteq> 0" and "16 < length p"
  shows "prefix_cmp (p[plen div 8 := x]) plen p plen = PST_EQUALS \<and>
    (bit x 7 \<noteq> bit (p ! (plen div 8)) 7 \<longrightarrow>
      prefix_rel (p[plen div 8 := x]) plen p plen = PST_DISJOINT)"
proof (intro conjI impI)
  let ?n = "plen div 8"
  have n: "12 \<le> ?n" "?n < length p" using assms by auto
  have "take 12 (p[?n := x]) = take 12 p" using n(1) by (simp add: take_update_cancel)
  moreover have "take ?n (p[?n := x]) = take ?n p" by (simp add: take_update_cancel)
  ultimately show "prefix_cmp (p[?n := x]) plen p plen = PST_EQUALS"
    by (simp add: prefix_cmp_def Let_def v4mapped_def v4mapped2_def)
  assume "bit x 7 \<noteq> bit (p ! ?n) 7"
  then have "addr_bit (p[?n := x]) (8 * ?n) \<noteq> addr_bit p (8 * ?n)"
    using n by (simp add: addr_bit_def)
  moreover have "8 * ?n < plen"
    using assms(3) by (metis mult_div_mod_eq less_add_same_cancel1 neq0_conv)
  ultimately show "prefix_rel (p[?n := x]) plen p plen = PST_DISJOINT"
    by (auto simp: prefix_rel_def same_bits_def)
qed

theorem prefix_cmp_ignores_last_byte_witness:
  "prefix_cmp (v4tov6 [138, 0, 0, 0] @ zeroes) 97 (v4tov6 [10, 0, 0, 0] @ zeroes) 97 = PST_EQUALS \<and>
   prefix_rel (v4tov6 [138, 0, 0, 0] @ zeroes) 97 (v4tov6 [10, 0, 0, 0] @ zeroes) 97 = PST_DISJOINT"
  using prefix_cmp_ignores_last_byte [of 97 "v4tov6 [10, 0, 0, 0] @ zeroes" 138]
  by (simp add: v4tov6_def v4prefix_def zeroes_def)

end
