(* ===== verification/Filters.thy ===== *)
theory Filters
  imports Prefix
begin

text \<open>
  The route filters of \<open>configuration.c\<close>: \<open>struct filter\<close>, \<open>filter_match\<close>, \<open>do_filter\<close> and
  the four chains built on it, with \<open>add_filter\<close>, \<open>renumber_filter\<close> and the filter that
  \<open>finalise_config\<close> adds.  A pointer that may be NULL is an option.  The metric a filter
  adds is an \<open>unsigned int\<close> that the code returns as an \<open>int\<close>; the configuration keeps it
  between 0 and \<open>INFINITY\<close>.  No caller passes a NULL \<open>prefix\<close>, so that argument is not an option.
\<close>

section \<open>Data\<close>

text \<open>\<open>AF_INET\<close> and \<open>AF_INET6\<close>, and \<open>None\<close> for the 0 that stands for either.\<close>

datatype af = AF_INET | AF_INET6

definition RTPROT_BABEL_LOCAL :: int where
  "RTPROT_BABEL_LOCAL = -2"

definition RTPROT_BOOT :: int where
  "RTPROT_BOOT = 3"

record filter_result =
  fr_src_prefix :: "byte list option"
  fr_add_metric :: int
  fr_table :: nat
  fr_src_plen :: nat

record filter =
  f_ifname :: "string option"
  f_af :: "af option"
  f_ifindex :: nat
  f_id :: "byte list option"
  f_prefix :: "byte list option"
  f_src_prefix :: "byte list option"
  f_plen :: nat
  f_plen_ge :: nat
  f_plen_le :: nat
  f_src_plen :: nat
  f_src_plen_ge :: nat
  f_src_plen_le :: nat
  f_proto :: int
  f_neigh :: "byte list option"
  f_action :: filter_result

text \<open>The zeroed result, and the filter \<open>calloc\<close> returns with the two upper bounds the callers set.\<close>

definition filter_result_zero :: filter_result where
  "filter_result_zero =
     \<lparr>fr_src_prefix = None, fr_add_metric = 0, fr_table = 0, fr_src_plen = 0\<rparr>"

definition filter_any :: filter where
  "filter_any =
     \<lparr>f_ifname = None, f_af = None, f_ifindex = 0, f_id = None, f_prefix = None, f_src_prefix = None,
      f_plen = 0, f_plen_ge = 0, f_plen_le = 128, f_src_plen = 0, f_src_plen_ge = 0, f_src_plen_le = 128,
      f_proto = 0, f_neigh = None, f_action = filter_result_zero\<rparr>"

record filters =
  input_filters :: "filter list"
  output_filters :: "filter list"
  redistribute_filters :: "filter list"
  install_filters :: "filter list"

section \<open>Operations\<close>

definition add_filter :: "filter \<Rightarrow> filter list \<Rightarrow> filter list" where
  "add_filter f fs = fs @ [f]"

definition renumber_filter :: "(string \<Rightarrow> nat) \<Rightarrow> filter list \<Rightarrow> filter list" where
  "renumber_filter if_nametoindex =
     map (\<lambda>f. case f_ifname f of None \<Rightarrow> f | Some name \<Rightarrow> f\<lparr>f_ifindex := if_nametoindex name\<rparr>)"

definition renumber_filters :: "(string \<Rightarrow> nat) \<Rightarrow> filters \<Rightarrow> filters" where
  "renumber_filters if_nametoindex fs =
     \<lparr>input_filters = renumber_filter if_nametoindex (input_filters fs),
      output_filters = renumber_filter if_nametoindex (output_filters fs),
      redistribute_filters = renumber_filter if_nametoindex (redistribute_filters fs),
      install_filters = renumber_filter if_nametoindex (install_filters fs)\<rparr>"

definition filter_match ::
  "filter \<Rightarrow> byte list option \<Rightarrow> byte list \<Rightarrow> nat \<Rightarrow> byte list option \<Rightarrow> nat \<Rightarrow> byte list option \<Rightarrow>
   nat \<Rightarrow> int \<Rightarrow> bool" where
  "filter_match f rid prefix plen src_prefix src_plen neigh ifindex proto =
     (if f_af f \<noteq> None \<and>
         (if plen \<ge> 96 \<and> v4mapped prefix then f_af f = Some AF_INET6 else f_af f = Some AF_INET)
        then False
      else if (case f_id f of None \<Rightarrow> False
               | Some fid \<Rightarrow> (case rid of None \<Rightarrow> True | Some i \<Rightarrow> memcmp fid i 8 \<noteq> 0))
        then False
      else if (case f_prefix f of None \<Rightarrow> False
               | Some p \<Rightarrow> plen < f_plen f \<or> \<not> in_prefix prefix p (f_plen f))
        then False
      else if (case f_src_prefix f of None \<Rightarrow> False
               | Some p \<Rightarrow> (case src_prefix of None \<Rightarrow> True
                 | Some sp \<Rightarrow> src_plen < f_src_plen f \<or> \<not> in_prefix sp p (f_src_plen f)))
        then False
      else if (f_plen_ge f > 0 \<or> f_plen_le f < 128) \<and> (plen > f_plen_le f \<or> plen < f_plen_ge f)
        then False
      else if (f_src_plen_ge f > 0 \<or> f_src_plen_le f < 128) \<and>
              (src_prefix = None \<or> src_plen > f_src_plen_le f \<or> src_plen < f_src_plen_ge f)
        then False
      else if (case f_neigh f of None \<Rightarrow> False
               | Some fn \<Rightarrow> (case neigh of None \<Rightarrow> True | Some n \<Rightarrow> v6_equal fn n))
        then False
      else if f_ifname f \<noteq> None \<and> (f_ifindex f = 0 \<or> ifindex = 0 \<or> f_ifindex f \<noteq> ifindex)
        then False
      else if f_proto f \<noteq> 0 then \<not> (proto = 0 \<or> f_proto f \<noteq> proto)
      else if proto = RTPROT_BABEL_LOCAL then False
      else if proto = RTPROT_BOOT then False
      else True)"

fun do_filter ::
  "filter list \<Rightarrow> byte list option \<Rightarrow> byte list \<Rightarrow> nat \<Rightarrow> byte list option \<Rightarrow> nat \<Rightarrow> byte list option \<Rightarrow>
   nat \<Rightarrow> int \<Rightarrow> int \<times> filter_result" where
  "do_filter [] rid prefix plen src_prefix src_plen neigh ifindex proto = (-1, filter_result_zero)"
| "do_filter (f # fs) rid prefix plen src_prefix src_plen neigh ifindex proto =
     (if filter_match f rid prefix plen src_prefix src_plen neigh ifindex proto
      then (fr_add_metric (f_action f), f_action f)
      else do_filter fs rid prefix plen src_prefix src_plen neigh ifindex proto)"

definition input_filter ::
  "filters \<Rightarrow> byte list option \<Rightarrow> byte list \<Rightarrow> nat \<Rightarrow> byte list option \<Rightarrow> nat \<Rightarrow> byte list option \<Rightarrow> nat \<Rightarrow> int" where
  "input_filter fs rid prefix plen src_prefix src_plen neigh ifindex =
     (let res = fst (do_filter (input_filters fs) rid prefix plen src_prefix src_plen neigh ifindex 0)
      in if res < 0 then 0 else res)"

definition output_filter ::
  "filters \<Rightarrow> byte list option \<Rightarrow> byte list \<Rightarrow> nat \<Rightarrow> byte list option \<Rightarrow> nat \<Rightarrow> nat \<Rightarrow> int" where
  "output_filter fs rid prefix plen src_prefix src_plen ifindex =
     (let res = fst (do_filter (output_filters fs) rid prefix plen src_prefix src_plen None ifindex 0)
      in if res < 0 then 0 else res)"

definition redistribute_filter ::
  "filters \<Rightarrow> byte list \<Rightarrow> nat \<Rightarrow> byte list option \<Rightarrow> nat \<Rightarrow> nat \<Rightarrow> int \<Rightarrow> int \<times> filter_result" where
  "redistribute_filter fs prefix plen src_prefix src_plen ifindex proto =
     (case do_filter (redistribute_filters fs) None prefix plen src_prefix src_plen None ifindex proto of
        (res, result) \<Rightarrow> (if res < 0 then INFINITY_METRIC else res, result))"

definition install_filter ::
  "filters \<Rightarrow> byte list \<Rightarrow> nat \<Rightarrow> byte list option \<Rightarrow> nat \<Rightarrow> int \<times> filter_result" where
  "install_filter fs prefix plen src_prefix src_plen =
     (case do_filter (install_filters fs) None prefix plen src_prefix src_plen None 0 0 of
        (res, result) \<Rightarrow> (if res < 0 then INFINITY_METRIC else res, result))"

text \<open>The filter part of \<open>finalise_config\<close>.\<close>

definition finalise_filters :: "filters \<Rightarrow> filters" where
  "finalise_filters fs =
     fs\<lparr>redistribute_filters :=
          add_filter (filter_any\<lparr>f_proto := RTPROT_BABEL_LOCAL\<rparr>) (redistribute_filters fs)\<rparr>"

section \<open>First match wins\<close>

lemma do_filter_find:
  "do_filter fs rid prefix plen src_prefix src_plen neigh ifindex proto =
     (case find (\<lambda>f. filter_match f rid prefix plen src_prefix src_plen neigh ifindex proto) fs of
        None \<Rightarrow> (-1, filter_result_zero)
      | Some f \<Rightarrow> (fr_add_metric (f_action f), f_action f))"
  by (induction fs) auto

lemma do_filter_append:
  "do_filter (fs @ gs) rid prefix plen src_prefix src_plen neigh ifindex proto =
     (if \<exists>f \<in> set fs. filter_match f rid prefix plen src_prefix src_plen neigh ifindex proto
      then do_filter fs rid prefix plen src_prefix src_plen neigh ifindex proto
      else do_filter gs rid prefix plen src_prefix src_plen neigh ifindex proto)"
  by (induction fs) auto

lemma do_filter_bounds:
  assumes "\<forall>f \<in> set fs. 0 \<le> fr_add_metric (f_action f) \<and> fr_add_metric (f_action f) \<le> INFINITY_METRIC"
  shows "-1 \<le> fst (do_filter fs rid prefix plen src_prefix src_plen neigh ifindex proto) \<and>
    fst (do_filter fs rid prefix plen src_prefix src_plen neigh ifindex proto) \<le> INFINITY_METRIC"
  using assms by (induction fs) (auto simp: INFINITY_METRIC_def)

definition filters_ok :: "filters \<Rightarrow> bool" where
  "filters_ok fs \<longleftrightarrow>
     (\<forall>f \<in> set (input_filters fs) \<union> set (output_filters fs) \<union> set (redistribute_filters fs) \<union> set (install_filters fs).
        0 \<le> fr_add_metric (f_action f) \<and> fr_add_metric (f_action f) \<le> INFINITY_METRIC)"

lemma input_filter_bounds:
  "filters_ok fs \<Longrightarrow> 0 \<le> input_filter fs rid prefix plen src_prefix src_plen neigh ifindex \<and>
    input_filter fs rid prefix plen src_prefix src_plen neigh ifindex \<le> INFINITY_METRIC"
  using do_filter_bounds [of "input_filters fs" rid prefix plen src_prefix src_plen neigh ifindex 0]
  by (auto simp: input_filter_def filters_ok_def INFINITY_METRIC_def Let_def)

lemma output_filter_bounds:
  "filters_ok fs \<Longrightarrow> 0 \<le> output_filter fs rid prefix plen src_prefix src_plen ifindex \<and>
    output_filter fs rid prefix plen src_prefix src_plen ifindex \<le> INFINITY_METRIC"
  using do_filter_bounds [of "output_filters fs" rid prefix plen src_prefix src_plen None ifindex 0]
  by (auto simp: output_filter_def filters_ok_def INFINITY_METRIC_def Let_def)

section \<open>Properties\<close>

text \<open>
  (functional) The redistribution chain that \<open>finalise_config\<close> leaves behind: a route that
  no configured filter matches is denied, unless its protocol is \<open>RTPROT_BABEL_LOCAL\<close>; the
  default filter never overrides a configured one.
\<close>

theorem redistribute_default:
  "redistribute_filter (finalise_filters fs) prefix plen src_prefix src_plen ifindex proto =
     (if \<exists>f \<in> set (redistribute_filters fs). filter_match f None prefix plen src_prefix src_plen None ifindex proto
      then redistribute_filter fs prefix plen src_prefix src_plen ifindex proto
      else if proto = RTPROT_BABEL_LOCAL then (0, filter_result_zero)
      else (INFINITY_METRIC, filter_result_zero))"
proof -
  have "filter_match (filter_any\<lparr>f_proto := RTPROT_BABEL_LOCAL\<rparr>) None prefix plen src_prefix src_plen None ifindex proto
      \<longleftrightarrow> proto = RTPROT_BABEL_LOCAL"
    by (auto simp: filter_match_def filter_any_def RTPROT_BABEL_LOCAL_def)
  then show ?thesis
    by (simp add: redistribute_filter_def finalise_filters_def add_filter_def do_filter_append
      filter_any_def filter_result_zero_def)
qed

text \<open>
  (safety) The test on the neighbour is inverted: a filter whose only condition is
  \<open>neigh a\<close> matches the routes of every neighbour except \<open>a\<close>.
\<close>

theorem neigh_filter_inverted:
  "filter_match (filter_any\<lparr>f_neigh := Some a\<rparr>) rid prefix plen src_prefix src_plen (Some n) ifindex 0 \<longleftrightarrow>
   take 16 a \<noteq> take 16 n"
  by (simp add: filter_match_def filter_any_def RTPROT_BABEL_LOCAL_def RTPROT_BOOT_def)

text \<open>
  (safety) A filter for the protocol \<open>RTPROT_BABEL_LOCAL\<close>, the default one included, never
  matches a route whose protocol went through an \<open>unsigned char\<close>, as those of the kernel and
  of the exported routes do: local addresses are not redistributed unless a filter without
  a protocol matches them.
\<close>

theorem local_filter_never_matches:
  "f_proto f = RTPROT_BABEL_LOCAL \<Longrightarrow>
   \<not> filter_match f rid prefix plen src_prefix src_plen neigh ifindex (int (to_uchar k))"
  by (auto simp: filter_match_def RTPROT_BABEL_LOCAL_def)

theorem local_filter_never_matches_witness:
  "\<not> filter_match (filter_any\<lparr>f_proto := RTPROT_BABEL_LOCAL\<rparr>) None zeroes 128 None 0 None 1 (int (to_uchar 254))"
  by (rule local_filter_never_matches) simp

end
