(* ===== verification/Resend.thy ===== *)
theory Resend
  imports Filters
begin

text \<open>
  \<open>resend.c\<close> and \<open>resend.h\<close>: the list of requests and updates that are sent again with an
  exponential back-off, and of the requests being forwarded.  The list \<open>to_resend\<close> is a
  list of addresses into a heap of \<open>struct resend\<close>, its head the most recent; the record
  also holds \<open>resend_time\<close>.  \<open>do_resend\<close>, which sends packets, is in the theory
  \<open>Resend_Timer\<close>.  A timeout whose seconds are 0 stands for none.
\<close>

section \<open>Data\<close>

definition REQUEST_TIMEOUT :: int where
  "REQUEST_TIMEOUT = 65000"

definition RESEND_MAX :: nat where
  "RESEND_MAX = 3"

datatype resend_kind = RESEND_REQUEST | RESEND_UPDATE

record resend =
  q_id :: "byte list"
  q_kind :: resend_kind
  q_plen :: nat
  q_src_plen :: nat
  q_max :: nat
  q_prefix :: "byte list"
  q_src_prefix :: "byte list"
  q_delay :: int
  q_seqno :: u16
  q_time :: timeval
  q_ifp :: "ptr option"

record resend_table =
  rt_heap :: "ptr \<Rightarrow> resend"
  to_resend :: "ptr list"
  resend_time :: timeval
  rt_fresh :: ptr

definition resends_init :: resend_table where
  "resends_init =
     \<lparr>rt_heap = (\<lambda>_. \<lparr>q_id = [], q_kind = RESEND_REQUEST, q_plen = 0, q_src_plen = 0, q_max = 0,
        q_prefix = [], q_src_prefix = [], q_delay = 0, q_seqno = 0, q_time = tv_zero, q_ifp = None\<rparr>),
      to_resend = [], resend_time = tv_zero, rt_fresh = 1\<rparr>"

section \<open>Operations\<close>

definition resend_match :: "resend \<Rightarrow> resend_kind \<Rightarrow> byte list \<Rightarrow> nat \<Rightarrow> byte list \<Rightarrow> nat \<Rightarrow> bool" where
  "resend_match r kind prefix plen src_prefix src_plen \<longleftrightarrow>
     q_kind r = kind \<and> q_plen r = plen \<and> v6_equal (q_prefix r) prefix \<and>
     q_src_plen r = src_plen \<and> v6_equal (q_src_prefix r) src_prefix"

text \<open>The walk of \<open>find_resend\<close> (the predecessor it can return is used by no caller).\<close>

fun find_resend_from ::
  "(ptr \<Rightarrow> resend) \<Rightarrow> ptr list \<Rightarrow> resend_kind \<Rightarrow> byte list \<Rightarrow> nat \<Rightarrow> byte list \<Rightarrow> nat \<Rightarrow> ptr option" where
  "find_resend_from h [] kind prefix plen src_prefix src_plen = None"
| "find_resend_from h (p # ps) kind prefix plen src_prefix src_plen =
     (if resend_match (h p) kind prefix plen src_prefix src_plen then Some p
      else find_resend_from h ps kind prefix plen src_prefix src_plen)"

definition find_resend ::
  "resend_kind \<Rightarrow> byte list \<Rightarrow> nat \<Rightarrow> byte list \<Rightarrow> nat \<Rightarrow> resend_table \<Rightarrow> ptr option" where
  "find_resend kind prefix plen src_prefix src_plen rt =
     find_resend_from (rt_heap rt) (to_resend rt) kind prefix plen src_prefix src_plen"

definition find_request :: "byte list \<Rightarrow> nat \<Rightarrow> byte list \<Rightarrow> nat \<Rightarrow> resend_table \<Rightarrow> ptr option" where
  "find_request prefix plen src_prefix src_plen rt =
     find_resend RESEND_REQUEST prefix plen src_prefix src_plen rt"

definition resend_expired :: "timeval \<Rightarrow> resend \<Rightarrow> bool" where
  "resend_expired now r \<longleftrightarrow>
     (case q_kind r of
        RESEND_REQUEST \<Rightarrow> timeval_minus_msec now (q_time r) \<ge> REQUEST_TIMEOUT
      | RESEND_UPDATE \<Rightarrow> q_max r = 0)"

definition resend_active :: "timeval \<Rightarrow> resend \<Rightarrow> bool" where
  "resend_active now r \<longleftrightarrow> \<not> resend_expired now r \<and> q_delay r > 0 \<and> q_max r > 0"

definition resend_timeout :: "resend \<Rightarrow> timeval" where
  "resend_timeout r = timeval_add_msec (q_time r) (q_delay r)"

fun recompute_loop :: "timeval \<Rightarrow> (ptr \<Rightarrow> resend) \<Rightarrow> ptr list \<Rightarrow> timeval \<Rightarrow> timeval" where
  "recompute_loop now h [] t = t"
| "recompute_loop now h (p # ps) t =
     recompute_loop now h ps
       (if resend_active now (h p) then timeval_min t (resend_timeout (h p)) else t)"

definition recompute_resend_time :: "timeval \<Rightarrow> resend_table \<Rightarrow> resend_table" where
  "recompute_resend_time now rt =
     rt\<lparr>resend_time := recompute_loop now (rt_heap rt) (to_resend rt) tv_zero\<rparr>"

definition unsatisfied_request ::
  "timeval \<Rightarrow> byte list \<Rightarrow> nat \<Rightarrow> byte list \<Rightarrow> nat \<Rightarrow> u16 \<Rightarrow> byte list \<Rightarrow> resend_table \<Rightarrow> bool" where
  "unsatisfied_request now prefix plen src_prefix src_plen seqno rid rt =
     (case find_request prefix plen src_prefix src_plen rt of
        None \<Rightarrow> False
      | Some p \<Rightarrow>
          if resend_expired now (rt_heap rt p) then False
          else memcmp (q_id (rt_heap rt p)) rid 8 \<noteq> 0 \<or>
               seqno_compare (q_seqno (rt_heap rt p)) seqno \<le> 0)"

definition satisfy_request ::
  "timeval \<Rightarrow> byte list \<Rightarrow> nat \<Rightarrow> byte list \<Rightarrow> nat \<Rightarrow> u16 \<Rightarrow> byte list \<Rightarrow> ptr option \<Rightarrow> resend_table \<Rightarrow>
   bool \<times> resend_table" where
  "satisfy_request now prefix plen src_prefix src_plen seqno rid ifp rt =
     (case find_request prefix plen src_prefix src_plen rt of
        None \<Rightarrow> (False, rt)
      | Some p \<Rightarrow>
          let r = rt_heap rt p in
          if ifp \<noteq> None \<and> q_ifp r \<noteq> ifp then (False, rt)
          else if memcmp (q_id r) rid 8 \<noteq> 0 \<or> seqno_compare (q_seqno r) seqno \<le> 0
            then (True, recompute_resend_time now
                    (rt\<lparr>rt_heap := (rt_heap rt)(p := r\<lparr>q_max := 0, q_time := (q_time r)\<lparr>tv_sec := 0\<rparr>\<rparr>)\<rparr>))
            else (False, rt))"

text \<open>
  The pieces of \<open>record_resend\<close>: refreshing the node found, giving it the new identity, the
  node made when there is none, and arming the timer.
\<close>

definition refresh_resend :: "timeval \<Rightarrow> int \<Rightarrow> resend \<Rightarrow> resend" where
  "refresh_resend now delay r =
     r\<lparr>q_delay := (if q_delay r \<noteq> 0 \<and> delay \<noteq> 0 then min (q_delay r) delay
                   else if delay \<noteq> 0 then to_ushort delay else q_delay r),
       q_time := now, q_max := RESEND_MAX\<rparr>"

definition resend_id :: "byte list option \<Rightarrow> byte list" where
  "resend_id rid = (case rid of None \<Rightarrow> replicate 8 0 | Some i \<Rightarrow> take 8 i)"

definition replace_resend :: "u16 \<Rightarrow> byte list option \<Rightarrow> ptr option \<Rightarrow> resend \<Rightarrow> resend" where
  "replace_resend seqno rid ifp r =
     r\<lparr>q_id := resend_id rid, q_seqno := seqno, q_ifp := (if q_ifp r \<noteq> ifp then None else q_ifp r)\<rparr>"

definition new_resend ::
  "timeval \<Rightarrow> resend_kind \<Rightarrow> byte list \<Rightarrow> nat \<Rightarrow> byte list \<Rightarrow> nat \<Rightarrow> u16 \<Rightarrow> byte list option \<Rightarrow> ptr option \<Rightarrow>
   int \<Rightarrow> resend" where
  "new_resend now kind prefix plen src_prefix src_plen seqno rid ifp delay =
     \<lparr>q_id = resend_id rid, q_kind = kind, q_plen = plen, q_src_plen = src_plen, q_max = RESEND_MAX,
      q_prefix = take 16 prefix, q_src_prefix = take 16 src_prefix,
      q_delay = to_ushort delay, q_seqno = seqno, q_time = now, q_ifp = ifp\<rparr>"

definition arm_resend :: "ptr \<Rightarrow> resend_table \<Rightarrow> resend_table" where
  "arm_resend p rt =
     (if q_delay (rt_heap rt p) \<noteq> 0
      then rt\<lparr>resend_time := timeval_min (resend_time rt) (resend_timeout (rt_heap rt p))\<rparr>
      else rt)"

text \<open>The interface is given as its address with its \<open>ifindex\<close>.\<close>

definition record_resend ::
  "bool \<Rightarrow> timeval \<Rightarrow> filters \<Rightarrow> resend_kind \<Rightarrow> byte list \<Rightarrow> nat \<Rightarrow> byte list \<Rightarrow> nat \<Rightarrow> u16 \<Rightarrow>
   byte list option \<Rightarrow> (ptr \<times> nat) option \<Rightarrow> int \<Rightarrow> resend_table \<Rightarrow> int \<times> resend_table" where
  "record_resend calloc_ok now fs kind prefix plen src_prefix src_plen seqno rid iface delay0 rt =
     (let ifindex = (case iface of None \<Rightarrow> 0 | Some (_, i) \<Rightarrow> i);
          ifp = map_option fst iface;
          delay = (if delay0 \<ge> 65535 then 65535 else delay0)
      in
      if (kind = RESEND_REQUEST \<and>
            input_filter fs None prefix plen (Some src_prefix) src_plen None ifindex \<ge> INFINITY_METRIC) \<or>
         (kind = RESEND_UPDATE \<and>
            output_filter fs None prefix plen (Some src_prefix) src_plen ifindex \<ge> INFINITY_METRIC)
      then (0, rt)
      else
        case find_resend kind prefix plen src_prefix src_plen rt of
          Some p \<Rightarrow>
            let r = refresh_resend now delay (rt_heap rt p) in
            if (case rid of None \<Rightarrow> False
                | Some i \<Rightarrow> memcmp (q_id r) i 8 = 0 \<and> seqno_compare (q_seqno r) seqno > 0)
            then (0, rt\<lparr>rt_heap := (rt_heap rt)(p := r)\<rparr>)
            else (1, arm_resend p (rt\<lparr>rt_heap := (rt_heap rt)(p := replace_resend seqno rid ifp r)\<rparr>))
        | None \<Rightarrow>
            if \<not> calloc_ok then (-1, rt)
            else
              let p = rt_fresh rt;
                  r = new_resend now kind prefix plen src_prefix src_plen seqno rid ifp delay
              in (1, arm_resend p
                       (rt\<lparr>rt_heap := (rt_heap rt)(p := r), to_resend := p # to_resend rt,
                           rt_fresh := p + 1\<rparr>)))"

definition request_redundant ::
  "timeval \<Rightarrow> (ptr \<times> int) option \<Rightarrow> byte list \<Rightarrow> nat \<Rightarrow> byte list \<Rightarrow> nat \<Rightarrow> u16 \<Rightarrow> byte list \<Rightarrow>
   resend_table \<Rightarrow> bool" where
  "request_redundant now iface prefix plen src_prefix src_plen seqno rid rt =
     (case find_request prefix plen src_prefix src_plen rt of
        None \<Rightarrow> False
      | Some p \<Rightarrow>
          let r = rt_heap rt p in
          if resend_expired now r then False
          else if memcmp (q_id r) rid 8 = 0 \<and> seqno_compare (q_seqno r) seqno > 0 then False
          else if q_ifp r \<noteq> None \<and> q_ifp r \<noteq> map_option fst iface then False
          else if q_max r > 0 then True
          else timeval_minus_msec now (q_time r) <
               (case iface of None \<Rightarrow> 1000 | Some (_, hello_interval) \<Rightarrow> min hello_interval 1000))"

text \<open>
  The walk of \<open>expire_resend\<close>: the nodes that stay linked, and whether one was freed.
\<close>

fun expire_resend_loop :: "timeval \<Rightarrow> (ptr \<Rightarrow> resend) \<Rightarrow> ptr list \<Rightarrow> ptr list \<times> bool" where
  "expire_resend_loop now h [] = ([], False)"
| "expire_resend_loop now h (p # ps) =
     (case expire_resend_loop now h ps of (kept, recompute) \<Rightarrow>
        if resend_expired now (h p) then (kept, True) else (p # kept, recompute))"

definition expire_resend :: "timeval \<Rightarrow> resend_table \<Rightarrow> resend_table" where
  "expire_resend now rt =
     (case expire_resend_loop now (rt_heap rt) (to_resend rt) of (kept, recompute) \<Rightarrow>
        let rt = rt\<lparr>to_resend := kept\<rparr>
        in if recompute then recompute_resend_time now rt else rt)"

section \<open>Lookup\<close>

lemma find_resend_from_Some:
  "find_resend_from h ps kind prefix plen src_prefix src_plen = Some p \<Longrightarrow>
   p \<in> set ps \<and> resend_match (h p) kind prefix plen src_prefix src_plen"
  by (induction ps) (auto split: if_splits)

lemma find_resend_from_None:
  "find_resend_from h ps kind prefix plen src_prefix src_plen = None \<longleftrightarrow>
   (\<forall>p \<in> set ps. \<not> resend_match (h p) kind prefix plen src_prefix src_plen)"
  by (induction ps) auto

lemma find_resend_from_upd:
  assumes "find_resend_from h ps kind prefix plen src_prefix src_plen = Some p"
    and "resend_match r kind prefix plen src_prefix src_plen"
  shows "find_resend_from (h(p := r)) ps kind prefix plen src_prefix src_plen = Some p"
  using assms by (induction ps) (auto split: if_splits)

lemma resend_match_sym:
  "resend_match r kind prefix plen src_prefix src_plen \<Longrightarrow>
   resend_match r' kind prefix plen src_prefix src_plen \<longleftrightarrow>
   resend_match r' (q_kind r) (q_prefix r) (q_plen r) (q_src_prefix r) (q_src_plen r)"
  by (auto simp: resend_match_def)

section \<open>The next time to wake up\<close>

lemma timeval_min_cases:
  assumes "tv_sec s \<noteq> 0"
  shows "timeval_min d s = (if tv_sec d = 0 \<or> timeval_compare d s > 0 then s else d)"
  using assms by (simp add: timeval_min_def)

text \<open>What the loop computes: an accumulator that is none, or a lower bound that is attained.\<close>

definition earliest :: "timeval \<Rightarrow> timeval set \<Rightarrow> bool" where
  "earliest t A \<longleftrightarrow> (if A = {} then tv_sec t = 0 else t \<in> A \<and> (\<forall>u \<in> A. tv_us t \<le> tv_us u))"

lemma earliest_insert:
  assumes "earliest t A" and "\<forall>u \<in> insert s A. tv_ok u \<and> tv_sec u \<noteq> 0"
  shows "earliest (timeval_min t s) (insert s A)"
proof (cases "A = {}")
  case True
  then show ?thesis using assms by (simp add: earliest_def timeval_min_cases)
next
  case False
  then have t: "t \<in> A" "\<forall>u \<in> A. tv_us t \<le> tv_us u" using assms(1) by (auto simp: earliest_def)
  then have "tv_sec t \<noteq> 0" "timeval_compare t s > 0 \<longleftrightarrow> tv_us s < tv_us t"
    using assms(2) by (auto simp: timeval_compare_us)
  then show ?thesis
    using t assms(2) by (auto simp: earliest_def timeval_min_cases)
qed

lemma recompute_loop_earliest:
  assumes "earliest t A" and "\<forall>u \<in> A. tv_ok u \<and> tv_sec u \<noteq> 0"
    and "\<forall>p \<in> set ps. resend_active now (h p) \<longrightarrow> tv_ok (resend_timeout (h p)) \<and> tv_sec (resend_timeout (h p)) \<noteq> 0"
  shows "earliest (recompute_loop now h ps t)
    (A \<union> {resend_timeout (h p) | p. p \<in> set ps \<and> resend_active now (h p)})"
  using assms
proof (induction ps arbitrary: t A)
  case (Cons p ps)
  let ?u = "resend_timeout (h p)"
  show ?case
  proof (cases "resend_active now (h p)")
    case True
    have "earliest (timeval_min t ?u) (insert ?u A)"
      using earliest_insert Cons.prems True by simp
    from Cons.IH [OF this] show ?thesis using Cons.prems True
      by (auto elim!: back_subst [of "earliest _"])
  next
    case False
    from Cons.IH [OF Cons.prems(1)] show ?thesis using Cons.prems False
      by (auto elim!: back_subst [of "earliest _"])
  qed
qed simp

text \<open>
  (functional) \<open>recompute_resend_time\<close> computes the earliest timeout of the entries that are
  still to be resent: zero when there is none, otherwise a timeout of such an entry that
  none of the others precedes.
\<close>

theorem recompute_resend_time_earliest:
  assumes "\<forall>p \<in> set (to_resend rt). tv_ok (q_time (rt_heap rt p)) \<and> 0 < tv_sec (q_time (rt_heap rt p))"
  shows "earliest (resend_time (recompute_resend_time now rt))
    {resend_timeout (rt_heap rt p) | p. p \<in> set (to_resend rt) \<and> resend_active now (rt_heap rt p)}"
proof -
  have "tv_ok (resend_timeout r) \<and> tv_sec (resend_timeout r) \<noteq> 0"
    if "tv_ok (q_time r)" "0 < tv_sec (q_time r)" "resend_active now r" for r
  proof -
    have d: "0 \<le> q_delay r" using that by (simp add: resend_active_def)
    then have "0 \<le> q_delay r sdiv 1000" by (simp add: sdiv_pos)
    then show ?thesis
      using timeval_add_msec_ok [OF that(1) d] that(2)
      by (auto simp: resend_timeout_def timeval_add_msec_def Let_def)
  qed
  then show ?thesis
    using recompute_loop_earliest [of tv_zero "{}" "to_resend rt" now "rt_heap rt"] assms
    by (auto simp: recompute_resend_time_def earliest_def tv_zero_def)
qed

definition a_request :: resend where
  "a_request =
     \<lparr>q_id = replicate 8 1, q_kind = RESEND_REQUEST, q_plen = 64, q_src_plen = 0, q_max = 3,
      q_prefix = replicate 16 2, q_src_prefix = zeroes, q_delay = 300, q_seqno = 9,
      q_time = \<lparr>tv_sec = 100, tv_usec = 5\<rparr>, q_ifp = None\<rparr>"

definition one_request :: resend_table where
  "one_request = resends_init\<lparr>rt_heap := (rt_heap resends_init)(1 := a_request), to_resend := [1], rt_fresh := 2\<rparr>"

theorem recompute_resend_time_earliest_witness:
  "earliest (resend_time (recompute_resend_time \<lparr>tv_sec = 100, tv_usec = 10\<rparr> one_request))
    {resend_timeout (rt_heap one_request p) | p.
       p \<in> set (to_resend one_request) \<and> resend_active \<lparr>tv_sec = 100, tv_usec = 10\<rparr> (rt_heap one_request p)}"
  by (rule recompute_resend_time_earliest) (simp add: one_request_def a_request_def tv_ok_def)

section \<open>Well-formed lists\<close>

text \<open>One node per key, every node with full-length addresses and counters in range.\<close>

definition same_resend :: "resend \<Rightarrow> resend \<Rightarrow> bool" where
  "same_resend r r' \<longleftrightarrow> resend_match r (q_kind r') (q_prefix r') (q_plen r') (q_src_prefix r') (q_src_plen r')"

definition resend_ok :: "resend \<Rightarrow> bool" where
  "resend_ok r \<longleftrightarrow> length (q_id r) = 8 \<and> length (q_prefix r) = 16 \<and> length (q_src_prefix r) = 16 \<and>
     q_max r \<le> RESEND_MAX \<and> 0 \<le> q_delay r \<and> q_delay r \<le> 65535"

definition resend_table_ok :: "resend_table \<Rightarrow> bool" where
  "resend_table_ok rt \<longleftrightarrow>
     distinct (to_resend rt) \<and>
     (\<forall>p \<in> set (to_resend rt). p < rt_fresh rt \<and> resend_ok (rt_heap rt p) \<and>
        (\<forall>p' \<in> set (to_resend rt). same_resend (rt_heap rt p) (rt_heap rt p') \<longrightarrow> p = p'))"

lemma resends_init_ok: "resend_table_ok resends_init"
  by (simp add: resend_table_ok_def resends_init_def)

lemma resend_table_ok_time [simp]:
  "resend_table_ok (rt\<lparr>resend_time := t\<rparr>) = resend_table_ok rt"
  by (simp add: resend_table_ok_def)

lemma recompute_resend_time_simps [simp]:
  "to_resend (recompute_resend_time now rt) = to_resend rt"
  "rt_heap (recompute_resend_time now rt) = rt_heap rt"
  "rt_fresh (recompute_resend_time now rt) = rt_fresh rt"
  "resend_table_ok (recompute_resend_time now rt) = resend_table_ok rt"
  by (simp_all add: recompute_resend_time_def)

lemma resend_table_ok_update:
  assumes "resend_table_ok rt" and "resend_ok r" and "same_resend r (rt_heap rt p)"
    and "p \<in> set (to_resend rt)"
  shows "resend_table_ok (rt\<lparr>rt_heap := (rt_heap rt)(p := r)\<rparr>)"
proof -
  have "\<And>x. same_resend r x = same_resend (rt_heap rt p) x"
    "\<And>x. same_resend x r = same_resend x (rt_heap rt p)"
    using assms(3) by (auto simp: same_resend_def resend_match_def)
  then show ?thesis using assms(1,2,4) by (auto simp: resend_table_ok_def)
qed

lemma find_resend_Some:
  "find_resend kind prefix plen src_prefix src_plen rt = Some p \<Longrightarrow>
   p \<in> set (to_resend rt) \<and> resend_match (rt_heap rt p) kind prefix plen src_prefix src_plen"
  by (simp add: find_resend_def find_resend_from_Some)

lemma find_resend_heap:
  assumes "find_resend kind prefix plen src_prefix src_plen rt = Some p"
    and "resend_match r kind prefix plen src_prefix src_plen"
  shows "find_resend kind prefix plen src_prefix src_plen (rt\<lparr>rt_heap := (rt_heap rt)(p := r)\<rparr>) = Some p"
  using assms by (simp add: find_resend_def find_resend_from_upd)

lemma find_resend_time [simp]:
  "find_resend kind prefix plen src_prefix src_plen (rt\<lparr>resend_time := t\<rparr>) =
   find_resend kind prefix plen src_prefix src_plen rt"
  by (simp add: find_resend_def)

text \<open>
  C34: (invariant) \<open>satisfy_request\<close> keeps the list well formed and marks at most the one request
  with that key; when it reports success that request has expired (once the clock has passed
  the timeout), so it is neither resent nor considered unsatisfied or redundant again.
\<close>

theorem satisfy_request_expires:
  assumes "resend_table_ok rt"
    and "satisfy_request now prefix plen src_prefix src_plen seqno rid ifp rt = (True, rt')"
    and "tv_sec now \<ge> 67" and "tv_ok now"
    and "\<forall>p \<in> set (to_resend rt). tv_ok (q_time (rt_heap rt p))"
  shows "resend_table_ok rt' \<and> to_resend rt' = to_resend rt \<and>
    \<not> unsatisfied_request now prefix plen src_prefix src_plen seqno' rid' rt' \<and>
    \<not> request_redundant now iface prefix plen src_prefix src_plen seqno' rid' rt'"
proof -
  obtain p where p: "find_resend RESEND_REQUEST prefix plen src_prefix src_plen rt = Some p"
    using assms(2) by (auto simp: satisfy_request_def find_request_def split: option.splits)
  let ?r = "rt_heap rt p"
  let ?r' = "?r\<lparr>q_max := 0, q_time := (q_time ?r)\<lparr>tv_sec := 0\<rparr>\<rparr>"
  have rt': "rt' = recompute_resend_time now (rt\<lparr>rt_heap := (rt_heap rt)(p := ?r')\<rparr>)"
    using assms(2) p by (auto simp: satisfy_request_def find_request_def Let_def split: if_splits)
  have m: "p \<in> set (to_resend rt)" "resend_match ?r RESEND_REQUEST prefix plen src_prefix src_plen"
    using find_resend_Some [OF p] by auto
  have m': "resend_match ?r' RESEND_REQUEST prefix plen src_prefix src_plen"
    using m(2) by (simp add: resend_match_def)
  have find': "find_resend RESEND_REQUEST prefix plen src_prefix src_plen rt' = Some p"
    unfolding rt' recompute_resend_time_def find_resend_time by (rule find_resend_heap [OF p m'])
  have "tv_ok (q_time ?r)" using assms(5) m(1) by blast
  then have b: "- 1000000 < tv_usec now - tv_usec (q_time ?r)"
    using assms(4) by (auto simp: tv_ok_def)
  have "- 1000 \<le> (tv_usec now - tv_usec (q_time ?r)) sdiv 1000"
    using b by (auto simp: signed_divide_int_def sgn_if)
  then have "resend_expired now ?r'"
    using m(2) assms(3)
    by (simp add: resend_expired_def resend_match_def REQUEST_TIMEOUT_def timeval_minus_msec_def)
  moreover have "resend_ok ?r'" using assms(1) m(1) by (auto simp: resend_table_ok_def resend_ok_def)
  then have "resend_table_ok rt'"
    unfolding rt' recompute_resend_time_simps
    by (rule resend_table_ok_update [OF assms(1) _ _ m(1)]) (simp add: same_resend_def resend_match_def)
  ultimately show ?thesis
    using find' by (simp add: rt' unsatisfied_request_def request_redundant_def find_request_def)
qed

theorem satisfy_request_expires_witness:
  "\<not> request_redundant \<lparr>tv_sec = 100, tv_usec = 10\<rparr> None (replicate 16 2) 64 zeroes 0 9 (replicate 8 1)
     (snd (satisfy_request \<lparr>tv_sec = 100, tv_usec = 10\<rparr> (replicate 16 2) 64 zeroes 0 9 (replicate 8 1) None one_request))"
proof -
  let ?s = "satisfy_request \<lparr>tv_sec = 100, tv_usec = 10\<rparr> (replicate 16 2) 64 zeroes 0 9 (replicate 8 1) None one_request"
  have ok: "resend_table_ok one_request"
    by (simp add: resend_table_ok_def one_request_def resends_init_def resend_ok_def a_request_def
        RESEND_MAX_def zeroes_def)
  have "fst ?s"
    by (simp add: satisfy_request_def find_request_def find_resend_def one_request_def a_request_def resend_match_def)
  then have "?s = (True, snd ?s)" by (metis prod.collapse)
  from satisfy_request_expires [OF ok this, of 9 "replicate 8 1" None] show ?thesis
    by (simp add: tv_ok_def one_request_def a_request_def)
qed

section \<open>Recording\<close>

lemma resend_table_ok_cons:
  assumes "resend_table_ok rt" and "resend_ok r"
    and "find_resend (q_kind r) (q_prefix r) (q_plen r) (q_src_prefix r) (q_src_plen r) rt = None"
  shows "resend_table_ok (rt\<lparr>rt_heap := (rt_heap rt)(rt_fresh rt := r), to_resend := rt_fresh rt # to_resend rt,
    rt_fresh := rt_fresh rt + 1\<rparr>)"
proof -
  have "\<forall>p \<in> set (to_resend rt). \<not> same_resend (rt_heap rt p) r"
    using assms(3) by (simp add: find_resend_def find_resend_from_None same_resend_def)
  then have "\<forall>p \<in> set (to_resend rt). \<not> same_resend (rt_heap rt p) r \<and> \<not> same_resend r (rt_heap rt p)"
    by (auto simp: same_resend_def resend_match_def)
  then show ?thesis
    using assms(1,2) unfolding resend_table_ok_def by (auto simp: less_Suc_eq)
qed

lemma find_resend_take:
  "find_resend kind (take 16 prefix) plen (take 16 src_prefix) src_plen rt =
   find_resend kind prefix plen src_prefix src_plen rt"
proof -
  have "find_resend_from h ps kind (take 16 prefix) plen (take 16 src_prefix) src_plen =
      find_resend_from h ps kind prefix plen src_prefix src_plen" for h ps
    by (induction ps) (auto simp: resend_match_def)
  then show ?thesis by (simp add: find_resend_def)
qed



text \<open>
  (functional) \<open>expire_resend\<close> unlinks exactly the expired entries, keeps the others in order
  and untouched, and when it freed something recomputes the next time to wake up.
\<close>

theorem expire_resend_correct:
  "to_resend (expire_resend now rt) = filter (\<lambda>p. \<not> resend_expired now (rt_heap rt p)) (to_resend rt) \<and>
   rt_heap (expire_resend now rt) = rt_heap rt \<and>
   resend_time (expire_resend now rt) =
     (if \<exists>p \<in> set (to_resend rt). resend_expired now (rt_heap rt p)
      then resend_time (recompute_resend_time now rt) else resend_time rt)"
proof -
  have loop: "expire_resend_loop now h ps =
      (filter (\<lambda>p. \<not> resend_expired now (h p)) ps, \<exists>p \<in> set ps. resend_expired now (h p))" for h ps
    by (induction ps) auto
  have rec: "recompute_loop now h (filter (\<lambda>p. \<not> resend_expired now (h p)) ps) t = recompute_loop now h ps t" for h ps t
    by (induction ps arbitrary: t) (auto simp: resend_active_def)
  show ?thesis by (auto simp: expire_resend_def loop rec recompute_resend_time_def Let_def)
qed

lemma record_resend_ok:
  assumes "resend_table_ok rt" and "length prefix \<ge> 16" and "length src_prefix \<ge> 16"
    and "\<forall>i. rid = Some i \<longrightarrow> length i \<ge> 8" and "0 \<le> delay"
  shows "resend_table_ok (snd (record_resend ca now fs kind prefix plen src_prefix src_plen seqno rid iface delay rt))"
proof -
  let ?d = "if delay \<ge> 65535 then 65535 else delay"
  let ?ifp = "map_option fst iface"
  have arm: "resend_table_ok (arm_resend p t) = resend_table_ok t" for p t by (simp add: arm_resend_def)
  have rid: "length (resend_id rid) = 8" using assms(4) by (auto simp: resend_id_def split: option.splits)
  show ?thesis
  proof (cases "find_resend kind prefix plen src_prefix src_plen rt")
    case None
    let ?r = "new_resend now kind prefix plen src_prefix src_plen seqno rid ?ifp ?d"
    have "resend_ok ?r"
      using rid assms(2,3,5) by (auto simp: resend_ok_def new_resend_def to_ushort_def)
    then have "resend_table_ok (rt\<lparr>rt_heap := (rt_heap rt)(rt_fresh rt := ?r), to_resend := rt_fresh rt # to_resend rt,
        rt_fresh := rt_fresh rt + 1\<rparr>)"
      by (rule resend_table_ok_cons [OF assms(1)]) (use None in \<open>simp add: new_resend_def find_resend_take\<close>)
    then show ?thesis using None assms(1) by (simp add: record_resend_def arm Let_def)
  next
    case (Some p)
    note m = find_resend_Some [OF Some]
    let ?r = "refresh_resend now ?d (rt_heap rt p)"
    have o: "resend_ok (rt_heap rt p)" using assms(1) m by (simp add: resend_table_ok_def)
    then have "resend_ok ?r"
      using assms(5) by (auto simp: resend_ok_def refresh_resend_def to_ushort_def)
    moreover from this have "resend_ok (replace_resend seqno rid ?ifp ?r)"
      using rid by (simp add: resend_ok_def replace_resend_def)
    moreover have "same_resend ?r (rt_heap rt p)" "same_resend (replace_resend seqno rid ?ifp ?r) (rt_heap rt p)"
      by (simp_all add: same_resend_def resend_match_def refresh_resend_def replace_resend_def)
    ultimately show ?thesis
      using resend_table_ok_update [OF assms(1) _ _ conjunct1 [OF m]] Some assms(1)
      by (simp add: record_resend_def arm Let_def)
  qed
qed

lemma expire_resend_ok: "resend_table_ok rt \<Longrightarrow> resend_table_ok (expire_resend now rt)"
proof -
  assume ok: "resend_table_ok rt"
  have loop: "expire_resend_loop now h ps =
      (filter (\<lambda>p. \<not> resend_expired now (h p)) ps, \<exists>p \<in> set ps. resend_expired now (h p))" for h ps
    by (induction ps) auto
  show ?thesis using ok by (auto simp: expire_resend_def loop Let_def resend_table_ok_def)
qed

end
