(* ===== verification/State.thy ===== *)
theory State
  imports Rib Resend
begin

text \<open>
  The state of the daemon: the structs of \<open>neighbour.h\<close>, \<open>interface.h\<close>, \<open>xroute.h\<close>,
  \<open>rule.c\<close> and \<open>disambiguation.c\<close>, the global variables, and the answers of the environment.

  A state is one record \<open>babel\<close>; an operation takes the state last and returns it updated.
  Structs live in heaps (functions from addresses) and the global lists hold addresses;
  NULL is \<open>None\<close> where a pointer may be NULL.  What the program cannot determine itself
  (\<open>random()\<close>, the success of an allocation, the result of a system call, the clock) is read
  from the environment, one answer per question, so a theorem about every environment is a
  theorem about every such outcome.  An aborted program (a failed \<open>assert\<close>, a NULL
  dereference, a write outside a buffer, a read of memory that was never written, exhausted
  fuel of a loop) is a state whose \<open>fault\<close>
  is set; the first fault stays, and what the model does after it means nothing.  What
  leaves the program (packets, kernel routes and rules, notifications of the local
  interface) is appended to \<open>out\<close>.
\<close>

section \<open>Structs\<close>

record neighbour =
  n_address :: "byte list"
  n_hello_seqno :: int
  n_reach :: u16
  n_txcost :: int
  n_hello_time :: timeval
  n_ihu_time :: timeval
  n_ifp :: ptr
  n_hello_interval :: int
  n_ihu_interval :: int
  n_hello_send_us :: u32
  n_rtt :: int
  n_hello_rtt_receive_time :: timeval
  n_rtt_time :: timeval

definition IF_TYPE_DEFAULT :: int where "IF_TYPE_DEFAULT = 0"
definition IF_TYPE_WIRED :: int where "IF_TYPE_WIRED = 1"
definition IF_TYPE_WIRELESS :: int where "IF_TYPE_WIRELESS = 2"
definition IF_TYPE_TUNNEL :: int where "IF_TYPE_TUNNEL = 3"

definition CONFIG_NO :: int where "CONFIG_NO = 1"
definition CONFIG_YES :: int where "CONFIG_YES = 2"

definition IF_UP :: u16 where "IF_UP = 1"
definition IF_WIRELESS :: u16 where "IF_WIRELESS = 2"
definition IF_SPLIT_HORIZON :: u16 where "IF_SPLIT_HORIZON = 4"
definition IF_LQ :: u16 where "IF_LQ = 8"
definition IF_FARAWAY :: u16 where "IF_FARAWAY = 16"
definition IF_TIMESTAMPS :: u16 where "IF_TIMESTAMPS = 32"

definition IF_CHANNEL_UNKNOWN :: int where "IF_CHANNEL_UNKNOWN = 0"
definition IF_CHANNEL_INTERFERING :: int where "IF_CHANNEL_INTERFERING = 255"
definition IF_CHANNEL_NONINTERFERING :: int where "IF_CHANNEL_NONINTERFERING = -2"

record interface_conf =
  c_ifname :: string
  c_hello_interval :: int
  c_update_interval :: int
  c_cost :: int
  c_type :: int
  c_split_horizon :: int
  c_lq :: int
  c_faraway :: int
  c_channel :: int
  c_enable_timestamps :: int
  c_rtt_decay :: int
  c_rtt_min :: int
  c_rtt_max :: int
  c_max_rtt_penalty :: int

record buffered_update =
  b_id :: "byte list"
  b_prefix :: "byte list"
  b_src_prefix :: "byte list"
  b_plen :: nat
  b_src_plen :: nat

text \<open>
  \<open>i_sendbuf\<close> is the part of the send buffer that is in use, so its length is \<open>buffered\<close>, and
  \<open>i_buffered_updates\<close> the used part of that array (its length is \<open>num_buffered_updates\<close>);
  \<open>i_ll\<close> has \<open>numll\<close> entries.  \<open>i_conf\<close> copies the configuration the pointer leads to.
\<close>

record interface =
  i_conf :: "interface_conf option"
  i_ifindex :: nat
  i_flags :: u16
  i_cost :: int
  i_channel :: int
  i_hello_timeout :: timeval
  i_update_timeout :: timeval
  i_flush_timeout :: timeval
  i_update_flush_timeout :: timeval
  i_name :: string
  i_ipv4 :: "byte list option"
  i_ll :: "byte list list"
  i_sendbuf :: "byte list"
  i_bufsize :: int
  i_buffered_hello :: int
  i_have_buffered_id :: bool
  i_have_buffered_nh :: bool
  i_have_buffered_prefix :: bool
  i_buffered_id :: "byte list"
  i_buffered_nh :: "byte list"
  i_buffered_prefix :: "byte list"
  i_buffered_updates :: "buffered_update list"
  i_update_bufsize :: int
  i_bucket_time :: int
  i_bucket :: int
  i_last_update_time :: int
  i_last_specific_update_time :: int
  i_hello_seqno :: u16
  i_hello_interval :: int
  i_update_interval :: int
  i_rtt_decay :: int
  i_rtt_min :: int
  i_rtt_max :: int
  i_max_rtt_penalty :: int

definition if_up :: "interface \<Rightarrow> bool" where
  "if_up ifp \<longleftrightarrow> i_flags ifp AND IF_UP \<noteq> 0"

definition if_flag :: "u16 \<Rightarrow> interface \<Rightarrow> bool" where
  "if_flag f ifp \<longleftrightarrow> i_flags ifp AND f \<noteq> 0"

record xroute =
  x_prefix :: "byte list"
  x_src_prefix :: "byte list"
  x_plen :: nat
  x_src_plen :: nat
  x_metric :: int
  x_ifindex :: nat
  x_proto :: nat

record rule =
  ru_src :: "byte list"
  ru_plen :: nat
  ru_table :: nat

section \<open>What leaves the program\<close>

datatype local_kind = LOCAL_FLUSH | LOCAL_ADD | LOCAL_CHANGE

datatype kernel_op = ROUTE_FLUSH | ROUTE_ADD | ROUTE_MODIFY

text \<open>
  What \<open>kernel_route\<close> puts into a netlink message: whether it adds or deletes, the address
  family, the destination, the source when the kernel disambiguates, the table, whether the
  route is unreachable, its priority, and the gateway and interface of a unicast route.
\<close>

record nl_route =
  nl_add :: bool
  nl_v4 :: bool
  nl_dst :: "byte list"
  nl_dst_len :: int
  nl_src :: "(byte list \<times> nat) option"
  nl_table :: int
  nl_unreachable :: bool
  nl_priority :: int
  nl_gateway :: "(byte list \<times> nat) option"

datatype event =
  Multicast ptr "byte list"
| Unicast ptr "byte list"
| Netlink_route nl_route
| Add_rule nat "byte list" nat nat
| Change_rule nat nat "byte list" nat nat
| Flush_rule nat af
| Notify_route local_kind ptr
| Notify_neighbour local_kind ptr
| Notify_interface local_kind ptr
| Notify_xroute local_kind xroute

section \<open>Global variables\<close>

datatype diversity = DIVERSITY_NONE | DIVERSITY_INTERFACE_1 | DIVERSITY_CHANNEL_1 | DIVERSITY_CHANNEL

record config =
  kernel_metric :: int
  reflect_kernel_metric :: bool
  allow_duplicates :: int
  diversity_kind :: diversity
  diversity_factor :: int
  keep_unfeasible :: bool
  smoothing_half_life :: int
  two_to_the_one_over_hl :: int
  myid :: "byte list"
  resend_delay :: int
  all_wireless :: bool
  default_wireless_hello_interval :: int
  default_wired_hello_interval :: int
  has_ipv6_subtrees :: bool
  export_table :: int

record env =
  e_answer :: "nat \<Rightarrow> int"
  e_clock :: "nat \<Rightarrow> timeval"

datatype fault =
  Assert_failed | Null_dereference | Buffer_overflow | Undefined_read | Out_of_fuel

record neighbour_table =
  n_heap :: "ptr \<Rightarrow> neighbour"
  neighs :: "ptr list"
  n_fresh :: ptr

record interface_table =
  i_heap :: "ptr \<Rightarrow> interface"
  interfaces :: "ptr list"
  i_fresh :: ptr

text \<open>\<open>unicast_buffer\<close>: \<open>None\<close> when it is not allocated, otherwise its used part.\<close>

record unicast_state =
  unicast_buffer :: "byte list option"
  unicast_neighbour :: "ptr option"
  unicast_flush_timeout :: timeval

record babel =
  now :: timeval
  conf :: config
  sources :: source_table
  rib :: rib
  resends :: resend_table
  filters_of :: filters
  nbrs :: neighbour_table
  ifaces :: interface_table
  unicast :: unicast_state
  xroutes :: "xroute list"
  maxxroutes :: nat
  rules :: "rule list"
  used_tables :: "bool list"
  myseqno :: u16
  seqno_time :: timeval
  check_neighbours_timeout :: timeval
  check_interfaces_timeout :: timeval
  env :: env
  ticks :: nat
  errno :: int
  fault :: "fault option"
  out :: "event list"

text \<open>
  The static initialisers, with the defaults that \<open>main\<close> computes when no option is given;
  the zero structs stand for memory that \<open>calloc\<close> returns.
\<close>

definition conf_init :: config where
  "conf_init =
     \<lparr>kernel_metric = 0, reflect_kernel_metric = False, allow_duplicates = -1,
      diversity_kind = DIVERSITY_NONE, diversity_factor = 256, keep_unfeasible = False,
      smoothing_half_life = 0, two_to_the_one_over_hl = 0, myid = replicate 8 0,
      resend_delay = 2000, all_wireless = False, default_wireless_hello_interval = 4000,
      default_wired_hello_interval = 4000, has_ipv6_subtrees = False, export_table = 254\<rparr>"

definition neighbour_zero :: neighbour where
  "neighbour_zero =
     \<lparr>n_address = replicate 16 0, n_hello_seqno = 0, n_reach = 0, n_txcost = 0, n_hello_time = tv_zero,
      n_ihu_time = tv_zero, n_ifp = 0, n_hello_interval = 0, n_ihu_interval = 0, n_hello_send_us = 0,
      n_rtt = 0, n_hello_rtt_receive_time = tv_zero, n_rtt_time = tv_zero\<rparr>"

definition interface_zero :: interface where
  "interface_zero =
     \<lparr>i_conf = None, i_ifindex = 0, i_flags = 0, i_cost = 0, i_channel = 0, i_hello_timeout = tv_zero,
      i_update_timeout = tv_zero, i_flush_timeout = tv_zero, i_update_flush_timeout = tv_zero,
      i_name = [], i_ipv4 = None, i_ll = [], i_sendbuf = [], i_bufsize = 0, i_buffered_hello = 0,
      i_have_buffered_id = False, i_have_buffered_nh = False, i_have_buffered_prefix = False,
      i_buffered_id = replicate 8 0, i_buffered_nh = replicate 4 0, i_buffered_prefix = replicate 16 0,
      i_buffered_updates = [], i_update_bufsize = 0, i_bucket_time = 0, i_bucket = 0,
      i_last_update_time = 0, i_last_specific_update_time = 0, i_hello_seqno = 0,
      i_hello_interval = 0, i_update_interval = 0, i_rtt_decay = 0, i_rtt_min = 0, i_rtt_max = 0,
      i_max_rtt_penalty = 0\<rparr>"

definition empty_rule :: rule where
  "empty_rule = \<lparr>ru_src = replicate 16 0, ru_plen = 0, ru_table = 0\<rparr>"

definition babel_init :: "env \<Rightarrow> babel" where
  "babel_init e =
     \<lparr>now = tv_zero, conf = conf_init, sources = sources_init, rib = rib_init, resends = resends_init,
      filters_of = \<lparr>input_filters = [], output_filters = [], redistribute_filters = [], install_filters = []\<rparr>,
      nbrs = \<lparr>n_heap = (\<lambda>_. neighbour_zero), neighs = [], n_fresh = 1\<rparr>,
      ifaces = \<lparr>i_heap = (\<lambda>_. interface_zero), interfaces = [], i_fresh = 1\<rparr>,
      unicast = \<lparr>unicast_buffer = None, unicast_neighbour = None, unicast_flush_timeout = tv_zero\<rparr>,
      xroutes = [], maxxroutes = 0, rules = replicate 10 empty_rule, used_tables = replicate 10 False,
      myseqno = 0, seqno_time = tv_zero, check_neighbours_timeout = tv_zero,
      check_interfaces_timeout = tv_zero, env = e, ticks = 0, errno = 0, fault = None, out = []\<rparr>"

text \<open>An environment in which every call succeeds, \<open>random()\<close> returns 1 and the clock stands at 1000 s.\<close>

definition good_env :: env where
  "good_env = \<lparr>e_answer = (\<lambda>_. 1), e_clock = (\<lambda>_. \<lparr>tv_sec = 1000, tv_usec = 0\<rparr>)\<rparr>"

section \<open>Access\<close>

abbreviation neigh :: "babel \<Rightarrow> ptr \<Rightarrow> neighbour" where
  "neigh b p \<equiv> n_heap (nbrs b) p"

abbreviation iface :: "babel \<Rightarrow> ptr \<Rightarrow> interface" where
  "iface b p \<equiv> i_heap (ifaces b) p"

abbreviation route :: "babel \<Rightarrow> ptr \<Rightarrow> babel_route" where
  "route b p \<equiv> rib_heap (rib b) p"

abbreviation src :: "babel \<Rightarrow> ptr \<Rightarrow> source" where
  "src b p \<equiv> st_heap (sources b) p"

definition upd_neigh :: "ptr \<Rightarrow> (neighbour \<Rightarrow> neighbour) \<Rightarrow> babel \<Rightarrow> babel" where
  "upd_neigh p f b = b\<lparr>nbrs := (nbrs b)\<lparr>n_heap := (n_heap (nbrs b))(p := f (neigh b p))\<rparr>\<rparr>"

definition upd_iface :: "ptr \<Rightarrow> (interface \<Rightarrow> interface) \<Rightarrow> babel \<Rightarrow> babel" where
  "upd_iface p f b = b\<lparr>ifaces := (ifaces b)\<lparr>i_heap := (i_heap (ifaces b))(p := f (iface b p))\<rparr>\<rparr>"

definition upd_route :: "ptr \<Rightarrow> (babel_route \<Rightarrow> babel_route) \<Rightarrow> babel \<Rightarrow> babel" where
  "upd_route p f b = b\<lparr>rib := (rib b)\<lparr>rib_heap := (rib_heap (rib b))(p := f (route b p))\<rparr>\<rparr>"

definition raise_fault :: "fault \<Rightarrow> babel \<Rightarrow> babel" where
  "raise_fault f b = (if fault b = None then b\<lparr>fault := Some f\<rparr> else b)"

definition c_assert :: "bool \<Rightarrow> babel \<Rightarrow> babel" where
  "c_assert c b = (if c then b else raise_fault Assert_failed b)"

definition emit :: "event \<Rightarrow> babel \<Rightarrow> babel" where
  "emit e b = b\<lparr>out := out b @ [e]\<rparr>"

text \<open>A step that may abort: on \<open>None\<close> the fault is recorded and the component kept.\<close>

definition with_sources :: "(source_table \<Rightarrow> source_table option) \<Rightarrow> babel \<Rightarrow> babel" where
  "with_sources f b =
     (case f (sources b) of None \<Rightarrow> raise_fault Assert_failed b | Some st \<Rightarrow> b\<lparr>sources := st\<rparr>)"

section \<open>The environment\<close>

definition ask :: "babel \<Rightarrow> int \<times> babel" where
  "ask b = (e_answer (env b) (ticks b), b\<lparr>ticks := ticks b + 1\<rparr>)"

text \<open>\<open>random()\<close> returns between 0 and \<open>2^31 - 1\<close>.\<close>

definition c_random :: "babel \<Rightarrow> int \<times> babel" where
  "c_random b = (case ask b of (a, b) \<Rightarrow> (a mod 2147483648, b))"

text \<open>Whether \<open>malloc\<close>, \<open>calloc\<close> or \<open>realloc\<close> succeeds.\<close>

definition c_alloc :: "babel \<Rightarrow> bool \<times> babel" where
  "c_alloc b = (case ask b of (a, b) \<Rightarrow> (a \<noteq> 0, b))"

definition gettime :: "babel \<Rightarrow> babel" where
  "gettime b = b\<lparr>now := e_clock (env b) (ticks b), ticks := ticks b + 1\<rparr>"

definition c_roughly :: "int \<Rightarrow> babel \<Rightarrow> int \<times> babel" where
  "c_roughly value b =
     (if roughly_draws value then (case c_random b of (r, b) \<Rightarrow> (roughly r value, b))
      else (roughly 0 value, b))"

text \<open>\<open>schedule_neighbours_check\<close> and \<open>schedule_interfaces_check\<close> of \<open>babeld.c\<close>.\<close>

definition schedule_neighbours_check :: "int \<Rightarrow> bool \<Rightarrow> babel \<Rightarrow> babel" where
  "schedule_neighbours_check msecs override b =
     (case c_roughly msecs b of (m, b) \<Rightarrow>
        let timeout = timeval_add_msec (now b) m
        in b\<lparr>check_neighbours_timeout :=
               (if override then timeout else timeval_min (check_neighbours_timeout b) timeout)\<rparr>)"

definition schedule_interfaces_check :: "int \<Rightarrow> bool \<Rightarrow> babel \<Rightarrow> babel" where
  "schedule_interfaces_check msecs override b =
     (case c_roughly msecs b of (m, b) \<Rightarrow>
        let timeout = timeval_add_msec (now b) m
        in b\<lparr>check_interfaces_timeout :=
               (if override then timeout else timeval_min (check_interfaces_timeout b) timeout)\<rparr>)"

section \<open>Resends of the global state\<close>

definition iface_index :: "babel \<Rightarrow> ptr option \<Rightarrow> (ptr \<times> nat) option" where
  "iface_index b ifp = map_option (\<lambda>p. (p, i_ifindex (iface b p))) ifp"

definition g_record_resend ::
  "resend_kind \<Rightarrow> byte list \<Rightarrow> nat \<Rightarrow> byte list \<Rightarrow> nat \<Rightarrow> u16 \<Rightarrow> byte list option \<Rightarrow> ptr option \<Rightarrow> int \<Rightarrow>
   babel \<Rightarrow> babel" where
  "g_record_resend kind prefix plen src_prefix src_plen seqno rid ifp delay b =
     (case c_alloc b of (ok, b) \<Rightarrow>
        b\<lparr>resends := snd (record_resend ok (now b) (filters_of b) kind prefix plen src_prefix src_plen
                           seqno rid (iface_index b ifp) delay (resends b))\<rparr>)"

definition g_satisfy_request ::
  "byte list \<Rightarrow> nat \<Rightarrow> byte list \<Rightarrow> nat \<Rightarrow> u16 \<Rightarrow> byte list \<Rightarrow> ptr option \<Rightarrow> babel \<Rightarrow> babel" where
  "g_satisfy_request prefix plen src_prefix src_plen seqno rid ifp b =
     b\<lparr>resends := snd (satisfy_request (now b) prefix plen src_prefix src_plen seqno rid ifp (resends b))\<rparr>"

section \<open>Well-formed states\<close>

text \<open>
  The invariant of the two tables that the routing decisions rest on: the sources and the
  routes are well formed, and every route in the table has its source in the table.
\<close>

definition tables_ok :: "babel \<Rightarrow> bool" where
  "tables_ok b \<longleftrightarrow>
     source_table_ok (sources b) \<and> rib_ok (st_heap (sources b)) (rib b) \<and>
     (\<forall>p \<in> rib_routes (rib b). r_src (route b p) \<in> set (st_slots (sources b)))"

lemma upd_frame [simp]:
  "sources (upd_neigh p f b) = sources b" "rib (upd_neigh p f b) = rib b"
  "sources (upd_iface p g b) = sources b" "rib (upd_iface p g b) = rib b"
  "sources (upd_route p h b) = sources b"
  "sources (raise_fault e b) = sources b" "rib (raise_fault e b) = rib b"
  "sources (c_assert c b) = sources b" "rib (c_assert c b) = rib b"
  "sources (emit ev b) = sources b" "rib (emit ev b) = rib b"
  "sources (gettime b) = sources b" "rib (gettime b) = rib b"
  by (simp_all add: upd_neigh_def upd_iface_def upd_route_def raise_fault_def c_assert_def emit_def gettime_def)

end
