(* ===== verification/Kernel_Route.thy ===== *)
theory Kernel_Route
  imports State
begin

text \<open>
  \<open>kernel_route\<close> of \<open>kernel_netlink.c\<close>, down to the netlink message it hands to
  \<open>netlink_talk\<close>; the answer of the kernel comes from the environment.  The netlink socket
  is taken to be set up and open, and the debugging output (\<open>replay_iproute\<close>) is left out.
\<close>

section \<open>Operations\<close>

definition KERNEL_INFINITY :: int where
  "KERNEL_INFINITY = 0xFFFF"

definition EEXIST :: int where
  "EEXIST = 17"

definition EINVAL :: int where
  "EINVAL = 22"

definition kernel_disambiguate :: "babel \<Rightarrow> bool \<Rightarrow> bool" where
  "kernel_disambiguate b v4 \<longleftrightarrow> \<not> v4 \<and> has_ipv6_subtrees (conf b)"

text \<open>A system call that fails sets \<open>errno\<close>.\<close>

definition syscall :: "babel \<Rightarrow> int \<times> babel" where
  "syscall b =
     (case ask b of (rc, b) \<Rightarrow>
        if rc < 0 then (case ask b of (e, b) \<Rightarrow> (rc, b\<lparr>errno := e\<rparr>)) else (rc, b))"

definition netlink_talk :: "nl_route \<Rightarrow> babel \<Rightarrow> int \<times> babel" where
  "netlink_talk req b = syscall (emit (Netlink_route req) b)"

definition kernel_family_ok :: "byte list \<Rightarrow> nat \<Rightarrow> byte list \<Rightarrow> nat \<Rightarrow> byte list \<Rightarrow> bool" where
  "kernel_family_ok dest plen source src_plen gate =
     (if plen \<ge> 96 \<and> v4mapped dest
      then \<not> (\<not> v4mapped gate \<or> (src_plen > 0 \<and> (\<not> v4mapped source \<or> src_plen < 96)))
      else \<not> (v4mapped gate \<or> (src_plen > 0 \<and> v4mapped source)))"

text \<open>The message built after the part that only \<open>ROUTE_MODIFY\<close> takes.\<close>

definition kernel_route_talk ::
  "bool \<Rightarrow> int \<Rightarrow> byte list \<Rightarrow> nat \<Rightarrow> byte list \<Rightarrow> nat \<Rightarrow> byte list \<Rightarrow> nat \<Rightarrow> int \<Rightarrow> babel \<Rightarrow> int \<times> babel" where
  "kernel_route_talk flush table dest plen source src_plen gate ifindex metric b =
     (let ipv4 = v4mapped gate;
          use_src = (src_plen \<noteq> 0 \<and> kernel_disambiguate b ipv4)
      in
      if metric \<ge> KERNEL_INFINITY \<and> (plen = 0 \<or> (ipv4 \<and> plen = 96)) then (0, b)
      else
        let unreachable = \<not> metric < KERNEL_INFINITY in
        netlink_talk
          \<lparr>nl_add = \<not> flush, nl_v4 = ipv4,
           nl_dst = (if ipv4 then take 4 (drop 12 dest) else take 16 dest),
           nl_dst_len = (if ipv4 then int plen - 96 else int plen),
           nl_src = (if use_src \<and> \<not> ipv4 then Some (take 16 source, src_plen) else None),
           nl_table = table, nl_unreachable = unreachable,
           nl_priority = (if unreachable then (if ipv4 then 0 else 1024) else metric),
           nl_gateway = (if unreachable then None
                         else Some (if ipv4 then take 4 (drop 12 gate) else take 16 gate, ifindex))\<rparr> b)"

text \<open>\<open>ROUTE_ADD\<close> and \<open>ROUTE_FLUSH\<close> use the first group of parameters only.\<close>

definition kernel_route_simple ::
  "bool \<Rightarrow> int \<Rightarrow> byte list \<Rightarrow> nat \<Rightarrow> byte list \<Rightarrow> nat \<Rightarrow> byte list \<Rightarrow> nat \<Rightarrow> int \<Rightarrow> babel \<Rightarrow> int \<times> babel" where
  "kernel_route_simple flush table dest plen source src_plen gate ifindex metric b =
     (if \<not> kernel_family_ok dest plen source src_plen gate then (-1, b\<lparr>errno := EINVAL\<rparr>)
      else kernel_route_talk flush table dest plen source src_plen gate ifindex metric b)"

definition kernel_route ::
  "kernel_op \<Rightarrow> int \<Rightarrow> byte list \<Rightarrow> nat \<Rightarrow> byte list \<Rightarrow> nat \<Rightarrow> byte list \<Rightarrow> nat \<Rightarrow> int \<Rightarrow>
   byte list \<Rightarrow> nat \<Rightarrow> int \<Rightarrow> int \<Rightarrow> babel \<Rightarrow> int \<times> babel" where
  "kernel_route operation table dest plen source src_plen gate ifindex metric
     newgate newifindex newmetric newtable b =
     (if operation \<noteq> ROUTE_MODIFY
      then kernel_route_simple (operation = ROUTE_FLUSH) table dest plen source src_plen gate ifindex metric b
      else if \<not> kernel_family_ok dest plen source src_plen gate then (-1, b\<lparr>errno := EINVAL\<rparr>)
      else
        let b = (if metric \<ge> KERNEL_INFINITY \<or> newmetric \<ge> KERNEL_INFINITY
                 then snd (kernel_route_simple True table dest plen source src_plen gate ifindex metric b)
                 else b)
        in kernel_route_talk False newtable dest plen source src_plen newgate newifindex newmetric b)"

section \<open>Frame\<close>

text \<open>The kernel changes no table of the daemon.\<close>

lemma syscall_frame [simp]:
  "sources (snd (syscall b)) = sources b" "rib (snd (syscall b)) = rib b" "conf (snd (syscall b)) = conf b"
  "out (snd (syscall b)) = out b" "now (snd (syscall b)) = now b" "fault (snd (syscall b)) = fault b"
  by (simp_all add: syscall_def ask_def)

lemma kernel_route_talk_frame [simp]:
  "sources (snd (kernel_route_talk f t d p s sp g i m b)) = sources b"
  "rib (snd (kernel_route_talk f t d p s sp g i m b)) = rib b"
  "conf (snd (kernel_route_talk f t d p s sp g i m b)) = conf b"
  "now (snd (kernel_route_talk f t d p s sp g i m b)) = now b"
  "fault (snd (kernel_route_talk f t d p s sp g i m b)) = fault b"
  by (simp_all add: kernel_route_talk_def netlink_talk_def emit_def Let_def)

lemma kernel_route_frame [simp]:
  "sources (snd (kernel_route op t d p s sp g i m ng ni nm nt b)) = sources b"
  "rib (snd (kernel_route op t d p s sp g i m ng ni nm nt b)) = rib b"
  "conf (snd (kernel_route op t d p s sp g i m ng ni nm nt b)) = conf b"
  "now (snd (kernel_route op t d p s sp g i m ng ni nm nt b)) = now b"
  "fault (snd (kernel_route op t d p s sp g i m ng ni nm nt b)) = fault b"
  by (simp_all add: kernel_route_def kernel_route_simple_def Let_def)

section \<open>Properties\<close>

lemma out_kernel_route_talk:
  "out (snd (kernel_route_talk f t d p s sp g i m b)) = out b \<or>
   (\<exists>req. out (snd (kernel_route_talk f t d p s sp g i m b)) = out b @ [Netlink_route req] \<and>
      nl_add req = (\<not> f) \<and> nl_v4 req = v4mapped g \<and> nl_table req = t \<and>
      nl_unreachable req = (KERNEL_INFINITY \<le> m) \<and>
      \<not> (nl_unreachable req \<and> nl_dst_len req = 0))"
  by (auto simp: kernel_route_talk_def netlink_talk_def emit_def Let_def not_less)

text \<open>
  (safety) Whatever \<open>kernel_route\<close> is asked, it sends at most two messages; a retracted
  destination is never announced as an unreachable default route, every message is of the
  family of its gateway, and a modification deletes first exactly when one of the two metrics
  is infinite.
\<close>

theorem kernel_route_messages:
  "\<exists>reqs. out (snd (kernel_route operation table dest plen source src_plen gate ifindex metric
       newgate newifindex newmetric newtable b)) = out b @ map Netlink_route reqs \<and>
     length reqs \<le> 2 \<and>
     list_all (\<lambda>req. \<not> (nl_unreachable req \<and> nl_dst_len req = 0)) reqs \<and>
     list_all (\<lambda>req. nl_v4 req = v4mapped gate \<or> nl_v4 req = v4mapped newgate) reqs \<and>
     (case filter (\<lambda>req. \<not> nl_add req) reqs of
        [] \<Rightarrow> True
      | _ \<Rightarrow> operation = ROUTE_FLUSH \<or>
             (operation = ROUTE_MODIFY \<and> (KERNEL_INFINITY \<le> metric \<or> KERNEL_INFINITY \<le> newmetric)))"
proof -
  let ?good = "\<lambda>reqs. length reqs \<le> 2 \<and>
     list_all (\<lambda>req. \<not> (nl_unreachable req \<and> nl_dst_len req = 0)) reqs \<and>
     list_all (\<lambda>req. nl_v4 req = v4mapped gate \<or> nl_v4 req = v4mapped newgate) reqs \<and>
     (case filter (\<lambda>req. \<not> nl_add req) reqs of
        [] \<Rightarrow> True
      | _ \<Rightarrow> operation = ROUTE_FLUSH \<or>
             (operation = ROUTE_MODIFY \<and> (KERNEL_INFINITY \<le> metric \<or> KERNEL_INFINITY \<le> newmetric)))"
  have simple: "\<exists>reqs. out (snd (kernel_route_simple f table dest plen source src_plen gate ifindex metric b)) =
      out b @ map Netlink_route reqs \<and> length reqs \<le> 1 \<and>
      list_all (\<lambda>req. \<not> (nl_unreachable req \<and> nl_dst_len req = 0)) reqs \<and>
      list_all (\<lambda>req. nl_v4 req = v4mapped gate \<and> nl_add req = (\<not> f)) reqs" for f
    using out_kernel_route_talk [of f table dest plen source src_plen gate ifindex metric b]
    unfolding kernel_route_simple_def
    by (auto intro: exI [of _ "[]"] exI [of _ "[req]" for req])
  show ?thesis
  proof (cases "operation = ROUTE_MODIFY")
    case False
    then show ?thesis
      using simple [of "operation = ROUTE_FLUSH"]
      by (cases operation) (auto simp: kernel_route_def list_all_iff length_Suc_conv le_Suc_eq split: list.splits)
  next
    case True
    show ?thesis
    proof (cases "kernel_family_ok dest plen source src_plen gate")
      case False
      then show ?thesis using True by (intro exI [of _ "[]"]) (simp add: kernel_route_def)
    next
      case fam: True
      define b1 where "b1 = (if metric \<ge> KERNEL_INFINITY \<or> newmetric \<ge> KERNEL_INFINITY
        then snd (kernel_route_simple True table dest plen source src_plen gate ifindex metric b) else b)"
      have eq: "kernel_route operation table dest plen source src_plen gate ifindex metric
          newgate newifindex newmetric newtable b =
        kernel_route_talk False newtable dest plen source src_plen newgate newifindex newmetric b1"
        using True fam by (simp add: kernel_route_def b1_def)
      obtain r1 where r1: "out b1 = out b @ map Netlink_route r1" "length r1 \<le> 1"
        "list_all (\<lambda>req. \<not> (nl_unreachable req \<and> nl_dst_len req = 0)) r1"
        "list_all (\<lambda>req. nl_v4 req = v4mapped gate \<and> \<not> nl_add req) r1"
        "r1 \<noteq> [] \<Longrightarrow> KERNEL_INFINITY \<le> metric \<or> KERNEL_INFINITY \<le> newmetric"
      proof (cases "KERNEL_INFINITY \<le> metric \<or> KERNEL_INFINITY \<le> newmetric")
        case True
        then show ?thesis using simple [of True] that unfolding b1_def by auto
      next
        case False
        then show ?thesis using that [of "[]"] by (simp add: b1_def)
      qed
      have "\<exists>r2. out (snd (kernel_route_talk False newtable dest plen source src_plen newgate newifindex newmetric b1)) =
          out b1 @ map Netlink_route r2 \<and> length r2 \<le> 1 \<and>
          list_all (\<lambda>req. \<not> (nl_unreachable req \<and> nl_dst_len req = 0)) r2 \<and>
          list_all (\<lambda>req. nl_v4 req = v4mapped newgate \<and> nl_add req) r2"
        using out_kernel_route_talk [of False newtable dest plen source src_plen newgate newifindex newmetric b1]
        by (auto intro: exI [of _ "[]"] exI [of _ "[req]" for req])
      then obtain r2 where r2: "out (snd (kernel_route_talk False newtable dest plen source src_plen newgate newifindex newmetric b1)) =
          out b1 @ map Netlink_route r2" "length r2 \<le> 1"
          "list_all (\<lambda>req. \<not> (nl_unreachable req \<and> nl_dst_len req = 0)) r2"
          "list_all (\<lambda>req. nl_v4 req = v4mapped newgate \<and> nl_add req) r2" by blast
      have "filter (\<lambda>req. \<not> nl_add req) (r1 @ r2) = r1"
        using r1(4) r2(4) by (auto simp: list_all_iff filter_empty_conv filter_id_conv)
      then have "?good (r1 @ r2)"
        using r1 r2 True by (auto simp: list_all_iff split: list.splits)
      then show ?thesis unfolding eq using r1(1) r2(1) by (intro exI [of _ "r1 @ r2"]) simp
    qed
  qed
qed

end
