(* ===== verification/Rules.thy ===== *)
theory Rules
  imports Kernel_Route
begin

text \<open>
  \<open>rule.c\<close>: the kernel rules and tables that the daemon allocates for source-specific routes
  when the kernel has no IPv6 subtrees.  \<open>rules\<close> is the array of \<open>SRC_TABLE_NUM\<close> rules indexed
  by priority (an entry of length 0 is empty) and \<open>used_tables\<close> the allocation bitmap.  The
  periodic check against the kernel's own list (\<open>check_rules\<close>) is in this theory too, with
  the rules the kernel reports as an argument.

  A source prefix is given as the bytes from its pointer on, because \<open>prefix_cmp\<close> may read one
  byte past the 16; in a rule the byte after \<open>src\<close> is \<open>plen\<close>.
\<close>

section \<open>Operations\<close>

definition SRC_TABLE_NUM :: nat where
  "SRC_TABLE_NUM = 10"

definition src_table_idx :: nat where
  "src_table_idx = 10"

definition src_table_prio :: nat where
  "src_table_prio = 100"

definition rule_bytes :: "rule \<Rightarrow> byte list" where
  "rule_bytes r = ru_src r @ [of_nat (ru_plen r), of_nat (ru_table r)]"

definition k_add_rule :: "nat \<Rightarrow> byte list \<Rightarrow> nat \<Rightarrow> nat \<Rightarrow> babel \<Rightarrow> int \<times> babel" where
  "k_add_rule prio source plen table b = syscall (emit (Add_rule prio (take 16 source) plen table) b)"

definition k_flush_rule :: "nat \<Rightarrow> af \<Rightarrow> babel \<Rightarrow> int \<times> babel" where
  "k_flush_rule prio family b = syscall (emit (Flush_rule prio family) b)"

definition k_change_rule :: "nat \<Rightarrow> nat \<Rightarrow> byte list \<Rightarrow> nat \<Rightarrow> nat \<Rightarrow> babel \<Rightarrow> int \<times> babel" where
  "k_change_rule new_prio old_prio source plen table b =
     (case k_add_rule new_prio source plen table b of (rc, b) \<Rightarrow>
        if rc < 0 then (rc, b)
        else k_flush_rule old_prio (if v4mapped source then AF_INET else AF_INET6) b)"

fun free_table_from :: "nat \<Rightarrow> bool list \<Rightarrow> nat option" where
  "free_table_from i [] = None"
| "free_table_from i (u # us) = (if \<not> u then Some i else free_table_from (i + 1) us)"

text \<open>\<open>None\<close> stands for the code's \<open>-1\<close>.\<close>

definition get_free_table :: "babel \<Rightarrow> nat option \<times> babel" where
  "get_free_table b =
     (case free_table_from 0 (used_tables b) of
        None \<Rightarrow> (None, b)
      | Some i \<Rightarrow> (Some (i + src_table_idx), b\<lparr>used_tables := (used_tables b)[i := True]\<rparr>))"

definition release_table :: "nat \<Rightarrow> babel \<Rightarrow> babel" where
  "release_table i b = b\<lparr>used_tables := (used_tables b)[i - src_table_idx := False]\<rparr>"

definition find_hole_around :: "nat \<Rightarrow> rule list \<Rightarrow> nat option" where
  "find_hole_around i rs =
     (case find (\<lambda>j. ru_plen (rs ! j) = 0) [i..<SRC_TABLE_NUM] of
        Some j \<Rightarrow> Some j
      | None \<Rightarrow> find (\<lambda>j. ru_plen (rs ! j) = 0) (rev [0..<i]))"

text \<open>The loop moves the hole, step by step, to \<open>from\<close>.\<close>

function shift_rule :: "int \<Rightarrow> int \<Rightarrow> babel \<Rightarrow> int \<times> babel" where
  "shift_rule from to b =
     (if to = from then (0, b)
      else
        let dec = (if from < to then 1 else -1);
            to = to - dec;
            r = rules b ! nat to
        in case k_change_rule (nat (to + dec) + src_table_prio) (nat to + src_table_prio)
                  (ru_src r) (ru_plen r) (ru_table r) b of
             (rc, b) \<Rightarrow>
               if rc < 0 then (-1, b)
               else shift_rule from to
                      (b\<lparr>rules := (rules b)[nat (to + dec) := rules b ! nat to,
                                              nat to := (rules b ! nat to)\<lparr>ru_plen := 0\<rparr>]\<rparr>))"
  by pat_completeness auto
termination
  by (relation "measure (\<lambda>(from, to, b). nat \<bar>to - from\<bar>)") auto

declare shift_rule.simps [simp del]

text \<open>The result is the index of the new rule.\<close>

definition insert_table :: "byte list \<Rightarrow> nat \<Rightarrow> nat \<Rightarrow> babel \<Rightarrow> nat option \<times> babel" where
  "insert_table source src_plen idx b =
     (if idx \<ge> SRC_TABLE_NUM then (None, b)
      else case get_free_table b of
        (None, b) \<Rightarrow> (None, b)
      | (Some table, b) \<Rightarrow>
          (case find_hole_around idx (rules b) of
             None \<Rightarrow> (None, release_table table b)
           | Some hole \<Rightarrow>
               (case shift_rule (int idx) (int hole) b of (rc, b) \<Rightarrow>
                  if rc < 0 then (None, release_table table b)
                  else (case k_add_rule (idx + src_table_prio) source src_plen table b of (rc, b) \<Rightarrow>
                    if rc < 0 then (None, release_table table b)
                    else (Some idx,
                          b\<lparr>rules := (rules b)[idx :=
                               \<lparr>ru_src = take 16 source, ru_plen = to_uchar src_plen,
                                ru_table = to_uchar table\<rparr>]\<rparr>)))))"

datatype table_slot = Same_source nat | Insert_at nat | No_slot

fun find_table_slot_from :: "byte list \<Rightarrow> nat \<Rightarrow> nat \<Rightarrow> rule list \<Rightarrow> table_slot" where
  "find_table_slot_from source src_plen i [] = No_slot"
| "find_table_slot_from source src_plen i (kr # krs) =
     (if ru_plen kr = 0 then Insert_at i
      else case prefix_cmp source src_plen (rule_bytes kr) (ru_plen kr) of
        PST_LESS_SPECIFIC \<Rightarrow> find_table_slot_from source src_plen (i + 1) krs
      | PST_DISJOINT \<Rightarrow> find_table_slot_from source src_plen (i + 1) krs
      | PST_MORE_SPECIFIC \<Rightarrow> Insert_at i
      | PST_EQUALS \<Rightarrow> Same_source i)"

definition find_table_slot :: "byte list \<Rightarrow> nat \<Rightarrow> rule list \<Rightarrow> table_slot" where
  "find_table_slot source src_plen rs = find_table_slot_from source src_plen 0 rs"

definition find_table :: "byte list \<Rightarrow> nat \<Rightarrow> byte list \<Rightarrow> nat \<Rightarrow> babel \<Rightarrow> int \<times> babel" where
  "find_table dest plen source src_plen b =
     (let result = snd (install_filter (filters_of b) dest plen (Some source) src_plen) in
      if fr_table result \<noteq> 0 then (int (fr_table result), b)
      else if src_plen = 0 then (export_table (conf b), b)
      else if kernel_disambiguate b (v4mapped dest) then (export_table (conf b), b)
      else case find_table_slot source src_plen (rules b) of
        Same_source i \<Rightarrow> (int (ru_table (rules b ! i)), b)
      | No_slot \<Rightarrow> (-1, b)
      | Insert_at i \<Rightarrow>
          (case insert_table source src_plen i b of
             (None, b) \<Rightarrow> (-1, b)
           | (Some i, b) \<Rightarrow> (int (ru_table (rules b ! i)), b)))"

definition release_tables :: "babel \<Rightarrow> babel" where
  "release_tables b =
     fold (\<lambda>i b.
        let b = (if ru_plen (rules b ! i) \<noteq> 0
                 then (let b = snd (k_flush_rule (i + src_table_prio)
                                      (if v4mapped (ru_src (rules b ! i)) then AF_INET else AF_INET6) b)
                       in b\<lparr>rules := (rules b)[i := (rules b ! i)\<lparr>ru_plen := 0\<rparr>]\<rparr>)
                 else b)
        in b\<lparr>used_tables := (used_tables b)[i := False]\<rparr>) [0..<SRC_TABLE_NUM] b"

section \<open>Checking the rules of the kernel\<close>

text \<open>A rule as the kernel reports it; its bytes go on past the source prefix.\<close>

record kernel_rule =
  kr_src :: "byte list"
  kr_priority :: nat
  kr_table :: nat
  kr_src_plen :: nat

datatype rule_seen = Absent | Present | Wrong

text \<open>\<open>filter_rule\<close>: what one reported rule does to the row of its family.\<close>

definition filter_rule ::
  "rule list \<Rightarrow> kernel_rule \<Rightarrow> rule_seen list \<times> rule_seen list \<Rightarrow> rule_seen list \<times> rule_seen list" where
  "filter_rule rs kr seen =
     (let is_v4 = v4mapped (kr_src kr);
          row = (if is_v4 then fst seen else snd seen);
          i = int (kr_priority kr) - int src_table_prio
      in
      if martian_prefix (kr_src kr) (kr_src_plen kr) then seen
      else if i < 0 \<or> int SRC_TABLE_NUM \<le> i then seen
      else
        let r = rs ! nat i;
            row = row[nat i :=
              (if prefix_cmp (kr_src kr) (kr_src_plen kr) (rule_bytes r) (ru_plen r) = PST_EQUALS \<and>
                  kr_table kr = ru_table r \<and> row ! nat i = Absent
               then Present else Wrong)]
        in if is_v4 then (row, snd seen) else (fst seen, row))"

text \<open>
  The inner \<open>do\<close>/\<open>while\<close> deletes rules of this priority until the kernel refuses; \<open>n\<close> bounds
  how many it can hold.
\<close>

fun flush_all_rules :: "nat \<Rightarrow> nat \<Rightarrow> af \<Rightarrow> babel \<Rightarrow> babel" where
  "flush_all_rules 0 prio family b = raise_fault Out_of_fuel b"
| "flush_all_rules (Suc n) prio family b =
     (case k_flush_rule prio family b of (rc, b) \<Rightarrow>
        if rc \<ge> 0 then flush_all_rules n prio family b else b)"

definition install_missing_rules :: "nat \<Rightarrow> rule_seen list \<Rightarrow> bool \<Rightarrow> babel \<Rightarrow> babel" where
  "install_missing_rules fuel seen v4 b =
     fold (\<lambda>i b.
        if seen ! i = Present then b
        else
          let b = (if seen ! i \<noteq> Absent
                   then flush_all_rules fuel (i + src_table_prio) (if v4 then AF_INET else AF_INET6) b
                   else b);
              r = rules b ! i
          in if v4mapped (ru_src r) = v4 \<and> ru_plen r \<noteq> 0
             then snd (k_add_rule (i + src_table_prio) (ru_src r) (ru_plen r) (ru_table r) b)
             else b) [0..<SRC_TABLE_NUM] b"

definition check_rules :: "nat \<Rightarrow> kernel_rule list \<Rightarrow> babel \<Rightarrow> babel" where
  "check_rules fuel reported b =
     (case fold (filter_rule (rules b)) reported
             (replicate SRC_TABLE_NUM Absent, replicate SRC_TABLE_NUM Absent) of
        (v4, v6) \<Rightarrow> install_missing_rules fuel v6 False (install_missing_rules fuel v4 True b))"

section \<open>The allocation invariant\<close>

text \<open>The rules in force, as (index, table) pairs.\<close>

definition live :: "rule list \<Rightarrow> (nat \<times> nat) set" where
  "live rs = {(i, ru_table (rs ! i)) | i. i < length rs \<and> ru_plen (rs ! i) \<noteq> 0}"

definition tables_match :: "rule list \<Rightarrow> nat set \<Rightarrow> bool" where
  "tables_match rs T \<longleftrightarrow> (\<forall>i j t. (i, t) \<in> live rs \<longrightarrow> (j, t) \<in> live rs \<longrightarrow> i = j) \<and> snd ` live rs = T"

definition tables_in_use :: "bool list \<Rightarrow> nat set" where
  "tables_in_use us = {t + src_table_idx | t. t < length us \<and> us ! t}"

definition rules_ok :: "babel \<Rightarrow> bool" where
  "rules_ok b \<longleftrightarrow> length (rules b) = SRC_TABLE_NUM \<and> length (used_tables b) = SRC_TABLE_NUM \<and>
     tables_match (rules b) (tables_in_use (used_tables b))"

lemma tables_match_move:
  assumes m: "tables_match rs T" and h: "h < length rs" "ru_plen (rs ! h) = 0"
    and k: "k < length rs" "k \<noteq> h"
  shows "tables_match (rs[h := rs ! k, k := (rs ! k)\<lparr>ru_plen := 0\<rparr>]) T"
proof -
  let ?rs = "rs[h := rs ! k, k := (rs ! k)\<lparr>ru_plen := 0\<rparr>]"
  have l: "(i, t) \<in> live ?rs \<longleftrightarrow> (if i = h then (k, t) \<in> live rs else i \<noteq> k \<and> (i, t) \<in> live rs)" for i t
    using h k by (auto simp: live_def nth_list_update)
  have nh: "(h, t) \<notin> live rs" for t using h by (simp add: live_def)
  have "snd ` live ?rs = snd ` live rs"
  proof (intro equalityI subsetI)
    fix t assume "t \<in> snd ` live ?rs"
    then obtain i where "(i, t) \<in> live ?rs" by force
    then show "t \<in> snd ` live rs" using l by (cases "i = h") (force simp: image_iff)+
  next
    fix t assume "t \<in> snd ` live rs"
    then obtain i where i: "(i, t) \<in> live rs" by force
    then have "(if i = k then h else i, t) \<in> live ?rs" using l nh by auto
    then show "t \<in> snd ` live ?rs" by force
  qed
  moreover have "i = j" if "(i, t) \<in> live ?rs" "(j, t) \<in> live ?rs" for i j t
    using that m unfolding l tables_match_def by (auto split: if_splits)
  ultimately show ?thesis using m by (auto simp: tables_match_def)
qed

lemma k_rule_frame [simp]:
  "rules (snd (k_add_rule p s l t b)) = rules b" "used_tables (snd (k_add_rule p s l t b)) = used_tables b"
  "rules (snd (k_flush_rule p f b)) = rules b" "used_tables (snd (k_flush_rule p f b)) = used_tables b"
  "rules (snd (k_change_rule p q s l t b)) = rules b" "used_tables (snd (k_change_rule p q s l t b)) = used_tables b"
  by (simp_all add: k_add_rule_def k_flush_rule_def k_change_rule_def syscall_def ask_def emit_def split: prod.splits)

lemma shift_rule_ok:
  assumes "shift_rule from to b = (rc, b')" and "tables_match (rules b) T"
    and "0 \<le> from" and "from < int (length (rules b))" and "0 \<le> to" and "to < int (length (rules b))"
    and "ru_plen (rules b ! nat to) = 0"
  shows "tables_match (rules b') T \<and> length (rules b') = length (rules b) \<and> used_tables b' = used_tables b \<and>
    (rc \<ge> 0 \<longrightarrow> ru_plen (rules b' ! nat from) = 0)"
  using assms
proof (induction "from" to b rule: shift_rule.induct)
  case (1 "from" to b)
  show ?case
  proof (cases "to = from")
    case True
    then show ?thesis using "1.prems" by (auto simp: shift_rule.simps [of "from"])
  next
    case False
    define dec :: int where "dec = (if from < to then 1 else -1)"
    define to' where "to' = to - dec"
    define r where "r = rules b ! nat to'"
    obtain rc1 b1 where k: "k_change_rule (nat (to' + dec) + src_table_prio) (nat to' + src_table_prio)
        (ru_src r) (ru_plen r) (ru_table r) b = (rc1, b1)" by force
    have b1: "rules b1 = rules b" "used_tables b1 = used_tables b"
      using k_rule_frame(5,6) k by (metis snd_conv)+
    have range: "0 \<le> to'" "to' < int (length (rules b))" "to' + dec = to" "nat to \<noteq> nat to'"
      using "1.prems"(3-6) False by (auto simp: to'_def dec_def)
    let ?b = "b1\<lparr>rules := (rules b1)[nat (to' + dec) := rules b1 ! nat to', nat to' := (rules b1 ! nat to')\<lparr>ru_plen := 0\<rparr>]\<rparr>"
    have step: "shift_rule from to b = (if rc1 < 0 then (-1, b1) else shift_rule from to' ?b)"
      unfolding shift_rule.simps [of "from" to b] Let_def
      by (simp only: False if_False dec_def [symmetric] to'_def [symmetric] r_def [symmetric] k prod.case)
    show ?thesis
    proof (cases "rc1 < 0")
      case True
      then show ?thesis using "1.prems" step b1 by auto
    next
      case nonneg: False
      have s: "shift_rule from to' ?b = (rc, b')" using "1.prems"(1) step nonneg by simp
      have "tables_match (rules ?b) T"
        using tables_match_move [OF "1.prems"(2), of "nat to" "nat to'"] "1.prems"(5-7) range b1 by simp
      moreover have "ru_plen (rules ?b ! nat to') = 0" using range b1 by simp
      ultimately show ?thesis
        using "1.IH" [OF False dec_def to'_def r_def k [symmetric] nonneg s] "1.prems"(3,4) range b1
        by simp
    qed
  qed
qed

lemma find_hole_around_empty:
  assumes "find_hole_around i rs = Some h" and "i < SRC_TABLE_NUM"
  shows "h < SRC_TABLE_NUM \<and> ru_plen (rs ! h) = 0"
proof (cases "find (\<lambda>j. ru_plen (rs ! j) = 0) [i..<SRC_TABLE_NUM]")
  case None
  then have "find (\<lambda>j. ru_plen (rs ! j) = 0) (rev [0..<i]) = Some h"
    using assms(1) by (simp add: find_hole_around_def)
  then obtain k where "k < length (rev [0..<i])" "h = rev [0..<i] ! k" "ru_plen (rs ! h) = 0"
    by (auto simp: find_Some_iff)
  then have "h \<in> set (rev [0..<i])" by (metis nth_mem)
  then show ?thesis using assms(2) \<open>ru_plen (rs ! h) = 0\<close> by simp
next
  case (Some j)
  then have h: "find (\<lambda>j. ru_plen (rs ! j) = 0) [i..<SRC_TABLE_NUM] = Some h"
    using assms(1) by (simp add: find_hole_around_def)
  then obtain k where "k < length [i..<SRC_TABLE_NUM]" "h = [i..<SRC_TABLE_NUM] ! k" "ru_plen (rs ! h) = 0"
    by (auto simp: find_Some_iff)
  then have "h \<in> set [i..<SRC_TABLE_NUM]" by (metis nth_mem)
  then show ?thesis using \<open>ru_plen (rs ! h) = 0\<close> by simp
qed

lemma free_table_from_Some:
  "free_table_from i us = Some t \<Longrightarrow> i \<le> t \<and> t < i + length us \<and> \<not> us ! (t - i)"
  by (induction us arbitrary: i) (auto simp: nth_Cons' Suc_diff_Suc split: if_splits, fastforce+)

lemma find_table_slot_from_bound:
  "find_table_slot_from source l i rs = Insert_at k \<Longrightarrow> k < i + length rs"
  by (induction rs arbitrary: i) (auto split: if_splits prefix_status.splits, fastforce+)

lemma tables_match_insert:
  assumes "tables_match rs T" and "i < length rs" and "ru_plen (rs ! i) = 0"
    and "ru_table r \<notin> T" and "ru_plen r \<noteq> 0"
  shows "tables_match (rs[i := r]) (insert (ru_table r) T)"
proof -
  have l: "(j, t) \<in> live (rs[i := r]) \<longleftrightarrow> (if j = i then t = ru_table r else (j, t) \<in> live rs)" for j t
    using assms(2,5) by (auto simp: live_def nth_list_update)
  have n: "(i, t) \<notin> live rs" "(j, ru_table r) \<notin> live rs" for j t
    using assms(1,3,4) by (force simp: live_def tables_match_def)+
  have "live (rs[i := r]) = insert (i, ru_table r) (live rs)" using l n by (auto split: if_splits)
  then show ?thesis using assms(1) n by (auto simp: tables_match_def)
qed

lemma tables_in_use_set:
  assumes "t < length us" and "\<not> us ! t"
  shows "tables_in_use (us[t := True]) = insert (t + src_table_idx) (tables_in_use us)"
    and "tables_in_use (us[t := True, t := False]) = tables_in_use us"
    and "t + src_table_idx \<notin> tables_in_use us"
  using assms by (auto simp: tables_in_use_def nth_list_update split: if_splits)

lemma insert_table_ok:
  assumes "rules_ok b" and "src_plen mod 256 \<noteq> 0"
  shows "rules_ok (snd (insert_table source src_plen idx b))"
proof (cases "idx < SRC_TABLE_NUM")
  case False
  then show ?thesis using assms by (simp add: insert_table_def)
next
  case idx: True
  have len: "length (rules b) = SRC_TABLE_NUM" "length (used_tables b) = SRC_TABLE_NUM"
    and m: "tables_match (rules b) (tables_in_use (used_tables b))"
    using assms(1) by (auto simp: rules_ok_def)
  show ?thesis
  proof (cases "free_table_from 0 (used_tables b)")
    case None
    then show ?thesis using assms(1) idx by (simp add: insert_table_def get_free_table_def)
  next
    case (Some t)
    then have t: "t < length (used_tables b)" "\<not> used_tables b ! t"
      using free_table_from_Some [OF Some] by auto
    let ?b1 = "b\<lparr>used_tables := (used_tables b)[t := True]\<rparr>"
    have rel: "rules_ok (release_table (t + src_table_idx) b')"
      if "tables_match (rules b') (tables_in_use (used_tables b))" "length (rules b') = SRC_TABLE_NUM"
        "used_tables b' = (used_tables b)[t := True]" for b'
      using that len t tables_in_use_set(2) [OF t]
      by (simp add: rules_ok_def release_table_def)
    show ?thesis
    proof (cases "find_hole_around idx (rules b)")
      case None
      then show ?thesis
        using Some idx rel [of ?b1] m len by (simp add: insert_table_def get_free_table_def)
    next
      case hole: (Some h)
      obtain rc b2 where s: "shift_rule (int idx) (int h) ?b1 = (rc, b2)" by force
      note h = find_hole_around_empty [OF hole idx]
      have b2: "tables_match (rules b2) (tables_in_use (used_tables b))" "length (rules b2) = SRC_TABLE_NUM"
        "used_tables b2 = (used_tables b)[t := True]" "rc \<ge> 0 \<longrightarrow> ru_plen (rules b2 ! idx) = 0"
        using shift_rule_ok [OF s, of "tables_in_use (used_tables b)"] m idx h len by auto
      obtain rc2 b3 where a: "k_add_rule (idx + src_table_prio) source src_plen (t + src_table_idx) b2 = (rc2, b3)"
        by force
      have b3: "rules b3 = rules b2" "used_tables b3 = used_tables b2"
        using k_rule_frame(1,2) a by (metis snd_conv)+
      let ?r = "\<lparr>ru_src = take 16 source, ru_plen = to_uchar src_plen, ru_table = to_uchar (t + src_table_idx)\<rparr>"
      have tab: "ru_table ?r = t + src_table_idx"
        using t(1) len(2) by (simp add: to_uchar_def SRC_TABLE_NUM_def src_table_idx_def)
      have "rc \<ge> 0 \<Longrightarrow> tables_match ((rules b2)[idx := ?r]) (insert (ru_table ?r) (tables_in_use (used_tables b)))"
        using b2 idx assms(2) tables_in_use_set(3) [OF t] tab
        by (intro tables_match_insert) (auto simp: to_uchar_def)
      then have "rc \<ge> 0 \<Longrightarrow> rules_ok (b3\<lparr>rules := (rules b3)[idx := ?r]\<rparr>)"
        using b2 b3 len t tables_in_use_set(1) [OF t] tab by (simp add: rules_ok_def)
      then show ?thesis
        using Some idx hole s a rel [of b2] rel [of b3] b2 b3
        by (simp add: insert_table_def get_free_table_def)
    qed
  qed
qed

text \<open>
  C32: (invariant) \<open>find_table\<close> keeps the allocation of tables consistent whatever the kernel
  answers: the tables marked as used are exactly those of the rules in force, and no table
  belongs to two rules; a rule that could not be moved or added leaks no table.
\<close>

theorem find_table_invariant:
  assumes "rules_ok b" and "src_plen < 256"
  shows "rules_ok (snd (find_table dest plen source src_plen b))"
proof -
  have "rules_ok (snd (insert_table source src_plen i b))" if "src_plen \<noteq> 0" for i
    using insert_table_ok [OF assms(1), of src_plen source i] assms(2) that by simp
  then show ?thesis
    using assms(1)
    by (auto simp: find_table_def Let_def split: table_slot.splits prod.splits option.splits)
      (metis snd_conv)+
qed

lemma babel_init_rules_ok: "rules_ok (babel_init e)"
proof -
  have "live (replicate 10 empty_rule) = {}" by (auto simp: live_def empty_rule_def)
  moreover have "tables_in_use (replicate 10 False) = {}" by (auto simp: tables_in_use_def)
  ultimately show ?thesis
    by (simp add: rules_ok_def babel_init_def tables_match_def SRC_TABLE_NUM_def)
qed

theorem find_table_invariant_witness:
  "rules_ok (snd (find_table zeroes 64 (replicate 24 2) 60 (babel_init good_env)))"
  by (rule find_table_invariant [OF babel_init_rules_ok]) simp

section \<open>Consequences of the mask in \<open>prefix_cmp\<close>\<close>

definition source_A :: "byte list" where
  "source_A = [0x20, 0x01, 0x0D, 0xB8, 0, 0, 0, 0x10, 0, 0, 0, 0, 0, 0, 0, 0, 1, 1, 1, 1, 1, 1, 1, 1]"

definition source_B :: "byte list" where
  "source_B = [0x20, 0x01, 0x0D, 0xB8, 0, 0, 0, 0x20, 0, 0, 0, 0, 0, 0, 0, 0, 1, 1, 1, 1, 1, 1, 1, 1]"

text \<open>
  (safety) Two different source prefixes share one routing table: from the initial state,
  the table allocated for \<open>2001:db8:0:10::/60\<close> is the table returned for
  \<open>2001:db8:0:20::/60\<close>, although neither contains the other; and a source prefix of length
  125 is not recognised when it is looked up again, so each lookup allocates a further table.
\<close>

theorem find_table_conflates:
  "fst (find_table zeroes 64 source_A 60 (babel_init good_env)) = 10 \<and>
   fst (find_table zeroes 64 source_B 60 (snd (find_table zeroes 64 source_A 60 (babel_init good_env)))) = 10 \<and>
   fst (find_table zeroes 64 source_A 125 (babel_init good_env)) = 10 \<and>
   fst (find_table zeroes 64 source_A 125 (snd (find_table zeroes 64 source_A 125 (babel_init good_env)))) = 11"
  by code_simp

end
