(* ===== verification/Disambiguation.thy ===== *)
theory Disambiguation
  imports Rules
begin

text \<open>
  \<open>disambiguation.c\<close>: installing, removing and changing routes in the kernel, with the extra
  routes that resolve conflicts between source-specific routes when the kernel cannot, and
  \<open>metric_to_kernel\<close> of \<open>route.c\<close>.

  Routes are given by address.  A zone keeps the bytes from its pointers on: the
  destination prefix of a source is followed by its source prefix, and that by its router
  identifier, because \<open>prefix_cmp\<close> may read one byte further than 16.  A loop over a stream
  of installed routes is a fold over what the stream returns (theory \<open>Rib\<close>); nothing in the
  loops of this file changes the routes.
\<close>

section \<open>Zones\<close>

record zone =
  z_dst_prefix :: "byte list"
  z_src_prefix :: "byte list"
  z_dst_plen :: nat
  z_src_plen :: nat

definition dst_bytes :: "source \<Rightarrow> byte list" where
  "dst_bytes s = s_prefix s @ s_src_prefix s"

definition src_bytes :: "source \<Rightarrow> byte list" where
  "src_bytes s = s_src_prefix s @ s_id s"

definition route_src :: "babel \<Rightarrow> ptr \<Rightarrow> source" where
  "route_src b p = src b (r_src (route b p))"

definition rt_cmp :: "babel \<Rightarrow> ptr \<Rightarrow> ptr \<Rightarrow> int" where
  "rt_cmp b rt1 rt2 =
     (let r1 = route_src b rt1; r2 = route_src b rt2;
          dst_st = prefix_cmp (dst_bytes r1) (s_plen r1) (dst_bytes r2) (s_plen r2)
      in
      if dst_st = PST_MORE_SPECIFIC then -1
      else if dst_st = PST_LESS_SPECIFIC then 1
      else
        let src_st = prefix_cmp (src_bytes r1) (s_src_plen r1) (src_bytes r2) (s_src_plen r2) in
        if src_st = PST_MORE_SPECIFIC then -1
        else if src_st = PST_LESS_SPECIFIC then 1
        else 0)"

definition min_route :: "babel \<Rightarrow> ptr option \<Rightarrow> ptr option \<Rightarrow> ptr option" where
  "min_route b r1 r2 =
     (case r1 of None \<Rightarrow> r2
      | Some p1 \<Rightarrow> (case r2 of None \<Rightarrow> r1
         | Some p2 \<Rightarrow> if rt_cmp b p1 p2 \<le> 0 then r1 else r2))"

definition conflicts :: "babel \<Rightarrow> ptr \<Rightarrow> ptr \<Rightarrow> bool" where
  "conflicts b rt rt1 =
     (let r = route_src b rt; r1 = route_src b rt1;
          dst_st = prefix_cmp (dst_bytes r) (s_plen r) (dst_bytes r1) (s_plen r1);
          src_st = prefix_cmp (src_bytes r) (s_src_plen r) (src_bytes r1) (s_src_plen r1)
      in
      if dst_st = PST_DISJOINT \<or> dst_st = PST_EQUALS then False
      else (dst_st = PST_LESS_SPECIFIC \<and> src_st = PST_MORE_SPECIFIC) \<or>
           (dst_st = PST_MORE_SPECIFIC \<and> src_st = PST_LESS_SPECIFIC))"

definition to_zone :: "babel \<Rightarrow> ptr \<Rightarrow> zone" where
  "to_zone b rt =
     (let r = route_src b rt
      in \<lparr>z_dst_prefix = dst_bytes r, z_src_prefix = src_bytes r,
          z_dst_plen = s_plen r, z_src_plen = s_src_plen r\<rparr>)"

definition inter :: "babel \<Rightarrow> ptr \<Rightarrow> ptr \<Rightarrow> zone option" where
  "inter b rt rt1 =
     (let r = route_src b rt; r1 = route_src b rt1;
          dst_st = prefix_cmp (dst_bytes r) (s_plen r) (dst_bytes r1) (s_plen r1);
          src_st = prefix_cmp (src_bytes r) (s_src_plen r) (src_bytes r1) (s_src_plen r1);
          d = (if dst_st = PST_MORE_SPECIFIC \<or> dst_st = PST_EQUALS then r else r1);
          s = (if src_st = PST_MORE_SPECIFIC \<or> src_st = PST_EQUALS then r else r1)
      in
      if dst_st = PST_DISJOINT then None
      else if src_st = PST_DISJOINT then None
      else Some \<lparr>z_dst_prefix = dst_bytes d, z_src_prefix = src_bytes s,
                 z_dst_plen = s_plen d, z_src_plen = s_src_plen s\<rparr>)"

definition zone_equal :: "zone option \<Rightarrow> zone option \<Rightarrow> bool" where
  "zone_equal z1 z2 =
     (case (z1, z2) of
        (Some z1, Some z2) \<Rightarrow>
          z_dst_plen z1 = z_dst_plen z2 \<and> v6_equal (z_dst_prefix z1) (z_dst_prefix z2) \<and>
          z_src_plen z1 = z_src_plen z2 \<and> v6_equal (z_src_prefix z1) (z_src_prefix z2)
      | _ \<Rightarrow> False)"

definition installed_stream :: "stream_kind \<Rightarrow> babel \<Rightarrow> ptr list" where
  "installed_stream which b = stream_routes (st_heap (sources b)) (rib b) which"

definition min_conflict :: "zone \<Rightarrow> ptr \<Rightarrow> babel \<Rightarrow> ptr option \<times> babel" where
  "min_conflict zone rt b =
     (case c_alloc b of (ok, b) \<Rightarrow>
        if \<not> ok then (None, b)
        else (fold (\<lambda>rt1 least.
                 if \<not> (conflicts b rt rt1 \<and> zone_equal (inter b rt rt1) (Some zone)) then least
                 else min_route b (Some rt1) least) (installed_stream ROUTE_INSTALLED b) None, b))"

fun conflict_solution_loop :: "ptr \<Rightarrow> ptr list \<Rightarrow> ptr option \<Rightarrow> babel \<Rightarrow> ptr option \<times> babel" where
  "conflict_solution_loop rt [] least b = (least, b)"
| "conflict_solution_loop rt (rt1 # rts) least b =
     (case c_alloc b of (ok, b) \<Rightarrow>
        if \<not> ok then (None, b)
        else
          conflict_solution_loop rt rts
            (fold (\<lambda>rt2 least.
               if \<not> (conflicts b rt1 rt2 \<and>
                      zone_equal (inter b rt1 rt2) (Some (to_zone b rt)) \<and>
                      rt_cmp b rt1 rt2 < 0) then least
               else min_route b (Some rt1) least) (installed_stream ROUTE_INSTALLED b) least) b)"

definition conflict_solution :: "ptr \<Rightarrow> babel \<Rightarrow> ptr option \<times> babel" where
  "conflict_solution rt b =
     (case c_alloc b of (ok, b) \<Rightarrow>
        if \<not> ok then (None, b)
        else conflict_solution_loop rt (installed_stream ROUTE_SS_INSTALLED b) None b)"

definition find_installed :: "byte list \<Rightarrow> nat \<Rightarrow> byte list \<Rightarrow> nat \<Rightarrow> babel \<Rightarrow> ptr option" where
  "find_installed prefix plen src_prefix src_plen b =
     find_installed_route (st_heap (sources b)) prefix plen src_prefix src_plen (rib b)"

definition is_installed :: "zone \<Rightarrow> babel \<Rightarrow> bool" where
  "is_installed zone b \<longleftrightarrow>
     find_installed (z_dst_prefix zone) (z_dst_plen zone) (z_src_prefix zone) (z_src_plen zone) b \<noteq> None"

section \<open>Kernel operations on a zone\<close>

definition metric_to_kernel :: "babel \<Rightarrow> int \<Rightarrow> int" where
  "metric_to_kernel b metric =
     (if metric \<ge> INFINITY_METRIC then KERNEL_INFINITY
      else if reflect_kernel_metric (conf b) then
        (let r = kernel_metric (conf b) + metric
         in if r \<ge> KERNEL_INFINITY then KERNEL_INFINITY else r)
      else kernel_metric (conf b))"

definition route_ifindex :: "babel \<Rightarrow> ptr \<Rightarrow> nat" where
  "route_ifindex b rt = i_ifindex (iface b (n_ifp (neigh b (r_neigh (route b rt)))))"

definition zone_table :: "zone \<Rightarrow> babel \<Rightarrow> int \<times> babel" where
  "zone_table zone b =
     find_table (z_dst_prefix zone) (z_dst_plen zone) (z_src_prefix zone) (z_src_plen zone) b"

definition add_route :: "zone \<Rightarrow> ptr \<Rightarrow> babel \<Rightarrow> int \<times> babel" where
  "add_route zone rt b =
     (case zone_table zone b of (table, b) \<Rightarrow>
        kernel_route ROUTE_ADD table (z_dst_prefix zone) (z_dst_plen zone)
          (z_src_prefix zone) (z_src_plen zone) (r_nexthop (route b rt)) (route_ifindex b rt)
          (metric_to_kernel b (route_metric (route b rt))) [] 0 0 0 b)"

definition del_route :: "zone \<Rightarrow> ptr \<Rightarrow> babel \<Rightarrow> int \<times> babel" where
  "del_route zone rt b =
     (case zone_table zone b of (table, b) \<Rightarrow>
        kernel_route ROUTE_FLUSH table (z_dst_prefix zone) (z_dst_plen zone)
          (z_src_prefix zone) (z_src_plen zone) (r_nexthop (route b rt)) (route_ifindex b rt)
          (metric_to_kernel b (route_metric (route b rt))) [] 0 0 0 b)"

definition chg_route :: "zone \<Rightarrow> ptr \<Rightarrow> ptr \<Rightarrow> babel \<Rightarrow> int \<times> babel" where
  "chg_route zone old new b =
     (case zone_table zone b of (table, b) \<Rightarrow>
        kernel_route ROUTE_MODIFY table (z_dst_prefix zone) (z_dst_plen zone)
          (z_src_prefix zone) (z_src_plen zone)
          (r_nexthop (route b old)) (route_ifindex b old)
          (metric_to_kernel b (route_metric (route b old)))
          (r_nexthop (route b new)) (route_ifindex b new)
          (metric_to_kernel b (route_metric (route b new))) table b)"

definition chg_route_metric :: "zone \<Rightarrow> ptr \<Rightarrow> int \<Rightarrow> int \<Rightarrow> babel \<Rightarrow> int \<times> babel" where
  "chg_route_metric zone rt old_metric new_metric b =
     (case zone_table zone b of (table, b) \<Rightarrow>
        kernel_route ROUTE_MODIFY table (z_dst_prefix zone) (z_dst_plen zone)
          (z_src_prefix zone) (z_src_plen zone)
          (r_nexthop (route b rt)) (route_ifindex b rt) old_metric
          (r_nexthop (route b rt)) (route_ifindex b rt) new_metric table b)"

section \<open>The four operations on routes\<close>

text \<open>
  \<open>rt_cmp (rt1, min_conflict (zone, rt)) == 0\<close>; a NULL from \<open>min_conflict\<close> is dereferenced.
\<close>

definition is_min_conflict :: "ptr \<Rightarrow> zone \<Rightarrow> ptr \<Rightarrow> babel \<Rightarrow> bool \<times> babel" where
  "is_min_conflict rt1 zone rt b =
     (case min_conflict zone rt b of
        (None, b) \<Rightarrow> (False, raise_fault Null_dereference b)
      | (Some m, b) \<Rightarrow> (rt_cmp b rt1 m = 0, b))"

text \<open>One round of the loop of \<open>kinstall_route\<close>.\<close>

definition kinstall_conflict :: "ptr \<Rightarrow> ptr \<Rightarrow> babel \<Rightarrow> babel" where
  "kinstall_conflict rt rt1 b =
     (case inter b rt rt1 of
        None \<Rightarrow> b
      | Some zone \<Rightarrow>
          if \<not> (conflicts b rt rt1 \<and> \<not> is_installed zone b) then b
          else case is_min_conflict rt1 zone rt b of (least, b) \<Rightarrow>
            if \<not> least then b
            else (case min_conflict zone rt1 b of
                (None, b) \<Rightarrow> snd (add_route zone (the (min_route b (Some rt) (Some rt1))) b)
              | (Some rt2, b) \<Rightarrow>
                  if rt_cmp b rt rt2 < 0 \<and> rt_cmp b rt rt1 < 0
                  then snd (chg_route zone rt2 rt b) else b))"

text \<open>The end of \<open>kinstall_route\<close>: a kernel that has the route already is a success.\<close>

definition kinstall_result :: "int \<Rightarrow> babel \<Rightarrow> int \<times> babel" where
  "kinstall_result rc b = (if rc < 0 \<and> errno b \<noteq> EEXIST then (-1, b) else (0, b))"

definition kinstall_route :: "ptr \<Rightarrow> babel \<Rightarrow> int \<times> babel" where
  "kinstall_route rt b =
     (if kernel_disambiguate b (v4mapped (r_nexthop (route b rt)))
      then (case add_route (to_zone b rt) rt b of (rc, b) \<Rightarrow> kinstall_result rc b)
      else case c_alloc b of (ok, b) \<Rightarrow>
        if \<not> ok then (-1, b)
        else
          let b = fold (kinstall_conflict rt) (installed_stream ROUTE_INSTALLED b) b;
              zone = to_zone b rt
          in case conflict_solution rt b of
               (None, b) \<Rightarrow> (case add_route zone rt b of (rc, b) \<Rightarrow> kinstall_result rc b)
             | (Some rt1, b) \<Rightarrow> (case chg_route zone rt1 rt b of (rc, b) \<Rightarrow> kinstall_result rc b))"

definition kuninstall_conflict :: "ptr \<Rightarrow> ptr \<Rightarrow> babel \<Rightarrow> babel" where
  "kuninstall_conflict rt rt1 b =
     (case inter b rt rt1 of
        None \<Rightarrow> b
      | Some zone \<Rightarrow>
          if \<not> (conflicts b rt rt1 \<and> \<not> is_installed zone b) then b
          else case is_min_conflict rt1 zone rt b of (least, b) \<Rightarrow>
            if \<not> least then b
            else (case min_conflict zone rt1 b of
                (None, b) \<Rightarrow> snd (del_route zone (the (min_route b (Some rt) (Some rt1))) b)
              | (Some rt2, b) \<Rightarrow>
                  if rt_cmp b rt rt2 < 0 \<and> rt_cmp b rt rt1 < 0
                  then snd (chg_route zone rt rt2 b) else b))"

definition kuninstall_route :: "ptr \<Rightarrow> babel \<Rightarrow> int \<times> babel" where
  "kuninstall_route rt b =
     (let zone = to_zone b rt in
      if kernel_disambiguate b (v4mapped (r_nexthop (route b rt))) then del_route zone rt b
      else
        case (case conflict_solution rt b of
                (None, b) \<Rightarrow> del_route zone rt b
              | (Some rt1, b) \<Rightarrow> chg_route zone rt rt1 b) of (rc, b) \<Rightarrow>
        case c_alloc b of (ok, b) \<Rightarrow>
          if \<not> ok then (-1, b)
          else (rc, fold (kuninstall_conflict rt) (installed_stream ROUTE_INSTALLED b) b))"

text \<open>
  The condition under which \<open>kswitch_routes\<close> and \<open>kchange_route_metric\<close> treat the zone that
  a route solves, and the loop around it.
\<close>

definition solves_conflict :: "ptr \<Rightarrow> ptr \<Rightarrow> zone \<Rightarrow> babel \<Rightarrow> bool \<times> babel" where
  "solves_conflict rt rt1 zone b =
     (if \<not> (conflicts b rt rt1 \<and> \<not> is_installed zone b) then (False, b)
      else case is_min_conflict rt1 zone rt b of (least, b) \<Rightarrow>
        if \<not> least then (False, b)
        else if \<not> rt_cmp b rt rt1 < 0 then (False, b)
        else is_min_conflict rt zone rt1 b)"

definition kswitch_conflict :: "ptr \<Rightarrow> ptr \<Rightarrow> ptr \<Rightarrow> babel \<Rightarrow> babel" where
  "kswitch_conflict old new rt1 b =
     (case inter b old rt1 of
        None \<Rightarrow> b
      | Some zone \<Rightarrow>
          (case solves_conflict old rt1 zone b of (yes, b) \<Rightarrow>
             if \<not> yes then b else snd (chg_route zone old new b)))"

definition kswitch_routes :: "ptr \<Rightarrow> ptr \<Rightarrow> babel \<Rightarrow> int \<times> babel" where
  "kswitch_routes old new b =
     (case chg_route (to_zone b old) old new b of (rc, b) \<Rightarrow>
        if rc < 0 then (-1, b)
        else if kernel_disambiguate b (v4mapped (r_nexthop (route b old))) then (rc, b)
        else case c_alloc b of (ok, b) \<Rightarrow>
          if \<not> ok then (-1, b)
          else (rc, fold (kswitch_conflict old new) (installed_stream ROUTE_INSTALLED b) b))"

definition kchange_conflict :: "ptr \<Rightarrow> int \<Rightarrow> int \<Rightarrow> ptr \<Rightarrow> babel \<Rightarrow> babel" where
  "kchange_conflict rt old_metric new_metric rt1 b =
     (case inter b rt rt1 of
        None \<Rightarrow> b
      | Some zone \<Rightarrow>
          (case solves_conflict rt rt1 zone b of (yes, b) \<Rightarrow>
             if \<not> yes then b else snd (chg_route_metric zone rt old_metric new_metric b)))"

definition kchange_route_metric :: "ptr \<Rightarrow> int \<Rightarrow> int \<Rightarrow> int \<Rightarrow> babel \<Rightarrow> int \<times> babel" where
  "kchange_route_metric rt refmetric cost add b =
     (let old_metric = metric_to_kernel b (route_metric (route b rt));
          new_metric = metric_to_kernel b (min (refmetric + cost + add) INFINITY_METRIC)
      in case chg_route_metric (to_zone b rt) rt old_metric new_metric b of (rc, b) \<Rightarrow>
        if rc < 0 then (-1, b)
        else if kernel_disambiguate b (v4mapped (r_nexthop (route b rt))) then (rc, b)
        else case c_alloc b of (ok, b) \<Rightarrow>
          if \<not> ok then (-1, b)
          else (rc, fold (kchange_conflict rt old_metric new_metric) (installed_stream ROUTE_INSTALLED b) b))"

end
