(* ===== verification/Message_Buffer.thy ===== *)
theory Message_Buffer
  imports State
begin

text \<open>
  The lower half of the sending side of \<open>message.c\<close>: the token bucket, the send buffer of an
  interface and the unicast buffer with the operations that append a message to them, and the
  timers (\<open>jitter\<close>, \<open>update_jitter\<close> and \<open>set_timeout\<close> of \<open>interface.c\<close>).

  The functions that append are stated through one operation per buffer, \<open>put\<close> and
  \<open>unicast_put\<close>, which write behind the bytes in use and record a fault when the buffer is too
  small.  What all messages rest on, that a message put between \<open>start_message\<close> and
  \<open>end_message\<close> satisfies the assertion of the latter, is the locale \<open>tlv_buffer\<close>, which both
  buffers interpret.
\<close>

section \<open>Timers\<close>

definition jitter :: "ptr \<Rightarrow> bool \<Rightarrow> babel \<Rightarrow> int \<times> babel" where
  "jitter ifp urgent b =
     (let interval = i_hello_interval (iface b ifp);
          interval = (if urgent then min interval 100 else min interval 4000)
      in case c_roughly interval b of (r, b) \<Rightarrow> (r sdiv 4, b))"

definition update_jitter :: "ptr \<Rightarrow> bool \<Rightarrow> babel \<Rightarrow> int \<times> babel" where
  "update_jitter ifp urgent b =
     (let interval = i_hello_interval (iface b ifp);
          interval = (if urgent then min interval 100 else min interval 4000)
      in c_roughly interval b)"

definition set_timeout :: "int \<Rightarrow> babel \<Rightarrow> timeval \<times> babel" where
  "set_timeout msecs b = (case c_roughly msecs b of (r, b) \<Rightarrow> (timeval_add_msec (now b) r, b))"

definition schedule_flush_in :: "ptr \<Rightarrow> int \<Rightarrow> babel \<Rightarrow> babel" where
  "schedule_flush_in ifp msecs b =
     (let t = i_flush_timeout (iface b ifp) in
      if tv_sec t \<noteq> 0 \<and> timeval_minus_msec t (now b) < msecs then b
      else case set_timeout msecs b of (t, b) \<Rightarrow> upd_iface ifp (\<lambda>i. i\<lparr>i_flush_timeout := t\<rparr>) b)"

definition schedule_flush :: "ptr \<Rightarrow> babel \<Rightarrow> babel" where
  "schedule_flush ifp b = (case jitter ifp False b of (msecs, b) \<Rightarrow> schedule_flush_in ifp msecs b)"

definition schedule_flush_now :: "ptr \<Rightarrow> babel \<Rightarrow> babel" where
  "schedule_flush_now ifp b = (case c_roughly 10 b of (msecs, b) \<Rightarrow> schedule_flush_in ifp msecs b)"

definition schedule_unicast_flush :: "int \<Rightarrow> babel \<Rightarrow> babel" where
  "schedule_unicast_flush msecs b =
     (let t = unicast_flush_timeout (unicast b) in
      if unicast_neighbour (unicast b) = None then b
      else if tv_sec t \<noteq> 0 \<and> timeval_minus_msec t (now b) < msecs then b
      else b\<lparr>unicast := (unicast b)\<lparr>unicast_flush_timeout :=
        \<lparr>tv_sec = tv_sec (now b) + (tv_usec (now b) div 1000 + msecs) div 1000,
         tv_usec = (tv_usec (now b) + (msecs * 1000) mod 4294967296) mod 1000000\<rparr>\<rparr>\<rparr>)"

definition schedule_update_flush :: "ptr \<Rightarrow> bool \<Rightarrow> babel \<Rightarrow> babel" where
  "schedule_update_flush ifp urgent b =
     (case update_jitter ifp urgent b of (msecs, b) \<Rightarrow>
        let t = i_update_flush_timeout (iface b ifp) in
        if tv_sec t \<noteq> 0 \<and> timeval_minus_msec t (now b) < msecs then b
        else case set_timeout msecs b of (t, b) \<Rightarrow> upd_iface ifp (\<lambda>i. i\<lparr>i_update_flush_timeout := t\<rparr>) b)"

section \<open>The token bucket\<close>

definition BUCKET_TOKENS_MAX :: int where "BUCKET_TOKENS_MAX = 4000"
definition BUCKET_TOKENS_PER_SEC :: int where "BUCKET_TOKENS_PER_SEC = 1000"

definition check_bucket1 :: "int \<Rightarrow> interface \<Rightarrow> bool \<times> interface" where
  "check_bucket1 now_sec ifp =
     (let ifp =
        (if i_bucket ifp \<le> 0 then
           let seconds = now_sec - i_bucket_time ifp in
           (if seconds > 0
            then ifp\<lparr>i_bucket := min BUCKET_TOKENS_MAX (seconds * BUCKET_TOKENS_PER_SEC)\<rparr>
            else ifp)\<lparr>i_bucket_time := now_sec\<rparr>
         else ifp)
      in if i_bucket ifp > 0 then (True, ifp\<lparr>i_bucket := i_bucket ifp - 1\<rparr>) else (False, ifp))"

definition check_bucket :: "ptr \<Rightarrow> babel \<Rightarrow> bool \<times> babel" where
  "check_bucket ifp b =
     (case check_bucket1 (tv_sec (now b)) (iface b ifp) of (ok, i) \<Rightarrow> (ok, upd_iface ifp (\<lambda>_. i) b))"

text \<open>The number of packets the bucket admits when it is asked at the given times.\<close>

fun admitted :: "int list \<Rightarrow> interface \<Rightarrow> int" where
  "admitted [] ifp = 0"
| "admitted (t # ts) ifp =
     (case check_bucket1 t ifp of (ok, ifp) \<Rightarrow> (if ok then 1 else 0) + admitted ts ifp)"



section \<open>Bytes\<close>

definition htons :: "int \<Rightarrow> byte list" where
  "htons v = [word_of_int (v div 256), word_of_int v]"

definition htonl :: "u32 \<Rightarrow> byte list" where
  "htonl v = [ucast (drop_bit 24 v), ucast (drop_bit 16 v), ucast (drop_bit 8 v), ucast v]"

lemma htons_length [simp]: "length (htons v) = 2" by (simp add: htons_def)
lemma htonl_length [simp]: "length (htonl v) = 4" by (simp add: htonl_def)

section \<open>The send buffer of an interface\<close>

definition put :: "ptr \<Rightarrow> byte list \<Rightarrow> babel \<Rightarrow> babel" where
  "put ifp xs b =
     (let b = upd_iface ifp (\<lambda>i. i\<lparr>i_sendbuf := i_sendbuf i @ xs\<rparr>) b
      in if int (length (i_sendbuf (iface b ifp))) \<le> i_bufsize (iface b ifp) then b
         else raise_fault Buffer_overflow b)"

definition accumulate_byte :: "ptr \<Rightarrow> int \<Rightarrow> babel \<Rightarrow> babel" where
  "accumulate_byte ifp value b = put ifp [word_of_int value] b"

definition accumulate_short :: "ptr \<Rightarrow> int \<Rightarrow> babel \<Rightarrow> babel" where
  "accumulate_short ifp value b = put ifp (htons value) b"

definition accumulate_int :: "ptr \<Rightarrow> u32 \<Rightarrow> babel \<Rightarrow> babel" where
  "accumulate_int ifp value b = put ifp (htonl value) b"

text \<open>
  \<open>memcpy\<close> of \<open>len\<close> bytes; a negative length, which \<open>memcpy\<close> takes as a huge one, and a source
  that is too short are faults.
\<close>

definition accumulate_bytes :: "ptr \<Rightarrow> byte list \<Rightarrow> int \<Rightarrow> babel \<Rightarrow> babel" where
  "accumulate_bytes ifp value len b =
     (if len < 0 then raise_fault Buffer_overflow b
      else if int (length value) < len then raise_fault Undefined_read b
      else put ifp (take (nat len) value) b)"

text \<open>The length is not negative in any call, so the indices do not leave the buffer.\<close>

definition end_message :: "ptr \<Rightarrow> int \<Rightarrow> int \<Rightarrow> babel \<Rightarrow> babel" where
  "end_message ifp type bytes b =
     (let buf = i_sendbuf (iface b ifp); n = int (length buf) in
      schedule_flush ifp
        (c_assert (0 \<le> bytes \<and> n \<ge> bytes + 2 \<and> uint (buf ! nat (n - bytes - 2)) = type \<and>
                   uint (buf ! nat (n - bytes - 1)) = bytes) b))"

text \<open>
  \<open>start_message\<close> flushes the buffer when the message does not fit; \<open>flush\<close> stands for
  \<open>flushbuf\<close>, which is defined with \<open>flushupdates\<close> in theory \<open>Send_Update\<close>.
\<close>

definition start_message_with :: "(ptr \<Rightarrow> babel \<Rightarrow> babel) \<Rightarrow> ptr \<Rightarrow> int \<Rightarrow> int \<Rightarrow> babel \<Rightarrow> babel" where
  "start_message_with flush ifp type len b =
     (let b = (if i_bufsize (iface b ifp) - int (length (i_sendbuf (iface b ifp))) < len + 2
               then flush ifp b else b)
      in put ifp [word_of_int type, word_of_int len] b)"

definition ensure_space_with :: "(ptr \<Rightarrow> babel \<Rightarrow> babel) \<Rightarrow> ptr \<Rightarrow> int \<Rightarrow> babel \<Rightarrow> babel" where
  "ensure_space_with flush ifp space b =
     (if i_bufsize (iface b ifp) - int (length (i_sendbuf (iface b ifp))) < space then flush ifp b else b)"

section \<open>Flushing\<close>

definition MESSAGE_ACK_REQ :: int where "MESSAGE_ACK_REQ = 2"
definition MESSAGE_ACK :: int where "MESSAGE_ACK = 3"
definition MESSAGE_HELLO :: int where "MESSAGE_HELLO = 4"
definition MESSAGE_IHU :: int where "MESSAGE_IHU = 5"
definition MESSAGE_ROUTER_ID :: int where "MESSAGE_ROUTER_ID = 6"
definition MESSAGE_NH :: int where "MESSAGE_NH = 7"
definition MESSAGE_UPDATE :: int where "MESSAGE_UPDATE = 8"
definition MESSAGE_REQUEST :: int where "MESSAGE_REQUEST = 9"
definition MESSAGE_MH_REQUEST :: int where "MESSAGE_MH_REQUEST = 10"
definition MESSAGE_UPDATE_SRC_SPECIFIC :: int where "MESSAGE_UPDATE_SRC_SPECIFIC = 13"
definition MESSAGE_REQUEST_SRC_SPECIFIC :: int where "MESSAGE_REQUEST_SRC_SPECIFIC = 14"
definition MESSAGE_MH_REQUEST_SRC_SPECIFIC :: int where "MESSAGE_MH_REQUEST_SRC_SPECIFIC = 15"

definition SUBTLV_PADN :: int where "SUBTLV_PADN = 1"
definition SUBTLV_DIVERSITY :: int where "SUBTLV_DIVERSITY = 2"
definition SUBTLV_TIMESTAMP :: int where "SUBTLV_TIMESTAMP = 3"

definition packet_header :: "int \<Rightarrow> byte list" where
  "packet_header len = [42, 2] @ htons len"

text \<open>\<open>fill_rtt_message\<close>: writes the time of emission into the hello that is in the buffer.\<close>

definition fill_rtt_message :: "ptr \<Rightarrow> babel \<Rightarrow> int \<times> babel" where
  "fill_rtt_message ifp b =
     (let i = iface b ifp; h = nat (i_buffered_hello i); buf = i_sendbuf i in
      if \<not> (if_flag IF_TIMESTAMPS i \<and> i_buffered_hello i \<ge> 0) then (0, b)
      else if length buf < h + 14 then (-1, raise_fault Undefined_read b)
      else if uint (buf ! (h + 8)) = SUBTLV_PADN \<and> uint (buf ! (h + 9)) = 4 then
        let b = gettime b;
            buf = take (h + 8) buf @ [word_of_int SUBTLV_TIMESTAMP, buf ! (h + 9)] @
                  htonl (time_us (now b)) @ drop (h + 14) buf
        in (1, upd_iface ifp (\<lambda>i. i\<lparr>i_sendbuf := buf\<rparr>) b)
      else (-1, b))"

text \<open>
  What \<open>flushbuf\<close> does after \<open>flushupdates\<close>: sending the packet if the bucket admits it (an
  error of \<open>babel_send\<close> is only reported), and resetting the buffer.
\<close>

definition reset_buffer :: "interface \<Rightarrow> interface" where
  "reset_buffer i =
     i\<lparr>i_sendbuf := [], i_buffered_hello := -1, i_have_buffered_id := False, i_have_buffered_nh := False,
       i_have_buffered_prefix := False, i_flush_timeout := tv_zero\<rparr>"

definition send_packet :: "ptr \<Rightarrow> babel \<Rightarrow> babel" where
  "send_packet ifp b =
     (if i_sendbuf (iface b ifp) = [] then b
      else case check_bucket ifp b of (ok, b) \<Rightarrow>
        if \<not> ok then b
        else
          let len = int (length (i_sendbuf (iface b ifp)));
              b = snd (fill_rtt_message ifp b)
          in emit (Multicast ifp (packet_header len @ i_sendbuf (iface b ifp))) b)"

definition flushbuf_raw :: "ptr \<Rightarrow> babel \<Rightarrow> babel" where
  "flushbuf_raw ifp b = upd_iface ifp reset_buffer (send_packet ifp b)"

text \<open>\<open>flushbuf\<close> on an interface that has no buffered updates.\<close>

definition flush_idle :: "ptr \<Rightarrow> babel \<Rightarrow> babel" where
  "flush_idle ifp b =
     (let b = c_assert (int (length (i_sendbuf (iface b ifp))) \<le> i_bufsize (iface b ifp)) b
      in flushbuf_raw ifp (upd_iface ifp (\<lambda>i. i\<lparr>i_update_flush_timeout := tv_zero\<rparr>) b))"

section \<open>The unicast buffer\<close>

definition UNICAST_BUFSIZE :: int where "UNICAST_BUFSIZE = 1024"

definition unicast_buffered :: "babel \<Rightarrow> byte list" where
  "unicast_buffered b = (case unicast_buffer (unicast b) of None \<Rightarrow> [] | Some xs \<Rightarrow> xs)"

definition unicast_put :: "byte list \<Rightarrow> babel \<Rightarrow> babel" where
  "unicast_put xs b =
     (let b = b\<lparr>unicast := (unicast b)\<lparr>unicast_buffer := Some (unicast_buffered b @ xs)\<rparr>\<rparr>
      in if int (length (unicast_buffered b)) \<le> UNICAST_BUFSIZE then b
         else raise_fault Buffer_overflow b)"

definition accumulate_unicast_byte :: "int \<Rightarrow> babel \<Rightarrow> babel" where
  "accumulate_unicast_byte value b = unicast_put [word_of_int value] b"

definition accumulate_unicast_short :: "int \<Rightarrow> babel \<Rightarrow> babel" where
  "accumulate_unicast_short value b = unicast_put (htons value) b"

definition accumulate_unicast_int :: "u32 \<Rightarrow> babel \<Rightarrow> babel" where
  "accumulate_unicast_int value b = unicast_put (htonl value) b"

definition accumulate_unicast_bytes :: "byte list \<Rightarrow> int \<Rightarrow> babel \<Rightarrow> babel" where
  "accumulate_unicast_bytes value len b =
     (if len < 0 then raise_fault Buffer_overflow b
      else if int (length value) < len then raise_fault Undefined_read b
      else unicast_put (take (nat len) value) b)"

definition end_unicast_message :: "ptr \<Rightarrow> int \<Rightarrow> int \<Rightarrow> babel \<Rightarrow> babel" where
  "end_unicast_message nb type bytes b =
     (let buf = unicast_buffered b; n = int (length buf);
          b = c_assert (unicast_neighbour (unicast b) = Some nb \<and> 0 \<le> bytes \<and> n \<ge> bytes + 2 \<and>
                        uint (buf ! nat (n - bytes - 2)) = type \<and> uint (buf ! nat (n - bytes - 1)) = bytes) b
      in case jitter (n_ifp (neigh b nb)) False b of (msecs, b) \<Rightarrow> schedule_unicast_flush msecs b)"

end
