(* ===== verification/Xroutes.thy ===== *)
theory Xroutes
  imports State "HOL-Library.Multiset"
begin

text \<open>
  The table of exported routes of \<open>xroute.c\<close>: an unordered array in which a route is found by
  a linear search on its key.  The array is the list \<open>xroutes\<close> (its length is
  \<open>numxroutes\<close>); a pointer into it is an index.  The contract is that of a finite map from keys
  to routes, \<open>xroute_map\<close>, which the operations refine.
\<close>

section \<open>Operations\<close>

definition xroute_matches :: "byte list \<Rightarrow> nat \<Rightarrow> byte list \<Rightarrow> nat \<Rightarrow> xroute \<Rightarrow> bool" where
  "xroute_matches prefix plen src_prefix src_plen x \<longleftrightarrow>
     x_plen x = plen \<and> v6_equal (x_prefix x) prefix \<and>
     x_src_plen x = src_plen \<and> v6_equal (x_src_prefix x) src_prefix"

fun find_index :: "('a \<Rightarrow> bool) \<Rightarrow> 'a list \<Rightarrow> nat \<Rightarrow> nat option" where
  "find_index q [] i = None"
| "find_index q (x # xs) i = (if q x then Some i else find_index q xs (i + 1))"

definition find_xroute :: "byte list \<Rightarrow> nat \<Rightarrow> byte list \<Rightarrow> nat \<Rightarrow> babel \<Rightarrow> nat option" where
  "find_xroute prefix plen src_prefix src_plen b =
     find_index (xroute_matches prefix plen src_prefix src_plen) (xroutes b) 0"

definition flush_xroute :: "nat \<Rightarrow> babel \<Rightarrow> babel" where
  "flush_xroute i b =
     (let b = c_assert (i < length (xroutes b)) b in
      if \<not> i < length (xroutes b) then b
      else
        let b = emit (Notify_xroute LOCAL_FLUSH (xroutes b ! i)) b;
            last = length (xroutes b) - 1;
            b = b\<lparr>xroutes := take last ((xroutes b)[i := xroutes b ! last])\<rparr>
        in
        if xroutes b = [] then b\<lparr>maxxroutes := 0\<rparr>
        else if maxxroutes b > 8 \<and> length (xroutes b) < maxxroutes b div 4 then
          (case c_alloc b of (ok, b) \<Rightarrow> if ok then b\<lparr>maxxroutes := maxxroutes b div 2\<rparr> else b)
        else b)"

definition new_xroute :: "byte list \<Rightarrow> nat \<Rightarrow> byte list \<Rightarrow> nat \<Rightarrow> int \<Rightarrow> nat \<Rightarrow> int \<Rightarrow> xroute" where
  "new_xroute prefix plen src_prefix src_plen metric ifindex proto =
     \<lparr>x_prefix = take 16 prefix, x_src_prefix = take 16 src_prefix, x_plen = plen, x_src_plen = src_plen,
      x_metric = metric, x_ifindex = ifindex, x_proto = nat (proto mod 256)\<rparr>"

definition append_xroute :: "xroute \<Rightarrow> babel \<Rightarrow> babel" where
  "append_xroute x b = emit (Notify_xroute LOCAL_ADD x) (b\<lparr>xroutes := xroutes b @ [x]\<rparr>)"

definition add_xroute ::
  "byte list \<Rightarrow> nat \<Rightarrow> byte list \<Rightarrow> nat \<Rightarrow> int \<Rightarrow> nat \<Rightarrow> int \<Rightarrow> babel \<Rightarrow> int \<times> babel" where
  "add_xroute prefix plen src_prefix src_plen metric ifindex proto b =
     (case find_xroute prefix plen src_prefix src_plen b of
        Some i \<Rightarrow>
          let x = xroutes b ! i in
          if x_metric x \<le> metric then (0, b)
          else
            let x = x\<lparr>x_metric := metric\<rparr>
            in (1, emit (Notify_xroute LOCAL_CHANGE x) (b\<lparr>xroutes := (xroutes b)[i := x]\<rparr>))
      | None \<Rightarrow>
          let x = new_xroute prefix plen src_prefix src_plen metric ifindex proto in
          if length (xroutes b) \<ge> maxxroutes b then
            (case c_alloc b of (ok, b) \<Rightarrow>
               if \<not> ok then (-1, b)
               else (1, append_xroute x
                          (b\<lparr>maxxroutes := (if maxxroutes b < 1 then 8 else 2 * maxxroutes b)\<rparr>)))
          else (1, append_xroute x b))"

definition xroutes_estimate :: "babel \<Rightarrow> nat" where
  "xroutes_estimate b = length (xroutes b)"

text \<open>\<open>xroute_stream_next\<close>: the next route and the advanced index.\<close>

definition xroute_stream_next :: "babel \<Rightarrow> nat \<Rightarrow> xroute option \<times> nat" where
  "xroute_stream_next b i = (if i < length (xroutes b) then (Some (xroutes b ! i), i + 1) else (None, i))"

section \<open>The table as a map\<close>

type_synonym dest = "byte list \<times> nat \<times> byte list \<times> nat"

definition xkey :: "byte list \<Rightarrow> nat \<Rightarrow> byte list \<Rightarrow> nat \<Rightarrow> dest" where
  "xkey prefix plen src_prefix src_plen = (take 16 prefix, plen, take 16 src_prefix, src_plen)"

definition xroute_key :: "xroute \<Rightarrow> dest" where
  "xroute_key x = xkey (x_prefix x) (x_plen x) (x_src_prefix x) (x_src_plen x)"

definition xroute_map :: "babel \<Rightarrow> dest \<Rightarrow> xroute option" where
  "xroute_map b k = find (\<lambda>x. xroute_key x = k) (xroutes b)"

definition xroutes_ok :: "babel \<Rightarrow> bool" where
  "xroutes_ok b \<longleftrightarrow> distinct (map xroute_key (xroutes b)) \<and> length (xroutes b) \<le> maxxroutes b"

lemma xroute_matches_key:
  "xroute_matches prefix plen src_prefix src_plen = (\<lambda>x. xroute_key x = xkey prefix plen src_prefix src_plen)"
  by (auto simp: fun_eq_iff xroute_matches_def xroute_key_def xkey_def v6_equal_def v6_equal2_def)

lemma find_index_Some:
  "find_index q xs n = Some i \<Longrightarrow> n \<le> i \<and> i - n < length xs \<and> q (xs ! (i - n)) \<and> find q xs = Some (xs ! (i - n))"
  by (induction xs arbitrary: n) (fastforce split: if_splits simp: nth_Cons')+

lemma find_index_None: "find_index q xs n = None \<longleftrightarrow> find q xs = None"
  by (induction xs arbitrary: n) auto

lemma find_xroute_map:
  "(case find_xroute prefix plen src_prefix src_plen b of
      None \<Rightarrow> xroute_map b (xkey prefix plen src_prefix src_plen) = None
    | Some i \<Rightarrow> i < length (xroutes b) \<and> xroute_key (xroutes b ! i) = xkey prefix plen src_prefix src_plen \<and>
        xroute_map b (xkey prefix plen src_prefix src_plen) = Some (xroutes b ! i))"
  using find_index_Some [of "xroute_matches prefix plen src_prefix src_plen" "xroutes b" 0]
    find_index_None [of "xroute_matches prefix plen src_prefix src_plen" "xroutes b" 0]
  by (auto simp: find_xroute_def xroute_map_def xroute_matches_key split: option.split)

lemma xroute_map_distinct:
  assumes "distinct (map xroute_key xs)"
  shows "find (\<lambda>x. xroute_key x = k) xs = Some y \<longleftrightarrow> y \<in> set xs \<and> xroute_key y = k"
  using assms by (induction xs) (auto simp: rev_image_eqI)

lemma map_eqI_Some: "(\<And>k y. m k = Some y \<longleftrightarrow> m' k = Some y) \<Longrightarrow> m = m'"
  by (rule ext) (metis option.exhaust)

lemma xroute_map_Some:
  "xroutes_ok b \<Longrightarrow> xroute_map b k = Some y \<longleftrightarrow> y \<in> set (xroutes b) \<and> xroute_key y = k"
  by (simp add: xroute_map_def xroutes_ok_def xroute_map_distinct)

lemma xroute_frame [simp]:
  "xroutes (emit e b) = xroutes b" "maxxroutes (emit e b) = maxxroutes b"
  "xroutes (snd (c_alloc b)) = xroutes b" "maxxroutes (snd (c_alloc b)) = maxxroutes b"
  by (simp_all add: emit_def c_alloc_def ask_def)

section \<open>Adding\<close>

lemma new_xroute_key [simp]:
  "xroute_key (new_xroute prefix plen src_prefix src_plen metric ifindex proto) = xkey prefix plen src_prefix src_plen"
  by (simp add: xroute_key_def xkey_def new_xroute_def)

lemma append_xroute_list [simp]:
  "xroutes (append_xroute x b) = xroutes b @ [x]" "maxxroutes (append_xroute x b) = maxxroutes b"
  by (simp_all add: append_xroute_def)

lemma append_xroute_map:
  assumes "xroutes_ok b" "xroute_map b (xroute_key x) = None" "length (xroutes b) < maxxroutes b"
  shows "xroutes_ok (append_xroute x b) \<and> xroute_map (append_xroute x b) = (xroute_map b)(xroute_key x \<mapsto> x)"
proof
  have new: "\<forall>y \<in> set (xroutes b). xroute_key y \<noteq> xroute_key x"
    using assms(2) by (auto simp: xroute_map_def find_None_iff)
  then show ok: "xroutes_ok (append_xroute x b)" using assms(1,3) by (auto simp: xroutes_ok_def)
  show "xroute_map (append_xroute x b) = (xroute_map b)(xroute_key x \<mapsto> x)"
    using new by (intro map_eqI_Some) (auto simp: xroute_map_Some [OF ok] xroute_map_Some [OF assms(1)])
qed

lemma update_xroute_map:
  assumes "xroutes_ok b" "i < length (xroutes b)" "xroute_key x = xroute_key (xroutes b ! i)"
  shows "xroutes_ok (b\<lparr>xroutes := (xroutes b)[i := x]\<rparr>) \<and>
    xroute_map (b\<lparr>xroutes := (xroutes b)[i := x]\<rparr>) = (xroute_map b)(xroute_key x \<mapsto> x)"
proof
  let ?b = "b\<lparr>xroutes := (xroutes b)[i := x]\<rparr>"
  have keys: "map xroute_key ((xroutes b)[i := x]) = map xroute_key (xroutes b)"
    using assms(2,3) by (simp add: map_update list_update_same_conv)
  then show ok: "xroutes_ok ?b" using assms(1) by (simp add: xroutes_ok_def)
  have d: "distinct (map xroute_key (xroutes b))" using assms(1) by (simp add: xroutes_ok_def)
  have inj: "j = i" if "j < length (xroutes b)" "xroute_key (xroutes b ! j) = xroute_key x" for j
    using nth_eq_iff_index_eq [OF d, of j i] that assms(2,3) by simp
  show "xroute_map ?b = (xroute_map b)(xroute_key x \<mapsto> x)"
  proof (rule map_eqI_Some)
    fix k y
    have new: "y \<in> set ((xroutes b)[i := x]) \<longleftrightarrow> y = x \<or> (\<exists>j < length (xroutes b). j \<noteq> i \<and> y = xroutes b ! j)"
      using assms(2) by (auto simp: in_set_conv_nth nth_list_update)
    have old: "y \<in> set (xroutes b) \<longleftrightarrow> (\<exists>j < length (xroutes b). y = xroutes b ! j)"
      by (auto simp: in_set_conv_nth)
    have "y \<in> set ((xroutes b)[i := x]) \<and> xroute_key y = k \<longleftrightarrow>
        (if k = xroute_key x then y = x else y \<in> set (xroutes b) \<and> xroute_key y = k)"
      unfolding new old using inj assms(3) by metis
    then show "xroute_map ?b k = Some y \<longleftrightarrow> ((xroute_map b)(xroute_key x \<mapsto> x)) k = Some y"
      using xroute_map_Some [OF ok, of k y] xroute_map_Some [OF assms(1), of k y] by (simp split: if_splits) metis
  qed
qed

lemma add_xroute_ok:
  assumes "xroutes_ok b" and "add_xroute prefix plen src_prefix src_plen metric ifindex proto b = (rc, b')"
  defines "k \<equiv> xkey prefix plen src_prefix src_plen"
  shows "xroutes_ok b' \<and>
    (case xroute_map b k of
       None \<Rightarrow> (rc = -1 \<and> xroute_map b' = xroute_map b) \<or>
         (rc = 1 \<and> xroute_map b' =
            (xroute_map b)(k \<mapsto> new_xroute prefix plen src_prefix src_plen metric ifindex proto))
     | Some x \<Rightarrow>
         if x_metric x \<le> metric then rc = 0 \<and> b' = b
         else rc = 1 \<and> xroute_map b' = (xroute_map b)(k \<mapsto> x\<lparr>x_metric := metric\<rparr>))"
proof -
  note f = find_xroute_map [where prefix = prefix and plen = plen and src_prefix = src_prefix and src_plen = src_plen
      and b = b, folded k_def]
  let ?x = "new_xroute prefix plen src_prefix src_plen metric ifindex proto"
  have frame: "xroutes_ok (emit e c) = xroutes_ok c" "xroute_map (emit e c) = xroute_map c" for e c
    by (auto simp: xroutes_ok_def xroute_map_def)
  show ?thesis
  proof (cases "find_xroute prefix plen src_prefix src_plen b")
    case (Some i)
    let ?y = "(xroutes b ! i)\<lparr>x_metric := metric\<rparr>"
    have i: "i < length (xroutes b)" "xroute_key (xroutes b ! i) = k" "xroute_map b k = Some (xroutes b ! i)"
      using f Some by auto
    have "xroute_key ?y = k" using i(2) by (simp add: xroute_key_def)
    with update_xroute_map [OF assms(1) i(1), of ?y] i Some assms(1,2) show ?thesis
      by (auto simp: add_xroute_def Let_def frame split: if_splits)
  next
    case None
    then have m: "xroute_map b k = None" using f by simp
    have key: "xroute_key ?x = k" by (simp add: k_def)
    obtain ok c where ca: "c_alloc b = (ok, c)" by force
    then have c: "xroutes c = xroutes b" "maxxroutes c = maxxroutes b"
      using xroute_frame(3,4) [of b] by simp_all
    let ?n = "if maxxroutes b < 1 then 8 else 2 * maxxroutes b"
    let ?c = "c\<lparr>maxxroutes := ?n\<rparr>"
    have grown: "xroutes_ok ?c" "xroute_map ?c = xroute_map b" "length (xroutes ?c) < maxxroutes ?c"
      if "length (xroutes b) \<ge> maxxroutes b"
      using assms(1) c that by (auto simp: xroutes_ok_def xroute_map_def)
    show ?thesis
    proof (cases "length (xroutes b) \<ge> maxxroutes b")
      case True
      have "ok \<Longrightarrow> (rc, b') = (1, append_xroute ?x ?c)" "\<not> ok \<Longrightarrow> (rc, b') = (-1, c)"
        using assms(2) None True ca c by (auto simp: add_xroute_def)
      moreover have "xroutes_ok c" "xroute_map c = xroute_map b"
        using assms(1) c by (auto simp: xroutes_ok_def xroute_map_def)
      ultimately show ?thesis
        using append_xroute_map [OF grown(1) [OF True], of ?x] grown [OF True] m key by (cases ok) simp_all
    next
      case False
      then have "(rc, b') = (1, append_xroute ?x b)" using assms(2) None by (simp add: add_xroute_def)
      then show ?thesis using append_xroute_map [OF assms(1), of ?x] m key False by simp
    qed
  qed
qed



section \<open>Removing\<close>

lemma flush_xroute_cases:
  assumes "i < length (xroutes b)"
  shows "xroutes (flush_xroute i b) =
      take (length (xroutes b) - 1) ((xroutes b)[i := xroutes b ! (length (xroutes b) - 1)])"
    and "length (xroutes b) \<le> maxxroutes b \<Longrightarrow> length (xroutes (flush_xroute i b)) \<le> maxxroutes (flush_xroute i b)"
  using assms by (auto simp: flush_xroute_def Let_def c_assert_def split: prod.split)
    (auto simp: c_alloc_def ask_def emit_def)

lemma swap_last:
  assumes "i < length xs"
  shows "mset (take (length xs - 1) (xs[i := xs ! (length xs - 1)])) = mset xs - {#xs ! i#}"
proof (cases xs rule: rev_cases)
  case (snoc ys y)
  show ?thesis
  proof (cases "i = length ys")
    case False
    then have i: "i < length ys" using assms snoc by simp
    have "mset (ys[i := y]) = add_mset y (mset ys - {#ys ! i#})" using i by (simp add: mset_update)
    moreover have "ys ! i \<in># mset ys" using i by simp
    ultimately show ?thesis using snoc i by (simp add: list_update_append nth_append)
  qed (use snoc in simp)
qed (use assms in simp)

text \<open>
  (refinement) \<open>flush_xroute\<close> deletes its key from the map and nothing else, although it
  moves the last route of the array into the hole; keys stay unique.
\<close>

theorem flush_xroute_refines:
  assumes "xroutes_ok b" and "i < length (xroutes b)"
  shows "xroutes_ok (flush_xroute i b) \<and>
    xroute_map (flush_xroute i b) = (xroute_map b)(xroute_key (xroutes b ! i) := None) \<and>
    fault (flush_xroute i b) = fault b"
proof (intro conjI)
  let ?x = "xroutes b ! i" and ?b = "flush_xroute i b"
  have d: "distinct (map xroute_key (xroutes b))" using assms(1) by (simp add: xroutes_ok_def)
  have m: "mset (xroutes ?b) = mset (xroutes b) - {#?x#}"
    using swap_last [OF assms(2)] flush_xroute_cases(1) [OF assms(2)] by simp
  have x: "?x \<in># mset (xroutes b)" using assms(2) by simp
  have "add_mset ?x (mset (xroutes ?b)) = mset (xroutes b)" using m x by simp
  then have e: "mset (?x # xroutes ?b) = mset (xroutes b)" by simp
  then have "mset (map xroute_key (?x # xroutes ?b)) = mset (map xroute_key (xroutes b))"
    by (metis mset_map)
  then have d': "distinct (map xroute_key (?x # xroutes ?b))" using d by (metis mset_eq_imp_distinct_iff)
  show ok: "xroutes_ok ?b"
    using assms(1) d' flush_xroute_cases(2) [OF assms(2)] by (auto simp: xroutes_ok_def)
  have s: "set (xroutes b) = insert ?x (set (xroutes ?b))" using e by (metis list.simps(15) set_mset_mset)
  show "xroute_map ?b = (xroute_map b)(xroute_key ?x := None)"
    using d' by (intro map_eqI_Some)
      (auto simp: xroute_map_Some [OF ok] xroute_map_Some [OF assms(1)] s rev_image_eqI)
  show "fault ?b = fault b"
    using assms(2) by (auto simp: flush_xroute_def Let_def c_assert_def emit_def c_alloc_def ask_def split: prod.split)
qed

theorem flush_xroute_refines_witness:
  "xroute_map (flush_xroute 0 ((babel_init good_env)
     \<lparr>xroutes := [new_xroute (replicate 16 2) 64 zeroes 0 5 1 3], maxxroutes := 8\<rparr>)) = Map.empty"
proof -
  let ?b = "(babel_init good_env)\<lparr>xroutes := [new_xroute (replicate 16 2) 64 zeroes 0 5 1 3], maxxroutes := 8\<rparr>"
  have "xroutes_ok ?b" "0 < length (xroutes ?b)" by (simp_all add: xroutes_ok_def)
  from flush_xroute_refines [OF this] show ?thesis by (auto simp: xroute_map_def)
qed

end
