(* ===== verification/Send_Update.thy ===== *)
theory Send_Update
  imports Message_Buffer Xroutes Disambiguation
begin

text \<open>
  Sending updates (\<open>message.c\<close> 1111-1615 and \<open>flushbuf\<close>): the encoding of one update, the order
  in which buffered updates go out, \<open>flushupdates\<close> with its effect on the feasibility distances,
  and the functions that buffer updates.

  \<open>flushbuf\<close> calls \<open>flushupdates\<close>, which calls \<open>really_send_update\<close>, which may call \<open>flushbuf\<close>
  again when the buffer is full.  The inner call finds no buffered updates, because
  \<open>flushupdates\<close> has taken them over, so the model gives it \<open>flush_idle\<close>, what \<open>flushbuf\<close> does
  in that case; \<open>flushbuf_idle\<close> proves that they agree.
\<close>

section \<open>Interference\<close>

definition channels_interfere :: "int \<Rightarrow> int \<Rightarrow> bool" where
  "channels_interfere ch1 ch2 =
     (if ch1 = IF_CHANNEL_NONINTERFERING \<or> ch2 = IF_CHANNEL_NONINTERFERING then False
      else if ch1 = IF_CHANNEL_INTERFERING \<or> ch2 = IF_CHANNEL_INTERFERING then True
      else ch1 = ch2)"

definition route_ifp :: "babel \<Rightarrow> ptr \<Rightarrow> ptr" where
  "route_ifp b rt = n_ifp (neigh b (r_neigh (route b rt)))"

definition route_interferes :: "ptr \<Rightarrow> ptr \<Rightarrow> babel \<Rightarrow> bool" where
  "route_interferes rt ifp b =
     (let same = (route_ifp b rt = ifp);
          near = channels_interfere (i_channel (iface b ifp)) (i_channel (iface b (route_ifp b rt)))
      in
      case diversity_kind (conf b) of
        DIVERSITY_NONE \<Rightarrow> True
      | DIVERSITY_INTERFACE_1 \<Rightarrow> same
      | DIVERSITY_CHANNEL_1 \<Rightarrow> same \<or> near
      | DIVERSITY_CHANNEL \<Rightarrow> same \<or> near \<or>
          (\<exists>c \<in> set (take (nat (r_channels_len (route b rt))) (r_channels (route b rt))).
             c \<noteq> 0 \<and> channels_interfere (i_channel (iface b ifp)) (uint c)))"

section \<open>One update\<close>

text \<open>
  The address data of an update: whether it is IPv4, the bytes and lengths that go on the wire,
  and how many bytes of the prefix are omitted.
\<close>

fun omit_bytes :: "byte list \<Rightarrow> byte list \<Rightarrow> nat \<Rightarrow> nat" where
  "omit_bytes (x # xs) (y # ys) (Suc n) = (if x = y then Suc (omit_bytes xs ys n) else 0)"
| "omit_bytes _ _ _ = 0"

definition update_is_v4 :: "byte list \<Rightarrow> nat \<Rightarrow> bool" where
  "update_is_v4 prefix plen \<longleftrightarrow> plen \<ge> 96 \<and> v4mapped prefix"

text \<open>\<open>send_nh\<close> announces the IPv4 next hop before the first IPv4 update of a packet.\<close>

definition send_nh :: "ptr \<Rightarrow> byte list \<Rightarrow> babel \<Rightarrow> babel" where
  "send_nh ifp addr b =
     (let i = iface b ifp in
      if \<not> i_have_buffered_nh i \<or> memcmp (i_buffered_nh i) addr 4 \<noteq> 0 then
        let b = start_message_with flush_idle ifp MESSAGE_NH 6 b;
            b = accumulate_byte ifp 1 b;
            b = accumulate_byte ifp 0 b;
            b = accumulate_bytes ifp addr 4 b;
            b = end_message ifp MESSAGE_NH 6 b
        in upd_iface ifp (\<lambda>i. i\<lparr>i_buffered_nh := take 4 addr, i_have_buffered_nh := True\<rparr>) b
      else b)"

text \<open>\<open>send_router_id\<close> announces the router identifier, or has it derived from a host prefix.\<close>

definition send_router_id ::
  "ptr \<Rightarrow> byte list \<Rightarrow> byte list \<Rightarrow> int \<Rightarrow> nat \<Rightarrow> babel \<Rightarrow> bool \<times> babel" where
  "send_router_id ifp rid real_prefix real_plen src_plen b =
     (let i = iface b ifp in
      if \<not> i_have_buffered_id i \<or> memcmp rid (i_buffered_id i) 8 \<noteq> 0 then
        let derived = (src_plen = 0 \<and> real_plen = 128 \<and> memcmp (drop 8 real_prefix) rid 8 = 0);
            b = (if derived then b
                 else
                   let b = start_message_with flush_idle ifp MESSAGE_ROUTER_ID 10 b;
                       b = accumulate_short ifp 0 b;
                       b = accumulate_bytes ifp rid 8 b
                   in end_message ifp MESSAGE_ROUTER_ID 10 b)
        in (derived, upd_iface ifp (\<lambda>i. i\<lparr>i_buffered_id := take 8 rid, i_have_buffered_id := True\<rparr>) b)
      else (False, b))"

definition send_update_tlv ::
  "ptr \<Rightarrow> bool \<Rightarrow> int \<Rightarrow> byte list \<Rightarrow> int \<Rightarrow> int \<Rightarrow> byte list \<Rightarrow> int \<Rightarrow> bool \<Rightarrow> u16 \<Rightarrow> int \<Rightarrow>
   byte list \<Rightarrow> int \<Rightarrow> babel \<Rightarrow> babel" where
  "send_update_tlv ifp v4 flags real_prefix real_plen omit real_src_prefix real_src_plen specific seqno metric
     channels channels_len b =
     (let channels_size = (if channels_len \<ge> 0 then channels_len + 2 else 0);
          type = (if specific then MESSAGE_UPDATE_SRC_SPECIFIC else MESSAGE_UPDATE);
          len = 10 + (real_plen + 7) sdiv 8 - omit + (if specific then (real_src_plen + 7) sdiv 8 else 0) + channels_size;
          b = start_message_with flush_idle ifp type len b;
          b = accumulate_byte ifp (if v4 then 1 else 2) b;
          b = accumulate_byte ifp (if specific then real_src_plen else flags) b;
          b = accumulate_byte ifp real_plen b;
          b = accumulate_byte ifp omit b;
          b = accumulate_short ifp ((i_update_interval (iface b ifp) + 5) div 10) b;
          b = accumulate_short ifp (uint seqno) b;
          b = accumulate_short ifp metric b;
          b = accumulate_bytes ifp (drop (nat omit) real_prefix) ((real_plen + 7) sdiv 8 - omit) b;
          b = (if specific then accumulate_bytes ifp real_src_prefix ((real_src_plen + 7) sdiv 8) b else b);
          b = (if channels_len \<ge> 0 then
                 let b = accumulate_byte ifp 2 b;
                     b = accumulate_byte ifp channels_len b
                 in accumulate_bytes ifp channels channels_len b
               else b)
      in end_message ifp type len b)"

definition really_send_update ::
  "ptr \<Rightarrow> byte list \<Rightarrow> byte list \<Rightarrow> nat \<Rightarrow> byte list \<Rightarrow> nat \<Rightarrow> u16 \<Rightarrow> int \<Rightarrow> byte list \<Rightarrow> int \<Rightarrow> babel \<Rightarrow> babel" where
  "really_send_update ifp rid prefix plen src_prefix src_plen seqno metric channels channels_len b =
     (let channels_len = (if diversity_kind (conf b) \<noteq> DIVERSITY_CHANNEL then -1 else channels_len);
          add_metric = output_filter (filters_of b) (Some rid) prefix plen (Some src_prefix) src_plen
                         (i_ifindex (iface b ifp))
      in
      if \<not> if_up (iface b ifp) then b
      else if add_metric \<ge> INFINITY_METRIC then b
      else
        let metric = min (metric + add_metric) INFINITY_METRIC;
            b = ensure_space_with flush_idle ifp (20 + 12 + 28 + 18) b;
            v4 = update_is_v4 prefix plen;
            specific = (src_plen \<noteq> 0)
        in
        if v4 then
          (case i_ipv4 (iface b ifp) of
             None \<Rightarrow> b
           | Some addr \<Rightarrow>
               let b = send_nh ifp addr b;
                   real_prefix = drop 12 prefix; real_plen = int plen - 96
               in case send_router_id ifp rid real_prefix real_plen src_plen b of (derived, b) \<Rightarrow>
                 send_update_tlv ifp True (if derived then 0x40 else 0) real_prefix real_plen 0
                   (drop 12 src_prefix) (int src_plen - 96) specific seqno metric channels channels_len b)
        else
          let i = iface b ifp;
              omit = (if i_have_buffered_prefix i then omit_bytes (i_buffered_prefix i) prefix (plen div 8) else 0);
              keep = (src_plen = 0 \<and> (\<not> i_have_buffered_prefix i \<or> plen \<ge> 48))
          in case send_router_id ifp rid prefix (int plen) src_plen b of (derived, b) \<Rightarrow>
            let b = send_update_tlv ifp False ((if keep then 0x80 else 0) + (if derived then 0x40 else 0))
                      prefix (int plen) (int omit) src_prefix (int src_plen) specific seqno metric
                      channels channels_len b
            in if keep
               then upd_iface ifp (\<lambda>i. i\<lparr>i_buffered_prefix := take 16 prefix, i_have_buffered_prefix := True\<rparr>) b
               else b)"

section \<open>The order of buffered updates\<close>

definition host_of_id :: "buffered_update \<Rightarrow> bool" where
  "host_of_id u \<longleftrightarrow> \<not> update_is_v4 (b_prefix u) (b_plen u) \<and> b_plen u = 128 \<and>
     memcmp (drop 8 (b_prefix u)) (b_id u) 8 = 0"

definition compare_buffered_updates :: "buffered_update \<Rightarrow> buffered_update \<Rightarrow> int" where
  "compare_buffered_updates u v =
     (let rc = memcmp (b_id u) (b_id v) 8;
          v4a = update_is_v4 (b_prefix u) (b_plen u); v4b = update_is_v4 (b_prefix v) (b_plen v);
          ma = host_of_id u; mb = host_of_id v
      in
      if rc \<noteq> 0 then rc
      else if v4a \<and> \<not> v4b then 1
      else if \<not> v4a \<and> v4b then -1
      else if ma \<and> \<not> mb then -1
      else if mb \<and> \<not> ma then 1
      else if b_plen u < b_plen v then 1
      else if b_plen u > b_plen v then -1
      else
        let rc = memcmp (b_prefix u) (b_prefix v) 16 in
        if rc \<noteq> 0 then rc
        else if b_src_plen u < b_src_plen v then -1
        else if b_src_plen u > b_src_plen v then 1
        else memcmp (b_src_prefix u) (b_src_prefix v) 16)"

text \<open>
  \<open>qsort\<close> of the C library: any sorting algorithm gives the same array here, because the
  comparison separates every two different entries (\<open>sort_updates_unique\<close> below).
\<close>

fun insert_update :: "buffered_update \<Rightarrow> buffered_update list \<Rightarrow> buffered_update list" where
  "insert_update u [] = [u]"
| "insert_update u (v # vs) =
     (if compare_buffered_updates u v \<le> 0 then u # v # vs else v # insert_update u vs)"

definition sort_updates :: "buffered_update list \<Rightarrow> buffered_update list" where
  "sort_updates us = foldr insert_update us []"

section \<open>Flushing the buffered updates\<close>

definition MAX_CHANNEL_HOPS :: int where "MAX_CHANNEL_HOPS = 20"

text \<open>The identifier of a buffered update: that of the installed route, or ours.\<close>

definition update_id :: "babel \<Rightarrow> buffered_update \<Rightarrow> byte list" where
  "update_id b u =
     take 8 (case find_installed (b_prefix u) (b_plen u) (b_src_prefix u) (b_src_plen u) b of
               None \<Rightarrow> myid (conf b)
             | Some rt \<Rightarrow> s_id (route_src b rt))"

text \<open>
  The channels of the update of a route: those of the route, behind the interface's own.  A
  route whose \<open>channels_len\<close> exceeds what it has is read past its end.
\<close>

definition copy_channels :: "babel_route \<Rightarrow> int \<Rightarrow> babel \<Rightarrow> byte list \<times> babel" where
  "copy_channels r limit b =
     (let n = min (r_channels_len r) limit
      in (take (nat n) (r_channels r),
          if int (length (r_channels r)) < n then raise_fault Undefined_read b else b))"

definition update_channels :: "babel \<Rightarrow> ptr \<Rightarrow> byte list \<times> babel" where
  "update_channels b rt =
     (let r = route b rt; ch = i_channel (iface b (route_ifp b rt)) in
      if ch = IF_CHANNEL_NONINTERFERING then copy_channels r MAX_CHANNEL_HOPS b
      else
        case copy_channels r (MAX_CHANNEL_HOPS - 1)
               (c_assert (ch = IF_CHANNEL_UNKNOWN \<or> (0 < ch \<and> ch \<le> 255)) b) of (tail, b) \<Rightarrow>
        (word_of_int (if ch = IF_CHANNEL_UNKNOWN then IF_CHANNEL_INTERFERING else ch) # tail, b))"

definition update_metric :: "babel \<Rightarrow> ptr \<Rightarrow> ptr \<Rightarrow> int" where
  "update_metric b rt ifp =
     to_ushort (if route_interferes rt ifp b then route_metric (route b rt)
                else route_metric_noninterfering (diversity_factor (conf b)) (route b rt))"

text \<open>
  The branch of \<open>flushupdates\<close> for a route: the request the update satisfies, split horizon,
  and the feasibility distance the update commits to.  The result tells whether the update
  went out (and is to be remembered as the last one).
\<close>

definition send_route_update :: "ptr \<Rightarrow> ptr \<Rightarrow> babel \<Rightarrow> bool \<times> babel" where
  "send_route_update ifp rt b =
     (let r = route b rt; s = route_src b rt; seqno = r_seqno r; metric = update_metric b rt ifp;
          b = (if metric < INFINITY_METRIC
               then g_satisfy_request (s_prefix s) (s_plen s) (s_src_prefix s) (s_src_plen s) seqno (s_id s) (Some ifp) b
               else b)
      in
      if if_flag IF_SPLIT_HORIZON (iface b ifp) \<and> route_ifp b rt = ifp then (False, b)
      else case update_channels b rt of (channels, b) \<Rightarrow>
        let b = really_send_update ifp (s_id s) (s_prefix s) (s_plen s) (s_src_prefix s) (s_src_plen s)
                  seqno metric channels (int (length channels)) b
        in (True, b\<lparr>sources := update_source (tv_sec (now b)) (r_src (route b rt)) seqno metric (sources b)\<rparr>))"

type_synonym last_update = "(byte list \<times> nat \<times> byte list \<times> nat) option"

definition same_as_last :: "last_update \<Rightarrow> buffered_update \<Rightarrow> bool" where
  "same_as_last prev u =
     (case prev of None \<Rightarrow> False
      | Some (prefix, plen, src_prefix, src_plen) \<Rightarrow>
          b_plen u = plen \<and> b_src_plen u = src_plen \<and>
          v6_equal (b_prefix u) prefix \<and> v6_equal (b_src_prefix u) src_prefix)"

definition flush_update :: "ptr \<Rightarrow> buffered_update \<Rightarrow> last_update \<times> babel \<Rightarrow> last_update \<times> babel" where
  "flush_update ifp u = (\<lambda>(prev, b).
     if same_as_last prev u then (prev, b)
     else
       let xr = find_xroute (b_prefix u) (b_plen u) (b_src_prefix u) (b_src_plen u) b;
           rt = find_installed (b_prefix u) (b_plen u) (b_src_prefix u) (b_src_plen u) b
       in
       case (case xr of None \<Rightarrow> None
             | Some k \<Rightarrow> if rt = None \<or> x_metric (xroutes b ! k) \<le> kernel_metric (conf b)
                         then Some (xroutes b ! k) else None) of
         Some x \<Rightarrow>
           (Some (x_prefix x, x_plen x, x_src_prefix x, x_src_plen x),
            really_send_update ifp (myid (conf b)) (x_prefix x) (x_plen x) (x_src_prefix x) (x_src_plen x)
              (myseqno b) (x_metric x) [] 0 b)
       | None \<Rightarrow>
           (case rt of
              Some rt \<Rightarrow>
                let s = route_src b rt in
                (case send_route_update ifp rt b of (sent, b) \<Rightarrow>
                   (if sent then Some (s_prefix s, s_plen s, s_src_prefix s, s_src_plen s) else prev, b))
            | None \<Rightarrow>
                (prev,
                 really_send_update ifp (myid (conf b)) (b_prefix u) (b_plen u) (b_src_prefix u) (b_src_plen u)
                   (myseqno b) INFINITY_METRIC [] (-1) b)))"

definition flushupdates :: "ptr \<Rightarrow> babel \<Rightarrow> babel" where
  "flushupdates ifp b =
     (let us = i_buffered_updates (iface b ifp);
          b = (if us = [] then b
               else
                 let b = upd_iface ifp (\<lambda>i. i\<lparr>i_buffered_updates := [], i_update_bufsize := 0\<rparr>) b in
                 if \<not> if_up (iface b ifp) then b
                 else
                   let us = sort_updates (map (\<lambda>u. u\<lparr>b_id := update_id b u\<rparr>) us)
                   in schedule_flush_now ifp (snd (fold (flush_update ifp) us (None, b))))
      in upd_iface ifp (\<lambda>i. i\<lparr>i_update_flush_timeout := tv_zero\<rparr>) b)"

text \<open>\<open>flushupdates (NULL)\<close>.\<close>

definition flushupdates_all :: "babel \<Rightarrow> babel" where
  "flushupdates_all b = fold flushupdates (interfaces (ifaces b)) b"

definition flushbuf :: "ptr \<Rightarrow> babel \<Rightarrow> babel" where
  "flushbuf ifp b =
     (let b = c_assert (int (length (i_sendbuf (iface b ifp))) \<le> i_bufsize (iface b ifp)) b
      in flushbuf_raw ifp (flushupdates ifp b))"

abbreviation start_message :: "ptr \<Rightarrow> int \<Rightarrow> int \<Rightarrow> babel \<Rightarrow> babel" where
  "start_message \<equiv> start_message_with flushbuf"

lemma flushbuf_idle:
  "i_buffered_updates (iface b ifp) = [] \<Longrightarrow> flushbuf ifp b = flush_idle ifp b"
  by (simp add: flushbuf_def flush_idle_def flushupdates_def Let_def c_assert_def raise_fault_def)

section \<open>Buffering updates\<close>

definition append_update :: "ptr \<Rightarrow> byte list \<Rightarrow> nat \<Rightarrow> byte list \<Rightarrow> nat \<Rightarrow> babel \<Rightarrow> babel" where
  "append_update ifp prefix plen src_prefix src_plen b =
     upd_iface ifp (\<lambda>i. i\<lparr>i_buffered_updates := i_buffered_updates i @
       [\<lparr>b_id = replicate 8 0, b_prefix = take 16 prefix, b_src_prefix = take 16 src_prefix,
         b_plen = plen, b_src_plen = src_plen\<rparr>]\<rparr>) b"

text \<open>
  The array for buffered updates; when there is not enough memory, a tiny one is tried.  The
  result tells whether there is one.
\<close>

definition alloc_updates :: "ptr \<Rightarrow> babel \<Rightarrow> bool \<times> babel" where
  "alloc_updates ifp b =
     (let b = c_assert (i_buffered_updates (iface b ifp) = []) b;
          n = max (int (installed_routes_estimate (rib b) + xroutes_estimate b + 4))
                  (i_bufsize (iface b ifp) div 16)
      in case c_alloc b of (ok, b) \<Rightarrow>
        if ok then (True, upd_iface ifp (\<lambda>i. i\<lparr>i_update_bufsize := n\<rparr>) b)
        else if n > 4 then
          (case c_alloc b of (ok, b) \<Rightarrow>
             if ok then (True, upd_iface ifp (\<lambda>i. i\<lparr>i_update_bufsize := 4\<rparr>) b) else (False, b))
        else (False, b))"

definition buffer_update :: "ptr \<Rightarrow> byte list \<Rightarrow> nat \<Rightarrow> byte list \<Rightarrow> nat \<Rightarrow> babel \<Rightarrow> babel" where
  "buffer_update ifp prefix plen src_prefix src_plen b =
     (let num = int (length (i_buffered_updates (iface b ifp)));
          b = (if num > 0 \<and> num \<ge> i_update_bufsize (iface b ifp) then flushupdates ifp b else b)
      in
      if i_update_bufsize (iface b ifp) = 0 then
        (case alloc_updates ifp b of (ok, b) \<Rightarrow>
           if ok then append_update ifp prefix plen src_prefix src_plen b else b)
      else append_update ifp prefix plen src_prefix src_plen b)"

text \<open>\<open>send_update\<close> on one interface, for one prefix.\<close>

definition send_update_for :: "ptr \<Rightarrow> bool \<Rightarrow> byte list \<Rightarrow> nat \<Rightarrow> byte list \<Rightarrow> nat \<Rightarrow> babel \<Rightarrow> babel" where
  "send_update_for ifp urgent prefix plen src_prefix src_plen b =
     (if \<not> if_up (iface b ifp) then b
      else schedule_update_flush ifp urgent (buffer_update ifp prefix plen src_prefix src_plen b))"

definition send_xroute_update :: "ptr \<Rightarrow> xroute \<Rightarrow> babel \<Rightarrow> babel" where
  "send_xroute_update ifp x b =
     send_update_for ifp False (x_prefix x) (x_plen x) (x_src_prefix x) (x_src_plen x) b"

definition send_self_update :: "ptr \<Rightarrow> babel \<Rightarrow> babel" where
  "send_self_update ifp b =
     (case c_alloc b of (ok, b) \<Rightarrow> if ok then fold (send_xroute_update ifp) (xroutes b) b else b)"

definition send_self_update_all :: "babel \<Rightarrow> babel" where
  "send_self_update_all b =
     fold (\<lambda>ifp b. if if_up (iface b ifp) then send_self_update ifp b else b) (interfaces (ifaces b)) b"

text \<open>
  \<open>send_update\<close> on one interface for any route: with \<open>specific\<close> the source-specific routes
  (\<open>prefix\<close> given, \<open>src_prefix\<close> NULL), without it the others.
\<close>

definition buffer_route :: "ptr \<Rightarrow> bool \<Rightarrow> ptr \<Rightarrow> babel \<Rightarrow> babel" where
  "buffer_route ifp specific rt b =
     (let s = route_src b rt in
      if specific \<longleftrightarrow> s_src_plen s \<noteq> 0
      then buffer_update ifp (s_prefix s) (s_plen s) (s_src_prefix s) (s_src_plen s) b
      else b)"

definition send_update_any :: "ptr \<Rightarrow> bool \<Rightarrow> bool \<Rightarrow> babel \<Rightarrow> babel" where
  "send_update_any ifp urgent specific b =
     (if \<not> if_up (iface b ifp) then b
      else
        let b = send_self_update ifp b in
        case c_alloc b of (ok, b) \<Rightarrow>
          let b = (if ok then fold (buffer_route ifp specific) (installed_stream ROUTE_INSTALLED b) b else b)
          in case set_timeout (i_update_interval (iface b ifp)) b of (t, b) \<Rightarrow>
            let b = upd_iface ifp (\<lambda>i. i\<lparr>i_update_timeout := t\<rparr>) b;
                b = (if specific
                     then upd_iface ifp (\<lambda>i. i\<lparr>i_last_specific_update_time := tv_sec (now b)\<rparr>) b
                     else upd_iface ifp (\<lambda>i. i\<lparr>i_last_update_time := tv_sec (now b)\<rparr>) b)
            in schedule_update_flush ifp urgent b)"

text \<open>
  \<open>send_update\<close>: the interface and the two prefixes may be NULL.  (No caller passes a NULL
  interface and a NULL \<open>src_prefix\<close> only, which \<open>satisfy_request\<close> would dereference.)
\<close>

definition send_update1 ::
  "ptr \<Rightarrow> bool \<Rightarrow> byte list option \<Rightarrow> nat \<Rightarrow> byte list option \<Rightarrow> nat \<Rightarrow> babel \<Rightarrow> babel" where
  "send_update1 ifp urgent prefix plen src_prefix src_plen b =
     (if \<not> if_up (iface b ifp) then b
      else case (prefix, src_prefix) of
        (Some p, Some sp) \<Rightarrow> send_update_for ifp urgent p plen sp src_plen b
      | (None, Some _) \<Rightarrow> send_update_any ifp urgent False b
      | (Some _, None) \<Rightarrow> send_update_any ifp urgent True b
      | (None, None) \<Rightarrow>
          schedule_update_flush ifp urgent
            (send_update_any ifp urgent True (send_update_any ifp urgent False b)))"

definition send_update ::
  "ptr option \<Rightarrow> bool \<Rightarrow> byte list option \<Rightarrow> nat \<Rightarrow> byte list option \<Rightarrow> nat \<Rightarrow> babel \<Rightarrow> babel" where
  "send_update ifp urgent prefix plen src_prefix src_plen b =
     (case ifp of
        Some p \<Rightarrow> send_update1 p urgent prefix plen src_prefix src_plen b
      | None \<Rightarrow>
          let b = fold (\<lambda>p. send_update1 p urgent prefix plen src_prefix src_plen) (interfaces (ifaces b)) b
          in case (prefix, src_prefix) of
               (Some pr, Some sp) \<Rightarrow>
                 (case find_installed pr plen sp src_plen b of
                    Some rt \<Rightarrow>
                      if route_metric (route b rt) < INFINITY_METRIC
                      then g_satisfy_request pr plen sp src_plen (s_seqno (route_src b rt)) (s_id (route_src b rt)) None b
                      else b
                  | None \<Rightarrow> b)
             | (Some pr, None) \<Rightarrow>
                 (case find_installed pr plen [] src_plen b of
                    Some rt \<Rightarrow>
                      if route_metric (route b rt) < INFINITY_METRIC then raise_fault Null_dereference b else b
                  | None \<Rightarrow> b)
             | _ \<Rightarrow> b)"

definition send_update_resend :: "ptr option \<Rightarrow> byte list \<Rightarrow> nat \<Rightarrow> byte list \<Rightarrow> nat \<Rightarrow> babel \<Rightarrow> babel" where
  "send_update_resend ifp prefix plen src_prefix src_plen b =
     g_record_resend RESEND_UPDATE prefix plen src_prefix src_plen 0 None None (resend_delay (conf b))
       (send_update ifp True (Some prefix) plen (Some src_prefix) src_plen b)"

definition send_wildcard_retraction :: "ptr \<Rightarrow> babel \<Rightarrow> babel" where
  "send_wildcard_retraction ifp b =
     (if \<not> if_up (iface b ifp) then b
      else
        let b = start_message ifp MESSAGE_UPDATE 10 b;
            b = accumulate_byte ifp 0 b;
            b = accumulate_byte ifp 0 b;
            b = accumulate_byte ifp 0 b;
            b = accumulate_byte ifp 0 b;
            b = accumulate_short ifp 0xFFFF b;
            b = accumulate_short ifp (uint (myseqno b)) b;
            b = accumulate_short ifp 0xFFFF b;
            b = end_message ifp MESSAGE_UPDATE 10 b
        in upd_iface ifp (\<lambda>i. i\<lparr>i_have_buffered_id := False\<rparr>) b)"

definition send_wildcard_retraction_all :: "babel \<Rightarrow> babel" where
  "send_wildcard_retraction_all b = fold send_wildcard_retraction (interfaces (ifaces b)) b"

definition update_myseqno :: "babel \<Rightarrow> babel" where
  "update_myseqno b = b\<lparr>myseqno := seqno_plus (myseqno b) 1, seqno_time := now b\<rparr>"

end
