(* ===== verification/Neighbour_Cost.thy ===== *)
theory Neighbour_Cost
  imports State
begin

text \<open>
  The cost of a neighbour (\<open>neighbour.c\<close> and \<open>valid_rtt\<close> of \<open>neighbour.h\<close>): the cost it
  announces, the cost of hearing it, the penalty for a long round trip, and their combination.

  A neighbour is an address; an \<open>unsigned\<close> is an \<open>int\<close> with its reduction modulo \<open>2^32\<close>
  written where it can happen.
\<close>

section \<open>Definitions\<close>

definition valid_rtt :: "ptr \<Rightarrow> babel \<Rightarrow> bool" where
  "valid_rtt nb b \<longleftrightarrow> timeval_minus_msec (now b) (n_rtt_time (neigh b nb)) < 180000"

definition neighbour_txcost :: "ptr \<Rightarrow> babel \<Rightarrow> int" where
  "neighbour_txcost nb b = n_txcost (neigh b nb)"

text \<open>The weight of the received hellos, \<open>sreach\<close>, and the cost of a link-quality interface.\<close>

definition smoothed_reach :: "u16 \<Rightarrow> int" where
  "smoothed_reach reach =
     uint (drop_bit 2 (reach AND 0x8000)) + uint (drop_bit 1 (reach AND 0x4000)) + uint (reach AND 0x3FFF)"

definition lq_cost :: "int \<Rightarrow> u16 \<Rightarrow> int \<Rightarrow> int" where
  "lq_cost ifcost reach delay =
     (let cost = (0x8000 * ifcost) div (smoothed_reach reach + 1);
          cost = (if delay \<ge> 40000 then ((cost * (delay - 20000) + 10000) mod 4294967296) div 20000 else cost)
      in min cost INFINITY_METRIC)"

definition neighbour_rxcost :: "ptr \<Rightarrow> babel \<Rightarrow> int" where
  "neighbour_rxcost nb b =
     (let reach = n_reach (neigh b nb);
          ifp = iface b (n_ifp (neigh b nb));
          delay = timeval_minus_msec (now b) (n_hello_time (neigh b nb))
      in
      if reach AND 0xFFF0 = 0 \<or> delay \<ge> 180000 then INFINITY_METRIC
      else if if_flag IF_LQ ifp then lq_cost (i_cost ifp) reach delay
      else if reach AND 0xC000 = 0xC000 then i_cost ifp
      else if reach AND 0xC000 = 0 then INFINITY_METRIC
      else if reach AND 0x2000 \<noteq> 0 then i_cost ifp
      else INFINITY_METRIC)"

definition neighbour_rttcost :: "ptr \<Rightarrow> babel \<Rightarrow> int \<times> babel" where
  "neighbour_rttcost nb b =
     (let ifp = iface b (n_ifp (neigh b nb)); rtt = n_rtt (neigh b nb) in
      if i_max_rtt_penalty ifp = 0 \<or> \<not> valid_rtt nb b then (0, b)
      else if rtt \<le> i_rtt_min ifp then (0, b)
      else if rtt \<le> i_rtt_max ifp then
        let tmp = i_max_rtt_penalty ifp * (rtt - i_rtt_min ifp) div (i_rtt_max ifp - i_rtt_min ifp)
        in (tmp, c_assert (tmp < 2147483648) b)
      else (i_max_rtt_penalty ifp, b))"

definition etx :: "int \<Rightarrow> int \<Rightarrow> int" where
  "etx a1 b1 = (max a1 256 * max b1 256 + 128) div 256"

definition neighbour_cost :: "ptr \<Rightarrow> babel \<Rightarrow> int \<times> babel" where
  "neighbour_cost nb b =
     (let ifp = iface b (n_ifp (neigh b nb)); a1 = neighbour_txcost nb b; b1 = neighbour_rxcost nb b in
      if \<not> if_up ifp then (INFINITY_METRIC, b)
      else if a1 \<ge> INFINITY_METRIC then (INFINITY_METRIC, b)
      else if b1 \<ge> INFINITY_METRIC then (INFINITY_METRIC, b)
      else
        let cost = (if \<not> if_flag IF_LQ ifp \<or> (a1 < 256 \<and> b1 < 256) then a1 else etx a1 b1)
        in case neighbour_rttcost nb b of (r, b) \<Rightarrow>
             (min ((cost + r) mod 4294967296) INFINITY_METRIC, b))"

lemma neighbour_cost_frame [simp]:
  "sources (snd (neighbour_rttcost nb b)) = sources b" "rib (snd (neighbour_rttcost nb b)) = rib b"
  "sources (snd (neighbour_cost nb b)) = sources b" "rib (snd (neighbour_cost nb b)) = rib b"
  by (simp_all add: neighbour_rttcost_def neighbour_cost_def Let_def split: prod.split)

section \<open>Costs in range\<close>

text \<open>What the types and the configuration parser give: unsigned values, the penalty 16 bits.\<close>

definition costs_ok :: "ptr \<Rightarrow> babel \<Rightarrow> bool" where
  "costs_ok nb b \<longleftrightarrow>
     (let ifp = iface b (n_ifp (neigh b nb)) in
      0 \<le> n_txcost (neigh b nb) \<and> n_txcost (neigh b nb) \<le> INFINITY_METRIC \<and>
      0 \<le> i_cost ifp \<and> i_cost ifp \<le> INFINITY_METRIC \<and> 0 \<le> n_rtt (neigh b nb) \<and>
      0 \<le> i_rtt_min ifp \<and> 0 \<le> i_max_rtt_penalty ifp \<and> i_max_rtt_penalty ifp \<le> INFINITY_METRIC)"

lemma smoothed_reach_nonneg: "0 \<le> smoothed_reach reach"
  by (simp add: smoothed_reach_def)

lemma linear_part_bounds:
  fixes m :: int
  assumes "0 \<le> m" "lo < x" "x \<le> hi"
  shows "0 \<le> m * (x - lo) div (hi - lo) \<and> m * (x - lo) div (hi - lo) \<le> m"
proof
  show "0 \<le> m * (x - lo) div (hi - lo)" using assms by (simp add: pos_imp_zdiv_nonneg_iff)
  have "m * (x - lo) \<le> m * (hi - lo)" using assms by (simp add: mult_left_mono)
  then have "m * (x - lo) div (hi - lo) \<le> m * (hi - lo) div (hi - lo)" using assms by (intro zdiv_mono1) auto
  then show "m * (x - lo) div (hi - lo) \<le> m" using assms by simp
qed

lemma rttcost_bounds:
  assumes "costs_ok nb b"
  shows "0 \<le> fst (neighbour_rttcost nb b)"
    "fst (neighbour_rttcost nb b) \<le> i_max_rtt_penalty (iface b (n_ifp (neigh b nb)))"
    "snd (neighbour_rttcost nb b) = b"
  using assms linear_part_bounds [of "i_max_rtt_penalty (iface b (n_ifp (neigh b nb)))"
      "i_rtt_min (iface b (n_ifp (neigh b nb)))" "n_rtt (neigh b nb)" "i_rtt_max (iface b (n_ifp (neigh b nb)))"]
  by (auto simp: neighbour_rttcost_def costs_ok_def Let_def c_assert_def INFINITY_METRIC_def)

lemma lq_cost_bounds: "0 \<le> ifcost \<Longrightarrow> 0 \<le> lq_cost ifcost reach delay \<and> lq_cost ifcost reach delay \<le> INFINITY_METRIC"
  using smoothed_reach_nonneg [of reach]
  by (auto simp: lq_cost_def Let_def INFINITY_METRIC_def pos_imp_zdiv_nonneg_iff min_def)

lemma rxcost_bounds:
  "costs_ok nb b \<Longrightarrow> 0 \<le> neighbour_rxcost nb b \<and> neighbour_rxcost nb b \<le> INFINITY_METRIC"
  using lq_cost_bounds by (auto simp: neighbour_rxcost_def costs_ok_def Let_def INFINITY_METRIC_def)

lemma etx_bounds:
  assumes "0 \<le> a1" "a1 < INFINITY_METRIC" "0 \<le> b1" "b1 < INFINITY_METRIC"
  shows "a1 \<le> etx a1 b1 \<and> b1 \<le> etx a1 b1 \<and> etx a1 b1 \<le> 16776960"
proof -
  let ?a = "max a1 256" and ?b = "max b1 256"
  have b: "256 \<le> ?a" "256 \<le> ?b" "?a \<le> 65534" "?b \<le> 65534" using assms by (auto simp: INFINITY_METRIC_def)
  have "?a * 256 \<le> ?a * ?b" "256 * ?b \<le> ?a * ?b" "?a * ?b \<le> 65534 * 65534"
    using b by (intro mult_left_mono mult_right_mono mult_mono; simp)+
  then have "?a * 256 div 256 \<le> etx a1 b1" "256 * ?b div 256 \<le> etx a1 b1"
    "etx a1 b1 \<le> (65534 * 65534 + 128) div 256"
    unfolding etx_def by (intro zdiv_mono1; linarith)+
  then show ?thesis by auto
qed

lemma neighbour_cost_ok:
  assumes "costs_ok nb b"
  shows "snd (neighbour_cost nb b) = b \<and>
    (let ifp = iface b (n_ifp (neigh b nb)); cost = fst (neighbour_cost nb b);
         tx = neighbour_txcost nb b; rx = neighbour_rxcost nb b; rtt = fst (neighbour_rttcost nb b) in
     0 \<le> cost \<and> cost \<le> INFINITY_METRIC \<and>
     (cost < INFINITY_METRIC \<longrightarrow> if_up ifp \<and> tx + rtt \<le> cost \<and> rx < INFINITY_METRIC \<and>
        (if_flag IF_LQ ifp \<and> (256 \<le> tx \<or> 256 \<le> rx) \<longrightarrow> rx + rtt \<le> cost)) \<and>
     (cost = INFINITY_METRIC \<longrightarrow> \<not> if_up ifp \<or> tx = INFINITY_METRIC \<or> rx = INFINITY_METRIC \<or>
        INFINITY_METRIC \<le> etx tx rx + rtt))"
proof -
  let ?ifp = "iface b (n_ifp (neigh b nb))"
  let ?tx = "neighbour_txcost nb b" and ?rx = "neighbour_rxcost nb b" and ?r = "fst (neighbour_rttcost nb b)"
  have tx: "0 \<le> ?tx" "?tx \<le> INFINITY_METRIC" using assms by (auto simp: costs_ok_def neighbour_txcost_def Let_def)
  note rx = rxcost_bounds [OF assms]
  note r = rttcost_bounds [OF assms]
  have rm: "?r \<le> INFINITY_METRIC" using r(2) assms by (auto simp: costs_ok_def Let_def)
  define c where "c = (if \<not> if_flag IF_LQ ?ifp \<or> (?tx < 256 \<and> ?rx < 256) then ?tx else etx ?tx ?rx)"
  have val: "neighbour_cost nb b =
      (if \<not> if_up ?ifp \<or> ?tx \<ge> INFINITY_METRIC \<or> ?rx \<ge> INFINITY_METRIC then (INFINITY_METRIC, b)
       else (min ((c + ?r) mod 4294967296) INFINITY_METRIC, b))"
    using r(3) by (cases "neighbour_rttcost nb b") (auto simp: neighbour_cost_def Let_def c_def)
  show ?thesis
  proof (cases "\<not> if_up ?ifp \<or> ?tx \<ge> INFINITY_METRIC \<or> ?rx \<ge> INFINITY_METRIC")
    case True
    then show ?thesis using val tx rx by (auto simp: Let_def INFINITY_METRIC_def)
  next
    case False
    then have e: "?tx \<le> etx ?tx ?rx" "?rx \<le> etx ?tx ?rx" "etx ?tx ?rx \<le> 16776960"
      using etx_bounds [of ?tx ?rx] tx rx by auto
    then have c: "?tx \<le> c" "c \<le> etx ?tx ?rx" "if_flag IF_LQ ?ifp \<and> (256 \<le> ?tx \<or> 256 \<le> ?rx) \<longrightarrow> ?rx \<le> c"
      by (auto simp: c_def)
    have "(c + ?r) mod 4294967296 = c + ?r"
      using c e tx r(1) rm by (intro mod_pos_pos_trivial) (auto simp: INFINITY_METRIC_def)
    then show ?thesis using val False c tx r(1) by (auto simp: Let_def min_def)
  qed
qed


definition a_link :: "int \<Rightarrow> u16 \<Rightarrow> babel" where
  "a_link txcost reach =
     (let b = babel_init good_env in
      b\<lparr>now := \<lparr>tv_sec = 1000, tv_usec = 0\<rparr>,
        nbrs := (nbrs b)\<lparr>n_heap := (\<lambda>_. neighbour_zero\<lparr>n_txcost := txcost, n_reach := reach, n_ifp := 3,
          n_hello_time := \<lparr>tv_sec = 990, tv_usec = 0\<rparr>, n_rtt_time := \<lparr>tv_sec = 999, tv_usec = 0\<rparr>, n_rtt := 50000\<rparr>),
          neighs := [2]\<rparr>,
        ifaces := (ifaces b)\<lparr>i_heap := (\<lambda>_. interface_zero\<lparr>i_flags := IF_UP OR IF_LQ, i_cost := 256, i_rtt_min := 10000,
          i_rtt_max := 120000, i_max_rtt_penalty := 96\<rparr>), interfaces := [3]\<rparr>\<rparr>)"


text \<open>
  (functional) The round-trip penalty never decreases when the round trip gets longer, is
  zero up to \<open>rtt_min\<close> and the whole penalty from \<open>rtt_max\<close> on.
\<close>

theorem rttcost_monotone:
  assumes "costs_ok nb b" and "n_rtt (neigh b nb) \<le> rtt"
  defines "ifp \<equiv> iface b (n_ifp (neigh b nb))"
  defines "slow \<equiv> upd_neigh nb (\<lambda>m. m\<lparr>n_rtt := rtt\<rparr>) b"
  shows "fst (neighbour_rttcost nb b) \<le> fst (neighbour_rttcost nb slow) \<and>
    (rtt \<le> i_rtt_min ifp \<longrightarrow> fst (neighbour_rttcost nb slow) = 0) \<and>
    (i_rtt_min ifp < rtt \<and> i_rtt_max ifp \<le> rtt \<and> valid_rtt nb b \<longrightarrow>
       fst (neighbour_rttcost nb slow) = i_max_rtt_penalty ifp)"
proof -
  let ?r = "n_rtt (neigh b nb)" and ?m = "i_max_rtt_penalty ifp" and ?lo = "i_rtt_min ifp" and ?hi = "i_rtt_max ifp"
  have v: "valid_rtt nb slow = valid_rtt nb b" by (simp add: valid_rtt_def slow_def upd_neigh_def)
  have s: "fst (neighbour_rttcost nb slow) =
      (if ?m = 0 \<or> \<not> valid_rtt nb b then 0 else if rtt \<le> ?lo then 0
       else if rtt \<le> ?hi then ?m * (rtt - ?lo) div (?hi - ?lo) else ?m)"
    using v by (simp add: neighbour_rttcost_def Let_def slow_def upd_neigh_def ifp_def)
  have f: "fst (neighbour_rttcost nb b) =
      (if ?m = 0 \<or> \<not> valid_rtt nb b then 0 else if ?r \<le> ?lo then 0
       else if ?r \<le> ?hi then ?m * (?r - ?lo) div (?hi - ?lo) else ?m)"
    by (simp add: neighbour_rttcost_def Let_def ifp_def)
  have m: "0 \<le> ?m" using assms(1) by (auto simp: costs_ok_def Let_def ifp_def)
  have "?m * (?r - ?lo) div (?hi - ?lo) \<le> ?m * (rtt - ?lo) div (?hi - ?lo)" if "?lo < ?hi"
    using that m assms(2) by (intro zdiv_mono1 mult_left_mono) auto
  then show ?thesis unfolding s f
    using m linear_part_bounds [OF m, of ?lo rtt ?hi] linear_part_bounds [OF m, of ?lo ?r ?hi] assms(2) by auto
qed

theorem rttcost_monotone_witness:
  "fst (neighbour_rttcost 2 (a_link 256 0xFF00)) \<le>
   fst (neighbour_rttcost 2 (upd_neigh 2 (\<lambda>m. m\<lparr>n_rtt := 70000\<rparr>) (a_link 256 0xFF00)))"
proof -
  have "costs_ok 2 (a_link 256 0xFF00)" "n_rtt (neigh (a_link 256 0xFF00) 2) \<le> 70000" by code_simp+
  from rttcost_monotone [OF this] show ?thesis by simp
qed

text \<open>
  (safety) The cost of a bad link wraps around: on a link-quality interface of cost 256,
  a neighbour none of whose last seven hellos arrived and that was last heard 40 s ago has a
  cost of 493447 before its delay is accounted for, far above infinity, and 63950 after, which
  is finite.
\<close>

theorem lq_cost_wraps:
  "lq_cost 256 0x0010 39999 = INFINITY_METRIC \<and> lq_cost 256 0x0010 40000 = 63950"
  by code_simp

end
