(* ===== verification/Send_Message.thy ===== *)
theory Send_Message
  imports Send_Update Neighbour_Cost
begin

text \<open>
  The other messages of \<open>message.c\<close>: acknowledgements, hellos, IHUs and requests, on the send
  buffer of an interface and on the unicast buffer of a neighbour.

  A function whose pointer arguments select a mode is split by mode: \<open>..._for\<close> has all its
  arguments, \<open>..._any\<close> is the wildcard, \<open>..._all\<close> the loop over the interfaces.
\<close>

section \<open>The unicast buffer\<close>

definition send_unicast_packet :: "ptr \<Rightarrow> babel \<Rightarrow> babel" where
  "send_unicast_packet nb b =
     (let ifp = n_ifp (neigh b nb) in
      if \<not> if_up (iface b ifp) then b
      else
        let b = flushbuf ifp b in
        case check_bucket ifp b of (ok, b) \<Rightarrow>
          if \<not> ok then b
          else
            let len = int (length (unicast_buffered b));
                b = snd (fill_rtt_message ifp b)
            in emit (Unicast nb (packet_header len @ unicast_buffered b)) b)"

definition flush_unicast :: "bool \<Rightarrow> babel \<Rightarrow> babel" where
  "flush_unicast dofree b =
     (let b = (if unicast_buffered b = [] then b
               else case unicast_neighbour (unicast b) of
                 None \<Rightarrow> raise_fault Null_dereference b
               | Some nb \<Rightarrow> send_unicast_packet nb b)
      in b\<lparr>unicast := \<lparr>unicast_buffer =
             (if dofree \<or> unicast_buffer (unicast b) = None then None else Some []),
             unicast_neighbour = None, unicast_flush_timeout = tv_zero\<rparr>\<rparr>)"

text \<open>The result tells whether a message can be put: without memory for the buffer it cannot.\<close>

definition start_unicast_message :: "ptr \<Rightarrow> int \<Rightarrow> int \<Rightarrow> babel \<Rightarrow> bool \<times> babel" where
  "start_unicast_message nb type len b =
     (let b = (case unicast_neighbour (unicast b) of
                 None \<Rightarrow> b
               | Some un \<Rightarrow>
                   if nb \<noteq> un \<or>
                      int (length (unicast_buffered b)) + len + 2 \<ge>
                        min UNICAST_BUFSIZE (i_bufsize (iface b (n_ifp (neigh b nb))))
                   then flush_unicast False b else b)
      in case (if unicast_buffer (unicast b) = None
               then (case c_alloc b of (ok, b) \<Rightarrow>
                       (ok, if ok then b\<lparr>unicast := (unicast b)\<lparr>unicast_buffer := Some []\<rparr>\<rparr> else b))
               else (True, b)) of (ok, b) \<Rightarrow>
        if \<not> ok then (False, b)
        else (True, unicast_put [word_of_int type, word_of_int len]
                      (b\<lparr>unicast := (unicast b)\<lparr>unicast_neighbour := Some nb\<rparr>\<rparr>)))"

definition send_ack :: "ptr \<Rightarrow> u16 \<Rightarrow> int \<Rightarrow> babel \<Rightarrow> babel" where
  "send_ack nb nonce interval b =
     (case start_unicast_message nb MESSAGE_ACK 2 b of (ok, b) \<Rightarrow>
        if \<not> ok then b
        else
          let b = accumulate_unicast_short (uint nonce) b;
              b = end_unicast_message nb MESSAGE_ACK 2 b
          in case c_roughly (interval * 6) b of (msecs, b) \<Rightarrow> schedule_unicast_flush msecs b)"

section \<open>IHU\<close>

definition ihu_length :: "bool \<Rightarrow> bool \<Rightarrow> int" where
  "ihu_length ll rtt = (if ll then 14 else 22) + (if rtt then 10 else 0)"

definition put_ihu :: "ptr \<Rightarrow> bool \<Rightarrow> bool \<Rightarrow> int \<Rightarrow> int \<Rightarrow> neighbour \<Rightarrow> babel \<Rightarrow> babel" where
  "put_ihu ifp ll rtt rxcost interval n b =
     (let msglen = ihu_length ll rtt;
          b = start_message ifp MESSAGE_IHU msglen b;
          b = accumulate_byte ifp (if ll then 3 else 2) b;
          b = accumulate_byte ifp 0 b;
          b = accumulate_short ifp rxcost b;
          b = accumulate_short ifp interval b;
          b = (if ll then accumulate_bytes ifp (drop 8 (n_address n)) 8 b
               else accumulate_bytes ifp (n_address n) 16 b);
          b = (if rtt then
                 let b = accumulate_byte ifp SUBTLV_TIMESTAMP b;
                     b = accumulate_byte ifp 8 b;
                     b = accumulate_int ifp (n_hello_send_us n) b
                 in accumulate_int ifp (time_us (n_hello_rtt_receive_time n)) b
               else b)
      in end_message ifp MESSAGE_IHU msglen b)"

definition put_unicast_ihu :: "ptr \<Rightarrow> bool \<Rightarrow> bool \<Rightarrow> int \<Rightarrow> int \<Rightarrow> neighbour \<Rightarrow> babel \<Rightarrow> babel" where
  "put_unicast_ihu nb ll rtt rxcost interval n b =
     (let msglen = ihu_length ll rtt in
      case start_unicast_message nb MESSAGE_IHU msglen b of (ok, b) \<Rightarrow>
        if \<not> ok then b
        else
          let b = accumulate_unicast_byte (if ll then 3 else 2) b;
              b = accumulate_unicast_byte 0 b;
              b = accumulate_unicast_short rxcost b;
              b = accumulate_unicast_short interval b;
              b = (if ll then accumulate_unicast_bytes (drop 8 (n_address n)) 8 b
                   else accumulate_unicast_bytes (n_address n) 16 b);
              b = (if rtt then
                     let b = accumulate_unicast_byte SUBTLV_TIMESTAMP b;
                         b = accumulate_unicast_byte 8 b;
                         b = accumulate_unicast_int (n_hello_send_us n) b
                     in accumulate_unicast_int (time_us (n_hello_rtt_receive_time n)) b
                   else b)
          in end_unicast_message nb MESSAGE_IHU msglen b)"

text \<open>Whether the times of the last hello are sent along; if they are not, they are forgotten.\<close>

definition sends_rtt_data :: "ptr \<Rightarrow> babel \<Rightarrow> bool" where
  "sends_rtt_data nb b \<longleftrightarrow>
     if_flag IF_TIMESTAMPS (iface b (n_ifp (neigh b nb))) \<and> n_hello_send_us (neigh b nb) \<noteq> 0 \<and>
     timeval_minus_msec (now b) (n_hello_rtt_receive_time (neigh b nb)) < 1000000"

definition send_ihu :: "ptr \<Rightarrow> ptr option \<Rightarrow> babel \<Rightarrow> babel" where
  "send_ihu nb ifp b =
     (if ifp \<noteq> None \<and> Some (n_ifp (neigh b nb)) \<noteq> ifp then b
      else
        let p = n_ifp (neigh b nb) in
        if \<not> if_up (iface b p) then b
        else
          let rxcost = neighbour_rxcost nb b;
              interval = (i_hello_interval (iface b p) * 3 + 9) div 10;
              ll = linklocal (n_address (neigh b nb));
              rtt = sends_rtt_data nb b;
              b = (if rtt then b else upd_neigh nb (\<lambda>n. n\<lparr>n_hello_send_us := 0\<rparr>) b)
          in
          if unicast_neighbour (unicast b) \<noteq> Some nb
          then put_ihu p ll rtt rxcost interval (neigh b nb) b
          else put_unicast_ihu nb ll rtt rxcost interval (neigh b nb) b)"

definition send_ihu_on :: "ptr \<Rightarrow> babel \<Rightarrow> babel" where
  "send_ihu_on ifp b =
     fold (\<lambda>nb b. if n_ifp (neigh b nb) = ifp then send_ihu nb (Some ifp) b else b) (neighs (nbrs b)) b"

definition send_ihu_all :: "babel \<Rightarrow> babel" where
  "send_ihu_all b =
     fold (\<lambda>ifp b. if if_up (iface b ifp) then send_ihu_on ifp b else b) (interfaces (ifaces b)) b"

definition send_marginal_ihu :: "ptr option \<Rightarrow> babel \<Rightarrow> babel" where
  "send_marginal_ihu ifp b =
     fold (\<lambda>nb b.
        if ifp \<noteq> None \<and> Some (n_ifp (neigh b nb)) \<noteq> ifp then b
        else if n_txcost (neigh b nb) \<ge> 384 \<or> n_reach (neigh b nb) AND 0xF000 \<noteq> 0xF000
          then send_ihu nb ifp b else b) (neighs (nbrs b)) b"

section \<open>Hello\<close>

definition send_hello_noupdate :: "ptr \<Rightarrow> int \<Rightarrow> babel \<Rightarrow> babel" where
  "send_hello_noupdate ifp interval b =
     (let b = (if i_buffered_hello (iface b ifp) \<ge> 0 then flushbuf ifp b else b);
          b = upd_iface ifp (\<lambda>i. i\<lparr>i_hello_seqno := seqno_plus (i_hello_seqno i) 1\<rparr>) b
      in case set_timeout (i_hello_interval (iface b ifp)) b of (t, b) \<Rightarrow>
        let b = upd_iface ifp (\<lambda>i. i\<lparr>i_hello_timeout := t\<rparr>) b in
        if \<not> if_up (iface b ifp) then b
        else
          let stamps = if_flag IF_TIMESTAMPS (iface b ifp);
              len = (if stamps then 12 else 6);
              b = start_message ifp MESSAGE_HELLO len b;
              b = upd_iface ifp (\<lambda>i. i\<lparr>i_buffered_hello := int (length (i_sendbuf i)) - 2\<rparr>) b;
              b = accumulate_short ifp 0 b;
              b = accumulate_short ifp (uint (i_hello_seqno (iface b ifp))) b;
              b = accumulate_short ifp (if interval > 0xFFFF then 0xFFFF else interval) b;
              b = (if stamps then
                     let b = accumulate_byte ifp SUBTLV_PADN b;
                         b = accumulate_byte ifp 4 b
                     in accumulate_int ifp 0 b
                   else b)
          in end_message ifp MESSAGE_HELLO len b)"

definition send_hello :: "ptr \<Rightarrow> babel \<Rightarrow> babel" where
  "send_hello ifp b =
     (let b = send_hello_noupdate ifp ((i_hello_interval (iface b ifp) + 9) div 10) b in
      if uint (i_hello_seqno (iface b ifp)) mod 3 = 0 then send_ihu_on ifp b
      else send_marginal_ihu (Some ifp) b)"

section \<open>Requests\<close>

text \<open>The lengths of the prefixes of a request on the wire.\<close>

definition wire_plen :: "bool \<Rightarrow> nat \<Rightarrow> int" where
  "wire_plen v4 plen = (if v4 then int plen - 96 else int plen)"

definition wire_bytes :: "bool \<Rightarrow> nat \<Rightarrow> int" where
  "wire_bytes v4 plen = (wire_plen v4 plen + 7) sdiv 8"

definition wire_prefix :: "bool \<Rightarrow> byte list \<Rightarrow> byte list" where
  "wire_prefix v4 prefix = (if v4 then drop 12 prefix else prefix)"

definition send_request_for :: "ptr \<Rightarrow> byte list \<Rightarrow> nat \<Rightarrow> byte list \<Rightarrow> nat \<Rightarrow> babel \<Rightarrow> babel" where
  "send_request_for ifp prefix plen src_prefix src_plen b =
     (let v4 = update_is_v4 prefix plen;
          pb = wire_bytes v4 plen;
          spb = (if src_plen \<noteq> 0 then wire_bytes v4 src_plen else 0);
          len = 2 + pb + (if src_plen \<noteq> 0 then spb + 1 else 0);
          type = (if src_plen \<noteq> 0 then MESSAGE_REQUEST_SRC_SPECIFIC else MESSAGE_REQUEST);
          b = start_message ifp type len b;
          b = accumulate_byte ifp (if v4 then 1 else 2) b;
          b = accumulate_byte ifp (wire_plen v4 plen) b;
          b = (if src_plen \<noteq> 0 then accumulate_byte ifp (wire_plen v4 src_plen) b else b);
          b = accumulate_bytes ifp (wire_prefix v4 prefix) pb b;
          b = (if src_plen \<noteq> 0 then accumulate_bytes ifp (wire_prefix v4 src_prefix) spb b else b)
      in end_message ifp type len b)"

definition send_request_any :: "ptr \<Rightarrow> bool \<Rightarrow> babel \<Rightarrow> babel" where
  "send_request_any ifp specific b =
     (let type = (if specific then MESSAGE_REQUEST_SRC_SPECIFIC else MESSAGE_REQUEST);
          len = (if specific then 3 else 2);
          b = start_message ifp type len b;
          b = accumulate_byte ifp 0 b;
          b = accumulate_byte ifp 0 b;
          b = (if specific then accumulate_byte ifp 0 b else b)
      in end_message ifp type len b)"

text \<open>The wildcard branches of \<open>send_request\<close> with the checks before them.\<close>

definition send_request_wildcard :: "ptr \<Rightarrow> bool \<Rightarrow> babel \<Rightarrow> babel" where
  "send_request_wildcard ifp specific b =
     (let b = flushupdates ifp b in
      if \<not> if_up (iface b ifp) then b else send_request_any ifp specific b)"

definition send_request1 :: "ptr \<Rightarrow> byte list option \<Rightarrow> nat \<Rightarrow> byte list option \<Rightarrow> nat \<Rightarrow> babel \<Rightarrow> babel" where
  "send_request1 ifp prefix plen src_prefix src_plen b =
     (let b = flushupdates ifp b in
      if \<not> if_up (iface b ifp) then b
      else case (prefix, src_prefix) of
        (Some p, Some sp) \<Rightarrow> send_request_for ifp p plen sp src_plen b
      | (Some _, None) \<Rightarrow> send_request_any ifp True b
      | (None, Some _) \<Rightarrow> send_request_any ifp False b
      | (None, None) \<Rightarrow> send_request_wildcard ifp True (send_request_wildcard ifp False b))"

text \<open>Without an interface \<open>send_request\<close> skips the interfaces that are up.\<close>

definition send_request :: "ptr option \<Rightarrow> byte list option \<Rightarrow> nat \<Rightarrow> byte list option \<Rightarrow> nat \<Rightarrow> babel \<Rightarrow> babel" where
  "send_request ifp prefix plen src_prefix src_plen b =
     (case ifp of
        Some p \<Rightarrow> send_request1 p prefix plen src_prefix src_plen b
      | None \<Rightarrow>
          fold (\<lambda>p b. if if_up (iface b p) then b else send_request1 p prefix plen src_prefix src_plen b)
            (interfaces (ifaces b)) b)"

definition send_unicast_request_for :: "ptr \<Rightarrow> byte list \<Rightarrow> nat \<Rightarrow> byte list \<Rightarrow> nat \<Rightarrow> babel \<Rightarrow> babel" where
  "send_unicast_request_for nb prefix plen src_prefix src_plen b =
     (let v4 = update_is_v4 prefix plen;
          pb = wire_bytes v4 plen;
          spb = (if src_plen \<noteq> 0 then wire_bytes v4 src_plen else 0);
          len = 2 + pb + (if src_plen \<noteq> 0 then spb + 1 else 0);
          type = (if src_plen \<noteq> 0 then MESSAGE_REQUEST_SRC_SPECIFIC else MESSAGE_REQUEST)
      in case start_unicast_message nb type len b of (ok, b) \<Rightarrow>
        if \<not> ok then b
        else
          let b = accumulate_unicast_byte (if v4 then 1 else 2) b;
              b = accumulate_unicast_byte (wire_plen v4 plen) b;
              b = (if src_plen \<noteq> 0 then accumulate_unicast_byte (wire_plen v4 src_plen) b else b);
              b = accumulate_unicast_bytes (wire_prefix v4 prefix) pb b;
              b = (if src_plen \<noteq> 0 then accumulate_unicast_bytes (wire_prefix v4 src_prefix) spb b else b)
          in end_unicast_message nb type len b)"

definition send_unicast_request_any :: "ptr \<Rightarrow> bool \<Rightarrow> babel \<Rightarrow> babel" where
  "send_unicast_request_any nb specific b =
     (let type = (if specific then MESSAGE_REQUEST_SRC_SPECIFIC else MESSAGE_REQUEST);
          len = (if specific then 3 else 2)
      in case start_unicast_message nb type len b of (ok, b) \<Rightarrow>
        if \<not> ok then b
        else
          let b = accumulate_unicast_byte 0 b;
              b = accumulate_unicast_byte 0 b;
              b = (if specific then accumulate_unicast_byte 0 b else b)
          in end_unicast_message nb type len b)"

definition send_unicast_request_wildcard :: "ptr \<Rightarrow> bool \<Rightarrow> babel \<Rightarrow> babel" where
  "send_unicast_request_wildcard nb specific b =
     send_unicast_request_any nb specific (flushupdates (n_ifp (neigh b nb)) b)"

definition send_unicast_request ::
  "ptr \<Rightarrow> byte list option \<Rightarrow> nat \<Rightarrow> byte list option \<Rightarrow> nat \<Rightarrow> babel \<Rightarrow> babel" where
  "send_unicast_request nb prefix plen src_prefix src_plen b =
     (let b = flushupdates (n_ifp (neigh b nb)) b in
      case (prefix, src_prefix) of
        (Some p, Some sp) \<Rightarrow> send_unicast_request_for nb p plen sp src_plen b
      | (Some _, None) \<Rightarrow> send_unicast_request_any nb True b
      | (None, Some _) \<Rightarrow> send_unicast_request_any nb False b
      | (None, None) \<Rightarrow>
          send_unicast_request_wildcard nb True (send_unicast_request_wildcard nb False b))"

section \<open>Requests for a sequence number\<close>

text \<open>
  The source prefix length goes into a byte of both variants of the message; in the variant
  without a source prefix an IPv4 request writes \<open>0 - 96\<close> there, which the receiver skips.
\<close>

definition send_multihop_request1 ::
  "ptr \<Rightarrow> byte list \<Rightarrow> nat \<Rightarrow> byte list \<Rightarrow> nat \<Rightarrow> u16 \<Rightarrow> byte list \<Rightarrow> int \<Rightarrow> babel \<Rightarrow> babel" where
  "send_multihop_request1 ifp prefix plen src_prefix src_plen seqno rid hop_count b =
     (let b = flushupdates ifp b in
      if \<not> if_up (iface b ifp) then b
      else
        let v4 = update_is_v4 prefix plen;
            pb = wire_bytes v4 plen;
            spb = (if src_plen \<noteq> 0 then wire_bytes v4 src_plen else 0);
            len = 6 + 8 + pb + spb;
            type = (if src_plen \<noteq> 0 then MESSAGE_MH_REQUEST_SRC_SPECIFIC else MESSAGE_MH_REQUEST);
            b = start_message ifp type len b;
            b = accumulate_byte ifp (if v4 then 1 else 2) b;
            b = accumulate_byte ifp (wire_plen v4 plen) b;
            b = accumulate_short ifp (uint seqno) b;
            b = accumulate_byte ifp hop_count b;
            b = accumulate_byte ifp (wire_plen v4 src_plen) b;
            b = accumulate_bytes ifp rid 8 b;
            b = accumulate_bytes ifp (wire_prefix v4 prefix) pb b;
            b = (if src_plen \<noteq> 0 then accumulate_bytes ifp (wire_prefix v4 src_prefix) spb b else b)
        in end_message ifp type len b)"

definition send_multihop_request ::
  "ptr option \<Rightarrow> byte list \<Rightarrow> nat \<Rightarrow> byte list \<Rightarrow> nat \<Rightarrow> u16 \<Rightarrow> byte list \<Rightarrow> int \<Rightarrow> babel \<Rightarrow> babel" where
  "send_multihop_request ifp prefix plen src_prefix src_plen seqno rid hop_count b =
     (case ifp of
        Some p \<Rightarrow> send_multihop_request1 p prefix plen src_prefix src_plen seqno rid hop_count b
      | None \<Rightarrow>
          let b = flushupdates_all b
          in fold (\<lambda>p b. if \<not> if_up (iface b p) then b
                        else send_multihop_request1 p prefix plen src_prefix src_plen seqno rid hop_count b)
               (interfaces (ifaces b)) b)"

definition send_unicast_multihop_request ::
  "ptr \<Rightarrow> byte list \<Rightarrow> nat \<Rightarrow> byte list \<Rightarrow> nat \<Rightarrow> u16 \<Rightarrow> byte list \<Rightarrow> int \<Rightarrow> babel \<Rightarrow> babel" where
  "send_unicast_multihop_request nb prefix plen src_prefix src_plen seqno rid hop_count b =
     (let b = flushupdates (n_ifp (neigh b nb)) b;
          v4 = update_is_v4 prefix plen;
          pb = wire_bytes v4 plen;
          spb = (if src_plen \<noteq> 0 then wire_bytes v4 src_plen else 0);
          len = 6 + 8 + pb + spb;
          type = (if src_plen \<noteq> 0 then MESSAGE_MH_REQUEST_SRC_SPECIFIC else MESSAGE_MH_REQUEST)
      in case start_unicast_message nb type len b of (ok, b) \<Rightarrow>
        if \<not> ok then b
        else
          let b = accumulate_unicast_byte (if v4 then 1 else 2) b;
              b = accumulate_unicast_byte (wire_plen v4 plen) b;
              b = accumulate_unicast_short (uint seqno) b;
              b = accumulate_unicast_byte hop_count b;
              b = accumulate_unicast_byte (wire_plen v4 src_plen) b;
              b = accumulate_unicast_bytes rid 8 b;
              b = accumulate_unicast_bytes (wire_prefix v4 prefix) pb b;
              b = (if src_plen \<noteq> 0 then accumulate_unicast_bytes (wire_prefix v4 src_prefix) spb b else b)
          in end_unicast_message nb type len b)"

definition send_request_resend ::
  "ptr option \<Rightarrow> byte list \<Rightarrow> nat \<Rightarrow> byte list \<Rightarrow> nat \<Rightarrow> u16 \<Rightarrow> byte list \<Rightarrow> babel \<Rightarrow> babel" where
  "send_request_resend nb prefix plen src_prefix src_plen seqno rid b =
     (let b = (case nb of
                 Some p \<Rightarrow> send_unicast_multihop_request p prefix plen src_prefix src_plen seqno rid 127 b
               | None \<Rightarrow> send_multihop_request None prefix plen src_prefix src_plen seqno rid 127 b)
      in g_record_resend RESEND_REQUEST prefix plen src_prefix src_plen seqno (Some rid)
           (map_option (\<lambda>p. n_ifp (neigh b p)) nb) (resend_delay (conf b)) b)"

end
