(* ===== verification/Calculus.thy ===== *)
theory Calculus
  imports State
begin

text \<open>
  Proof rules for operations written as sequences of \<open>let\<close>, conditionals and cases over the
  state.  \<open>holds I b\<close> says that the assertion \<open>I\<close> is true of the state \<open>b\<close>, \<open>returns I r\<close> that
  it is true of the result and the state of a pair.  The rules follow the text of an
  operation, so a proof never unfolds a \<open>let\<close> and the state is never duplicated.
\<close>

definition holds :: "(babel \<Rightarrow> bool) \<Rightarrow> babel \<Rightarrow> bool" where
  "holds I b = I b"

definition returns :: "('a \<Rightarrow> babel \<Rightarrow> bool) \<Rightarrow> 'a \<times> babel \<Rightarrow> bool" where
  "returns I r = I (fst r) (snd r)"

lemma holdsI: "I b \<Longrightarrow> holds I b" by (simp add: holds_def)
lemma holdsD: "holds I b \<Longrightarrow> I b" by (simp add: holds_def)
lemma returnsI: "I (fst r) (snd r) \<Longrightarrow> returns I r" by (simp add: returns_def)
lemma returnsD: "returns I (x, b) \<Longrightarrow> I x b" by (simp add: returns_def)

text \<open>A \<open>let\<close> that binds a state, and one that binds anything else (one rule per type).\<close>

lemma holds_let: "holds I v \<Longrightarrow> (\<And>c. holds I c \<Longrightarrow> holds J (f c)) \<Longrightarrow> holds J (let c = v in f c)"
  for v :: babel by (simp add: Let_def)

lemma holds_let_value: "(\<And>x. holds I (f x)) \<Longrightarrow> holds I (let x = v in f x)"
  for v :: 'v by (simp add: Let_def)

lemma returns_let: "holds I v \<Longrightarrow> (\<And>c. holds I c \<Longrightarrow> returns J (f c)) \<Longrightarrow> returns J (let c = v in f c)"
  for v :: babel by (simp add: Let_def)

lemma returns_let_value: "(\<And>x. returns I (f x)) \<Longrightarrow> returns I (let x = v in f x)"
  for v :: 'v by (simp add: Let_def)

lemma holds_if: "(c \<Longrightarrow> holds I x) \<Longrightarrow> (\<not> c \<Longrightarrow> holds I y) \<Longrightarrow> holds I (if c then x else y)"
  by simp

lemma returns_if: "(c \<Longrightarrow> returns I x) \<Longrightarrow> (\<not> c \<Longrightarrow> returns I y) \<Longrightarrow> returns I (if c then x else y)"
  by simp

lemma holds_case_prod:
  "returns I r \<Longrightarrow> (\<And>x c. I x c \<Longrightarrow> holds J (f x c)) \<Longrightarrow> holds J (case r of (x, c) \<Rightarrow> f x c)"
  by (cases r) (simp add: returns_def)

lemma returns_case_prod:
  "returns I r \<Longrightarrow> (\<And>x c. I x c \<Longrightarrow> returns J (f x c)) \<Longrightarrow> returns J (case r of (x, c) \<Rightarrow> f x c)"
  by (cases r) (simp add: returns_def)

lemma holds_case_option:
  "(x = None \<Longrightarrow> holds I f) \<Longrightarrow> (\<And>y. x = Some y \<Longrightarrow> holds I (g y)) \<Longrightarrow>
   holds I (case x of None \<Rightarrow> f | Some y \<Rightarrow> g y)"
  by (cases x) auto

lemma returns_case_option:
  "(x = None \<Longrightarrow> returns I f) \<Longrightarrow> (\<And>y. x = Some y \<Longrightarrow> returns I (g y)) \<Longrightarrow>
   returns I (case x of None \<Rightarrow> f | Some y \<Rightarrow> g y)"
  by (cases x) auto

lemma returns_pair: "I x b \<Longrightarrow> returns I (x, b)"
  by (simp add: returns_def)

lemma holds_fold:
  "holds I b \<Longrightarrow> (\<And>x c. x \<in> set xs \<Longrightarrow> holds I c \<Longrightarrow> holds I (f x c)) \<Longrightarrow> holds I (fold f xs b)"
  by (induction xs arbitrary: b) auto

lemma holds_snd: "returns (\<lambda>_. I) r \<Longrightarrow> holds I (snd r)"
  by (simp add: returns_def holds_def)

lemma holds_mono: "holds I b \<Longrightarrow> (\<And>c. I c \<Longrightarrow> J c) \<Longrightarrow> holds J b"
  by (simp add: holds_def)

text \<open>
  The rules for an invariant: every state in sight satisfies it.
\<close>

lemma inv_let: "holds I v \<Longrightarrow> (\<And>c. holds I c \<Longrightarrow> holds I (f c)) \<Longrightarrow> holds I (let c = v in f c)"
  for v :: babel by (rule holds_let)

lemma inv_returns_let:
  "holds I v \<Longrightarrow> (\<And>c. holds I c \<Longrightarrow> returns (\<lambda>_. I) (f c)) \<Longrightarrow> returns (\<lambda>_. I) (let c = v in f c)"
  for v :: babel by (rule returns_let)

lemma inv_case_prod:
  "returns (\<lambda>_. I) r \<Longrightarrow> (\<And>x c. holds I c \<Longrightarrow> holds I (f x c)) \<Longrightarrow> holds I (case r of (x, c) \<Rightarrow> f x c)"
  by (cases r) (simp add: returns_def holds_def)

lemma inv_returns_case_prod:
  "returns (\<lambda>_. I) r \<Longrightarrow> (\<And>x c. holds I c \<Longrightarrow> returns (\<lambda>_. I) (f x c)) \<Longrightarrow>
   returns (\<lambda>_. I) (case r of (x, c) \<Rightarrow> f x c)"
  by (cases r) (simp add: returns_def holds_def)

lemma inv_returns_pair: "holds I b \<Longrightarrow> returns (\<lambda>_. I) (x, b)"
  by (simp add: returns_def holds_def)

text \<open>
  The control-flow rules of an invariant, with one instance of the value rule for each type
  that is bound in the model.
\<close>

lemmas value_rules =
  holds_let_value [where 'v = int] holds_let_value [where 'v = nat] holds_let_value [where 'v = bool]
  holds_let_value [where 'v = interface] holds_let_value [where 'v = neighbour]
  holds_let_value [where 'v = babel_route] holds_let_value [where 'v = source]
  holds_let_value [where 'v = timeval] holds_let_value [where 'v = xroute] holds_let_value [where 'v = u16]
  holds_let_value [where 'v = "'c list"] holds_let_value [where 'v = "'c option"]
  returns_let_value [where 'v = int] returns_let_value [where 'v = nat] returns_let_value [where 'v = bool]
  returns_let_value [where 'v = interface] returns_let_value [where 'v = neighbour]
  returns_let_value [where 'v = babel_route] returns_let_value [where 'v = source]
  returns_let_value [where 'v = timeval] returns_let_value [where 'v = xroute] returns_let_value [where 'v = u16]
  returns_let_value [where 'v = "'c list"] returns_let_value [where 'v = "'c option"]

lemmas inv_rules =
  inv_let inv_returns_let value_rules holds_if returns_if inv_case_prod inv_returns_case_prod
  holds_case_option returns_case_option inv_returns_pair holds_snd holds_fold

end
