(* ===== verification/Send_Frame.thy ===== *)
theory Send_Frame
  imports Send_Message Calculus
begin

text \<open>
  What the senders leave alone.  \<open>shape\<close> erases from a state everything that sending a message
  may change (buffers, timers, buckets, feasibility distances, resends, the environment's
  answers); a sender keeps the shape, so the routes, the exported routes, the neighbours and
  interfaces with their configuration, the keys of the sources, the rules and the
  configuration are as before.
\<close>

section \<open>The shape of a state\<close>

definition quiet_iface :: "interface \<Rightarrow> interface" where
  "quiet_iface i =
     i\<lparr>i_sendbuf := [], i_buffered_hello := 0, i_have_buffered_id := False, i_have_buffered_nh := False,
       i_have_buffered_prefix := False, i_buffered_id := [], i_buffered_nh := [], i_buffered_prefix := [],
       i_bucket_time := 0, i_bucket := 0, i_flush_timeout := tv_zero, i_update_flush_timeout := tv_zero,
       i_hello_timeout := tv_zero, i_update_timeout := tv_zero, i_hello_seqno := 0,
       i_buffered_updates := [], i_update_bufsize := 0, i_last_update_time := 0,
       i_last_specific_update_time := 0\<rparr>"

definition quiet_source :: "source \<Rightarrow> source" where
  "quiet_source s = s\<lparr>s_seqno := 0, s_metric := 0, s_time := 0\<rparr>"

definition quiet_neighbour :: "neighbour \<Rightarrow> neighbour" where
  "quiet_neighbour n = n\<lparr>n_hello_send_us := 0\<rparr>"

definition shape :: "babel \<Rightarrow> babel" where
  "shape b =
     b\<lparr>now := tv_zero, resends := resends_init, ticks := 0, errno := 0, fault := None, out := [],
       sources := (sources b)\<lparr>st_heap := quiet_source \<circ> st_heap (sources b)\<rparr>,
       nbrs := (nbrs b)\<lparr>n_heap := quiet_neighbour \<circ> n_heap (nbrs b)\<rparr>,
       ifaces := (ifaces b)\<lparr>i_heap := quiet_iface \<circ> i_heap (ifaces b)\<rparr>,
       unicast := \<lparr>unicast_buffer = None, unicast_neighbour = None, unicast_flush_timeout = tv_zero\<rparr>\<rparr>"

named_theorems shaped \<open>an operation keeps the shape\<close>

lemma shape_fold: "(\<And>x b. shape (f x b) = shape b) \<Longrightarrow> shape (fold f xs b) = shape b"
  by (induction xs arbitrary: b) auto

lemma shape_upd_iface [shaped]: "(\<And>i. quiet_iface (f i) = quiet_iface i) \<Longrightarrow> shape (upd_iface p f b) = shape b"
  by (simp add: shape_def upd_iface_def fun_upd_comp comp_def fun_eq_iff)

lemma shape_upd_neigh [shaped]:
  "(\<And>i. quiet_neighbour (f i) = quiet_neighbour i) \<Longrightarrow> shape (upd_neigh p f b) = shape b"
  by (simp add: shape_def upd_neigh_def fun_upd_comp comp_def fun_eq_iff)

lemma shape_basic [shaped]:
  "shape (raise_fault e b) = shape b" "shape (c_assert c b) = shape b" "shape (emit ev b) = shape b"
  "shape (gettime b) = shape b" "shape (b\<lparr>unicast := u\<rparr>) = shape b" "shape (b\<lparr>resends := rt\<rparr>) = shape b"
  "shape (snd (ask b)) = shape b" "shape (snd (c_alloc b)) = shape b" "shape (snd (c_roughly v b)) = shape b"
  by (simp_all add: shape_def raise_fault_def c_assert_def emit_def gettime_def ask_def c_alloc_def
      c_roughly_def c_random_def)

lemma shape_update_source [shaped]:
  "shape (b\<lparr>sources := update_source t p seqno metric (sources b)\<rparr>) = shape b"
  by (simp add: shape_def update_source_def update_source1_def fun_upd_comp comp_def fun_eq_iff quiet_source_def)

text \<open>
  The same as an invariant, for the operations that are sequences of steps: \<open>same b0\<close> holds of
  the states with the shape of \<open>b0\<close>.
\<close>

definition same :: "babel \<Rightarrow> babel \<Rightarrow> bool" where
  "same b0 b \<longleftrightarrow> shape b = shape b0"

lemma shape_holds: "(holds (same b) b \<Longrightarrow> holds (same b) b') \<Longrightarrow> shape b' = shape b"
  by (simp add: holds_def same_def)

lemma shape_returns: "(holds (same b) b \<Longrightarrow> returns (\<lambda>_. same b) r) \<Longrightarrow> shape (snd r) = shape b"
  by (simp add: holds_def returns_def same_def)

lemmas same_defs = holds_def returns_def same_def

section \<open>Buffers and timers\<close>

lemma shape_timers [shaped]:
  "shape (snd (jitter p u b)) = shape b" "shape (snd (update_jitter p u b)) = shape b"
  "shape (snd (set_timeout m b)) = shape b"
  by (simp_all add: jitter_def update_jitter_def set_timeout_def shape_basic Let_def split_beta)

lemma shape_schedule [shaped]:
  "shape (schedule_flush_in p m b) = shape b" "shape (schedule_flush p b) = shape b"
  "shape (schedule_flush_now p b) = shape b" "shape (schedule_update_flush p u b) = shape b"
  "shape (schedule_unicast_flush m b) = shape b"
  by (simp_all add: schedule_flush_in_def schedule_flush_def schedule_flush_now_def schedule_update_flush_def
      schedule_unicast_flush_def shaped quiet_iface_def Let_def split_beta)

lemma shape_put [shaped]:
  "shape (put p xs b) = shape b" "shape (accumulate_byte p x b) = shape b" "shape (accumulate_short p x b) = shape b"
  "shape (accumulate_int p w b) = shape b" "shape (accumulate_bytes p xs n b) = shape b"
  "shape (end_message p t n b) = shape b"
  by (simp_all add: put_def accumulate_byte_def accumulate_short_def accumulate_int_def accumulate_bytes_def
      end_message_def shaped quiet_iface_def Let_def split_beta)

lemma shape_check_bucket [shaped]: "shape (snd (check_bucket p b)) = shape b"
  by (simp add: check_bucket_def split_beta upd_iface_def shape_def fun_upd_comp comp_def fun_eq_iff
      check_bucket1_def Let_def quiet_iface_def)

lemma shape_fill_rtt [shaped]: "shape (snd (fill_rtt_message p b)) = shape b"
  by (simp add: fill_rtt_message_def Let_def shaped quiet_iface_def)

lemma shape_flush_idle [shaped]:
  "shape (send_packet p b) = shape b" "shape (flushbuf_raw p b) = shape b" "shape (flush_idle p b) = shape b"
  by (simp_all add: send_packet_def flushbuf_raw_def flush_idle_def shaped reset_buffer_def quiet_iface_def
      Let_def split_beta)

lemma shape_start [shaped]:
  "(\<And>b. shape (flush p b) = shape b) \<Longrightarrow> shape (start_message_with flush p t n b) = shape b"
  "(\<And>b. shape (flush p b) = shape b) \<Longrightarrow> shape (ensure_space_with flush p n b) = shape b"
  by (simp_all add: start_message_with_def ensure_space_with_def shaped Let_def)

section \<open>Updates\<close>

lemma shape_really_send_update [shaped]:
  "shape (send_nh p a b) = shape b" "shape (snd (send_router_id p rid pre len spl b)) = shape b"
  "shape (send_update_tlv p v4 fl pre len om sp slen spec seqno m ch cl b) = shape b"
  "shape (really_send_update p rid pre plen sp spl seqno m ch cl b) = shape b"
proof -
  show 1: "shape (send_nh p a b) = shape b" for a b
    unfolding send_nh_def by (rule shape_holds, intro inv_rules) (simp_all add: same_defs shaped quiet_iface_def)
  show 2: "shape (snd (send_router_id p rid pre len spl b)) = shape b" for pre len b
    unfolding send_router_id_def
    by (rule shape_returns, intro inv_rules) (simp_all add: same_defs shaped quiet_iface_def)
  show 3: "shape (send_update_tlv p v4 fl pre len om sp slen spec seqno m ch cl b) = shape b"
    for v4 fl pre len om sp slen spec m ch cl b
    unfolding send_update_tlv_def by (rule shape_holds, intro inv_rules) (simp_all add: same_defs shaped)
  show "shape (really_send_update p rid pre plen sp spl seqno m ch cl b) = shape b"
    unfolding really_send_update_def
    by (rule shape_holds, intro inv_rules) (simp_all add: same_defs shaped quiet_iface_def 1 2 3)
qed

lemma shape_flushupdates [shaped]:
  "shape (snd (update_channels b rt)) = shape b" "shape (snd (send_route_update p rt b)) = shape b"
  "shape (flushupdates p b) = shape b" "shape (flushupdates_all b) = shape b" "shape (flushbuf p b) = shape b"
proof -
  show 1: "shape (snd (update_channels b rt)) = shape b" for b rt
    by (simp add: update_channels_def copy_channels_def Let_def shaped)
  show 2: "shape (snd (send_route_update p rt b)) = shape b" for p rt b
    unfolding send_route_update_def g_satisfy_request_def
    by (rule shape_returns, intro inv_rules) (simp_all add: same_defs shaped 1)
  have "shape (snd (flush_update p u pb)) = shape (snd pb)" for p u pb
    by (simp add: flush_update_def split_beta Let_def shaped 2 split: option.split)
  then have f: "shape (snd (fold (flush_update p) us pb)) = shape (snd pb)" for p us pb
    by (induction us arbitrary: pb) simp_all
  show 3: "shape (flushupdates p b) = shape b" for p b
    unfolding flushupdates_def
    by (rule shape_holds, intro inv_rules) (simp_all add: same_defs shaped quiet_iface_def f)
  show "shape (flushupdates_all b) = shape b" by (simp add: flushupdates_all_def shape_fold 3)
  show "shape (flushbuf p b) = shape b" by (simp add: flushbuf_def shaped 3)
qed

lemma shape_send_update [shaped]:
  "shape (buffer_update p pre plen sp spl b) = shape b"
  "shape (send_update_for p u pre plen sp spl b) = shape b"
  "shape (send_self_update p b) = shape b" "shape (send_self_update_all b) = shape b"
  "shape (send_update_any p u spec b) = shape b"
proof -
  show 1: "shape (buffer_update p pre plen sp spl b) = shape b" for p pre plen sp spl b
    unfolding buffer_update_def alloc_updates_def append_update_def
    by (rule shape_holds, intro inv_rules) (simp_all add: same_defs shaped quiet_iface_def)
  show 2: "shape (send_update_for p u pre plen sp spl b) = shape b" for p u pre plen sp spl b
    by (simp add: send_update_for_def shaped 1)
  show 3: "shape (send_self_update p b) = shape b" for p b
    by (simp add: send_self_update_def split_beta shaped shape_fold send_xroute_update_def 2)
  show "shape (send_self_update_all b) = shape b"
    by (simp add: send_self_update_all_def shape_fold 3)
  have "shape (fold (buffer_route p spec) xs b) = shape b" for xs b
    by (rule shape_fold) (simp add: buffer_route_def Let_def 1)
  then show "shape (send_update_any p u spec b) = shape b"
    unfolding send_update_any_def
    by - (rule shape_holds, intro inv_let inv_case_prod holds_if value_rules;
          simp add: same_defs shaped 3 quiet_iface_def)
qed

lemma shape_g_resend [shaped]:
  "shape (g_record_resend k pre plen sp spl s rid ifp d b) = shape b"
  "shape (g_satisfy_request pre plen sp spl s rid' ifp b) = shape b"
  by (simp_all add: g_record_resend_def g_satisfy_request_def split_beta shaped)

lemma shape_send_update_all [shaped]:
  "shape (send_update1 p u pre plen sp spl b) = shape b"
  "shape (send_update ifp u pre plen sp spl b) = shape b"
  "shape (send_update_resend ifp pre' plen sp' spl b) = shape b"
  "shape (send_wildcard_retraction p b) = shape b"
proof -
  show 1: "shape (send_update1 p u pre plen sp spl b) = shape b" for p u pre plen sp spl b
    by (simp add: send_update1_def shaped split: option.split)
  show 2: "shape (send_update ifp u pre plen sp spl b) = shape b" for ifp u pre plen sp spl b
    by (simp add: send_update_def Let_def shaped shape_fold 1 split: option.split)
  show "shape (send_update_resend ifp pre' plen sp' spl b) = shape b"
    by (simp add: send_update_resend_def shaped 2)
  show "shape (send_wildcard_retraction p b) = shape b"
    unfolding send_wildcard_retraction_def
    by (rule shape_holds, intro inv_rules) (simp_all add: same_defs shaped quiet_iface_def)
qed

section \<open>The other messages\<close>

lemma shape_unicast [shaped]:
  "shape (unicast_put xs b) = shape b" "shape (accumulate_unicast_byte x b) = shape b"
  "shape (accumulate_unicast_short x b) = shape b" "shape (accumulate_unicast_int w b) = shape b"
  "shape (accumulate_unicast_bytes xs n b) = shape b" "shape (end_unicast_message nb t n b) = shape b"
  "shape (flush_unicast f b) = shape b" "shape (snd (start_unicast_message nb t n b)) = shape b"
proof -
  show 1: "shape (unicast_put xs b) = shape b" for xs b by (simp add: unicast_put_def Let_def shaped)
  show "shape (accumulate_unicast_byte x b) = shape b" "shape (accumulate_unicast_short x b) = shape b"
    "shape (accumulate_unicast_int w b) = shape b" "shape (accumulate_unicast_bytes xs n b) = shape b"
    by (simp_all add: accumulate_unicast_byte_def accumulate_unicast_short_def accumulate_unicast_int_def
        accumulate_unicast_bytes_def shaped 1)
  show "shape (end_unicast_message nb t n b) = shape b"
    by (simp add: end_unicast_message_def Let_def split_beta shaped)
  show 2: "shape (flush_unicast f b) = shape b" for f b
    unfolding flush_unicast_def send_unicast_packet_def
    by (rule shape_holds, intro inv_rules) (simp_all add: same_defs shaped)
  show "shape (snd (start_unicast_message nb t n b)) = shape b"
    unfolding start_unicast_message_def
    by (rule shape_returns, intro inv_rules) (simp_all add: same_defs shaped 1 2)
qed

lemma shape_messages [shaped]:
  "shape (send_ack nb nonce iv b) = shape b" "shape (send_ihu nb ifp b) = shape b"
  "shape (send_ihu_on p b) = shape b" "shape (send_ihu_all b) = shape b" "shape (send_marginal_ihu ifp b) = shape b"
  "shape (send_hello_noupdate p iv b) = shape b" "shape (send_hello p b) = shape b"
proof -
  show "shape (send_ack nb nonce iv b) = shape b" 
    unfolding send_ack_def by (rule shape_holds, intro inv_rules) (simp_all add: same_defs shaped)
  show 1: "shape (send_ihu nb ifp b) = shape b" for nb ifp b
    unfolding send_ihu_def put_ihu_def put_unicast_ihu_def
    by (rule shape_holds, intro inv_rules) (simp_all add: same_defs shaped quiet_neighbour_def)
  show 2: "shape (send_ihu_on p b) = shape b" for p b by (simp add: send_ihu_on_def shape_fold 1)
  show "shape (send_ihu_all b) = shape b" by (simp add: send_ihu_all_def shape_fold 2)
  show 3: "shape (send_marginal_ihu ifp b) = shape b" for ifp b
    by (simp add: send_marginal_ihu_def shape_fold 1)
  show 4: "shape (send_hello_noupdate p iv b) = shape b" for p iv b
    unfolding send_hello_noupdate_def
    by (rule shape_holds, intro inv_rules) (simp_all add: same_defs shaped quiet_iface_def)
  show "shape (send_hello p b) = shape b" by (simp add: send_hello_def Let_def 2 3 4)
qed

lemma shape_requests [shaped]:
  "shape (send_request ifp opre plen osp spl b) = shape b"
  "shape (send_unicast_request nb opre plen osp spl b) = shape b"
  "shape (send_multihop_request ifp pre plen sp spl s rid h b) = shape b"
  "shape (send_unicast_multihop_request nb pre plen sp spl s rid h b) = shape b"
  "shape (send_request_resend nb' pre plen sp spl s rid b) = shape b"
proof -
  have 0: "shape (send_request_any p spec b) = shape b" for p spec b
    unfolding send_request_any_def by (rule shape_holds, intro inv_rules) (simp_all add: same_defs shaped)
  have 1: "shape (send_request_for p pre plen sp spl b) = shape b" for p pre plen sp spl b
    unfolding send_request_for_def by (rule shape_holds, intro inv_rules) (simp_all add: same_defs shaped)
  have "shape (send_request1 p opre plen osp spl b) = shape b" for p opre plen osp spl b
    by (simp add: send_request1_def send_request_wildcard_def Let_def shaped 0 1 split: option.split)
  then show "shape (send_request ifp opre plen osp spl b) = shape b"
    by (simp add: send_request_def shape_fold split: option.split)
  have 2: "shape (send_unicast_request_any nb spec b) = shape b" for nb spec b
    unfolding send_unicast_request_any_def by (rule shape_holds, intro inv_rules) (simp_all add: same_defs shaped)
  have 5: "shape (send_unicast_request_for nb pre plen sp spl b) = shape b" for nb pre plen sp spl b
    unfolding send_unicast_request_for_def by (rule shape_holds, intro inv_rules) (simp_all add: same_defs shaped)
  show "shape (send_unicast_request nb opre plen osp spl b) = shape b"
    by (simp add: send_unicast_request_def send_unicast_request_wildcard_def Let_def shaped 2 5 split: option.split)
  have "shape (send_multihop_request1 p pre plen sp spl s rid h b) = shape b" for p h b
    unfolding send_multihop_request1_def by (rule shape_holds, intro inv_rules) (simp_all add: same_defs shaped)
  then show 3: "shape (send_multihop_request ifp pre plen sp spl s rid h b) = shape b" for ifp h b
    by (simp add: send_multihop_request_def Let_def shaped shape_fold split: option.split)
  show 4: "shape (send_unicast_multihop_request nb pre plen sp spl s rid h b) = shape b" for nb h b
    unfolding send_unicast_multihop_request_def
    by (rule shape_holds, intro inv_rules) (simp_all add: same_defs shaped)
  show "shape (send_request_resend nb' pre plen sp spl s rid b) = shape b"
    by (simp add: send_request_resend_def Let_def shaped 3 4 split: option.split)
qed

section \<open>What the shape determines\<close>

lemma shape_eqD:
  assumes "shape b' = shape b"
  shows "rib b' = rib b" "conf b' = conf b" "filters_of b' = filters_of b" "xroutes b' = xroutes b"
    "maxxroutes b' = maxxroutes b" "rules b' = rules b" "used_tables b' = used_tables b" "env b' = env b"
    "neighs (nbrs b') = neighs (nbrs b)" "interfaces (ifaces b') = interfaces (ifaces b)"
    "n_fresh (nbrs b') = n_fresh (nbrs b)" "i_fresh (ifaces b') = i_fresh (ifaces b)"
    "st_slots (sources b') = st_slots (sources b)" "st_max (sources b') = st_max (sources b)"
    "st_fresh (sources b') = st_fresh (sources b)" "myseqno b' = myseqno b" "seqno_time b' = seqno_time b"
    "quiet_source (src b' p) = quiet_source (src b p)" "quiet_iface (iface b' q) = quiet_iface (iface b q)"
    "quiet_neighbour (neigh b' r) = quiet_neighbour (neigh b r)"
proof -
  note e = assms [unfolded shape_def]
  show "rib b' = rib b" "conf b' = conf b" "filters_of b' = filters_of b" "xroutes b' = xroutes b"
    "maxxroutes b' = maxxroutes b" "rules b' = rules b" "used_tables b' = used_tables b" "env b' = env b"
    "myseqno b' = myseqno b" "seqno_time b' = seqno_time b"
    using arg_cong [OF e, of rib] arg_cong [OF e, of conf] arg_cong [OF e, of filters_of]
      arg_cong [OF e, of xroutes] arg_cong [OF e, of maxxroutes] arg_cong [OF e, of rules]
      arg_cong [OF e, of used_tables] arg_cong [OF e, of env] arg_cong [OF e, of myseqno]
      arg_cong [OF e, of seqno_time] by simp_all
  show "neighs (nbrs b') = neighs (nbrs b)" "n_fresh (nbrs b') = n_fresh (nbrs b)"
    "quiet_neighbour (neigh b' r) = quiet_neighbour (neigh b r)"
    using arg_cong [OF e, of "\<lambda>b. neighs (nbrs b)"] arg_cong [OF e, of "\<lambda>b. n_fresh (nbrs b)"]
      arg_cong [OF e, of "\<lambda>b. n_heap (nbrs b) r"] by simp_all
  show "interfaces (ifaces b') = interfaces (ifaces b)" "i_fresh (ifaces b') = i_fresh (ifaces b)"
    "quiet_iface (iface b' q) = quiet_iface (iface b q)"
    using arg_cong [OF e, of "\<lambda>b. interfaces (ifaces b)"] arg_cong [OF e, of "\<lambda>b. i_fresh (ifaces b)"]
      arg_cong [OF e, of "\<lambda>b. i_heap (ifaces b) q"] by simp_all
  show "st_slots (sources b') = st_slots (sources b)" "st_max (sources b') = st_max (sources b)"
    "st_fresh (sources b') = st_fresh (sources b)" "quiet_source (src b' p) = quiet_source (src b p)"
    using arg_cong [OF e, of "\<lambda>b. st_slots (sources b)"] arg_cong [OF e, of "\<lambda>b. st_max (sources b)"]
      arg_cong [OF e, of "\<lambda>b. st_fresh (sources b)"] arg_cong [OF e, of "\<lambda>b. st_heap (sources b) p"] by simp_all
qed

end
