(* ===== verification/Send_Ready.thy ===== *)
theory Send_Ready
  imports Send_Frame
begin

text \<open>
  The senders are safe: in a state whose tables and buffers are well formed (\<open>ready\<close>), none of
  them trips an assertion, writes outside a buffer or reads what was never written, and the
  state they leave is well formed again.

  \<open>network_ok\<close> is the part that sending does not change (it depends on the shape only),
  \<open>buffers_ok\<close> the buffers themselves.
\<close>

section \<open>Well-formed states\<close>

definition dest_ok :: "byte list \<Rightarrow> nat \<Rightarrow> byte list \<Rightarrow> nat \<Rightarrow> bool" where
  "dest_ok prefix plen src_prefix src_plen \<longleftrightarrow>
     length prefix = 16 \<and> length src_prefix = 16 \<and> plen \<le> 128 \<and> src_plen \<le> 128 \<and>
     (update_is_v4 prefix plen \<longrightarrow> src_plen = 0 \<or> 96 \<le> src_plen)"

definition source_dest_ok :: "source \<Rightarrow> bool" where
  "source_dest_ok s \<longleftrightarrow> dest_ok (s_prefix s) (s_plen s) (s_src_prefix s) (s_src_plen s) \<and> length (s_id s) = 8"

text \<open>78 bytes hold the longest update with the router identifier before it.\<close>

definition iface_conf_ok :: "interface \<Rightarrow> bool" where
  "iface_conf_ok i \<longleftrightarrow>
     0 \<le> i_bufsize i \<and> (if_up i \<longrightarrow> 78 \<le> i_bufsize i) \<and> (\<forall>a. i_ipv4 i = Some a \<longrightarrow> length a = 4) \<and>
     (i_channel i = IF_CHANNEL_UNKNOWN \<or> i_channel i = IF_CHANNEL_NONINTERFERING \<or>
      (0 < i_channel i \<and> i_channel i \<le> 255))"

definition network_ok :: "babel \<Rightarrow> bool" where
  "network_ok b \<longleftrightarrow>
     (\<forall>p. iface_conf_ok (iface b p)) \<and> (\<forall>nb. length (n_address (neigh b nb)) = 16) \<and>
     rib_ok (st_heap (sources b)) (rib b) \<and>
     (\<forall>rt \<in> rib_routes (rib b). source_dest_ok (route_src b rt) \<and>
        r_channels_len (route b rt) \<le> int (length (r_channels (route b rt)))) \<and>
     (\<forall>x \<in> set (xroutes b). dest_ok (x_prefix x) (x_plen x) (x_src_prefix x) (x_src_plen x)) \<and>
     length (myid (conf b)) = 8"

definition update_ok :: "buffered_update \<Rightarrow> bool" where
  "update_ok u \<longleftrightarrow> dest_ok (b_prefix u) (b_plen u) (b_src_prefix u) (b_src_plen u)"

definition buffer_ok :: "interface \<Rightarrow> bool" where
  "buffer_ok i \<longleftrightarrow>
     int (length (i_sendbuf i)) \<le> i_bufsize i \<and>
     ((if_up i \<or> i_sendbuf i \<noteq> []) \<and> if_flag IF_TIMESTAMPS i \<and> 0 \<le> i_buffered_hello i \<longrightarrow>
        nat (i_buffered_hello i) + 14 \<le> length (i_sendbuf i)) \<and>
     int (length (i_buffered_updates i)) \<le> i_update_bufsize i \<and> (i_bufsize i = 0 \<longrightarrow> i_buffered_updates i = []) \<and>
     list_all update_ok (i_buffered_updates i)"

definition unicast_ok :: "unicast_state \<Rightarrow> bool" where
  "unicast_ok u \<longleftrightarrow>
     (case unicast_buffer u of None \<Rightarrow> unicast_neighbour u = None
      | Some xs \<Rightarrow> int (length xs) \<le> UNICAST_BUFSIZE \<and> (xs \<noteq> [] \<longrightarrow> unicast_neighbour u \<noteq> None))"

text \<open>An entry of the resend queue can be sent; memory that was never used can not.\<close>

definition resend_typed :: "resend \<Rightarrow> bool" where
  "resend_typed r \<longleftrightarrow>
     q_prefix r = [] \<and> q_max r = 0 \<or>
     dest_ok (q_prefix r) (q_plen r) (q_src_prefix r) (q_src_plen r) \<and> length (q_id r) = 8"

definition resends_typed :: "resend_table \<Rightarrow> bool" where
  "resends_typed rt \<longleftrightarrow> (\<forall>p. resend_typed (rt_heap rt p))"

definition buffers_ok :: "babel \<Rightarrow> bool" where
  "buffers_ok b \<longleftrightarrow>
     fault b = None \<and> (\<forall>p. buffer_ok (iface b p)) \<and> unicast_ok (unicast b) \<and> resends_typed (resends b)"

definition ready :: "babel \<Rightarrow> bool" where
  "ready b \<longleftrightarrow> network_ok b \<and> buffers_ok b"

section \<open>The shape determines the network\<close>

lemma quiet_iface_fields:
  assumes "quiet_iface i = quiet_iface j"
  shows "i_bufsize i = i_bufsize j" "i_flags i = i_flags j" "i_ipv4 i = i_ipv4 j" "i_channel i = i_channel j"
    "i_ifindex i = i_ifindex j" "i_hello_interval i = i_hello_interval j" "i_update_interval i = i_update_interval j"
  using arg_cong [OF assms, of i_bufsize] arg_cong [OF assms, of i_flags] arg_cong [OF assms, of i_ipv4]
    arg_cong [OF assms, of i_channel] arg_cong [OF assms, of i_ifindex] arg_cong [OF assms, of i_hello_interval]
    arg_cong [OF assms, of i_update_interval]
  by (simp_all add: quiet_iface_def)

lemma quiet_iface_up: "quiet_iface i = quiet_iface j \<Longrightarrow> if_up i = if_up j"
  by (simp add: if_up_def quiet_iface_fields [of i j])

lemma quiet_source_fields:
  assumes "quiet_source s = quiet_source t"
  shows "s_prefix s = s_prefix t" "s_plen s = s_plen t" "s_src_prefix s = s_src_prefix t"
    "s_src_plen s = s_src_plen t" "s_id s = s_id t" "s_route_count s = s_route_count t"
  using arg_cong [OF assms, of s_prefix] arg_cong [OF assms, of s_plen] arg_cong [OF assms, of s_src_prefix]
    arg_cong [OF assms, of s_src_plen] arg_cong [OF assms, of s_id] arg_cong [OF assms, of s_route_count]
  by (simp_all add: quiet_source_def)

lemma quiet_neighbour_fields:
  assumes "quiet_neighbour m = quiet_neighbour n"
  shows "n_address m = n_address n" "n_ifp m = n_ifp n" "n_reach m = n_reach n" "n_txcost m = n_txcost n"
  using arg_cong [OF assms, of n_address] arg_cong [OF assms, of n_ifp] arg_cong [OF assms, of n_reach]
    arg_cong [OF assms, of n_txcost]
  by (simp_all add: quiet_neighbour_def)

lemma shape_rib_ok:
  assumes "shape b' = shape b"
  shows "rib_ok (st_heap (sources b')) (rib b') = rib_ok (st_heap (sources b)) (rib b)"
proof -
  note q = quiet_source_fields [OF shape_eqD(18) [OF assms]]
  have k: "src_dest_key (src b' p) = src_dest_key (src b p)" for p
    by (simp add: src_dest_key_def q)
  show ?thesis
    unfolding rib_ok_def shape_eqD(1) [OF assms]
    using rib_shape_cong [of "rib b" "src b'" "route b" "src b"] k by simp
qed

lemma network_ok_shape:
  assumes "shape b' = shape b" and "network_ok b"
  shows "network_ok b'"
proof -
  note s = shape_eqD [OF assms(1)]
  note qi = quiet_iface_fields [OF s(19)] quiet_iface_up [OF s(19)]
  note qs = quiet_source_fields [OF s(18)]
  show ?thesis
    using assms(2) shape_rib_ok [OF assms(1)]
    by (simp add: network_ok_def iface_conf_ok_def source_dest_ok_def route_src_def s(1,2,4) qi qs
        quiet_neighbour_fields [OF s(20)])
qed

text \<open>So an operation that keeps the shape only has to keep the buffers.\<close>

lemma holds_ready: "shape c = shape b \<Longrightarrow> holds ready b \<Longrightarrow> (ready b \<Longrightarrow> buffers_ok c) \<Longrightarrow> holds ready c"
  using network_ok_shape by (auto simp: holds_def ready_def)

lemma returns_ready:
  "shape (snd r) = shape b \<Longrightarrow> holds ready b \<Longrightarrow> (ready b \<Longrightarrow> buffers_ok (snd r)) \<Longrightarrow> returns (\<lambda>_. ready) r"
  using network_ok_shape by (auto simp: holds_def returns_def ready_def)

named_theorems readies \<open>operations that keep a state ready\<close>

lemma ready_upd_iface:
  assumes "holds ready b" "\<And>i. quiet_iface (f i) = quiet_iface i" "buffer_ok (iface b p) \<Longrightarrow> buffer_ok (f (iface b p))"
  shows "holds ready (upd_iface p f b)"
  using assms by (intro holds_ready [OF _ assms(1)] shape_upd_iface) (auto simp: ready_def buffers_ok_def upd_iface_def)

lemma ready_upd_neigh:
  assumes "holds ready b" "\<And>i. quiet_neighbour (f i) = quiet_neighbour i"
  shows "holds ready (upd_neigh p f b)"
  using assms by (intro holds_ready [OF _ assms(1)] shape_upd_neigh) (auto simp: ready_def buffers_ok_def upd_neigh_def)

lemma recompute_typed [simp]: "resends_typed (recompute_resend_time t rt) = resends_typed rt"
  by (simp add: recompute_resend_time_def resends_typed_def)

lemma arm_typed [simp]: "resends_typed (arm_resend p rt) = resends_typed rt"
  by (simp add: arm_resend_def resends_typed_def)

lemma resends_typed_update:
  "resends_typed rt \<Longrightarrow> resend_typed r \<Longrightarrow> rt_heap rt' = (rt_heap rt)(p := r) \<Longrightarrow> resends_typed rt'"
  by (simp add: resends_typed_def)

lemma satisfy_request_typed:
  "resends_typed rt \<Longrightarrow> resends_typed (snd (satisfy_request t pre plen sp spl s rid ifp rt))"
  by (auto simp: satisfy_request_def Let_def resends_typed_def resend_typed_def split: option.splits)

lemma record_resend_typed:
  assumes rt: "resends_typed rt" and d: "dest_ok pre plen sp spl" "\<And>i. rid = Some i \<Longrightarrow> length i = 8"
  shows "resends_typed (snd (record_resend ok t fs k pre plen sp spl s rid ifc d rt))"
proof -
  have rid: "length (resend_id rid) = 8" using d(2) by (simp add: resend_id_def split: option.split)
  have l: "length pre = 16" "length sp = 16" using d(1) by (simp_all add: dest_ok_def)
  have new: "resend_typed (new_resend t k pre plen sp spl s rid i dl)" for i dl
    using d(1) rid l by (simp add: resend_typed_def new_resend_def)
  have old: "resend_typed (refresh_resend t dl (rt_heap rt p)) \<and>
      resend_typed (replace_resend s rid i (refresh_resend t dl (rt_heap rt p)))"
    if "find_resend k pre plen sp spl rt = Some p" for p dl i
  proof -
    have "resend_match (rt_heap rt p) k pre plen sp spl"
      using that find_resend_from_Some by (auto simp: find_resend_def)
    then have "q_prefix (rt_heap rt p) \<noteq> []" using l by (auto simp: resend_match_def)
    moreover have "resend_typed (rt_heap rt p)" using rt by (simp add: resends_typed_def)
    ultimately show ?thesis using rid by (simp add: resend_typed_def refresh_resend_def replace_resend_def)
  qed
  have upd: "resends_typed (rt\<lparr>rt_heap := (rt_heap rt)(p := r)\<rparr>)"
    "resends_typed (rt\<lparr>rt_heap := (rt_heap rt)(p := r), to_resend := ps, rt_fresh := n\<rparr>)" if "resend_typed r" for p r ps n
    using resends_typed_update [OF rt that, of _ p] by simp_all
  show ?thesis
  proof (cases "find_resend k pre plen sp spl rt")
    case None
    then show ?thesis unfolding record_resend_def Let_def by (simp add: rt upd new)
  next
    case (Some p)
    note o = upd(1) [OF conjunct1 [OF old [OF Some]]] upd(1) [OF conjunct2 [OF old [OF Some]]]
    show ?thesis unfolding record_resend_def Let_def Some option.case by (simp add: rt o)
  qed
qed

lemma buffers_ok_basic [simp]:
  "buffers_ok (snd (ask b)) = buffers_ok b" "buffers_ok (snd (c_alloc b)) = buffers_ok b"
  "buffers_ok (snd (c_roughly v b)) = buffers_ok b" "buffers_ok (emit ev b) = buffers_ok b"
  "buffers_ok (gettime b) = buffers_ok b"
  "buffers_ok (b\<lparr>sources := st\<rparr>) = buffers_ok b"
  by (simp_all add: buffers_ok_def ask_def c_alloc_def c_roughly_def c_random_def emit_def gettime_def)

lemma ready_basic [readies]:
  assumes "holds ready b"
  shows "returns (\<lambda>_. ready) (c_alloc b)" "returns (\<lambda>_. ready) (c_roughly v b)" "holds ready (emit ev b)"
    "holds ready (gettime b)" "c \<Longrightarrow> holds ready (c_assert c b)"
    "holds ready (g_satisfy_request pre plen sp spl s rid ifp b)"
    "dest_ok pre plen sp spl \<Longrightarrow> (\<And>i. rid' = Some i \<Longrightarrow> length i = 8) \<Longrightarrow>
       holds ready (g_record_resend k pre plen sp spl s rid' ifp d b)"
    "holds ready (b\<lparr>sources := update_source t p seqno metric (sources b)\<rparr>)"
  subgoal by (rule returns_ready [OF _ assms]) (simp_all add: shaped ready_def)
  subgoal by (rule returns_ready [OF _ assms]) (simp_all add: shaped ready_def)
  subgoal by (rule holds_ready [OF _ assms]) (simp_all add: shaped ready_def)
  subgoal by (rule holds_ready [OF _ assms]) (simp_all add: shaped ready_def)
  subgoal using assms by (simp add: c_assert_def)
  subgoal by (rule holds_ready [OF _ assms])
    (simp_all add: shaped ready_def g_satisfy_request_def buffers_ok_def satisfy_request_typed)
  subgoal by (rule holds_ready [OF _ assms])
    (simp_all only: shaped, auto simp: ready_def g_record_resend_def buffers_ok_def c_alloc_def ask_def intro!: record_resend_typed)
  subgoal by (rule holds_ready [OF _ assms]) (simp_all add: shaped ready_def)
  done

section \<open>Timers\<close>

lemma ready_timers [readies]:
  assumes "holds ready b"
  shows "returns (\<lambda>_. ready) (jitter p u b)" "returns (\<lambda>_. ready) (update_jitter p u b)"
    "returns (\<lambda>_. ready) (set_timeout m b)"
  using assms unfolding jitter_def update_jitter_def set_timeout_def
  by - (intro inv_rules readies; simp)+

lemma buffer_ok_timers [simp]:
  "buffer_ok (i\<lparr>i_flush_timeout := t\<rparr>) = buffer_ok i" "buffer_ok (i\<lparr>i_update_flush_timeout := t\<rparr>) = buffer_ok i"
  "buffer_ok (i\<lparr>i_update_timeout := t\<rparr>) = buffer_ok i" "buffer_ok (i\<lparr>i_hello_timeout := t\<rparr>) = buffer_ok i"
  "buffer_ok (i\<lparr>i_hello_seqno := s\<rparr>) = buffer_ok i" "buffer_ok (i\<lparr>i_last_update_time := n\<rparr>) = buffer_ok i"
  "buffer_ok (i\<lparr>i_last_specific_update_time := n\<rparr>) = buffer_ok i"
  "buffer_ok (i\<lparr>i_buffered_id := d\<rparr>) = buffer_ok i" "buffer_ok (i\<lparr>i_have_buffered_id := h\<rparr>) = buffer_ok i"
  "buffer_ok (i\<lparr>i_buffered_nh := d\<rparr>) = buffer_ok i" "buffer_ok (i\<lparr>i_have_buffered_nh := h\<rparr>) = buffer_ok i"
  "buffer_ok (i\<lparr>i_buffered_prefix := d\<rparr>) = buffer_ok i"
  "buffer_ok (i\<lparr>i_have_buffered_prefix := h\<rparr>) = buffer_ok i"
  by (simp_all add: buffer_ok_def if_flag_def if_up_def)

lemma ready_schedule_flush_in [readies]: "holds ready b \<Longrightarrow> holds ready (schedule_flush_in p m b)"
  unfolding schedule_flush_in_def
  by (intro inv_rules readies ready_upd_iface) (simp_all add: quiet_iface_def)

lemma ready_schedule [readies]:
  assumes "holds ready b"
  shows "holds ready (schedule_flush p b)" "holds ready (schedule_flush_now p b)"
    "holds ready (schedule_update_flush p u b)"
  using assms unfolding schedule_flush_def schedule_flush_now_def schedule_update_flush_def
  by - (intro inv_rules readies ready_upd_iface; simp add: quiet_iface_def)+

lemma ready_schedule_unicast [readies]: "holds ready b \<Longrightarrow> holds ready (schedule_unicast_flush m b)"
  by (rule holds_ready [of _ b]) (auto simp: shaped schedule_unicast_flush_def Let_def ready_def buffers_ok_def
      unicast_ok_def split: option.splits)

section \<open>Flushing the send buffer\<close>

lemma ready_check_bucket [readies]: "holds ready b \<Longrightarrow> returns (\<lambda>_. ready) (check_bucket p b)"
  by (rule returns_ready [of _ b, OF shape_check_bucket])
    (auto simp: ready_def buffers_ok_def check_bucket_def split_beta upd_iface_def check_bucket1_def Let_def
      buffer_ok_def if_flag_def if_up_def)

lemma ready_fill_rtt:
  assumes "holds ready b" "if_up (iface b p) \<or> i_sendbuf (iface b p) \<noteq> []"
  shows "returns (\<lambda>_. ready) (fill_rtt_message p b)"
proof (rule returns_ready [OF _ assms(1)])
  let ?i = "iface b p"
  let ?h = "nat (i_buffered_hello ?i)"
  let ?buf = "take (?h + 8) (i_sendbuf ?i) @ [word_of_int SUBTLV_TIMESTAMP, i_sendbuf ?i ! (?h + 9)] @
                  htonl (time_us (now (gettime b))) @ drop (?h + 14) (i_sendbuf ?i)"
  assume "ready b"
  then have b: "buffers_ok b" and i: "buffer_ok ?i" by (auto simp: ready_def buffers_ok_def)
  have g: "iface (gettime b) p = ?i" by (simp add: gettime_def)
  have "length ?buf = length (i_sendbuf ?i)" if "?h + 14 \<le> length (i_sendbuf ?i)" using that by simp
  then have "buffer_ok (?i\<lparr>i_sendbuf := ?buf\<rparr>)" if "?h + 14 \<le> length (i_sendbuf ?i)"
    using that i unfolding buffer_ok_def if_flag_def if_up_def by (simp del: length_append)
  then show "buffers_ok (snd (fill_rtt_message p b))"
    using b i g assms(2) by (auto simp: fill_rtt_message_def Let_def buffers_ok_def upd_iface_def buffer_ok_def gettime_def)
qed (simp add: shaped)

lemma buffer_ok_reset: "buffer_ok i \<Longrightarrow> buffer_ok (reset_buffer i)"
  by (auto simp: buffer_ok_def reset_buffer_def if_flag_def if_up_def)

lemma ready_buffer: "holds ready b \<Longrightarrow> buffer_ok (iface b p)"
  by (simp add: holds_def ready_def buffers_ok_def)

lemma ready_fits: "holds ready b \<Longrightarrow> int (length (i_sendbuf (iface b p))) \<le> i_bufsize (iface b p)"
  using ready_buffer [of b p] by (simp add: buffer_ok_def)

lemma ready_send_packet: "holds ready b \<Longrightarrow> holds ready (send_packet p b)"
proof -
  assume b: "holds ready b"
  obtain ok c where c: "check_bucket p b = (ok, c)" by fastforce
  have r: "holds ready c" using ready_check_bucket [OF b, of p] c by (simp add: returns_def holds_def)
  have "i_sendbuf (iface c p) = i_sendbuf (iface b p)"
    using c by (auto simp: check_bucket_def check_bucket1_def Let_def upd_iface_def split: if_splits)
  then show ?thesis
    unfolding send_packet_def c prod.case Let_def using ready_fill_rtt [OF r, of p] b r
    by (intro inv_rules readies) simp_all
qed

lemma ready_flushbuf_raw [readies]: "holds ready b \<Longrightarrow> holds ready (flushbuf_raw p b)"
  unfolding flushbuf_raw_def
  by (intro ready_upd_iface ready_send_packet buffer_ok_reset) (simp_all add: quiet_iface_def reset_buffer_def)

lemma ready_flush_idle [readies]: "holds ready b \<Longrightarrow> holds ready (flush_idle p b)"
  unfolding flush_idle_def
  by (intro inv_rules readies ready_upd_iface) (simp_all add: quiet_iface_def ready_fits)

lemma flush_idle_empty [simp]: "i_sendbuf (iface (flush_idle p b) p) = []"
  by (simp add: flush_idle_def flushbuf_raw_def Let_def upd_iface_def reset_buffer_def)

lemma flushbuf_empty [simp]: "i_sendbuf (iface (flushbuf p b) p) = []"
  by (simp add: flushbuf_def flushbuf_raw_def Let_def upd_iface_def reset_buffer_def)

end
