(* ===== verification/Tlv.thy ===== *)
theory Tlv
  imports Send_Ready
begin

text \<open>
  Messages between \<open>start_message\<close> and \<open>end_message\<close>.  The locale \<open>tlv_buffer\<close> is the
  interface of a buffer that messages are put into: what is written is appended, and a write
  that fits raises no fault.  Its assertion \<open>writing\<close> describes a state in which a message is
  under way, with the bytes written so far; its lemmas say how a write extends the message
  and that the assertion of \<open>end_message\<close> holds when the announced number of bytes has been
  written.  The send buffer of an interface and the unicast buffer both interpret it.
\<close>

locale tlv_buffer =
  fixes content :: "babel \<Rightarrow> byte list"
    and capacity :: "babel \<Rightarrow> int"
    and append :: "byte list \<Rightarrow> babel \<Rightarrow> babel"
  assumes content_append: "content (append xs b) = content b @ xs"
    and append_append: "append ys (append xs b) = append (xs @ ys) b"
    and append_fault: "int (length (content b)) + int (length xs) \<le> capacity b \<Longrightarrow> fault (append xs b) = fault b"
begin

definition writing :: "(babel \<Rightarrow> bool) \<Rightarrow> int \<Rightarrow> int \<Rightarrow> byte list \<Rightarrow> babel \<Rightarrow> bool" where
  "writing I type len payload c \<longleftrightarrow>
     (\<exists>b. I b \<and> int (length (content b)) + 2 + len \<le> capacity b \<and>
          c = append ([word_of_int type, word_of_int len] @ payload) b)"

lemma writing_start:
  "I b \<Longrightarrow> int (length (content b)) + 2 + len \<le> capacity b \<Longrightarrow>
   writing I type len [] (append [word_of_int type, word_of_int len] b)"
  by (auto simp: writing_def)

lemma writing_append: "writing I type len payload c \<Longrightarrow> writing I type len (payload @ xs) (append xs c)"
  by (auto simp: writing_def append_append)

lemma byte_uint: "0 \<le> v \<Longrightarrow> v < 256 \<Longrightarrow> uint (word_of_int v :: byte) = v"
  by (simp add: uint_word_of_int take_bit_eq_mod)

text \<open>The condition that \<open>end_message\<close> asserts.\<close>

lemma writing_closed:
  assumes "writing I type len payload c" and "int (length payload) = len"
    and "0 \<le> type" "type < 256" "len < 256"
  shows "0 \<le> len \<and> int (length (content c)) \<ge> len + 2 \<and>
    uint (content c ! nat (int (length (content c)) - len - 2)) = type \<and>
    uint (content c ! nat (int (length (content c)) - len - 1)) = len"
proof -
  obtain b where c: "content c = content b @ [word_of_int type, word_of_int len] @ payload"
    using assms(1) by (auto simp: writing_def content_append)
  have l: "0 \<le> len" using assms(2) by simp
  have n: "nat (int (length (content c)) - len - 2) = length (content b)"
    "nat (int (length (content c)) - len - 1) = Suc (length (content b))"
    using assms(2) c by auto
  show ?thesis unfolding n using l c assms(2-5) byte_uint by (simp add: nth_append)
qed

lemma writing_done:
  assumes "writing I type len payload c" and "int (length payload) = len"
  obtains b where "I b" "c = append ([word_of_int type, word_of_int len] @ payload) b"
    "content c = content b @ [word_of_int type, word_of_int len] @ payload" "fault c = fault b"
    "int (length (content c)) \<le> capacity b"
proof -
  obtain b where b: "I b" "int (length (content b)) + 2 + len \<le> capacity b"
    "c = append ([word_of_int type, word_of_int len] @ payload) b"
    using assms(1) by (auto simp: writing_def)
  show ?thesis
  proof (rule that [of b])
    show "fault c = fault b" using b assms(2) append_fault [of b] by simp
    show "int (length (content c)) \<le> capacity b" using b assms(2) by (simp add: content_append)
  qed (use b in \<open>simp_all add: content_append\<close>)
qed

end

section \<open>The send buffer of an interface\<close>

definition sendbuf :: "ptr \<Rightarrow> babel \<Rightarrow> byte list" where
  "sendbuf p b = i_sendbuf (iface b p)"

definition bufsize :: "ptr \<Rightarrow> babel \<Rightarrow> int" where
  "bufsize p b = i_bufsize (iface b p)"

interpretation ib: tlv_buffer "sendbuf p" "bufsize p" "put p" for p
proof
  show "sendbuf p (put p xs b) = sendbuf p b @ xs" for xs b
    by (simp add: sendbuf_def put_def upd_iface_def raise_fault_def Let_def)
  show "put p ys (put p xs b) = put p (xs @ ys) b" for xs ys b
    by (auto simp: put_def upd_iface_def raise_fault_def Let_def)
  show "fault (put p xs b) = fault b" if "int (length (sendbuf p b)) + int (length xs) \<le> bufsize p b" for xs b
    using that by (simp add: put_def upd_iface_def sendbuf_def bufsize_def)
qed

lemma put_fits:
  "int (length (sendbuf p b)) + int (length xs) \<le> bufsize p b \<Longrightarrow>
   put p xs b = upd_iface p (\<lambda>i. i\<lparr>i_sendbuf := i_sendbuf i @ xs\<rparr>) b"
  by (simp add: put_def upd_iface_def sendbuf_def bufsize_def)

text \<open>The rules for the code that writes a message.\<close>

lemma ib_accumulate:
  assumes "holds (ib.writing p I type len payload) c"
  shows "holds (ib.writing p I type len (payload @ [word_of_int x])) (accumulate_byte p x c)"
    "holds (ib.writing p I type len (payload @ htons x)) (accumulate_short p x c)"
    "holds (ib.writing p I type len (payload @ htonl w)) (accumulate_int p w c)"
    "0 \<le> n \<Longrightarrow> n \<le> int (length xs) \<Longrightarrow>
     holds (ib.writing p I type len (payload @ take (nat n) xs)) (accumulate_bytes p xs n c)"
  using assms ib.writing_append [of p I type len payload c]
  by (auto simp: holds_def accumulate_byte_def accumulate_short_def accumulate_int_def accumulate_bytes_def)

text \<open>The same as rules for a \<open>let\<close>, so that \<open>erule\<close> follows the text of a message.\<close>

lemmas ib_put = ib_accumulate(1-3) [THEN holds_let]

lemma ib_put_bytes:
  "holds (ib.writing p I type len payload) c \<Longrightarrow> 0 \<le> n \<and> n \<le> int (length xs) \<Longrightarrow>
   (\<And>d. holds (ib.writing p I type len (payload @ take (nat n) xs)) d \<Longrightarrow> holds J (f d)) \<Longrightarrow>
   holds J (let d = accumulate_bytes p xs n c in f d)"
  using ib_accumulate(4) [of p I type len payload c n xs] by (simp add: Let_def)

lemma ib_put_optional:
  "holds (ib.writing p I type len payload) c \<Longrightarrow>
   (q \<Longrightarrow> holds (ib.writing p I type len payload) c \<Longrightarrow> holds (ib.writing p I type len longer) x) \<Longrightarrow>
   (\<And>d. holds (ib.writing p I type len (if q then longer else payload)) d \<Longrightarrow> holds J (f d)) \<Longrightarrow>
   holds J (let d = (if q then x else c) in f d)"
  by (cases q) (simp_all add: Let_def)

lemma ib_put_if:
  "holds (ib.writing p I type len payload) c \<Longrightarrow>
   (q \<Longrightarrow> holds (ib.writing p I type len payload) c \<Longrightarrow> holds (ib.writing p I type len longer1) x) \<Longrightarrow>
   (\<not> q \<Longrightarrow> holds (ib.writing p I type len payload) c \<Longrightarrow> holds (ib.writing p I type len longer2) y) \<Longrightarrow>
   (\<And>d. holds (ib.writing p I type len (if q then longer1 else longer2)) d \<Longrightarrow> holds J (f d)) \<Longrightarrow>
   holds J (let d = (if q then x else y) in f d)"
  by (cases q) (simp_all add: Let_def)

lemma ib_start:
  assumes "holds I b" "\<And>c. holds I c \<Longrightarrow> holds I (flush p c)" "0 \<le> len"
    and "\<And>c. i_sendbuf (iface (flush p c) p) = []" "\<And>c. I c \<Longrightarrow> len + 2 \<le> bufsize p c"
  shows "holds (ib.writing p I type len []) (start_message_with flush p type len b)"
proof -
  have "ib.writing p I type len [] (put p [word_of_int type, word_of_int len] c)"
    if "I c" "i_sendbuf (iface c p) = [] \<or> \<not> i_bufsize (iface c p) - int (length (i_sendbuf (iface c p))) < len + 2" for c
    using that assms(5) [OF that(1)] by (intro ib.writing_start) (auto simp: sendbuf_def bufsize_def)
  then show ?thesis
    using assms(1,2,4) by (auto simp: start_message_with_def holds_def Let_def)
qed

lemma ib_end:
  assumes "holds (ib.writing p I type len payload) c" "int (length payload) = len"
    and "0 \<le> type" "type < 256" "len < 256"
    and "\<And>b. I b \<Longrightarrow> int (length (sendbuf p b)) + 2 + len \<le> bufsize p b \<Longrightarrow>
      holds K (upd_iface p (\<lambda>i. i\<lparr>i_sendbuf := i_sendbuf i @ [word_of_int type, word_of_int len] @ payload\<rparr>) b)"
    and "\<And>c. holds K c \<Longrightarrow> holds K (schedule_flush p c)"
  shows "holds K (end_message p type len c)"
proof -
  have w: "ib.writing p I type len payload c" using assms(1) by (simp add: holds_def)
  note cl = ib.writing_closed [OF w assms(2-5)]
  obtain b where b: "I b" "int (length (sendbuf p b)) + 2 + len \<le> bufsize p b"
    "c = put p ([word_of_int type, word_of_int len] @ payload) b"
    using w by (auto simp: ib.writing_def)
  then have "c = upd_iface p (\<lambda>i. i\<lparr>i_sendbuf := i_sendbuf i @ [word_of_int type, word_of_int len] @ payload\<rparr>) b"
    using assms(2) by (simp add: put_fits)
  then have "holds K c" using assms(6) [OF b(1,2)] by simp
  then show ?thesis
    using assms(7) cl by (simp add: end_message_def Let_def c_assert_def sendbuf_def)
qed

section \<open>The unicast buffer\<close>

interpretation ub: tlv_buffer unicast_buffered "\<lambda>_. UNICAST_BUFSIZE" unicast_put
proof
  show "unicast_buffered (unicast_put xs b) = unicast_buffered b @ xs" for xs b
    by (simp add: unicast_put_def unicast_buffered_def raise_fault_def Let_def)
  show "unicast_put ys (unicast_put xs b) = unicast_put (xs @ ys) b" for xs ys b
    by (auto simp: unicast_put_def unicast_buffered_def raise_fault_def Let_def)
  show "fault (unicast_put xs b) = fault b" if "int (length (unicast_buffered b)) + int (length xs) \<le> UNICAST_BUFSIZE" for xs b
    using that by (simp add: unicast_put_def unicast_buffered_def)
qed

lemma unicast_put_fits:
  "int (length (unicast_buffered b)) + int (length xs) \<le> UNICAST_BUFSIZE \<Longrightarrow>
   unicast_put xs b = b\<lparr>unicast := (unicast b)\<lparr>unicast_buffer := Some (unicast_buffered b @ xs)\<rparr>\<rparr>"
  by (simp add: unicast_put_def unicast_buffered_def)

lemma ub_accumulate:
  assumes "holds (ub.writing I type len payload) c"
  shows "holds (ub.writing I type len (payload @ [word_of_int x])) (accumulate_unicast_byte x c)"
    "holds (ub.writing I type len (payload @ htons x)) (accumulate_unicast_short x c)"
    "holds (ub.writing I type len (payload @ htonl w)) (accumulate_unicast_int w c)"
    "0 \<le> n \<Longrightarrow> n \<le> int (length xs) \<Longrightarrow>
     holds (ub.writing I type len (payload @ take (nat n) xs)) (accumulate_unicast_bytes xs n c)"
  using assms ub.writing_append [of I type len payload c]
  by (auto simp: holds_def accumulate_unicast_byte_def accumulate_unicast_short_def accumulate_unicast_int_def
      accumulate_unicast_bytes_def)

lemmas ub_put = ub_accumulate(1-3) [THEN holds_let]

lemma ub_put_bytes:
  "holds (ub.writing I type len payload) c \<Longrightarrow> 0 \<le> n \<and> n \<le> int (length xs) \<Longrightarrow>
   (\<And>d. holds (ub.writing I type len (payload @ take (nat n) xs)) d \<Longrightarrow> holds J (f d)) \<Longrightarrow>
   holds J (let d = accumulate_unicast_bytes xs n c in f d)"
  using ub_accumulate(4) [of I type len payload c n xs] by (simp add: Let_def)

lemma ub_put_optional:
  "holds (ub.writing I type len payload) c \<Longrightarrow>
   (q \<Longrightarrow> holds (ub.writing I type len payload) c \<Longrightarrow> holds (ub.writing I type len longer) x) \<Longrightarrow>
   (\<And>d. holds (ub.writing I type len (if q then longer else payload)) d \<Longrightarrow> holds J (f d)) \<Longrightarrow>
   holds J (let d = (if q then x else c) in f d)"
  by (cases q) (simp_all add: Let_def)

lemma ub_put_if:
  "holds (ub.writing I type len payload) c \<Longrightarrow>
   (q \<Longrightarrow> holds (ub.writing I type len payload) c \<Longrightarrow> holds (ub.writing I type len longer1) x) \<Longrightarrow>
   (\<not> q \<Longrightarrow> holds (ub.writing I type len payload) c \<Longrightarrow> holds (ub.writing I type len longer2) y) \<Longrightarrow>
   (\<And>d. holds (ub.writing I type len (if q then longer1 else longer2)) d \<Longrightarrow> holds J (f d)) \<Longrightarrow>
   holds J (let d = (if q then x else y) in f d)"
  by (cases q) (simp_all add: Let_def)

end
