(* ===== verification/Send_Safe.thy ===== *)
theory Send_Safe
  imports Tlv
begin

text \<open>
  Sending from a \<open>ready\<close> state leaves a \<open>ready\<close> state, for every function of theories
  \<open>Send_Update\<close> and \<open>Send_Message\<close>: the assertions hold, no buffer overflows, nothing is read
  that was not written, and the buffers stay well formed.
\<close>

section \<open>Writing one message\<close>

definition ready_up :: "ptr \<Rightarrow> babel \<Rightarrow> bool" where
  "ready_up p b \<longleftrightarrow> ready b \<and> if_up (iface b p)"

lemma up_shape: "shape c = shape b \<Longrightarrow> if_up (iface c p) = if_up (iface b p)"
  by (rule quiet_iface_up [OF shape_eqD(19)])

lemma ready_up_shape: "holds (ready_up p) b \<Longrightarrow> holds ready c \<Longrightarrow> shape c = shape b \<Longrightarrow> holds (ready_up p) c"
  using up_shape [of c b p] by (simp add: holds_def ready_up_def)

lemma ready_upI: "holds ready b \<Longrightarrow> if_up (iface b p) \<Longrightarrow> holds (ready_up p) b"
  by (simp add: holds_def ready_up_def)

lemma ready_upD: "holds (ready_up p) b \<Longrightarrow> holds ready b" "ready_up p b \<Longrightarrow> holds ready b"
  by (simp_all add: holds_def ready_up_def)

lemma ready_up_bufsize: "ready_up p b \<Longrightarrow> 78 \<le> bufsize p b"
  by (auto simp: ready_up_def ready_def network_ok_def iface_conf_ok_def bufsize_def)

lemma ready_up_flush_idle: "holds (ready_up p) b \<Longrightarrow> holds (ready_up p) (flush_idle p b)"
  by (rule ready_up_shape [of p b]) (auto simp: shaped intro: readies ready_upD)

lemma start_idle:
  "holds (ready_up p) b \<Longrightarrow> 0 \<le> len \<Longrightarrow> len \<le> 76 \<Longrightarrow>
   holds (ib.writing p (ready_up p) type len []) (start_message_with flush_idle p type len b)"
  by (rule ib_start) (auto intro: ready_up_flush_idle dest: ready_up_bufsize)

lemma ready_end:
  assumes "holds (ib.writing p (ready_up p) type len payload) c" "int (length payload) = len"
    and "0 \<le> type" "type < 256" "len \<le> 76"
  shows "holds ready (end_message p type len c)"
proof (rule ib_end [OF assms(1-4)])
  fix b
  assume b: "ready_up p b" "int (length (sendbuf p b)) + 2 + len \<le> bufsize p b"
  then show "holds ready (upd_iface p (\<lambda>i. i\<lparr>i_sendbuf := i_sendbuf i @ [word_of_int type, word_of_int len] @ payload\<rparr>) b)"
    using assms(2) b(1) [unfolded ready_up_def if_up_def]
    by (intro ready_upd_iface ready_upD(2) [OF b(1)])
      (auto simp: quiet_iface_def buffer_ok_def sendbuf_def bufsize_def if_flag_def if_up_def)
qed (use assms(5) in \<open>auto intro: readies\<close>)

text \<open>The start of a message as a rule for a \<open>let\<close>.\<close>

lemma start_idle_let:
  "holds (ready_up p) b \<Longrightarrow> 0 \<le> len \<and> len \<le> 76 \<Longrightarrow>
   (\<And>d. holds (ib.writing p (ready_up p) type len []) d \<Longrightarrow> holds J (f d)) \<Longrightarrow>
   holds J (let d = start_message_with flush_idle p type len b in f d)"
  using start_idle [of p b len type] by (simp add: Let_def)

lemma end_let:
  "holds (ib.writing p (ready_up p) type len payload) c \<Longrightarrow>
   int (length payload) = len \<and> 0 \<le> type \<and> type < 256 \<and> len \<le> 76 \<Longrightarrow>
   (\<And>d. holds ready d \<Longrightarrow> holds J (f d)) \<Longrightarrow> holds J (let d = end_message p type len c in f d)"
  using ready_end [of p type len payload c] by (simp add: Let_def)

lemmas let_values =
  Let_def [where 'a = int] Let_def [where 'a = nat] Let_def [where 'a = bool] Let_def [where 'a = interface]
  Let_def [where 'a = "'c list"] Let_def [where 'a = "'c option"] Let_def [where 'a = babel_route] Let_def [where 'a = u16]
  Let_def [where 'a = source]

lemmas types =
  MESSAGE_ACK_def MESSAGE_HELLO_def MESSAGE_IHU_def MESSAGE_ROUTER_ID_def MESSAGE_NH_def MESSAGE_UPDATE_def
  MESSAGE_REQUEST_def MESSAGE_MH_REQUEST_def MESSAGE_UPDATE_SRC_SPECIFIC_def MESSAGE_REQUEST_SRC_SPECIFIC_def
  MESSAGE_MH_REQUEST_SRC_SPECIFIC_def

section \<open>Updates\<close>

lemma ready_send_nh:
  assumes "holds (ready_up p) b" "length a = 4"
  shows "holds (ready_up p) (send_nh p a b)"
proof (rule ready_up_shape [OF assms(1)])
  show "holds ready (send_nh p a b)"
    unfolding send_nh_def let_values
    by (rule holds_if, rule start_idle_let [OF assms(1)], simp, (erule ib_put)+,
        erule ib_put_bytes, simp add: assms(2), erule end_let, simp add: assms(2) types, rule ready_upd_iface)
      (simp_all add: quiet_iface_def ready_upD(1) [OF assms(1)])
qed (simp add: shaped)

lemma ready_send_router_id:
  assumes "holds (ready_up p) b" "length rid = 8"
  shows "returns (\<lambda>_. ready_up p) (send_router_id p rid pre len spl b)"
proof -
  have "holds ready (let b = start_message_with flush_idle p MESSAGE_ROUTER_ID 10 b;
                         b = accumulate_short p 0 b; b = accumulate_bytes p rid 8 b
                     in end_message p MESSAGE_ROUTER_ID 10 b)"
    by (rule start_idle_let [OF assms(1)], simp, (erule ib_put)+, erule ib_put_bytes, simp add: assms(2),
        erule ready_end) (simp_all add: assms(2) types)
  note message = this
  have "returns (\<lambda>_. ready) (send_router_id p rid pre len spl b)"
    unfolding send_router_id_def let_values
    by (intro message returns_if inv_returns_let holds_if inv_returns_pair ready_upd_iface ready_upD(1) [OF assms(1)])
      (simp_all add: quiet_iface_def)
  then show ?thesis
    using ready_up_shape [OF assms(1), of "snd (send_router_id p rid pre len spl b)"]
    by (simp add: returns_def holds_def shaped)
qed

lemma ready_send_update_tlv:
  assumes "holds (ready_up p) b" and "0 \<le> om" "om \<le> (len + 7) sdiv 8"
    and "(len + 7) sdiv 8 \<le> int (length pre)" "(len + 7) sdiv 8 \<le> 16"
    and "spec \<Longrightarrow> 0 \<le> (slen + 7) sdiv 8 \<and> (slen + 7) sdiv 8 \<le> int (length sp) \<and> (slen + 7) sdiv 8 \<le> 16"
    and "cl \<le> int (length ch)" "cl \<le> 20"
  shows "holds ready (send_update_tlv p v4 fl pre len om sp slen spec seqno m ch cl b)"
proof -
  define v where "v = (if spec then (slen + 7) sdiv 8 else 0)"
  have v: "0 \<le> v" "v \<le> 16" using assms(6) by (auto simp: v_def)
  show ?thesis
    unfolding send_update_tlv_def let_values v_def [symmetric]
    apply (rule start_idle_let [OF assms(1)])
     apply (use assms(2-5,8) v in simp)
    apply (erule ib_put)+
    apply (erule ib_put_bytes)
     apply (use assms(2-5) in simp)
    apply (erule ib_put_optional)
     apply (rule ib_accumulate(4), assumption, use assms(6) in simp, use assms(6) in simp)
    apply (erule ib_put_optional)
     apply (erule ib_put)+
     apply (rule ib_accumulate(4), assumption, simp, rule assms(7))
    apply (erule ready_end)
       apply (use assms(2-8) v in \<open>auto simp: types v_def\<close>)
    done
qed

lemma omit_bytes_le: "omit_bytes xs ys n \<le> n"
  by (induction xs ys n rule: omit_bytes.induct) auto

lemma ready_dest:
  "holds ready b \<Longrightarrow> find_installed pre plen sp spl b = Some rt \<Longrightarrow>
   source_dest_ok (route_src b rt) \<and> r_channels_len (route b rt) \<le> int (length (r_channels (route b rt)))"
  using find_routes_spec [of "st_heap (sources b)" "rib b" pre plen sp spl]
  by (auto simp: holds_def ready_def network_ok_def find_installed_def)

lemma ready_xroute:
  "holds ready b \<Longrightarrow> find_xroute pre plen sp spl b = Some i \<Longrightarrow>
   dest_ok (x_prefix (xroutes b ! i)) (x_plen (xroutes b ! i)) (x_src_prefix (xroutes b ! i)) (x_src_plen (xroutes b ! i))"
  using find_index_Some [of "xroute_matches pre plen sp spl" "xroutes b" 0 i]
  by (auto simp: holds_def ready_def network_ok_def find_xroute_def)

lemma wire_length_bounds: "0 \<le> x \<Longrightarrow> x \<le> 128 \<Longrightarrow> 0 \<le> (x + 7) sdiv 8 \<and> (x + 7) sdiv 8 \<le> 16"
  "0 \<le> x \<Longrightarrow> x \<le> 32 \<Longrightarrow> 0 \<le> (x + 7) sdiv 8 \<and> (x + 7) sdiv 8 \<le> 4"
  for x :: int by (auto simp: sdiv_pos)

lemma ready_really_send_update [readies]:
  assumes "holds ready b" "dest_ok pre plen sp spl" "length rid = 8" "cl \<le> int (length ch)" "cl \<le> 20"
  shows "holds ready (really_send_update p rid pre plen sp spl seqno m ch cl b)"
proof -
  let ?cl = "if diversity_kind (conf b) \<noteq> DIVERSITY_CHANNEL then -1 else cl"
  have ch: "?cl \<le> int (length ch)" "?cl \<le> 20" using assms(4,5) by auto
  note d = assms(2) [unfolded dest_ok_def]
  have v6: "holds ready (send_update_tlv p False fl pre (int plen) (int (if q then omit_bytes xs pre (plen div 8) else 0))
      sp (int spl) (spl \<noteq> 0) seqno k ch ?cl c)" if "holds (ready_up p) c" for q xs fl k c
  proof (rule ready_send_update_tlv [OF that])
    have "plen div 8 \<le> (plen + 7) div 8" by (simp add: div_le_mono)
    then have "(if q then omit_bytes xs pre (plen div 8) else 0) \<le> (plen + 7) div 8"
      using omit_bytes_le [of xs pre "plen div 8"] by auto
    then show "int (if q then omit_bytes xs pre (plen div 8) else 0) \<le> (int plen + 7) sdiv 8"
      by (simp add: sdiv_pos zdiv_int)
  qed (use d wire_length_bounds(1) [of "int plen"] wire_length_bounds(1) [of "int spl"] ch in auto)
  have v4: "holds ready (send_update_tlv p True fl (drop 12 pre) (int plen - 96) 0 (drop 12 sp) (int spl - 96)
      (spl \<noteq> 0) seqno k ch ?cl c)" if "holds (ready_up p) c" "update_is_v4 pre plen" for fl k c
    by (rule ready_send_update_tlv [OF that(1)])
      (use d that(2) wire_length_bounds(2) [of "int plen - 96"] wire_length_bounds(2) [of "int spl - 96"] ch
        in \<open>auto simp: update_is_v4_def\<close>)
  have space: "holds (ready_up p) (ensure_space_with flush_idle p n b)" if "if_up (iface b p)" for n
    using that assms(1) ready_up_flush_idle ready_upI by (simp add: ensure_space_with_def)
  have addr: "length a = 4" if "holds (ready_up p) c" "i_ipv4 (iface c p) = Some a" for a c
    using that by (auto simp: holds_def ready_up_def ready_def network_ok_def iface_conf_ok_def)
  show ?thesis
    unfolding really_send_update_def let_values
    apply (rule holds_if, rule assms(1))
    apply (rule holds_if, rule assms(1))
    apply (rule holds_let, rule space, simp)
    apply (rule holds_if)
     apply (rule holds_case_option, erule ready_upD)
     apply (rule holds_let, rule ready_send_nh, assumption, rule addr, assumption, assumption)
     apply (rule holds_case_prod, erule ready_send_router_id, rule assms(3))
     apply (rule v4, erule holdsI, assumption)
    apply (rule holds_case_prod, erule ready_send_router_id, rule assms(3))
    apply (rule holds_let, rule v6, erule holdsI)
    apply (intro holds_if ready_upd_iface, assumption)
      apply (simp_all add: quiet_iface_def)
    done
qed

lemma ready_update_channels:
  assumes "holds ready b" "r_channels_len (route b rt) \<le> int (length (r_channels (route b rt)))"
  shows "returns (\<lambda>ch c. ready c \<and> shape c = shape b \<and> int (length ch) \<le> 20) (update_channels b rt)"
proof -
  have c: "iface_conf_ok (iface b (route_ifp b rt))"
    using assms(1) by (simp add: holds_def ready_def network_ok_def)
  have "returns (\<lambda>_. ready) (update_channels b rt)"
    using assms(2) ready_basic(5) [OF assms(1)] c assms(1)
    unfolding update_channels_def copy_channels_def let_values
    by (auto simp: returns_def holds_def iface_conf_ok_def Let_def)
  moreover have "int (length (fst (update_channels b rt))) \<le> 20"
    by (auto simp: update_channels_def copy_channels_def Let_def MAX_CHANNEL_HOPS_def)
  ultimately show ?thesis using shape_flushupdates(1) [of b rt] by (simp add: returns_def)
qed

lemma ready_send_route_update:
  assumes "holds ready b" "source_dest_ok (route_src b rt)"
    "r_channels_len (route b rt) \<le> int (length (r_channels (route b rt)))"
  shows "returns (\<lambda>_. ready) (send_route_update p rt b)"
proof -
  note d = assms(2) [unfolded source_dest_ok_def]
  have ch: "r_channels_len (route c rt) \<le> int (length (r_channels (route c rt)))" if "rib c = rib b" for c
    using that assms(3) by simp
  have s: "holds (\<lambda>c. ready c \<and> rib c = rib b) (if q then g_satisfy_request pre plen sp spl s rid ifp b else b)"
    for q pre plen sp spl s rid ifp
    using ready_basic(6) [OF assms(1)] assms(1) by (simp add: holds_def g_satisfy_request_def)
  show ?thesis
    unfolding send_route_update_def let_values
    apply (rule returns_let, rule s)
    apply (rule returns_if, simp add: returns_def holds_def)
    apply (rule returns_case_prod, rule ready_update_channels, simp add: holds_def, rule ch, simp add: holds_def)
    apply (rule inv_returns_let, rule ready_really_send_update)
        apply (use d in \<open>simp_all add: holds_def\<close>)
    apply (simp add: returns_def ready_basic(8) [unfolded holds_def])
    done
qed

lemma ready_flush_update:
  assumes "returns (\<lambda>_. ready) pb" "update_ok u"
  shows "returns (\<lambda>_. ready) (flush_update p u pb)"
proof -
  obtain prev b where pb: "pb = (prev, b)" by force
  then have b: "holds ready b" using assms(1) by (simp add: returns_def holds_def)
  have my: "length (myid (conf b)) = 8" using b by (simp add: holds_def ready_def network_ok_def)
  note u = assms(2) [unfolded update_ok_def]
  show ?thesis
    unfolding flush_update_def pb prod.case let_values
    apply (rule returns_if, rule inv_returns_pair, rule b)
    apply (rule returns_case_option)
     apply (rule returns_case_option)
      apply (rule inv_returns_pair, rule ready_really_send_update [OF b u my], simp, simp)
     apply (rule inv_returns_case_prod, rule ready_send_route_update [OF b])
       apply (use ready_dest [OF b] in \<open>simp_all add: inv_returns_pair\<close>)
    apply (rule inv_returns_pair, rule ready_really_send_update [OF b _ my])
      apply (auto split: option.splits if_splits dest: ready_xroute [OF b])
    done
qed

lemma set_sort_updates [simp]: "set (sort_updates us) = set us"
proof -
  have "set (insert_update u vs) = insert u (set vs)" for u vs by (induction vs) auto
  then show ?thesis by (induction us) (simp_all add: sort_updates_def)
qed

lemma ready_flushupdates [readies]:
  assumes "holds ready b"
  shows "holds ready (flushupdates p b)"
proof -
  have fold: "returns (\<lambda>_. ready) (fold (flush_update p) us pb)"
    if "returns (\<lambda>_. ready) pb" "list_all update_ok us" for us pb
    using that
  proof (induction us arbitrary: pb)
    case (Cons u us)
    then show ?case using ready_flush_update [of pb u p] by simp
  qed simp
  have us: "list_all update_ok (sort_updates (map (\<lambda>u. u\<lparr>b_id := f u\<rparr>) (i_buffered_updates (iface b p))))" for f
    using ready_buffer [OF assms, of p] by (auto simp: buffer_ok_def list_all_iff update_ok_def)
  have clear: "holds ready (upd_iface p (\<lambda>i. i\<lparr>i_buffered_updates := [], i_update_bufsize := 0\<rparr>) b)"
    by (rule ready_upd_iface [OF assms]) (auto simp: quiet_iface_def buffer_ok_def if_flag_def if_up_def)
  show ?thesis
    unfolding flushupdates_def let_values
    apply (rule inv_let)
     apply (rule holds_if, rule assms)
     apply (rule inv_let, rule clear)
     apply (rule holds_if, assumption)
     apply (rule readies, rule holds_snd, rule fold)
      apply (simp add: returns_def holds_def)
     apply (rule us)
    apply (rule ready_upd_iface)
      apply (simp_all add: quiet_iface_def)
    done
qed

lemma ready_flushbuf [readies]: "holds ready b \<Longrightarrow> holds ready (flushbuf p b)"
  unfolding flushbuf_def by (intro inv_rules readies) (simp_all add: ready_fits)

lemma ready_flushupdates_all [readies]: "holds ready b \<Longrightarrow> holds ready (flushupdates_all b)"
  unfolding flushupdates_all_def by (intro inv_rules readies)

section \<open>Buffering updates\<close>

text \<open>
  While \<open>flushupdates\<close> sends what was buffered, nothing is buffered anew; so the \<open>flushbuf\<close> it
  leads to finds no buffered updates, and the array it leaves is empty.
\<close>

definition pending :: "babel \<Rightarrow> ptr \<Rightarrow> buffered_update list \<times> int" where
  "pending b q = (i_buffered_updates (iface b q), i_update_bufsize (iface b q))"

definition pends :: "babel \<Rightarrow> babel \<Rightarrow> bool" where
  "pends b0 b \<longleftrightarrow> pending b = pending b0"

lemma pending_holds: "(holds (pends b) b \<Longrightarrow> holds (pends b) b') \<Longrightarrow> pending b' = pending b"
  by (simp add: holds_def pends_def)

lemma pending_returns: "(holds (pends b) b \<Longrightarrow> returns (\<lambda>_. pends b) r) \<Longrightarrow> pending (snd r) = pending b"
  by (simp add: holds_def returns_def pends_def)

lemmas pends_defs = holds_def returns_def pends_def

lemma pending_upd_iface:
  "(\<And>i. i_buffered_updates (f i) = i_buffered_updates i) \<Longrightarrow> (\<And>i. i_update_bufsize (f i) = i_update_bufsize i) \<Longrightarrow>
   pending (upd_iface p f b) = pending b"
  by (simp add: pending_def upd_iface_def fun_eq_iff)

lemma pending_basic:
  "pending (raise_fault e b) = pending b" "pending (c_assert c b) = pending b" "pending (emit ev b) = pending b"
  "pending (gettime b) = pending b" "pending (b\<lparr>resends := rt\<rparr>) = pending b" "pending (b\<lparr>sources := st\<rparr>) = pending b"
  "pending (snd (c_roughly v b)) = pending b" "pending (snd (jitter p u b)) = pending b"
  "pending (snd (set_timeout m b)) = pending b" "pending (g_satisfy_request pre plen sp spl s rid ifp b) = pending b"
  by (simp_all add: pending_def raise_fault_def c_assert_def emit_def gettime_def c_roughly_def c_random_def ask_def
      jitter_def set_timeout_def g_satisfy_request_def split_beta Let_def fun_eq_iff)

lemma pending_buffer:
  "pending (schedule_flush_in p m b) = pending b" "pending (schedule_flush p b) = pending b"
  "pending (schedule_flush_now p b) = pending b" "pending (put p xs b) = pending b"
  "pending (accumulate_byte p x b) = pending b" "pending (accumulate_short p x b) = pending b"
  "pending (accumulate_bytes p xs n b) = pending b" "pending (end_message p t n b) = pending b"
  "pending (snd (check_bucket p b)) = pending b" "pending (snd (fill_rtt_message p b)) = pending b"
  by (simp_all add: schedule_flush_in_def schedule_flush_def schedule_flush_now_def put_def accumulate_byte_def
      accumulate_short_def accumulate_bytes_def end_message_def check_bucket_def check_bucket1_def
      fill_rtt_message_def pending_basic pending_upd_iface Let_def split_beta)
    (simp add: pending_def upd_iface_def fun_eq_iff)+

lemma pending_flush_idle:
  "pending (flush_idle p b) = pending b" "pending (start_message_with flush_idle p t n b) = pending b"
  "pending (ensure_space_with flush_idle p n b) = pending b"
proof -
  show 1: "pending (flush_idle p b) = pending b" for b
    by (simp add: flush_idle_def flushbuf_raw_def send_packet_def reset_buffer_def pending_basic pending_upd_iface
        pending_buffer Let_def split_beta)
  show "pending (start_message_with flush_idle p t n b) = pending b"
    "pending (ensure_space_with flush_idle p n b) = pending b"
    by (simp_all add: start_message_with_def ensure_space_with_def pending_buffer 1 Let_def)
qed

lemmas pending_simps = pending_upd_iface pending_basic pending_buffer pending_flush_idle

lemma pending_really_send_update: "pending (really_send_update p rid pre plen sp spl seqno m ch cl b) = pending b"
proof -
  have 1: "pending (send_nh p a b) = pending b" for a b
    unfolding send_nh_def by (rule pending_holds, intro inv_rules) (simp_all add: pends_defs pending_simps)
  have 2: "pending (snd (send_router_id p rid pre len spl b)) = pending b" for pre len b
    unfolding send_router_id_def by (rule pending_returns, intro inv_rules) (simp_all add: pends_defs pending_simps)
  have 3: "pending (send_update_tlv p v4 fl pre len om sp slen spec seqno m ch cl b) = pending b"
    for v4 fl pre len om sp slen spec m ch cl b
    unfolding send_update_tlv_def by (rule pending_holds, intro inv_rules) (simp_all add: pends_defs pending_simps)
  show ?thesis
    unfolding really_send_update_def
    by (rule pending_holds, intro inv_rules) (simp_all add: pends_defs pending_simps 1 2 3)
qed

lemma pending_flush_update: "pending (snd (flush_update p u pb)) = pending (snd pb)"
proof -
  have "pending (snd (update_channels b rt)) = pending b" for b rt
    by (simp add: update_channels_def copy_channels_def Let_def pending_simps)
  then have "pending (snd (send_route_update p rt b)) = pending b" for rt b
    unfolding send_route_update_def
    by - (rule pending_returns, intro inv_rules; simp add: pends_defs pending_simps pending_really_send_update)
  then show ?thesis
    by (simp add: flush_update_def split_beta Let_def pending_really_send_update split: option.split)
qed

lemma flushupdates_empty: "i_buffered_updates (iface (flushupdates p b) p) = []"
proof -
  have "pending (snd (fold (flush_update p) us pb)) = pending (snd pb)" for us pb
    by (induction us arbitrary: pb) (simp_all add: pending_flush_update)
  then have "fst (pending (schedule_flush_now p (snd (fold (flush_update p) us (x, c)))) p) =
      i_buffered_updates (iface c p)" for us x c
    by (simp add: pending_simps) (simp add: pending_def)
  then show ?thesis
    by (simp add: flushupdates_def Let_def pending_def) (simp add: upd_iface_def)
qed

lemma ready_buffer_update [readies]:
  assumes "holds ready b" "dest_ok pre plen sp spl" "if_up (iface b p)"
  shows "holds ready (buffer_update p pre plen sp spl b)"
proof -
  define room where "room c \<longleftrightarrow> ready c \<and> if_up (iface c p) \<and> (i_buffered_updates (iface c p) = [] \<or>
      int (length (i_buffered_updates (iface c p))) < i_update_bufsize (iface c p))" for c
  have ok: "update_ok \<lparr>b_id = replicate 8 0, b_prefix = take 16 pre, b_src_prefix = take 16 sp,
      b_plen = plen, b_src_plen = spl\<rparr>"
    using assms(2) by (auto simp: update_ok_def dest_ok_def update_is_v4_def)
  have append: "holds ready (append_update p pre plen sp spl c)"
    if "holds ready c" "int (length (i_buffered_updates (iface c p))) < i_update_bufsize (iface c p)" "if_up (iface c p)" for c
  proof -
    have "i_bufsize (iface c p) \<noteq> 0"
      using that(1,3) by (auto simp: holds_def ready_def network_ok_def iface_conf_ok_def)
    then show ?thesis unfolding append_update_def
      by (intro ready_upd_iface [OF that(1)]) (use that(2) ok in \<open>auto simp: quiet_iface_def buffer_ok_def if_flag_def if_up_def\<close>)
  qed
  have alloc: "returns (\<lambda>ok c. ready c \<and> if_up (iface c p) \<and> (ok \<longrightarrow>
      int (length (i_buffered_updates (iface c p))) < i_update_bufsize (iface c p))) (alloc_updates p c)"
    if "holds ready c" "i_update_bufsize (iface c p) = 0" "if_up (iface c p)" for c
  proof -
    have e: "i_buffered_updates (iface c p) = []" using ready_buffer [OF that(1), of p] that(2) by (simp add: buffer_ok_def)
    have s: "holds ready (upd_iface p (\<lambda>i. i\<lparr>i_update_bufsize := n\<rparr>) d)"
      if "holds ready d" "i_buffered_updates (iface d p) = []" "0 < n" for d n
      by (rule ready_upd_iface [OF that(1)]) (use that(2,3) in \<open>auto simp: quiet_iface_def buffer_ok_def if_flag_def if_up_def\<close>)
    have i: "iface (snd (c_alloc d)) p = iface d p" for d by (simp add: c_alloc_def ask_def)
    have up: "if_up (iface (upd_iface p (\<lambda>i. i\<lparr>i_update_bufsize := n\<rparr>) d) p) = if_up (iface d p)" for n d
      by (simp add: upd_iface_def if_up_def)
    have r: "holds ready (snd (c_alloc d))" if "holds ready d" for d
      using ready_basic(1) [OF that] by (simp add: returns_def holds_def)
    show ?thesis
      using e that(1,3) r [OF that(1)] r [OF r [OF that(1)]] i [of c] i [of "snd (c_alloc c)"]
      unfolding alloc_updates_def Let_def c_assert_def
      by (auto simp: split_beta returns_def up intro!: holdsD [OF s]) (auto simp: holds_def upd_iface_def)
  qed
  have "if_up (iface (flushupdates p b) p)"
    using assms(3) quiet_iface_up [OF shape_eqD(19) [of "flushupdates p b" b p]] by (simp add: shaped)
  then have room: "holds room (if 0 < num \<and> i_update_bufsize (iface b p) \<le> num then flushupdates p b else b)"
    if "num = int (length (i_buffered_updates (iface b p)))" for num
    using that flushupdates_empty [of p b] ready_flushupdates assms(1,3)
    by (auto simp: holds_def room_def)
  have room_lt: "int (length (i_buffered_updates (iface c p))) < i_update_bufsize (iface c p)"
    if "holds room c" "i_update_bufsize (iface c p) \<noteq> 0" for c
    using ready_buffer [of c p] that by (auto simp: holds_def room_def buffer_ok_def)
  show ?thesis
    unfolding buffer_update_def let_values
    apply (rule holds_let, rule room, rule refl)
    apply (rule holds_if)
     apply (rule holds_case_prod, rule alloc, simp add: holds_def room_def, assumption, simp add: holds_def room_def)
     apply (rule holds_if)
      apply (rule append, simp add: holds_def, simp, simp)
     apply (simp add: holds_def)
    apply (rule append, simp add: holds_def room_def)
     apply (rule room_lt, assumption, assumption)
    apply (simp add: holds_def room_def)
    done
qed

lemma ready_send_update_for [readies]:
  "holds ready b \<Longrightarrow> dest_ok pre plen sp spl \<Longrightarrow> holds ready (send_update_for p u pre plen sp spl b)"
  unfolding send_update_for_def by (intro inv_rules readies) simp_all

lemma ready_send_self_update [readies]:
  assumes "holds ready b"
  shows "holds ready (send_self_update p b)"
proof -
  have x: "\<forall>x \<in> set (xroutes b). dest_ok (x_prefix x) (x_plen x) (x_src_prefix x) (x_src_plen x)"
    using assms by (simp add: holds_def ready_def network_ok_def)
  have "xroutes (snd (c_alloc b)) = xroutes b" by simp
  then have "holds ready (fold (send_xroute_update p) (xroutes (snd (c_alloc b))) (snd (c_alloc b)))"
    using x ready_basic(1) [OF assms]
    by (intro holds_fold) (auto simp: send_xroute_update_def returns_def holds_def intro!: ready_send_update_for [unfolded holds_def])
  then show ?thesis
    using ready_basic(1) [OF assms] by (simp add: send_self_update_def split_beta returns_def holds_def)
qed

lemma ready_send_self_update_all [readies]: "holds ready b \<Longrightarrow> holds ready (send_self_update_all b)"
  unfolding send_self_update_all_def by (intro inv_rules readies)

text \<open>The installed routes of a state stay what they are while updates are buffered.\<close>

lemma ready_source_dest:
  assumes "ready b" "rt \<in> rib_routes (rib b)"
  shows "source_dest_ok (route_src b rt)"
  using assms by (simp add: ready_def network_ok_def)

lemma installed_stream_routes:
  assumes "ready b"
  shows "set (installed_stream ROUTE_INSTALLED b) \<subseteq> rib_routes (rib b)"
  using assms route_streams_spec [of "st_heap (sources b)" "rib b"]
  by (auto simp: ready_def network_ok_def installed_stream_def)

lemma ready_buffer_route:
  assumes "holds (\<lambda>c. (ready c \<and> if_up (iface c p)) \<and> rib c = rb) b" "rt \<in> rib_routes rb"
  shows "holds (\<lambda>c. (ready c \<and> if_up (iface c p)) \<and> rib c = rb) (buffer_route p spec rt b)"
proof -
  have b: "holds ready b" "rib b = rb" "if_up (iface b p)" using assms(1) by (auto simp: holds_def)
  then have "dest_ok (s_prefix (route_src b rt)) (s_plen (route_src b rt)) (s_src_prefix (route_src b rt)) (s_src_plen (route_src b rt))"
    using ready_source_dest [of b rt] assms(2) by (simp add: holds_def source_dest_ok_def)
  then have "holds ready (buffer_route p spec rt b)"
    unfolding buffer_route_def let_values using b by (intro holds_if readies)
  moreover have "rib (buffer_route p spec rt b) = rb" "if_up (iface (buffer_route p spec rt b) p)"
    using shape_eqD(1) [OF shape_send_update(1)] quiet_iface_up [OF shape_eqD(19) [OF shape_send_update(1)]] b
    by (simp_all add: buffer_route_def Let_def)
  ultimately show ?thesis by (simp add: holds_def)
qed

lemma ready_send_update_any [readies]:
  assumes "holds ready b"
  shows "holds ready (send_update_any p u spec b)"
proof -
  define I where "I c \<longleftrightarrow> ready c \<and> if_up (iface c p)" for c
  have I: "holds I d" if "holds I c" "shape d = shape c" "holds ready c \<Longrightarrow> holds ready d" for c d
    using that quiet_iface_up [OF shape_eqD(19) [OF that(2), of p]] by (auto simp: I_def holds_def)
  have alloc: "returns (\<lambda>_. I) (c_alloc c)" if "holds I c" for c
    using I [OF that, of "snd (c_alloc c)"] ready_basic(1) by (simp add: shaped returns_def holds_def)
  have fold: "holds ready (fold (buffer_route p spec) (installed_stream ROUTE_INSTALLED c) c)" if "holds I c" for c
  proof (rule holds_mono)
    show "holds (\<lambda>d. (ready d \<and> if_up (iface d p)) \<and> rib d = rib c) (fold (buffer_route p spec) (installed_stream ROUTE_INSTALLED c) c)"
      by (rule holds_fold)
        (use that installed_stream_routes [of c] ready_buffer_route in \<open>auto simp: holds_def I_def\<close>)
  qed simp
  show ?thesis
    unfolding send_update_any_def let_values
    apply (rule holds_if, rule assms)
    apply (rule holds_let [where I = I], rule I [where c = b], use assms in \<open>simp add: I_def holds_def\<close>, simp add: shaped, erule readies)
    apply (rule holds_case_prod, erule alloc)
    apply (rule inv_let [where I = ready], rule holds_if, rule fold, erule holdsI, simp add: I_def holds_def)
    apply (rule inv_case_prod, rule readies, assumption)
    apply (rule inv_let, rule ready_upd_iface, assumption, simp add: quiet_iface_def, simp)
    apply (rule inv_let, rule holds_if)
      apply (rule ready_upd_iface, assumption, simp add: quiet_iface_def, simp)
     apply (rule ready_upd_iface, assumption, simp add: quiet_iface_def, simp)
    apply (rule readies, assumption)
    done
qed

definition opt_dest_ok :: "byte list option \<Rightarrow> nat \<Rightarrow> byte list option \<Rightarrow> nat \<Rightarrow> bool" where
  "opt_dest_ok pre plen sp spl \<longleftrightarrow>
     (case (pre, sp) of (Some p, Some s) \<Rightarrow> dest_ok p plen s spl | _ \<Rightarrow> True)"

lemma ready_send_update1 [readies]:
  assumes "holds ready b" "opt_dest_ok pre plen sp spl"
  shows "holds ready (send_update1 p u pre plen sp spl b)"
  using assms unfolding send_update1_def
  by (cases pre; cases sp) (auto simp: opt_dest_ok_def intro!: holds_if readies)

lemma ready_send_update [readies]:
  assumes "holds ready b" "opt_dest_ok pre plen sp spl" "pre \<noteq> None \<Longrightarrow> ifp = None \<Longrightarrow> sp \<noteq> None"
  shows "holds ready (send_update ifp u pre plen sp spl b)"
proof (cases ifp)
  case None
  have "holds ready (fold (\<lambda>p. send_update1 p u pre plen sp spl) (interfaces (ifaces b)) b)"
    by (intro holds_fold readies assms)
  then show ?thesis
    using assms(3) None unfolding send_update_def Let_def
    by (cases pre; cases sp) (auto intro!: holds_case_option holds_if readies)
next
  case (Some p)
  then show ?thesis using assms(1,2) by (simp add: send_update_def readies)
qed

lemma ready_send_update_resend [readies]:
  "holds ready b \<Longrightarrow> dest_ok pre plen sp spl \<Longrightarrow> holds ready (send_update_resend ifp pre plen sp spl b)"
  unfolding send_update_resend_def by (intro readies) (auto simp: opt_dest_ok_def)

section \<open>Messages on the send buffer\<close>

lemma ready_up_flushbuf: "holds (ready_up p) b \<Longrightarrow> holds (ready_up p) (flushbuf p b)"
  by (rule ready_up_shape [of p b]) (auto simp: shaped intro: readies ready_upD)

lemma start_let:
  assumes "holds (ready_up p) b" "0 \<le> len \<and> len \<le> 76"
    and "\<And>d. holds (ib.writing p (ready_up p) type len []) d \<Longrightarrow> holds J (f d)"
  shows "holds J (let d = start_message p type len b in f d)"
  using ib_start [where I = "ready_up p" and b = b and p = p and flush = flushbuf and len = len and type = type] assms ready_up_flushbuf ready_up_bufsize by (fastforce simp: Let_def)

lemma ready_send_wildcard_retraction [readies]:
  assumes "holds ready b"
  shows "holds ready (send_wildcard_retraction p b)"
  unfolding send_wildcard_retraction_def
  by (rule holds_if, rule assms, rule start_let, rule ready_upI [OF assms], simp, simp, (erule ib_put)+, erule end_let,
      simp add: types, rule ready_upd_iface) (simp_all add: quiet_iface_def)

end
