(* ===== verification/Send_Safe2.thy ===== *)
theory Send_Safe2
  imports Send_Safe
begin

text \<open>
  The messages of theory \<open>Send_Message\<close> are safe too: hellos, IHUs, acknowledgements and
  requests, on both kinds of buffer.
\<close>

section \<open>The unicast buffer\<close>

lemma ready_with_unicast:
  "holds ready b \<Longrightarrow> unicast_ok u \<Longrightarrow> holds ready (b\<lparr>unicast := u\<rparr>)"
  by (rule holds_ready [of _ b]) (auto simp: shaped ready_def buffers_ok_def)

lemma ready_unicast: "holds ready b \<Longrightarrow> unicast_ok (unicast b)"
  by (simp add: holds_def ready_def buffers_ok_def)

lemma ready_send_unicast_packet:
  assumes "holds ready b"
  shows "holds ready (send_unicast_packet nb b)"
proof (cases "if_up (iface b (n_ifp (neigh b nb)))")
  case True
  let ?p = "n_ifp (neigh b nb)"
  obtain ok c where c: "check_bucket ?p (flushbuf ?p b) = (ok, c)" by fastforce
  have f: "holds (ready_up ?p) (flushbuf ?p b)" by (rule ready_up_flushbuf [OF ready_upI [OF assms True]])
  then have r: "holds ready c" using ready_check_bucket [OF ready_upD(1) [OF f], of ?p] c by (simp add: returns_def holds_def)
  have "if_up (iface c ?p)"
    using up_shape [OF shape_check_bucket, of ?p "flushbuf ?p b"] f c by (simp add: holds_def ready_up_def)
  from ready_fill_rtt [OF r disjI1, OF this]
  show ?thesis
    unfolding send_unicast_packet_def Let_def c prod.case using assms r by (intro inv_rules readies)
next
  case False
  then show ?thesis using assms by (simp add: send_unicast_packet_def)
qed

lemma ready_flush_unicast [readies]:
  assumes "holds ready b"
  shows "holds ready (flush_unicast f b)"
proof -
  have send: "holds ready (send_unicast_packet nb b)" for nb
    by (rule ready_send_unicast_packet [OF assms])
  have "unicast_neighbour (unicast b) \<noteq> None" if "unicast_buffered b \<noteq> []"
    using that ready_unicast [OF assms] by (auto simp: unicast_ok_def unicast_buffered_def split: option.splits)
  then show ?thesis
    unfolding flush_unicast_def
    by (intro inv_let holds_if holds_case_option ready_with_unicast send assms) (auto simp: unicast_ok_def UNICAST_BUFSIZE_def)
qed

lemma flush_unicast_empty: "unicast_buffered (flush_unicast f b) = []" "unicast_neighbour (unicast (flush_unicast f b)) = None"
  by (auto simp: flush_unicast_def unicast_buffered_def Let_def)

definition ready_for :: "ptr \<Rightarrow> babel \<Rightarrow> bool" where
  "ready_for nb b \<longleftrightarrow> ready b \<and> unicast_neighbour (unicast b) = Some nb"

definition putting :: "ptr \<Rightarrow> int \<Rightarrow> int \<Rightarrow> bool \<Rightarrow> babel \<Rightarrow> bool" where
  "putting nb type len ok c \<longleftrightarrow> (if ok then ub.writing (ready_for nb) type len [] c else ready c)"

lemma start_unicast:
  assumes "holds ready b" "0 \<le> len" "len \<le> 1000"
  shows "returns (putting nb type len) (start_unicast_message nb type len b)"
proof -
  define room where "room c \<longleftrightarrow> ready c \<and> int (length (unicast_buffered c)) + 2 + len \<le> UNICAST_BUFSIZE" for c
  have r0: "holds room c" if "holds ready c" "unicast_buffered c = []" for c
    using that assms(3) by (simp add: holds_def room_def UNICAST_BUFSIZE_def)
  have none: "unicast_buffered b = []" if "unicast_neighbour (unicast b) = None"
    using that ready_unicast [OF assms(1)] by (auto simp: unicast_ok_def unicast_buffered_def split: option.splits)
  have 1: "holds room (case unicast_neighbour (unicast b) of None \<Rightarrow> b
      | Some un \<Rightarrow> if nb \<noteq> un \<or> int (length (unicast_buffered b)) + len + 2 \<ge> min UNICAST_BUFSIZE (i_bufsize (iface b (n_ifp (neigh b nb))))
                  then flush_unicast False b else b)"
    using r0 [OF ready_flush_unicast [OF assms(1)] flush_unicast_empty(1)] r0 [OF assms(1) none] assms(1)
    by (intro holds_case_option holds_if) (auto simp: holds_def room_def)
  have 2: "returns (\<lambda>ok c. ready c \<and> (ok \<longrightarrow> room c \<and> unicast_buffer (unicast c) \<noteq> None))
      (if unicast_buffer (unicast c) = None
       then (case c_alloc c of (ok, d) \<Rightarrow> (ok, if ok then d\<lparr>unicast := (unicast d)\<lparr>unicast_buffer := Some []\<rparr>\<rparr> else d))
       else (True, c))" if "holds room c" for c
  proof -
    have "holds ready c" using that by (simp add: holds_def room_def)
    note a = ready_basic(1) [OF this]
    have "ready (d\<lparr>unicast := (unicast d)\<lparr>unicast_buffer := Some []\<rparr>\<rparr>)" if "ready d" for d
      using ready_with_unicast [of d "(unicast d)\<lparr>unicast_buffer := Some []\<rparr>"] that
      by (simp add: holds_def unicast_ok_def UNICAST_BUFSIZE_def)
    then show ?thesis
      using a that assms(3)
      by (auto simp: returns_def holds_def room_def split_beta unicast_buffered_def UNICAST_BUFSIZE_def split: option.splits)
  qed
  have 3: "putting nb type len True (unicast_put [word_of_int type, word_of_int len] (c\<lparr>unicast := (unicast c)\<lparr>unicast_neighbour := Some nb\<rparr>\<rparr>))"
    if "room c" "unicast_buffer (unicast c) \<noteq> None" for c
  proof -
    let ?c = "c\<lparr>unicast := (unicast c)\<lparr>unicast_neighbour := Some nb\<rparr>\<rparr>"
    have "unicast_ok (unicast c)" using that(1) by (simp add: room_def ready_def buffers_ok_def)
    then have "ready ?c" using ready_with_unicast [of c "unicast ?c"] that
      by (auto simp: holds_def room_def unicast_ok_def split: option.splits)
    moreover have "unicast_buffered ?c = unicast_buffered c" by (simp add: unicast_buffered_def)
    ultimately show ?thesis
      using that(1) ub.writing_start [of "ready_for nb" ?c len type] by (simp add: putting_def ready_for_def room_def)
  qed
  show ?thesis
    unfolding start_unicast_message_def
    apply (rule returns_let, rule 1)
    apply (rule returns_case_prod, erule 2)
    apply (rule returns_if, rule returns_pair, simp add: putting_def)
    apply (rule returns_pair, rule 3, simp_all)
    done
qed

lemma start_unicast_case:
  assumes "holds ready b" "0 \<le> len \<and> len \<le> 1000"
    and "\<And>d. holds (ub.writing (ready_for nb) type len []) d \<Longrightarrow> holds ready (f d)"
  shows "holds ready (case start_unicast_message nb type len b of (ok, c) \<Rightarrow> if \<not> ok then c else f c)"
  using start_unicast [of b len nb type] assms by (auto simp: returns_def holds_def putting_def split: prod.splits)

lemma end_unicast:
  assumes "holds (ub.writing (ready_for nb) type len payload) c" "int (length payload) = len"
    and "0 \<le> type" "type < 256" "len < 256"
  shows "holds ready (end_unicast_message nb type len c)"
proof -
  have w: "ub.writing (ready_for nb) type len payload c" using assms(1) by (simp add: holds_def)
  note cl = ub.writing_closed [OF w assms(2-5)]
  obtain b where b: "ready_for nb b" "c = unicast_put ([word_of_int type, word_of_int len] @ payload) b"
    "unicast_buffered c = unicast_buffered b @ [word_of_int type, word_of_int len] @ payload"
    "int (length (unicast_buffered c)) \<le> UNICAST_BUFSIZE"
    using ub.writing_done [OF w assms(2)] by metis
  define xs where "xs = unicast_buffered c"
  have e: "c = b\<lparr>unicast := (unicast b)\<lparr>unicast_buffer := Some xs\<rparr>\<rparr>"
    using b(2-4) unicast_put_fits [of b "[word_of_int type, word_of_int len] @ payload"] by (simp add: xs_def)
  have "unicast_ok ((unicast b)\<lparr>unicast_buffer := Some xs\<rparr>)"
    using b(1,4) by (simp add: unicast_ok_def ready_for_def xs_def)
  then have c: "holds ready c" "unicast_neighbour (unicast c) = Some nb"
    using ready_with_unicast [of b "(unicast b)\<lparr>unicast_buffer := Some xs\<rparr>"] b(1) unfolding e
    by (simp_all add: holds_def ready_for_def)
  show ?thesis
    unfolding end_unicast_message_def let_values
    by (intro inv_let inv_case_prod readies) (use c cl in \<open>simp_all add: c_assert_def\<close>)
qed

lemma ready_send_ack [readies]:
  assumes "holds ready b"
  shows "holds ready (send_ack nb nonce iv b)"
  unfolding send_ack_def
  by (rule start_unicast_case [OF assms], simp, (erule ub_put)+, rule inv_let, erule end_unicast)
    (auto simp: types intro!: inv_case_prod readies)

section \<open>IHU\<close>

lemma ready_address: "holds ready b \<Longrightarrow> length (n_address (neigh b nb)) = 16"
  by (simp add: holds_def ready_def network_ok_def)

lemma ihu_length_bounds: "0 \<le> ihu_length ll rtt \<and> ihu_length ll rtt \<le> 32"
  by (simp add: ihu_length_def)

lemma ready_put_ihu:
  assumes "holds ready b" "if_up (iface b p)" "length (n_address n) = 16"
  shows "holds ready (put_ihu p ll rtt rx iv n b)"
  unfolding put_ihu_def let_values
  apply (rule start_let, rule ready_upI [OF assms(1,2)])
   apply (use ihu_length_bounds [of ll rtt] in simp)
  apply (erule ib_put)+
  apply (erule ib_put_if)
    apply (rule ib_accumulate(4), assumption, simp, simp add: assms(3))
   apply (rule ib_accumulate(4), assumption, simp, simp add: assms(3))
  apply (erule ib_put_optional)
   apply (erule ib_put)+
   apply (rule ib_accumulate(3), assumption)
  apply (erule ready_end)
     apply (auto simp: types ihu_length_def assms(3))
  done

lemma ready_put_unicast_ihu:
  assumes "holds ready b" "length (n_address n) = 16"
  shows "holds ready (put_unicast_ihu nb ll rtt rx iv n b)"
  unfolding put_unicast_ihu_def let_values
  apply (rule start_unicast_case [OF assms(1)])
   apply (use ihu_length_bounds [of ll rtt] in simp)
  apply (erule ub_put)+
  apply (erule ub_put_if)
    apply (rule ub_accumulate(4), assumption, simp, simp add: assms(2))
   apply (rule ub_accumulate(4), assumption, simp, simp add: assms(2))
  apply (erule ub_put_optional)
   apply (erule ub_put)+
   apply (rule ub_accumulate(3), assumption)
  apply (erule end_unicast)
     apply (auto simp: types ihu_length_def assms(2))
  done

lemma ready_send_ihu [readies]:
  assumes "holds ready b"
  shows "holds ready (send_ihu nb ifp b)"
proof -
  have n: "holds (\<lambda>c. ready c \<and> if_up (iface c (n_ifp (neigh b nb))) = if_up (iface b (n_ifp (neigh b nb))))
      (if q then b else upd_neigh nb (\<lambda>n. n\<lparr>n_hello_send_us := 0\<rparr>) b)" for q
    using ready_upd_neigh [OF assms, of "\<lambda>n. n\<lparr>n_hello_send_us := 0\<rparr>" nb] assms
    by (auto simp: holds_def quiet_neighbour_def upd_neigh_def)
  show ?thesis
    unfolding send_ihu_def let_values
    apply (rule holds_if, rule assms)
    apply (rule holds_if, rule assms)
    apply (rule holds_let, rule n)
    apply (rule holds_if)
     apply (rule ready_put_ihu, simp add: holds_def, simp add: holds_def, rule ready_address, simp add: holds_def)
    apply (rule ready_put_unicast_ihu, simp add: holds_def, rule ready_address, simp add: holds_def)
    done
qed

lemma ready_send_ihu_on [readies]: "holds ready b \<Longrightarrow> holds ready (send_ihu_on p b)"
  unfolding send_ihu_on_def by (intro inv_rules readies)

lemma ready_send_marginal_ihu [readies]: "holds ready b \<Longrightarrow> holds ready (send_marginal_ihu ifp b)"
  unfolding send_marginal_ihu_def by (intro inv_rules readies)

lemma ready_send_ihu_all [readies]: "holds ready b \<Longrightarrow> holds ready (send_ihu_all b)"
  unfolding send_ihu_all_def by (intro inv_rules readies)

section \<open>Hello\<close>

text \<open>
  While the hello is written, \<open>buffered_hello\<close> already points to it.
\<close>

definition hello_open :: "ptr \<Rightarrow> bool \<Rightarrow> babel \<Rightarrow> bool" where
  "hello_open p stamps c \<longleftrightarrow>
     (\<exists>b. ready_up p b \<and> if_flag IF_TIMESTAMPS (iface b p) = stamps \<and>
          c = upd_iface p (\<lambda>i. i\<lparr>i_buffered_hello := int (length (i_sendbuf i))\<rparr>) b)"

definition ready_stamps :: "ptr \<Rightarrow> bool \<Rightarrow> babel \<Rightarrow> bool" where
  "ready_stamps p stamps b \<longleftrightarrow> ready_up p b \<and> if_flag IF_TIMESTAMPS (iface b p) = stamps"

lemma flag_shape: "shape c = shape b \<Longrightarrow> if_flag f (iface c p) = if_flag f (iface b p)"
  using quiet_iface_fields(2) [OF shape_eqD(19), of c b p] by (simp add: if_flag_def)

lemma hello_sendbuf_commute: "i\<lparr>i_sendbuf := xs, i_buffered_hello := h\<rparr> = i\<lparr>i_buffered_hello := h, i_sendbuf := xs\<rparr>"
  by (cases i) simp

lemma start_hello:
  assumes "holds (ready_stamps p stamps) b" "0 \<le> len \<and> len \<le> 76"
  shows "holds (ib.writing p (hello_open p stamps) type len [])
    (upd_iface p (\<lambda>i. i\<lparr>i_buffered_hello := int (length (i_sendbuf i)) - 2\<rparr>) (start_message p type len b))"
proof -
  have "holds (ib.writing p (ready_stamps p stamps) type len []) (start_message p type len b)"
  proof (rule ib_start [OF assms(1)])
    fix c
    assume "holds (ready_stamps p stamps) c"
    then show "holds (ready_stamps p stamps) (flushbuf p c)"
      using ready_up_flushbuf [of p c] flag_shape [OF shape_flushupdates(5)] by (simp add: holds_def ready_stamps_def)
  qed (use assms(2) ready_up_bufsize in \<open>fastforce simp: ready_stamps_def\<close>)+
  then obtain b0 where b0: "ready_stamps p stamps b0" "int (length (sendbuf p b0)) + 2 + len \<le> bufsize p b0"
    "start_message p type len b = put p [word_of_int type, word_of_int len] b0"
    by (auto simp: holds_def ib.writing_def)
  let ?c = "upd_iface p (\<lambda>i. i\<lparr>i_buffered_hello := int (length (i_sendbuf i))\<rparr>) b0"
  have c: "hello_open p stamps ?c" using b0(1) by (auto simp: hello_open_def ready_stamps_def)
  have fits: "int (length (sendbuf p b0)) + int (length [word_of_int type, word_of_int len :: byte]) \<le> bufsize p b0"
    "int (length (sendbuf p ?c)) + 2 + len \<le> bufsize p ?c"
    using b0(2) assms(2) by (auto simp: sendbuf_def bufsize_def upd_iface_def)
  have "upd_iface p (\<lambda>i. i\<lparr>i_buffered_hello := int (length (i_sendbuf i)) - 2\<rparr>) (put p [word_of_int type, word_of_int len] b0) =
      put p [word_of_int type, word_of_int len] ?c"
    using put_fits [OF fits(1)] put_fits [of p ?c "[word_of_int type, word_of_int len]"] fits assms(2)
    by (simp add: upd_iface_def sendbuf_def bufsize_def hello_sendbuf_commute)
  then show ?thesis
    using ib.writing_start [of "hello_open p stamps" ?c, OF c fits(2), of type] b0(3) by (simp add: holds_def)
qed

lemma end_hello:
  assumes "holds (ib.writing p (hello_open p stamps) type len payload) c" "int (length payload) = len"
    and "0 \<le> type" "type < 256" "len \<le> 76" "stamps \<Longrightarrow> 12 \<le> len"
  shows "holds ready (end_message p type len c)"
proof (rule ib_end [OF assms(1-4)])
  fix d
  assume d: "hello_open p stamps d" "int (length (sendbuf p d)) + 2 + len \<le> bufsize p d"
  then obtain b where b: "holds ready b" "if_flag IF_TIMESTAMPS (iface b p) = stamps"
    "d = upd_iface p (\<lambda>i. i\<lparr>i_buffered_hello := int (length (i_sendbuf i))\<rparr>) b"
    by (auto simp: hello_open_def ready_up_def holds_def)
  let ?f = "\<lambda>i. i\<lparr>i_buffered_hello := int (length (i_sendbuf i)),
      i_sendbuf := i_sendbuf i @ [word_of_int type, word_of_int len] @ payload\<rparr>"
  have "holds ready (upd_iface p ?f b)"
    by (rule ready_upd_iface [OF b(1)])
      (use assms(2,6) b(2,3) d(2) in \<open>auto simp: quiet_iface_def buffer_ok_def if_flag_def if_up_def sendbuf_def bufsize_def upd_iface_def\<close>)
  then show "holds ready (upd_iface p (\<lambda>i. i\<lparr>i_sendbuf := i_sendbuf i @ [word_of_int type, word_of_int len] @ payload\<rparr>) d)"
    by (simp add: b(3) upd_iface_def)
qed (use assms(5) in \<open>auto intro: readies\<close>)

lemma ready_send_hello_noupdate [readies]:
  assumes "holds ready b"
  shows "holds ready (send_hello_noupdate p iv b)"
proof -
  have msg: "holds ready (let d = start_message p MESSAGE_HELLO (if st then 12 else 6) c;
         d = upd_iface p (\<lambda>i. i\<lparr>i_buffered_hello := int (length (i_sendbuf i)) - 2\<rparr>) d;
         d = accumulate_short p 0 d; d = accumulate_short p (uint (i_hello_seqno (iface d p))) d;
         d = accumulate_short p m d;
         d = (if st then let d = accumulate_byte p SUBTLV_PADN d; d = accumulate_byte p 4 d in accumulate_int p 0 d else d)
       in end_message p MESSAGE_HELLO (if st then 12 else 6) d)"
    if "holds ready c" "if_up (iface c p)" "st = if_flag IF_TIMESTAMPS (iface c p)" for c m st
  proof -
    have "holds (ready_stamps p st) c" using that by (simp add: holds_def ready_stamps_def ready_up_def)
    note s = start_hello [OF this, of "if st then 12 else 6" MESSAGE_HELLO]
    have "holds ready (let d = upd_iface p (\<lambda>i. i\<lparr>i_buffered_hello := int (length (i_sendbuf i)) - 2\<rparr>)
           (start_message p MESSAGE_HELLO (if st then 12 else 6) c);
         d = accumulate_short p 0 d; d = accumulate_short p (uint (i_hello_seqno (iface d p))) d;
         d = accumulate_short p m d;
         d = (if st then let d = accumulate_byte p SUBTLV_PADN d; d = accumulate_byte p 4 d in accumulate_int p 0 d else d)
       in end_message p MESSAGE_HELLO (if st then 12 else 6) d)"
      apply (rule holds_let, rule s, simp)
      apply (erule ib_put)+
      apply (erule ib_put_optional)
       apply (erule ib_put)+
       apply (rule ib_accumulate(3), assumption)
      apply (erule end_hello)
          apply (auto simp: types)
      done
    then show ?thesis by (simp only: Let_def [of "start_message p MESSAGE_HELLO (if st then 12 else 6) c"])
  qed
  show ?thesis
    unfolding send_hello_noupdate_def let_values
    apply (rule inv_let, rule holds_if, rule readies, rule assms, rule assms)
    apply (rule inv_let, rule ready_upd_iface, assumption, simp add: quiet_iface_def, simp)
    apply (rule inv_case_prod, rule readies, assumption)
    apply (rule inv_let, rule ready_upd_iface, assumption, simp add: quiet_iface_def, simp)
    apply (rule holds_if, assumption)
    apply (rule msg, assumption, simp, simp)
    done
qed

lemma ready_send_hello [readies]: "holds ready b \<Longrightarrow> holds ready (send_hello p b)"
  unfolding send_hello_def by (intro inv_rules readies)

section \<open>Requests\<close>

lemma wire_bytes_bounds:
  assumes "length pre = 16" "plen \<le> 128" "v4 \<Longrightarrow> 96 \<le> plen"
  shows "0 \<le> wire_bytes v4 plen \<and> wire_bytes v4 plen \<le> 16 \<and> wire_bytes v4 plen \<le> int (length (wire_prefix v4 pre))"
  using assms wire_length_bounds(1) [of "int plen"] wire_length_bounds(2) [of "int plen - 96"]
  by (auto simp: wire_bytes_def wire_plen_def wire_prefix_def)

lemma dest_wire:
  assumes "dest_ok pre plen sp spl"
  defines "v4 \<equiv> update_is_v4 pre plen"
  shows "0 \<le> wire_bytes v4 plen \<and> wire_bytes v4 plen \<le> 16 \<and> wire_bytes v4 plen \<le> int (length (wire_prefix v4 pre))"
    "spl \<noteq> 0 \<Longrightarrow> 0 \<le> wire_bytes v4 spl \<and> wire_bytes v4 spl \<le> 16 \<and> wire_bytes v4 spl \<le> int (length (wire_prefix v4 sp))"
  using assms by (intro wire_bytes_bounds; auto simp: dest_ok_def update_is_v4_def)+

text \<open>The bytes of the source prefix in a message, none without one.\<close>

lemma dest_wire_source:
  assumes "dest_ok pre plen sp spl"
  defines "v4 \<equiv> update_is_v4 pre plen"
  shows "0 \<le> (if spl \<noteq> 0 then wire_bytes v4 spl else 0) \<and> (if spl \<noteq> 0 then wire_bytes v4 spl else 0) \<le> 16"
  using dest_wire(2) [OF assms(1)] by (simp add: v4_def)

lemma ready_send_request_for [readies]:
  assumes "holds ready b" "if_up (iface b p)" "dest_ok pre plen sp spl"
  shows "holds ready (send_request_for p pre plen sp spl b)"
  unfolding send_request_for_def let_values
  apply (rule start_let, rule ready_upI [OF assms(1,2)])
   apply (use dest_wire(1) [OF assms(3)] dest_wire_source [OF assms(3)] in auto)[1]
  apply (erule ib_put)+
  apply (erule ib_put_optional)
   apply (rule ib_accumulate(1), assumption)
  apply (erule ib_put_bytes)
   apply (use dest_wire(1) [OF assms(3)] in simp)
  apply (erule ib_put_optional)
   apply (rule ib_accumulate(4), assumption)
    apply (use dest_wire(2) [OF assms(3)] in simp, use dest_wire(2) [OF assms(3)] in simp)
  apply (erule ready_end)
     apply (use dest_wire [OF assms(3)] dest_wire_source [OF assms(3)] in \<open>auto simp: types\<close>)
  done

lemma ready_send_request_any [readies]:
  assumes "holds ready b" "if_up (iface b p)"
  shows "holds ready (send_request_any p spec b)"
  unfolding send_request_any_def let_values
  apply (rule start_let, rule ready_upI [OF assms], simp)
  apply (erule ib_put)+
  apply (erule ib_put_optional)
   apply (rule ib_accumulate(1), assumption)
  apply (erule ready_end)
     apply (auto simp: types)
  done

lemma ready_send_request1 [readies]:
  assumes "holds ready b" "opt_dest_ok pre plen sp spl"
  shows "holds ready (send_request1 p pre plen sp spl b)"
proof -
  have wild: "holds ready (send_request_wildcard p spec c)" if "holds ready c" for spec c
    unfolding send_request_wildcard_def by (rule inv_let, rule readies, rule that, rule holds_if) (auto intro: readies)
  show ?thesis
    using assms(2) unfolding send_request1_def
    by (cases pre; cases sp) (auto simp: opt_dest_ok_def intro!: inv_let holds_if readies wild assms(1))
qed

lemma ready_send_request [readies]:
  assumes "holds ready b" "opt_dest_ok pre plen sp spl"
  shows "holds ready (send_request ifp pre plen sp spl b)"
  unfolding send_request_def
  by (intro holds_case_option holds_fold holds_if readies assms) auto

lemma ready_send_unicast_request_for:
  assumes "holds ready b" "dest_ok pre plen sp spl"
  shows "holds ready (send_unicast_request_for nb pre plen sp spl b)"
  unfolding send_unicast_request_for_def let_values
  apply (rule start_unicast_case [OF assms(1)])
   apply (use dest_wire(1) [OF assms(2)] dest_wire_source [OF assms(2)] in auto)[1]
  apply (erule ub_put)+
  apply (erule ub_put_optional)
   apply (rule ub_accumulate(1), assumption)
  apply (erule ub_put_bytes)
   apply (use dest_wire(1) [OF assms(2)] in simp)
  apply (erule ub_put_optional)
   apply (rule ub_accumulate(4), assumption)
    apply (use dest_wire(2) [OF assms(2)] in simp, use dest_wire(2) [OF assms(2)] in simp)
  apply (erule end_unicast)
     apply (use dest_wire [OF assms(2)] dest_wire_source [OF assms(2)] in \<open>auto simp: types\<close>)
  done

lemma ready_send_unicast_request_any:
  assumes "holds ready b"
  shows "holds ready (send_unicast_request_any nb spec b)"
  unfolding send_unicast_request_any_def let_values
  apply (rule start_unicast_case [OF assms], simp)
  apply (erule ub_put)+
  apply (erule ub_put_optional)
   apply (rule ub_accumulate(1), assumption)
  apply (erule end_unicast)
     apply (auto simp: types)
  done

lemma ready_send_unicast_request [readies]:
  assumes "holds ready b" "opt_dest_ok pre plen sp spl"
  shows "holds ready (send_unicast_request nb pre plen sp spl b)"
  using assms(2) unfolding send_unicast_request_def send_unicast_request_wildcard_def
  by (cases pre; cases sp)
    (auto simp: opt_dest_ok_def
      intro!: inv_let ready_send_unicast_request_for ready_send_unicast_request_any readies assms(1))

lemma ready_send_multihop_request1 [readies]:
  assumes "holds ready b" "dest_ok pre plen sp spl" "length rid = 8"
  shows "holds ready (send_multihop_request1 p pre plen sp spl s rid h b)"
  unfolding send_multihop_request1_def let_values
  apply (rule inv_let, rule readies, rule assms(1))
  apply (rule holds_if, assumption)
  apply (rule start_let, rule ready_upI, assumption, simp)
   apply (use dest_wire(1) [OF assms(2)] dest_wire_source [OF assms(2)] in auto)[1]
  apply (erule ib_put)+
  apply (erule ib_put_bytes, simp add: assms(3))
  apply (erule ib_put_bytes)
   apply (use dest_wire(1) [OF assms(2)] in simp)
  apply (erule ib_put_optional)
   apply (rule ib_accumulate(4), assumption)
    apply (use dest_wire(2) [OF assms(2)] in simp, use dest_wire(2) [OF assms(2)] in simp)
  apply (erule ready_end)
     apply (use dest_wire [OF assms(2)] dest_wire_source [OF assms(2)] in \<open>auto simp: types assms(3)\<close>)
  done

lemma ready_send_multihop_request [readies]:
  assumes "holds ready b" "dest_ok pre plen sp spl" "length rid = 8"
  shows "holds ready (send_multihop_request ifp pre plen sp spl s rid h b)"
  unfolding send_multihop_request_def
  by (intro holds_case_option inv_let holds_fold holds_if readies assms) auto

lemma ready_send_unicast_multihop_request [readies]:
  assumes "holds ready b" "dest_ok pre plen sp spl" "length rid = 8"
  shows "holds ready (send_unicast_multihop_request nb pre plen sp spl s rid h b)"
  unfolding send_unicast_multihop_request_def let_values
  apply (rule inv_let, rule readies, rule assms(1))
  apply (rule start_unicast_case, assumption)
   apply (use dest_wire(1) [OF assms(2)] dest_wire_source [OF assms(2)] in auto)[1]
  apply (erule ub_put)+
  apply (erule ub_put_bytes, simp add: assms(3))
  apply (erule ub_put_bytes)
   apply (use dest_wire(1) [OF assms(2)] in simp)
  apply (erule ub_put_optional)
   apply (rule ub_accumulate(4), assumption)
    apply (use dest_wire(2) [OF assms(2)] in simp, use dest_wire(2) [OF assms(2)] in simp)
  apply (erule end_unicast)
     apply (use dest_wire [OF assms(2)] dest_wire_source [OF assms(2)] in \<open>auto simp: types assms(3)\<close>)
  done

lemma ready_send_request_resend [readies]:
  assumes "holds ready b" "dest_ok pre plen sp spl" "length rid = 8"
  shows "holds ready (send_request_resend nb pre plen sp spl s rid b)"
  unfolding send_request_resend_def
  by (intro inv_let holds_case_option readies assms) (use assms(3) in auto)

end
