(* ===== verification/Route_Metric.thy ===== *)
theory Route_Metric
  imports Send_Safe2
begin

text \<open>
  The metrics of \<open>route.c\<close>: feasibility, expiry, the smoothed metric, and the choice of the
  best route to a destination.

  \<open>route_smoothed_metric\<close> writes to the route it is asked about, so the search for the best
  route changes the smoothed metrics while it compares them; C leaves open which operand of
  the comparison is evaluated first, the model takes the left one.  An assignment to the
  \<open>unsigned short\<close> fields truncates (\<open>to_ushort\<close>); the product in the second loop of
  \<open>route_smoothed_metric\<close> is a 32-bit signed one, and an overflow wraps (\<open>to_int\<close>).
\<close>

section \<open>Feasibility and age\<close>

definition update_feasible :: "ptr option \<Rightarrow> u16 \<Rightarrow> int \<Rightarrow> babel \<Rightarrow> bool" where
  "update_feasible source seqno refmetric b =
     (case source of None \<Rightarrow> True
      | Some p \<Rightarrow>
          let s = src b p in
          if s_time s < tv_sec (now b) - SOURCE_GC_TIME then True
          else if refmetric \<ge> INFINITY_METRIC then True
          else seqno_compare seqno (s_seqno s) > 0 \<or> (s_seqno s = seqno \<and> refmetric < s_metric s))"

definition route_feasible :: "ptr \<Rightarrow> babel \<Rightarrow> bool" where
  "route_feasible rt b =
     update_feasible (Some (r_src (route b rt))) (r_seqno (route b rt)) (r_refmetric (route b rt)) b"

definition route_old :: "ptr \<Rightarrow> babel \<Rightarrow> bool" where
  "route_old rt b \<longleftrightarrow> r_time (route b rt) < tv_sec (now b) - r_hold_time (route b rt) * 7 div 8"

definition route_expired :: "ptr \<Rightarrow> babel \<Rightarrow> bool" where
  "route_expired rt b \<longleftrightarrow> r_time (route b rt) < tv_sec (now b) - r_hold_time (route b rt)"

section \<open>The smoothed metric\<close>

definition change_smoothing_half_life :: "int \<Rightarrow> babel \<Rightarrow> babel" where
  "change_smoothing_half_life half_life b =
     (if half_life \<le> 0
      then b\<lparr>conf := (conf b)\<lparr>smoothing_half_life := 0, two_to_the_one_over_hl := 0\<rparr>\<rparr>
      else b\<lparr>conf := (conf b)\<lparr>smoothing_half_life := half_life,
               two_to_the_one_over_hl :=
                 (if half_life = 1 then 131072 else if half_life = 2 then 92682
                  else if half_life = 3 then 82570 else if half_life = 4 then 77935
                  else 0x10000 + 45426 div half_life)\<rparr>\<rparr>)"

definition to_int :: "int \<Rightarrow> int" where
  "to_int x = (x + 2147483648) mod 4294967296 - 2147483648"

text \<open>
  The two loops: while a half-life has passed, half the difference; then a fraction of it for
  every second.  The arguments are the metric, the half-life or the factor, the time now, and
  the two fields of the route.  (The first loop is entered with a positive half-life only.)
\<close>

function smooth_halves :: "int \<Rightarrow> int \<Rightarrow> int \<Rightarrow> int \<Rightarrow> int \<Rightarrow> babel \<Rightarrow> (int \<times> int) \<times> babel" where
  "smooth_halves metric hl t sm st b =
     (if 0 < hl \<and> st \<le> t - hl then
        (case c_roughly (metric - sm) b of (d, b) \<Rightarrow>
           smooth_halves metric hl t (to_ushort (sm + d sdiv 2)) (st + hl) b)
      else ((sm, st), b))"
  by pat_completeness auto
termination
  by (relation "measure (\<lambda>(metric, hl, t, sm, st, b). nat (t - st))") auto

function smooth_seconds :: "int \<Rightarrow> int \<Rightarrow> int \<Rightarrow> int \<Rightarrow> int \<Rightarrow> babel \<Rightarrow> (int \<times> int) \<times> babel" where
  "smooth_seconds metric factor t sm st b =
     (if st < t then
        (case c_roughly (metric - sm) b of (d, b) \<Rightarrow>
           smooth_seconds metric factor t (to_ushort (sm + to_int (d * factor) sdiv 0x10000)) (st + 1) b)
      else ((sm, st), b))"
  by pat_completeness auto
termination
  by (relation "measure (\<lambda>(metric, factor, t, sm, st, b). nat (t - st))") auto

declare smooth_halves.simps [simp del] smooth_seconds.simps [simp del]

definition set_smoothed :: "ptr \<Rightarrow> int \<Rightarrow> int \<Rightarrow> babel \<Rightarrow> babel" where
  "set_smoothed rt sm st b = upd_route rt (\<lambda>r. r\<lparr>r_smoothed_metric := sm, r_smoothed_metric_time := st\<rparr>) b"

definition route_smoothed_metric :: "ptr \<Rightarrow> babel \<Rightarrow> int \<times> babel" where
  "route_smoothed_metric rt b =
     (let r = route b rt; metric = route_metric r; hl = smoothing_half_life (conf b); t = tv_sec (now b);
          b = (if hl \<le> 0 \<or> metric \<ge> INFINITY_METRIC \<or> r_smoothed_metric_time r > t \<or>
                  r_smoothed_metric r = metric
               then set_smoothed rt (to_ushort metric) t b
               else
                 case smooth_halves metric hl t (r_smoothed_metric r) (r_smoothed_metric_time r) b of
                   ((sm, st), b) \<Rightarrow>
                 case smooth_seconds metric (two_to_the_one_over_hl (conf b) - 0x10000) t sm st b of
                   ((sm, st), b) \<Rightarrow>
                   set_smoothed rt (if -4 < metric - sm \<and> metric - sm < 4 then to_ushort metric else sm) st b);
          b = c_assert (r_smoothed_metric_time (route b rt) = tv_sec (now b)) b
      in (r_smoothed_metric (route b rt), b))"

section \<open>The best route\<close>

definition route_acceptable :: "ptr \<Rightarrow> bool \<Rightarrow> ptr option \<Rightarrow> babel \<Rightarrow> bool" where
  "route_acceptable rt feasible exclude b =
     (if route_expired rt b then False
      else if feasible \<and> \<not> route_feasible rt b then False
      else if exclude = Some (r_neigh (route b rt)) then False
      else True)"

fun best_among :: "bool \<Rightarrow> ptr option \<Rightarrow> ptr list \<Rightarrow> ptr \<Rightarrow> babel \<Rightarrow> ptr \<times> babel" where
  "best_among feasible exclude [] rt b = (rt, b)"
| "best_among feasible exclude (r # rs) rt b =
     (if route_acceptable r feasible exclude b then
        (case route_smoothed_metric r b of (m, b) \<Rightarrow>
         case route_smoothed_metric rt b of (m', b) \<Rightarrow>
           best_among feasible exclude rs (if m < m' then r else rt) b)
      else best_among feasible exclude rs rt b)"

definition best_in_slot :: "bool \<Rightarrow> ptr option \<Rightarrow> ptr list \<Rightarrow> babel \<Rightarrow> ptr option \<times> babel" where
  "best_in_slot feasible exclude slot b =
     (case dropWhile (\<lambda>r. \<not> route_acceptable r feasible exclude b) slot of
        [] \<Rightarrow> (None, b)
      | rt # rs \<Rightarrow> (case best_among feasible exclude rs rt b of (rt, b) \<Rightarrow> (Some rt, b)))"

definition find_best_route ::
  "byte list \<Rightarrow> nat \<Rightarrow> byte list \<Rightarrow> nat \<Rightarrow> bool \<Rightarrow> ptr option \<Rightarrow> babel \<Rightarrow> ptr option \<times> babel" where
  "find_best_route prefix plen src_prefix src_plen feasible exclude b =
     (case find_route_slot (st_heap (sources b)) prefix plen src_prefix src_plen (rib b) of
        Missing _ \<Rightarrow> (None, b)
      | Found i \<Rightarrow> best_in_slot feasible exclude (routes (rib b) ! i) b)"

end
