(* ===== verification/Route_Change.thy ===== *)
theory Route_Change
  imports Route_Metric
begin

text \<open>
  The operations of \<open>route.c\<close> that install routes, change their metrics and decide which route
  to use, in the order in which they call each other: installing and switching, the metric of
  a route, the decision (\<open>consider_route\<close>) with the updates it triggers, the reactions to a
  changed or lost route, a received update, and the removal of routes.

  Messages about the local interface carry the address of the route only.
\<close>

section \<open>Installing\<close>

definition with_rib :: "(rib \<Rightarrow> rib option) \<Rightarrow> babel \<Rightarrow> babel" where
  "with_rib f b = (case f (rib b) of None \<Rightarrow> raise_fault Assert_failed b | Some rb \<Rightarrow> b\<lparr>rib := rb\<rparr>)"

definition slot_for :: "ptr \<Rightarrow> babel \<Rightarrow> slot" where
  "slot_for rt b = slot_of_route (st_heap (sources b)) rt (rib b)"

definition set_installed :: "bool \<Rightarrow> ptr \<Rightarrow> babel \<Rightarrow> babel" where
  "set_installed v rt b = upd_route rt (\<lambda>r. r\<lparr>r_installed := v\<rparr>) b"

definition install_route :: "ptr \<Rightarrow> babel \<Rightarrow> babel" where
  "install_route rt b =
     (if r_installed (route b rt) then b
      else case slot_for rt b of
        Missing _ \<Rightarrow> raise_fault Assert_failed b
      | Found i \<Rightarrow>
          let head = hd (routes (rib b) ! i) in
          if head \<noteq> rt \<and> r_installed (route b head) then b
          else case kinstall_route rt b of (rc, b) \<Rightarrow>
            if rc < 0 \<and> errno b \<noteq> EEXIST then b
            else
              let b = set_installed True rt b;
                  b = with_rib (move_installed_route rt (Found i)) b
              in emit (Notify_route LOCAL_CHANGE rt) b)"

definition uninstall_route :: "ptr \<Rightarrow> babel \<Rightarrow> babel" where
  "uninstall_route rt b =
     (if \<not> r_installed (route b rt) then b
      else
        let b = set_installed False rt b;
            b = snd (kuninstall_route rt b)
        in emit (Notify_route LOCAL_CHANGE rt) b)"

definition switch_routes :: "ptr option \<Rightarrow> ptr \<Rightarrow> babel \<Rightarrow> babel" where
  "switch_routes old new b =
     (case old of
        None \<Rightarrow> install_route new b
      | Some old \<Rightarrow>
          if \<not> r_installed (route b old) then b
          else case kswitch_routes old new b of (rc, b) \<Rightarrow>
            if rc < 0 then b
            else
              let b = set_installed False old b;
                  b = set_installed True new b;
                  b = with_rib (move_installed_route new (slot_for new b)) b;
                  b = emit (Notify_route LOCAL_CHANGE old) b
              in emit (Notify_route LOCAL_CHANGE new) b)"

section \<open>The metric of a route\<close>

definition store_metric :: "ptr \<Rightarrow> int \<Rightarrow> int \<Rightarrow> int \<Rightarrow> babel \<Rightarrow> babel" where
  "store_metric rt refmetric cost add b =
     (let b = snd (route_smoothed_metric rt b);
          b = upd_route rt (\<lambda>r. r\<lparr>r_refmetric := to_ushort refmetric, r_cost := to_ushort cost,
                                  r_add_metric := to_ushort add\<rparr>) b;
          b = (if smoothing_half_life (conf b) = 0
               then set_smoothed rt (to_ushort (route_metric (route b rt))) (tv_sec (now b)) b else b)
      in emit (Notify_route LOCAL_CHANGE rt) b)"

definition change_route_metric :: "ptr \<Rightarrow> int \<Rightarrow> int \<Rightarrow> int \<Rightarrow> babel \<Rightarrow> babel" where
  "change_route_metric rt refmetric cost add b =
     (let newmetric = min (refmetric + cost + add) INFINITY_METRIC;
          old = metric_to_kernel b (route_metric (route b rt));
          new = metric_to_kernel b newmetric
      in
      if r_installed (route b rt) \<and> old \<noteq> new then
        (case kchange_route_metric rt refmetric cost add b of (rc, b) \<Rightarrow>
           if rc < 0 then b else store_metric rt refmetric cost add b)
      else store_metric rt refmetric cost add b)"

definition retract_route :: "ptr \<Rightarrow> babel \<Rightarrow> babel" where
  "retract_route rt b = change_route_metric rt INFINITY_METRIC INFINITY_METRIC 0 b"

section \<open>Choosing\<close>

text \<open>How an update for a changed route goes out: not at all, soon or at once, or repeatedly.\<close>

datatype urgency = Dont_send | Send bool | Send_and_resend

definition update_urgency :: "ptr \<Rightarrow> ptr \<Rightarrow> int \<Rightarrow> babel \<Rightarrow> urgency" where
  "update_urgency rt oldsrc oldmetric b =
     (let r = route b rt; s = route_src b rt;
          newmetric = route_metric r;
          diff = (if newmetric \<ge> oldmetric then newmetric - oldmetric else oldmetric - newmetric)
      in
      if r_src r \<noteq> oldsrc \<or> (oldmetric < INFINITY_METRIC \<and> newmetric \<ge> INFINITY_METRIC) then Send_and_resend
      else if newmetric > oldmetric \<and> oldmetric < 6 * 256 \<and> diff \<ge> 512 then Send True
      else if unsatisfied_request (now b) (s_prefix s) (s_plen s) (s_src_prefix s) (s_src_plen s)
                (r_seqno r) (s_id s) (resends b) then Send True
      else if oldmetric \<ge> INFINITY_METRIC \<and> newmetric < INFINITY_METRIC then Send False
      else if newmetric < oldmetric \<and> diff < 1024 then Dont_send
      else if diff < 384 then Dont_send
      else Send False)"

definition send_update_about :: "urgency \<Rightarrow> source \<Rightarrow> babel \<Rightarrow> babel" where
  "send_update_about u s b =
     (case u of
        Dont_send \<Rightarrow> b
      | Send_and_resend \<Rightarrow>
          send_update_resend None (s_prefix s) (s_plen s) (s_src_prefix s) (s_src_plen s) b
      | Send urgent \<Rightarrow>
          send_update None urgent (Some (s_prefix s)) (s_plen s) (Some (s_src_prefix s)) (s_src_plen s) b)"

definition send_triggered_update :: "ptr \<Rightarrow> ptr \<Rightarrow> int \<Rightarrow> babel \<Rightarrow> babel" where
  "send_triggered_update rt oldsrc oldmetric b =
     (if \<not> r_installed (route b rt) then b
      else
        let newmetric = route_metric (route b rt); u = update_urgency rt oldsrc oldmetric b in
        if u = Dont_send then b
        else
          let b = send_update_about u (route_src b rt) b;
              s = route_src b rt
          in if oldmetric < INFINITY_METRIC \<and> newmetric \<ge> oldmetric + 288
             then send_request None (Some (s_prefix s)) (s_plen s) (Some (s_src_prefix s)) (s_src_plen s) b
             else b)"

text \<open>
  \<open>consider_route\<close>: whether the route replaces the installed one (\<open>None\<close>: it does not;
  \<open>Some installed\<close>: it does, and what is replaced).  Comparing the metrics updates the
  smoothed ones.
\<close>

definition xroute_prevails :: "source \<Rightarrow> babel \<Rightarrow> bool" where
  "xroute_prevails s b =
     (case find_xroute (s_prefix s) (s_plen s) (s_src_prefix s) (s_src_plen s) b of
        None \<Rightarrow> False
      | Some i \<Rightarrow> allow_duplicates (conf b) < 0 \<or> x_metric (xroutes b ! i) \<ge> allow_duplicates (conf b))"

definition prefer_route :: "ptr \<Rightarrow> babel \<Rightarrow> ptr option option \<times> babel" where
  "prefer_route rt b =
     (let s = route_src b rt in
      if r_installed (route b rt) then (None, b)
      else if \<not> route_feasible rt b then (None, b)
      else if xroute_prevails s b then (None, b)
      else case find_installed (s_prefix s) (s_plen s) (s_src_prefix s) (s_src_plen s) b of
        None \<Rightarrow> (Some None, b)
      | Some installed \<Rightarrow>
          if route_metric (route b rt) \<ge> INFINITY_METRIC then (None, b)
          else if route_metric (route b installed) \<ge> INFINITY_METRIC then (Some (Some installed), b)
          else if route_metric (route b installed) \<ge> route_metric (route b rt) then
            (case route_smoothed_metric installed b of (m, b) \<Rightarrow>
             case route_smoothed_metric rt b of (m', b) \<Rightarrow>
               (if m > m' then Some (Some installed) else None, b))
          else (None, b))"

definition replace_route :: "ptr option \<Rightarrow> ptr \<Rightarrow> babel \<Rightarrow> babel" where
  "replace_route installed rt b =
     (let b = switch_routes installed rt b; s = route_src b rt in
      case installed of
        Some old \<Rightarrow>
          if r_installed (route b rt)
          then send_triggered_update rt (r_src (route b old)) (route_metric (route b old)) b
          else send_update None True (Some (s_prefix s)) (s_plen s) (Some (s_src_prefix s)) (s_src_plen s) b
      | None \<Rightarrow>
          send_update None True (Some (s_prefix s)) (s_plen s) (Some (s_src_prefix s)) (s_src_plen s) b)"

definition consider_route :: "ptr \<Rightarrow> babel \<Rightarrow> babel" where
  "consider_route rt b =
     (case prefer_route rt b of
        (None, b) \<Rightarrow> b
      | (Some installed, b) \<Rightarrow> replace_route installed rt b)"

definition best_for :: "source \<Rightarrow> babel \<Rightarrow> ptr option \<times> babel" where
  "best_for s b = find_best_route (s_prefix s) (s_plen s) (s_src_prefix s) (s_src_plen s) True None b"

definition route_changed :: "ptr \<Rightarrow> ptr \<Rightarrow> int \<Rightarrow> babel \<Rightarrow> babel" where
  "route_changed rt oldsrc oldmetric b =
     (let b = (if r_installed (route b rt) then
                 (case best_for (route_src b rt) b of
                    (None, b) \<Rightarrow> b
                  | (Some better, b) \<Rightarrow>
                      if route_metric (route b better) < route_metric (route b rt)
                      then consider_route better b else b)
               else b)
      in
      if r_installed (route b rt) then send_triggered_update rt oldsrc oldmetric b
      else consider_route rt b)"

text \<open>The sequence number to ask for: a new one, unless the source was never heard to announce a route.\<close>

definition wanted_seqno :: "source \<Rightarrow> u16" where
  "wanted_seqno s = (if s_metric s \<ge> INFINITY_METRIC then s_seqno s else seqno_plus (s_seqno s) 1)"

definition route_lost :: "ptr \<Rightarrow> int \<Rightarrow> babel \<Rightarrow> babel" where
  "route_lost p oldmetric b =
     (case best_for (src b p) b of
        (Some rt, b) \<Rightarrow> consider_route rt b
      | (None, b) \<Rightarrow>
          if oldmetric < INFINITY_METRIC then
            let s = src b p;
                b = send_update_resend None (s_prefix s) (s_plen s) (s_src_prefix s) (s_src_plen s) b;
                s = src b p
            in if oldmetric \<le> INFINITY_METRIC div 2
               then send_request_resend None (s_prefix s) (s_plen s) (s_src_prefix s) (s_src_plen s)
                      (wanted_seqno s) (s_id s) b
               else b
          else b)"

definition send_unfeasible_request :: "ptr \<Rightarrow> bool \<Rightarrow> u16 \<Rightarrow> int \<Rightarrow> ptr \<Rightarrow> babel \<Rightarrow> babel" where
  "send_unfeasible_request nb force seqno metric p b =
     (let s = src b p;
          rt = find_installed (s_prefix s) (s_plen s) (s_src_prefix s) (s_src_plen s) b
      in
      if seqno_minus (s_seqno s) seqno > 100 then b
      else if force \<or> (case rt of None \<Rightarrow> True | Some rt \<Rightarrow> route_metric (route b rt) \<ge> metric + 512)
      then send_unicast_multihop_request nb (s_prefix s) (s_plen s) (s_src_prefix s) (s_src_plen s)
             (wanted_seqno s) (s_id s) 127 b
      else b)"

end
