(* ===== verification/Route_Update.thy ===== *)
theory Route_Update
  imports Route_Change
begin

text \<open>
  The rest of \<open>route.c\<close>: a received update (\<open>update_route\<close>), the removal of routes, and the
  walks over the table that update the metrics, retract the routes of a neighbour and expire
  old routes.

  A walk follows the \<open>next\<close> pointers of a slot while the routes it visits may be moved to the
  head of that slot, so it may see a route twice; it has fuel for that, and runs out of it only
  when routes are switched again and again.  A loop stops when a fault is recorded.
\<close>

section \<open>A received update\<close>

definition g_find_source ::
  "byte list \<Rightarrow> byte list \<Rightarrow> nat \<Rightarrow> byte list \<Rightarrow> nat \<Rightarrow> bool \<Rightarrow> u16 \<Rightarrow> babel \<Rightarrow> ptr option \<times> babel" where
  "g_find_source rid prefix plen src_prefix src_plen create seqno b =
     (case c_alloc b of (calloc_ok, b) \<Rightarrow>
      case c_alloc b of (realloc_ok, b) \<Rightarrow>
      case find_source calloc_ok realloc_ok (tv_sec (now b)) rid prefix plen src_prefix src_plen create seqno
             (sources b) of
        None \<Rightarrow> (None, raise_fault Assert_failed b)
      | Some (p, st) \<Rightarrow> (p, b\<lparr>sources := st\<rparr>))"

text \<open>Why an update is ignored before any table is looked at, and the metric of the input filter.\<close>

definition update_refused ::
  "byte list \<Rightarrow> byte list \<Rightarrow> nat \<Rightarrow> byte list \<Rightarrow> nat \<Rightarrow> babel \<Rightarrow> bool" where
  "update_refused rid prefix plen src_prefix src_plen b =
     (if memcmp rid (myid (conf b)) 8 = 0 then True
      else if martian_prefix prefix plen then True
      else if src_plen \<noteq> 0 \<and> martian_prefix src_prefix src_plen then True
      else src_plen \<noteq> 0 \<and> v4mapped prefix \<noteq> v4mapped src_prefix)"

definition update_add_metric ::
  "byte list \<Rightarrow> byte list \<Rightarrow> nat \<Rightarrow> byte list \<Rightarrow> nat \<Rightarrow> ptr \<Rightarrow> babel \<Rightarrow> int" where
  "update_add_metric rid prefix plen src_prefix src_plen nb b =
     input_filter (filters_of b) (Some rid) prefix plen (Some src_prefix) src_plen
       (Some (n_address (neigh b nb))) (i_ifindex (iface b (n_ifp (neigh b nb))))"

text \<open>
  The channels of a route: the array keeps its old length when \<open>realloc\<close> fails, and the data is
  truncated to what was in use.
\<close>

definition set_channels :: "ptr \<Rightarrow> byte list \<Rightarrow> babel \<Rightarrow> babel" where
  "set_channels rt channels b =
     (let r = route b rt; n = int (length channels) in
      if n = 0 then upd_route rt (\<lambda>r. r\<lparr>r_channels := [], r_channels_len := 0\<rparr>) b
      else
        case (if n \<noteq> r_channels_len r then c_alloc b else (False, b)) of (ok, b) \<Rightarrow>
          let len = (if n = r_channels_len r \<or> ok then n else min n (r_channels_len r));
              room = (if ok then replicate (nat n) 0 else r_channels r);
              b = (if int (length room) < len then raise_fault Buffer_overflow b else b)
          in upd_route rt (\<lambda>r. r\<lparr>r_channels := take (nat len) channels @ drop (nat len) room,
                                  r_channels_len := len\<rparr>) b)"

definition update_old_route ::
  "ptr \<Rightarrow> ptr \<Rightarrow> bool \<Rightarrow> u16 \<Rightarrow> int \<Rightarrow> int \<Rightarrow> int \<Rightarrow> int \<Rightarrow> ptr \<Rightarrow> byte list \<Rightarrow> babel \<Rightarrow> babel" where
  "update_old_route rt p feasible seqno refmetric metric add_metric hold_time nb channels b =
     (let oldsrc = r_src (route b rt);
          oldmetric = route_metric (route b rt);
          lost = (\<not> feasible \<and> r_installed (route b rt) \<and> p \<noteq> oldsrc);
          b = (if lost then uninstall_route rt b else b);
          b = with_sources (retain_source p) b;
          b = upd_route rt (\<lambda>r. r\<lparr>r_src := p\<rparr>) b;
          b = (if (feasible \<or> keep_unfeasible (conf b)) \<and> refmetric < INFINITY_METRIC
               then upd_route rt (\<lambda>r. r\<lparr>r_time := tv_sec (now b)\<rparr>) b else b);
          b = upd_route rt (\<lambda>r. r\<lparr>r_seqno := seqno\<rparr>) b;
          b = set_channels rt channels b
      in case neighbour_cost nb b of (cost, b) \<Rightarrow>
        let b = change_route_metric rt refmetric cost add_metric b;
            b = upd_route rt (\<lambda>r. r\<lparr>r_hold_time := hold_time\<rparr>) b;
            b = route_changed rt oldsrc oldmetric b;
            b = (if lost then route_lost oldsrc oldmetric b else b);
            b = (if \<not> feasible
                 then send_unfeasible_request nb (r_installed (route b rt) \<and> route_old rt b) seqno metric p b
                 else b)
        in with_sources (release_source oldsrc) b)"

definition new_route ::
  "ptr \<Rightarrow> u16 \<Rightarrow> int \<Rightarrow> int \<Rightarrow> int \<Rightarrow> int \<Rightarrow> ptr \<Rightarrow> byte list \<Rightarrow> int \<Rightarrow> babel_route" where
  "new_route p seqno refmetric cost add_metric hold_time nb nexthop t =
     (let r = route_zero\<lparr>r_src := p, r_refmetric := refmetric, r_cost := to_ushort cost,
                r_add_metric := to_ushort add_metric, r_seqno := seqno, r_neigh := nb,
                r_nexthop := take 16 nexthop, r_time := t, r_hold_time := hold_time,
                r_smoothed_metric_time := t\<rparr>
      in r\<lparr>r_smoothed_metric := max (route_metric r) (INFINITY_METRIC div 2)\<rparr>)"

text \<open>The branch for a new route; it never sets \<open>channels_len\<close>.\<close>

definition add_new_route ::
  "ptr \<Rightarrow> bool \<Rightarrow> u16 \<Rightarrow> int \<Rightarrow> int \<Rightarrow> int \<Rightarrow> int \<Rightarrow> ptr \<Rightarrow> byte list \<Rightarrow> byte list \<Rightarrow> babel \<Rightarrow> ptr option \<times> babel" where
  "add_new_route p feasible seqno refmetric metric add_metric hold_time nb nexthop channels b =
     (if refmetric \<ge> INFINITY_METRIC then (None, b)
      else
        let b = (if \<not> feasible then send_unfeasible_request nb False seqno metric p b else b) in
        if \<not> feasible \<and> \<not> keep_unfeasible (conf b) then (None, b)
        else case c_alloc b of (ok, b) \<Rightarrow>
          if \<not> ok then (None, b)
          else
            let rt = rib_fresh (rib b);
                b = with_sources (retain_source p) b
            in case neighbour_cost nb b of (cost, b) \<Rightarrow>
            let r = new_route p seqno refmetric cost add_metric hold_time nb nexthop (tv_sec (now b));
                b = b\<lparr>rib := (rib b)\<lparr>rib_fresh := rt + 1, rib_heap := (rib_heap (rib b))(rt := r)\<rparr>\<rparr>
            in case (if channels \<noteq> [] then c_alloc b else (False, b)) of (chans, b) \<Rightarrow>
            let b = upd_route rt (\<lambda>r. r\<lparr>r_channels := (if chans then channels else [])\<rparr>) b
            in case c_alloc b of (ok, b) \<Rightarrow>
              (case Rib.insert_route ok (st_heap (sources b)) rt (rib b) of
                 None \<Rightarrow> (None, raise_fault Assert_failed b)
               | Some (None, rb) \<Rightarrow> (None, b\<lparr>rib := rb\<rparr>)
               | Some (Some _, rb) \<Rightarrow>
                   let b = b\<lparr>rib := rb\<rparr>; b = emit (Notify_route LOCAL_ADD rt) b
                   in (Some rt, consider_route rt b)))"

definition update_hold_time :: "int \<Rightarrow> int" where
  "update_hold_time interval = max ((4 * interval) div 100 + interval div 50) 15"

definition update_source_for ::
  "ptr option \<Rightarrow> byte list \<Rightarrow> byte list \<Rightarrow> nat \<Rightarrow> byte list \<Rightarrow> nat \<Rightarrow> u16 \<Rightarrow> babel \<Rightarrow> ptr option \<times> babel" where
  "update_source_for rt rid prefix plen src_prefix src_plen seqno b =
     (case rt of
        Some rt \<Rightarrow>
          if memcmp (s_id (route_src b rt)) rid 8 = 0 then (Some (r_src (route b rt)), b)
          else g_find_source rid prefix plen src_prefix src_plen True seqno b
      | None \<Rightarrow> g_find_source rid prefix plen src_prefix src_plen True seqno b)"

definition update_route ::
  "byte list \<Rightarrow> byte list \<Rightarrow> nat \<Rightarrow> byte list \<Rightarrow> nat \<Rightarrow> u16 \<Rightarrow> int \<Rightarrow> int \<Rightarrow> ptr \<Rightarrow> byte list \<Rightarrow> byte list \<Rightarrow>
   babel \<Rightarrow> ptr option \<times> babel" where
  "update_route rid prefix plen src_prefix src_plen seqno refmetric interval nb nexthop channels b =
     (let hold_time = update_hold_time interval;
          add_metric = update_add_metric rid prefix plen src_prefix src_plen nb b
      in
      if update_refused rid prefix plen src_prefix src_plen b then (None, b)
      else if add_metric \<ge> INFINITY_METRIC then (None, b)
      else
        let rt = find_route (st_heap (sources b)) prefix plen src_prefix src_plen nb nexthop (rib b)
        in case update_source_for rt rid prefix plen src_prefix src_plen seqno b of
          (None, b) \<Rightarrow> (None, b)
        | (Some p, b) \<Rightarrow>
            let feasible = update_feasible (Some p) seqno refmetric b
            in case neighbour_cost nb b of (cost, b) \<Rightarrow>
              let metric = min (refmetric + cost + add_metric) INFINITY_METRIC
              in (case rt of
                    Some rt \<Rightarrow>
                      (Some rt, update_old_route rt p feasible seqno refmetric metric add_metric hold_time nb
                                  channels b)
                  | None \<Rightarrow>
                      add_new_route p feasible seqno refmetric metric add_metric hold_time nb nexthop channels b))"

section \<open>The metric of a route follows its neighbour\<close>

definition update_route_metric :: "ptr \<Rightarrow> babel \<Rightarrow> babel" where
  "update_route_metric rt b =
     (let oldmetric = route_metric (route b rt) in
      case route_smoothed_metric rt b of (old_smoothed_metric, b) \<Rightarrow>
      if route_expired rt b then
        (if r_refmetric (route b rt) < INFINITY_METRIC then
           let b = upd_route rt (\<lambda>r. r\<lparr>r_seqno := seqno_plus (s_seqno (route_src b rt)) 1\<rparr>) b;
               b = retract_route rt b
           in if oldmetric < INFINITY_METRIC then route_changed rt (r_src (route b rt)) oldmetric b else b
         else b)
      else
        let s = route_src b rt; nb = r_neigh (route b rt);
            add_metric = update_add_metric (s_id s) (s_prefix s) (s_plen s) (s_src_prefix s) (s_src_plen s) nb b
        in case neighbour_cost nb b of (cost, b) \<Rightarrow>
          let b = change_route_metric rt (r_refmetric (route b rt)) cost add_metric b in
          if route_metric (route b rt) \<noteq> oldmetric then route_changed rt (r_src (route b rt)) oldmetric b
          else case route_smoothed_metric rt b of (m, b) \<Rightarrow>
            if m \<noteq> old_smoothed_metric then route_changed rt (r_src (route b rt)) oldmetric b else b)"

fun walk :: "nat \<Rightarrow> (ptr \<Rightarrow> babel \<Rightarrow> babel) \<Rightarrow> ptr option \<Rightarrow> babel \<Rightarrow> babel" where
  "walk n f None b = b"
| "walk 0 f (Some r) b = raise_fault Out_of_fuel b"
| "walk (Suc n) f (Some r) b = (let b = f r b in walk n f (route_next (rib b) r) b)"

definition walk_fuel :: "babel \<Rightarrow> nat" where
  "walk_fuel b = (length (concat (routes (rib b))) + 1) ^ 2"

definition slot_head :: "nat \<Rightarrow> babel \<Rightarrow> ptr option" where
  "slot_head i b = (if i < length (routes (rib b)) then Some (hd (routes (rib b) ! i)) else None)"

definition for_all_routes :: "(ptr \<Rightarrow> babel \<Rightarrow> babel) \<Rightarrow> babel \<Rightarrow> babel" where
  "for_all_routes f b =
     fold (\<lambda>i b. if fault b \<noteq> None then b else walk (walk_fuel b) f (slot_head i b) b)
       [0..<length (routes (rib b))] b"

definition update_neighbour_metric :: "ptr \<Rightarrow> bool \<Rightarrow> babel \<Rightarrow> babel" where
  "update_neighbour_metric nb changed b =
     (let b = (if changed
               then for_all_routes (\<lambda>r b. if r_neigh (route b r) = nb then update_route_metric r b else b) b
               else b)
      in emit (Notify_neighbour LOCAL_CHANGE nb) b)"

definition update_interface_metric :: "ptr \<Rightarrow> babel \<Rightarrow> babel" where
  "update_interface_metric ifp b =
     for_all_routes (\<lambda>r b. if route_ifp b r = ifp then update_route_metric r b else b) b"

definition retract_neighbour_route :: "ptr \<Rightarrow> ptr \<Rightarrow> babel \<Rightarrow> babel" where
  "retract_neighbour_route nb r b =
     (if r_neigh (route b r) = nb \<and> r_refmetric (route b r) \<noteq> INFINITY_METRIC then
        let oldmetric = route_metric (route b r);
            b = retract_route r b
        in if oldmetric \<noteq> INFINITY_METRIC then route_changed r (r_src (route b r)) oldmetric b else b
      else b)"

definition retract_neighbour_routes :: "ptr \<Rightarrow> babel \<Rightarrow> babel" where
  "retract_neighbour_routes nb b = for_all_routes (retract_neighbour_route nb) b"

section \<open>Removing routes\<close>

definition flush_route :: "ptr \<Rightarrow> babel \<Rightarrow> babel" where
  "flush_route rt b =
     (let oldmetric = route_metric (route b rt);
          p = r_src (route b rt);
          lost = r_installed (route b rt);
          b = (if lost then uninstall_route rt b else b)
      in case slot_for rt b of
        Missing _ \<Rightarrow> raise_fault Assert_failed b
      | Found i \<Rightarrow>
          (case c_alloc (emit (Notify_route LOCAL_FLUSH rt) b) of (ok, b) \<Rightarrow>
             let b = with_rib (unlink_route ok rt i) b;
                 b = (if lost then route_lost p oldmetric b else b)
             in with_sources (release_source p) b))"

fun flush_tail :: "nat \<Rightarrow> nat \<Rightarrow> babel \<Rightarrow> babel" where
  "flush_tail n i b =
     (if \<not> i < length (routes (rib b)) \<or> fault b \<noteq> None then b
      else case n of
        0 \<Rightarrow> raise_fault Out_of_fuel b
      | Suc n \<Rightarrow>
          let rt = hd (routes (rib b) ! i)
          in flush_tail n i (flush_route rt (uninstall_route rt b)))"

definition flush_all_routes :: "babel \<Rightarrow> babel" where
  "flush_all_routes b =
     fold (\<lambda>i b. flush_tail (length (concat (routes (rib b)))) i b) (rev [0..<length (routes (rib b))]) b"

text \<open>
  The loop of \<open>flush_neighbour_routes\<close> and \<open>flush_interface_routes\<close>: flush the first route of
  slot \<open>i\<close> that qualifies and look at the slot again, or go on to the next slot.
\<close>

fun flush_matching :: "nat \<Rightarrow> (ptr \<Rightarrow> babel \<Rightarrow> bool) \<Rightarrow> nat \<Rightarrow> babel \<Rightarrow> babel" where
  "flush_matching n q i b =
     (if \<not> i < length (routes (rib b)) \<or> fault b \<noteq> None then b
      else case n of
        0 \<Rightarrow> raise_fault Out_of_fuel b
      | Suc n \<Rightarrow>
          (case find (\<lambda>r. q r b) (routes (rib b) ! i) of
             Some r \<Rightarrow> flush_matching n q i (flush_route r b)
           | None \<Rightarrow> flush_matching n q (i + 1) b))"

definition flush_fuel :: "babel \<Rightarrow> nat" where
  "flush_fuel b = length (concat (routes (rib b))) + length (routes (rib b))"

definition flush_neighbour_routes :: "ptr \<Rightarrow> babel \<Rightarrow> babel" where
  "flush_neighbour_routes nb b = flush_matching (flush_fuel b) (\<lambda>r b. r_neigh (route b r) = nb) 0 b"

definition flush_interface_routes :: "ptr \<Rightarrow> bool \<Rightarrow> babel \<Rightarrow> babel" where
  "flush_interface_routes ifp v4only b =
     flush_matching (flush_fuel b)
       (\<lambda>r b. route_ifp b r = ifp \<and> (\<not> v4only \<or> v4mapped (r_nexthop (route b r)))) 0 b"

section \<open>Expiry\<close>

text \<open>The result tells whether a route was flushed and the slot is to be looked at again.\<close>

fun expire_walk :: "nat \<Rightarrow> ptr option \<Rightarrow> babel \<Rightarrow> bool \<times> babel" where
  "expire_walk n None b = (False, b)"
| "expire_walk 0 (Some r) b = (False, raise_fault Out_of_fuel b)"
| "expire_walk (Suc n) (Some r) b =
     (if r_time (route b r) > tv_sec (now b) \<or> route_old r b then (True, flush_route r b)
      else
        let b = update_route_metric r b;
            s = route_src b r;
            b = (if r_installed (route b r) \<and> r_refmetric (route b r) < INFINITY_METRIC \<and> route_old r b
                 then send_unicast_request (r_neigh (route b r)) (Some (s_prefix s)) (s_plen s)
                        (Some (s_src_prefix s)) (s_src_plen s) b
                 else b)
        in expire_walk n (route_next (rib b) r) b)"

fun expire_slots :: "nat \<Rightarrow> nat \<Rightarrow> babel \<Rightarrow> babel" where
  "expire_slots n i b =
     (if \<not> i < length (routes (rib b)) \<or> fault b \<noteq> None then b
      else case n of
        0 \<Rightarrow> raise_fault Out_of_fuel b
      | Suc n \<Rightarrow>
          (case expire_walk (walk_fuel b) (slot_head i b) b of (again, b) \<Rightarrow>
             expire_slots n (if again then i else i + 1) b))"

definition expire_routes :: "babel \<Rightarrow> babel" where
  "expire_routes b = expire_slots (flush_fuel b) 0 b"

declare flush_tail.simps [simp del] flush_matching.simps [simp del] expire_slots.simps [simp del]

end
