(* ===== verification/Kernel_Safe.thy ===== *)
theory Kernel_Safe
  imports Route_Update
begin

text \<open>
  What the operations on the kernel's table leave alone.  They change the rules, the tables in
  use, the answers taken from the environment and what was sent to the kernel
  (\<open>kernel_only\<close>); and when the allocations succeed they dereference no NULL: the conflict
  whose least route they ask for is always one of the routes they look at.
\<close>

section \<open>The frame\<close>

definition allocs_succeed :: "babel \<Rightarrow> bool" where
  "allocs_succeed b \<longleftrightarrow> (\<forall>n. e_answer (env b) n \<noteq> 0)"

definition beside_kernel :: "babel \<Rightarrow> babel" where
  "beside_kernel b =
     b\<lparr>rules := [], used_tables := [], ticks := 0, errno := 0, out := [], fault := None\<rparr>"

definition kernel_only :: "babel \<Rightarrow> babel \<Rightarrow> bool" where
  "kernel_only b0 b \<longleftrightarrow>
     beside_kernel b = beside_kernel b0 \<and>
     (allocs_succeed b0 \<and> fault b0 = None \<longrightarrow> fault b = None)"

named_theorems kernels \<open>operations that change the kernel only\<close>

lemma kernel_only_refl [simp]: "kernel_only b b"
  by (simp add: kernel_only_def)

lemma kernel_only_eqs:
  assumes "kernel_only b0 b"
  shows "rib b = rib b0" "sources b = sources b0" "conf b = conf b0" "ifaces b = ifaces b0" "nbrs b = nbrs b0"
    "xroutes b = xroutes b0" "now b = now b0" "env b = env b0" "unicast b = unicast b0" "resends b = resends b0"
    "filters_of b = filters_of b0"
    "allocs_succeed b0 \<Longrightarrow> fault b0 = None \<Longrightarrow> fault b = None"
proof -
  have e: "beside_kernel b = beside_kernel b0"
    using assms by (simp add: kernel_only_def)
  show "rib b = rib b0" using arg_cong [OF e, of rib] by (simp add: beside_kernel_def)
  show "sources b = sources b0" using arg_cong [OF e, of sources] by (simp add: beside_kernel_def)
  show "conf b = conf b0" using arg_cong [OF e, of conf] by (simp add: beside_kernel_def)
  show "ifaces b = ifaces b0" using arg_cong [OF e, of ifaces] by (simp add: beside_kernel_def)
  show "nbrs b = nbrs b0" using arg_cong [OF e, of nbrs] by (simp add: beside_kernel_def)
  show "xroutes b = xroutes b0" using arg_cong [OF e, of xroutes] by (simp add: beside_kernel_def)
  show "now b = now b0" using arg_cong [OF e, of now] by (simp add: beside_kernel_def)
  show "env b = env b0" using arg_cong [OF e, of env] by (simp add: beside_kernel_def)
  show "unicast b = unicast b0" using arg_cong [OF e, of unicast] by (simp add: beside_kernel_def)
  show "resends b = resends b0" using arg_cong [OF e, of resends] by (simp add: beside_kernel_def)
  show "filters_of b = filters_of b0" using arg_cong [OF e, of filters_of] by (simp add: beside_kernel_def)
  show "fault b = None" if "allocs_succeed b0" "fault b0 = None" using assms that by (simp add: kernel_only_def)
qed

lemma kernel_basic [kernels]:
  assumes "holds (kernel_only b0) b"
  shows "returns (\<lambda>_. kernel_only b0) (ask b)" "holds (kernel_only b0) (emit ev b)"
    "holds (kernel_only b0) (b\<lparr>errno := e\<rparr>)" "holds (kernel_only b0) (b\<lparr>rules := rs\<rparr>)"
    "holds (kernel_only b0) (b\<lparr>used_tables := us\<rparr>)"
  using assms by (auto simp: holds_def returns_def kernel_only_def beside_kernel_def ask_def emit_def)

lemma kernel_alloc [kernels]:
  "holds (kernel_only b0) b \<Longrightarrow> returns (\<lambda>ok c. kernel_only b0 c \<and> (allocs_succeed b0 \<longrightarrow> ok)) (c_alloc b)"
  using kernel_only_eqs(8) [of b0 b]
  by (simp add: returns_def c_alloc_def split_beta kernel_only_def beside_kernel_def holds_def ask_def allocs_succeed_def)

lemma kernel_case_alloc:
  assumes "holds (kernel_only b0) b"
    and "\<And>ok c. holds (kernel_only b0) c \<Longrightarrow> (allocs_succeed b0 \<Longrightarrow> ok) \<Longrightarrow> returns (\<lambda>_. kernel_only b0) (f ok c)"
  shows "returns (\<lambda>_. kernel_only b0) (case c_alloc b of (ok, c) \<Rightarrow> f ok c)"
  using kernel_alloc [OF assms(1)] assms(2)
  by (cases "c_alloc b") (simp add: returns_def holds_def)

lemma kernel_syscall [kernels]: "holds (kernel_only b0) b \<Longrightarrow> returns (\<lambda>_. kernel_only b0) (syscall b)"
  unfolding syscall_def by (intro inv_rules kernels)

lemma kernel_netlink_talk [kernels]:
  "holds (kernel_only b0) b \<Longrightarrow> returns (\<lambda>_. kernel_only b0) (netlink_talk req b)"
  unfolding netlink_talk_def by (intro kernels)

lemma kernel_kernel_route_talk [kernels]:
  "holds (kernel_only b0) b \<Longrightarrow> returns (\<lambda>_. kernel_only b0) (kernel_route_talk f t d p s sp g i m b)"
  unfolding kernel_route_talk_def by (intro inv_rules kernels)

lemma kernel_kernel_route [kernels]:
  assumes "holds (kernel_only b0) b"
  shows "returns (\<lambda>_. kernel_only b0) (kernel_route_simple f t d p s sp g i m b)"
    "returns (\<lambda>_. kernel_only b0) (kernel_route kop t d p s sp g i m ng ni nm nt b)"
proof -
  have s: "returns (\<lambda>_. kernel_only b0) (kernel_route_simple f t d p s sp g i m b)"
    if "holds (kernel_only b0) b" for f b
    using that unfolding kernel_route_simple_def by (intro inv_rules kernels)
  show "returns (\<lambda>_. kernel_only b0) (kernel_route_simple f t d p s sp g i m b)"
    using assms by (rule s)
  show "returns (\<lambda>_. kernel_only b0) (kernel_route kop t d p s sp g i m ng ni nm nt b)"
    using assms unfolding kernel_route_def by (intro inv_rules kernels s)
qed

section \<open>Rules\<close>

lemma kernel_rule_ops [kernels]:
  assumes "holds (kernel_only b0) b"
  shows "returns (\<lambda>_. kernel_only b0) (k_add_rule prio s p t b)"
    "returns (\<lambda>_. kernel_only b0) (k_flush_rule prio family b)"
    "returns (\<lambda>_. kernel_only b0) (k_change_rule np oldp s p t b)"
proof -
  have a: "returns (\<lambda>_. kernel_only b0) (k_add_rule prio s p t b)"
    "returns (\<lambda>_. kernel_only b0) (k_flush_rule prio' family b)"
    if "holds (kernel_only b0) b" for b prio prio' family s p t
    using that unfolding k_add_rule_def k_flush_rule_def by (intro kernels; assumption)+
  show "returns (\<lambda>_. kernel_only b0) (k_add_rule prio s p t b)"
    "returns (\<lambda>_. kernel_only b0) (k_flush_rule prio family b)"
    using a assms by auto
  show "returns (\<lambda>_. kernel_only b0) (k_change_rule np oldp s p t b)"
    using assms unfolding k_change_rule_def by (intro inv_rules a)
qed

lemma kernel_tables [kernels]:
  assumes "holds (kernel_only b0) b"
  shows "returns (\<lambda>_. kernel_only b0) (get_free_table b)" "holds (kernel_only b0) (release_table t b)"
  using assms unfolding get_free_table_def release_table_def by (intro inv_rules kernels; assumption)+

lemma kernel_shift_rule [kernels]:
  "holds (kernel_only b0) b \<Longrightarrow> returns (\<lambda>_. kernel_only b0) (shift_rule j k b)"
proof (induction j k b rule: shift_rule.induct)
  case (1 j k b)
  show ?case
  proof (cases "k = j")
    case True
    then show ?thesis using "1.prems" by (simp add: shift_rule.simps inv_rules)
  next
    case False
    define dec :: int where "dec = (if j < k then 1 else -1)"
    let ?r = "rules b ! nat (k - dec)"
    obtain rc c where rc: "k_change_rule (nat (k - dec + dec) + src_table_prio) (nat (k - dec) + src_table_prio)
        (ru_src ?r) (ru_plen ?r) (ru_table ?r) b = (rc, c)" by fastforce
    have c: "holds (kernel_only b0) c"
      using kernel_rule_ops(3) [OF "1.prems"] rc by (metis holds_def returnsD)
    moreover have "returns (\<lambda>_. kernel_only b0) (shift_rule j (k - dec)
        (c\<lparr>rules := (rules c)[nat (k - dec + dec) := rules c ! nat (k - dec),
           nat (k - dec) := (rules c ! nat (k - dec))\<lparr>ru_plen := 0\<rparr>]\<rparr>))" if "\<not> rc < 0"
      using "1.IH" [OF False dec_def refl refl rc [symmetric] that kernel_basic(4) [OF c]] by simp
    ultimately show ?thesis
      using False rc by (subst shift_rule.simps) (simp add: dec_def [symmetric] Let_def inv_rules)
  qed
qed

lemma kernel_find_table [kernels]:
  assumes "holds (kernel_only b0) b"
  shows "returns (\<lambda>_. kernel_only b0) (insert_table s p i b)" "returns (\<lambda>_. kernel_only b0) (find_table d dp s p b)"
proof -
  have i: "returns (\<lambda>_. kernel_only b0) (insert_table s p i b)" if "holds (kernel_only b0) b" for i b
    using that unfolding insert_table_def by (intro inv_rules kernels)
  show "returns (\<lambda>_. kernel_only b0) (insert_table s p i b)" using assms by (rule i)
  have "returns (\<lambda>_. kernel_only b0) (case find_table_slot s p (rules b) of
        Same_source i \<Rightarrow> (int (ru_table (rules b ! i)), b)
      | No_slot \<Rightarrow> (-1, b)
      | Insert_at i \<Rightarrow>
          (case insert_table s p i b of
             (None, b) \<Rightarrow> (-1, b)
           | (Some i, b) \<Rightarrow> (int (ru_table (rules b ! i)), b)))"
    using assms by (cases "find_table_slot s p (rules b)") (auto intro!: inv_rules i)
  then show "returns (\<lambda>_. kernel_only b0) (find_table d dp s p b)"
    using assms unfolding find_table_def Let_def by (intro inv_rules)
qed

section \<open>Routes in the kernel\<close>

lemma kernel_zone_ops [kernels]:
  assumes "holds (kernel_only b0) b"
  shows "returns (\<lambda>_. kernel_only b0) (add_route zone rt b)" "returns (\<lambda>_. kernel_only b0) (del_route zone rt b)"
    "returns (\<lambda>_. kernel_only b0) (chg_route zone rt rt' b)"
    "returns (\<lambda>_. kernel_only b0) (chg_route_metric zone rt m m' b)"
  unfolding add_route_def del_route_def chg_route_def chg_route_metric_def zone_table_def
  subgoal by (intro inv_rules kernels assms)
  subgoal by (intro inv_rules kernels assms)
  subgoal by (intro inv_rules kernels assms)
  subgoal by (intro inv_rules kernels assms)
  done

lemma kernel_min_conflict:
  assumes "holds (kernel_only b0) b"
    and "r \<in> set (installed_stream ROUTE_INSTALLED b0)" "conflicts b0 rt r" "zone_equal (inter b0 rt r) (Some zone)"
  shows "returns (\<lambda>m c. kernel_only b0 c \<and> (allocs_succeed b0 \<longrightarrow> m \<noteq> None)) (min_conflict zone rt b)"
proof -
  have k: "kernel_only b0 b" using assms(1) by (simp add: holds_def)
  note e = kernel_only_eqs [OF k]
  define step where "step = (\<lambda>rt1 least. if \<not> (conflicts b0 rt rt1 \<and> zone_equal (inter b0 rt rt1) (Some zone)) then least
                 else min_route b0 (Some rt1) least)"
  have some: "min_route b0 (Some x) l \<noteq> None" for x l by (cases l) (auto simp: min_route_def)
  have keep: "fold step xs l \<noteq> None" if "l \<noteq> None" for xs l
    using that some by (induction xs arbitrary: l) (auto simp: step_def)
  have "fold step xs l \<noteq> None" if "r \<in> set xs" for xs l
    using that assms(3,4) some keep by (induction xs arbitrary: l) (auto simp: step_def)
  then have f: "fold step (installed_stream ROUTE_INSTALLED b0) None \<noteq> None" using assms(2) by simp
  obtain ok c where a: "c_alloc b = (ok, c)" by fastforce
  have kc: "kernel_only b0 c" "allocs_succeed b0 \<Longrightarrow> ok"
    using kernel_alloc [OF assms(1)] a by (auto simp: returns_def)
  note ec = kernel_only_eqs [OF kc(1)]
  have eq: "conflicts c = conflicts b0" "inter c = inter b0" "min_route c = min_route b0"
    "installed_stream ROUTE_INSTALLED c = installed_stream ROUTE_INSTALLED b0"
    by (simp_all add: fun_eq_iff conflicts_def inter_def min_route_def rt_cmp_def route_src_def installed_stream_def ec
        Let_def cong: option.case_cong)
  show ?thesis
    using kc f unfolding min_conflict_def a prod.case step_def eq by (simp add: returns_def)
qed

lemma kernel_min_conflict_frame [kernels]:
  "holds (kernel_only b0) b \<Longrightarrow> returns (\<lambda>_. kernel_only b0) (min_conflict zone rt b)"
  unfolding min_conflict_def by (rule kernel_case_alloc) (auto intro!: inv_rules)

lemma kernel_is_min_conflict:
  assumes "holds (kernel_only b0) b"
    and "r \<in> set (installed_stream ROUTE_INSTALLED b0)" "conflicts b0 rt r" "zone_equal (inter b0 rt r) (Some zone)"
  shows "returns (\<lambda>_. kernel_only b0) (is_min_conflict rt1 zone rt b)"
proof -
  obtain m c where m: "min_conflict zone rt b = (m, c)" by fastforce
  have "kernel_only b0 c" "allocs_succeed b0 \<longrightarrow> m \<noteq> None"
    using kernel_min_conflict [OF assms] by (auto simp: m returns_def)
  then show ?thesis
    by (cases m) (auto simp: is_min_conflict_def m returns_def kernel_only_def beside_kernel_def raise_fault_def)
qed

lemma zone_equal_refl [simp]: "zone_equal (Some z) (Some z)"
  by (simp add: zone_equal_def v6_equal_def)

text \<open>Conflicts are symmetric, and so is the zone two routes share.\<close>

lemma prefix_cmp_sym:
  "prefix_cmp p2 l2 p1 l1 =
     (case prefix_cmp p1 l1 p2 l2 of PST_LESS_SPECIFIC \<Rightarrow> PST_MORE_SPECIFIC | PST_MORE_SPECIFIC \<Rightarrow> PST_LESS_SPECIFIC
      | PST_EQUALS \<Rightarrow> PST_EQUALS | PST_DISJOINT \<Rightarrow> PST_DISJOINT)"
  by (auto simp: prefix_cmp_def Let_def min.commute)

lemma conflicts_sym: "conflicts b r1 r2 \<longleftrightarrow> conflicts b r2 r1"
  using prefix_cmp_sym [of "dst_bytes (route_src b r2)" "s_plen (route_src b r2)"
      "dst_bytes (route_src b r1)" "s_plen (route_src b r1)"]
    prefix_cmp_sym [of "src_bytes (route_src b r2)" "s_src_plen (route_src b r2)"
      "src_bytes (route_src b r1)" "s_src_plen (route_src b r1)"]
  by (auto simp: conflicts_def Let_def split: prefix_status.splits)

lemma inter_sym:
  assumes "conflicts b r1 r2"
  shows "inter b r2 r1 = inter b r1 r2"
  using assms prefix_cmp_sym [of "dst_bytes (route_src b r2)" "s_plen (route_src b r2)"
      "dst_bytes (route_src b r1)" "s_plen (route_src b r1)"]
    prefix_cmp_sym [of "src_bytes (route_src b r2)" "s_src_plen (route_src b r2)"
      "src_bytes (route_src b r1)" "s_src_plen (route_src b r1)"]
  by (auto simp: conflicts_def inter_def Let_def split: prefix_status.splits)

lemma kernel_only_conflicts:
  assumes "kernel_only b0 b"
  shows "conflicts b = conflicts b0" "inter b = inter b0" "installed_stream k b = installed_stream k b0"
    "is_installed z b = is_installed z b0"
  by (simp_all add: fun_eq_iff conflicts_def inter_def route_src_def installed_stream_def Let_def is_installed_def
      find_installed_def kernel_only_eqs [OF assms])

lemma kernel_kinstall_conflict:
  assumes "holds (kernel_only b0) b" "rt1 \<in> set (installed_stream ROUTE_INSTALLED b0)"
  shows "holds (kernel_only b0) (kinstall_conflict rt rt1 b)" "holds (kernel_only b0) (kuninstall_conflict rt rt1 b)"
proof -
  note kc = kernel_only_conflicts [OF holdsD [OF assms(1)]]
  have *: "returns (\<lambda>_. kernel_only b0) (is_min_conflict rt1 z rt b)"
    if "conflicts b rt rt1" "inter b rt rt1 = Some z" for z
    using that by (intro kernel_is_min_conflict [OF assms]) (auto simp: kc)
  show "holds (kernel_only b0) (kinstall_conflict rt rt1 b)"
    unfolding kinstall_conflict_def by (intro inv_rules kernels * assms(1)) auto
  show "holds (kernel_only b0) (kuninstall_conflict rt rt1 b)"
    unfolding kuninstall_conflict_def by (intro inv_rules kernels * assms(1)) auto
qed

lemma kernel_solves_conflict:
  assumes "holds (kernel_only b0) b" "rt1 \<in> set (installed_stream ROUTE_INSTALLED b0)"
    "rt \<in> set (installed_stream ROUTE_INSTALLED b0)" "inter b0 rt rt1 = Some zone"
  shows "returns (\<lambda>_. kernel_only b0) (solves_conflict rt rt1 zone b)"
proof -
  note kc = kernel_only_conflicts [OF holdsD [OF assms(1)]]
  have a: "returns (\<lambda>_. kernel_only b0) (is_min_conflict rt1 zone rt b)" if "conflicts b rt rt1"
    using that assms(4) by (intro kernel_is_min_conflict [OF assms(1,2)]) (auto simp: kc)
  have c: "returns (\<lambda>_. kernel_only b0) (is_min_conflict rt zone rt1 c)"
    if "conflicts b rt rt1" "holds (kernel_only b0) c" for c
    using that assms(4) conflicts_sym [of b0 rt rt1] inter_sym [of b0 rt rt1]
    by (intro kernel_is_min_conflict [OF that(2) assms(3)]) (auto simp: kc)
  show ?thesis unfolding solves_conflict_def by (intro inv_rules a c assms(1)) auto
qed

lemma kernel_conflict_solution [kernels]:
  assumes "holds (kernel_only b0) b"
  shows "returns (\<lambda>_. kernel_only b0) (conflict_solution rt b)"
proof -
  have l: "returns (\<lambda>_. kernel_only b0) (conflict_solution_loop rt xs l b)" if "holds (kernel_only b0) b" for xs l b
    using that
  proof (induction xs arbitrary: l b)
    case Nil
    then show ?case by (simp add: inv_rules)
  next
    case (Cons rt1 rts)
    then show ?case by (simp only: conflict_solution_loop.simps) (intro kernel_case_alloc inv_rules Cons.IH)
  qed
  show ?thesis
    using assms unfolding conflict_solution_def by (intro kernel_case_alloc) (auto intro!: inv_rules l)
qed

lemma kernel_result [kernels]:
  "holds (kernel_only b0) b \<Longrightarrow> returns (\<lambda>_. kernel_only b0) (kinstall_result rc b)"
  unfolding kinstall_result_def by (intro inv_rules)

lemma kernel_fold:
  assumes "holds (kernel_only b0) b"
    and "\<And>x c. x \<in> set (installed_stream k b0) \<Longrightarrow> holds (kernel_only b0) c \<Longrightarrow> holds (kernel_only b0) (f x c)"
  shows "holds (kernel_only b0) (fold f (installed_stream k b) b)"
  unfolding kernel_only_conflicts [OF holdsD [OF assms(1)]] by (rule holds_fold) (use assms in auto)

lemma kernel_kinstall [kernels]:
  "holds (kernel_only b0) b \<Longrightarrow> returns (\<lambda>_. kernel_only b0) (kinstall_route rt b)"
  unfolding kinstall_route_def Let_def
  by (intro inv_rules kernel_case_alloc kernels kernel_fold kernel_kinstall_conflict(1))

lemma kernel_kuninstall [kernels]:
  "holds (kernel_only b0) b \<Longrightarrow> returns (\<lambda>_. kernel_only b0) (kuninstall_route rt b)"
  unfolding kuninstall_route_def Let_def
  by (intro inv_rules kernel_case_alloc kernels kernel_fold kernel_kinstall_conflict(2))

lemma kernel_kswitch:
  assumes "holds (kernel_only b0) b" "old \<in> set (installed_stream ROUTE_INSTALLED b0)"
  shows "returns (\<lambda>_. kernel_only b0) (kswitch_routes old new b)"
proof -
  have c: "holds (kernel_only b0) (kswitch_conflict old new rt1 c)"
    if "rt1 \<in> set (installed_stream ROUTE_INSTALLED b0)" "holds (kernel_only b0) c" for rt1 c
    unfolding kswitch_conflict_def
    by (intro inv_rules kernels kernel_solves_conflict [OF that(2,1) assms(2)] that(2))
      (auto simp: kernel_only_conflicts [OF holdsD [OF that(2)]])
  show ?thesis
    unfolding kswitch_routes_def by (intro inv_rules kernel_case_alloc kernels kernel_fold c assms(1))
qed

lemma kernel_kchange:
  assumes "holds (kernel_only b0) b" "rt \<in> set (installed_stream ROUTE_INSTALLED b0)"
  shows "returns (\<lambda>_. kernel_only b0) (kchange_route_metric rt refmetric cost add b)"
proof -
  have c: "holds (kernel_only b0) (kchange_conflict rt m m' rt1 c)"
    if "rt1 \<in> set (installed_stream ROUTE_INSTALLED b0)" "holds (kernel_only b0) c" for rt1 c m m'
    unfolding kchange_conflict_def
    by (intro inv_rules kernels kernel_solves_conflict [OF that(2,1) assms(2)] that(2))
      (auto simp: kernel_only_conflicts [OF holdsD [OF that(2)]])
  show ?thesis
    unfolding kchange_route_metric_def Let_def by (intro inv_rules kernel_case_alloc kernels kernel_fold c assms(1))
qed

end
