(* ===== verification/Route_Inv.thy ===== *)
theory Route_Inv
  imports Kernel_Safe
begin

text \<open>
  The invariant of the route operations.  \<open>routing R W E b\<close>: the state is ready to send, the
  two tables are well formed, the sources in the table are those of \<open>E\<close> and the reference count
  of each covers the routes that name it and as many more as \<open>E\<close> says, the allocations
  succeed, the routes in the table are \<open>R\<close>, and \<open>W\<close> tells of each of them its destination,
  neighbour, next hop and interface.

  The operations that add or remove no route keep it as it is; so the routes an operation walks
  over are the same before and after it.
\<close>

section \<open>The invariant\<close>

type_synonym identity = "route_key \<times> ptr \<times> byte list \<times> ptr"

definition who :: "babel \<Rightarrow> ptr \<Rightarrow> identity" where
  "who b rt =
     (src_dest_key (route_src b rt), r_neigh (route b rt), r_nexthop (route b rt), n_ifp (neigh b (r_neigh (route b rt))))"

definition users :: "babel \<Rightarrow> ptr \<Rightarrow> ptr set" where
  "users b p = {rt \<in> rib_routes (rib b). r_src (route b rt) = p}"

type_synonym held = "(ptr \<Rightarrow> nat) \<times> ptr list"

definition counted :: "held \<Rightarrow> babel \<Rightarrow> bool" where
  "counted E b \<longleftrightarrow>
     st_slots (sources b) = snd E \<and> (\<forall>p \<in> set (st_slots (sources b)). source_dest_ok (src b p)) \<and>
     (\<forall>p. card (users b p) + fst E p \<le> s_route_count (src b p))"

text \<open>
  What never changes: the answers to the allocations, the ranges that costs are computed from,
  and the list of neighbours.
\<close>

definition link_costs_ok :: "neighbour \<Rightarrow> bool" where
  "link_costs_ok n \<longleftrightarrow> 0 \<le> n_txcost n \<and> n_txcost n \<le> INFINITY_METRIC \<and> 0 \<le> n_rtt n"

definition iface_costs_ok :: "interface \<Rightarrow> bool" where
  "iface_costs_ok i \<longleftrightarrow>
     0 \<le> i_cost i \<and> i_cost i \<le> INFINITY_METRIC \<and> 0 \<le> i_rtt_min i \<and>
     0 \<le> i_max_rtt_penalty i \<and> i_max_rtt_penalty i \<le> INFINITY_METRIC"

definition steady :: "babel \<Rightarrow> bool" where
  "steady b \<longleftrightarrow>
     allocs_succeed b \<and> (\<forall>nb. link_costs_ok (neigh b nb)) \<and> (\<forall>p. iface_costs_ok (iface b p)) \<and>
     distinct (neighs (nbrs b)) \<and> (\<forall>nb \<in> set (neighs (nbrs b)). nb < n_fresh (nbrs b))"

lemma steady_costs: "steady b \<Longrightarrow> costs_ok nb b"
  by (simp add: steady_def costs_ok_def link_costs_ok_def iface_costs_ok_def Let_def)

lemma steady_cong:
  "env c = env b \<Longrightarrow> nbrs c = nbrs b \<Longrightarrow> ifaces c = ifaces b \<Longrightarrow> steady c = steady b"
  by (simp add: steady_def allocs_succeed_def)

definition routing ::
  "ptr set \<Rightarrow> (ptr \<Rightarrow> identity) \<Rightarrow> held \<Rightarrow> babel \<Rightarrow> bool" where
  "routing R W E b \<longleftrightarrow>
     ready b \<and> tables_ok b \<and> counted E b \<and> steady b \<and> rib_routes (rib b) = R \<and>
     (\<forall>rt \<in> R. who b rt = W rt \<and> fst (snd (W rt)) \<in> set (neighs (nbrs b)))"

named_theorems routed \<open>operations that keep the invariant of the routes\<close>

lemma routingD:
  assumes "holds (routing R W E) b"
  shows "holds ready b" "tables_ok b" "counted E b" "allocs_succeed b" "rib_routes (rib b) = R"
    "\<And>rt. rt \<in> R \<Longrightarrow> who b rt = W rt" "fault b = None" "rib_ok (st_heap (sources b)) (rib b)"
    "steady b" "costs_ok nb b" "\<And>rt. rt \<in> R \<Longrightarrow> fst (snd (W rt)) \<in> set (neighs (nbrs b))"
  using assms steady_costs
  by (auto simp: holds_def routing_def ready_def buffers_ok_def tables_ok_def) (simp add: steady_def)

lemma routing_dest:
  assumes "holds (routing R W E) b" "rt \<in> R"
  shows "dest_ok (s_prefix (route_src b rt)) (s_plen (route_src b rt)) (s_src_prefix (route_src b rt))
      (s_src_plen (route_src b rt))" "length (s_id (route_src b rt)) = 8"
  using assms by (auto simp: holds_def routing_def ready_def network_ok_def source_dest_ok_def)

section \<open>Senders\<close>

lemma source_table_ok_shape:
  assumes "shape c = shape b"
  shows "source_table_ok (sources c) = source_table_ok (sources b)"
proof -
  have q: "quiet_source (src c p) = quiet_source (src b p)" for p by (rule shape_eqD(18) [OF assms])
  note f = quiet_source_fields [OF q]
  have k: "source_key (src c p) = source_key (src b p)" for p by (simp add: source_key_def f)
  have o: "source_ok (src c p) = source_ok (src b p)" for p by (simp add: source_ok_def f)
  show ?thesis by (simp add: source_table_ok_def k o shape_eqD(13-15) [OF assms])
qed

lemma steady_shape:
  assumes "shape c = shape b"
  shows "steady c = steady b"
proof -
  have i: "quiet_iface (iface c p) = quiet_iface (iface b p)" for p by (rule shape_eqD(19) [OF assms])
  have n: "quiet_neighbour (neigh c p) = quiet_neighbour (neigh b p)" for p by (rule shape_eqD(20) [OF assms])
  have "i_cost (iface c p) = i_cost (iface b p)" "i_rtt_min (iface c p) = i_rtt_min (iface b p)"
    "i_max_rtt_penalty (iface c p) = i_max_rtt_penalty (iface b p)" for p
    using arg_cong [OF i, of i_cost] arg_cong [OF i, of i_rtt_min] arg_cong [OF i, of i_max_rtt_penalty]
    by (simp_all add: quiet_iface_def)
  moreover have "n_txcost (neigh c p) = n_txcost (neigh b p)" "n_rtt (neigh c p) = n_rtt (neigh b p)" for p
    using arg_cong [OF n, of n_txcost] arg_cong [OF n, of n_rtt] by (simp_all add: quiet_neighbour_def)
  ultimately show ?thesis
    by (simp add: steady_def link_costs_ok_def iface_costs_ok_def allocs_succeed_def shape_eqD(8,9,11) [OF assms])
qed

lemma routing_shape:
  assumes "shape c = shape b" "holds ready b \<Longrightarrow> holds ready c" "holds (routing R W E) b"
  shows "holds (routing R W E) c"
proof -
  have q: "quiet_source (src c p) = quiet_source (src b p)" for p by (rule shape_eqD(18) [OF assms(1)])
  note f = quiet_source_fields [OF q]
  have r: "rib c = rib b" using shape_eqD(1) [OF assms(1)] .
  have "n_ifp (neigh c p) = n_ifp (neigh b p)" for p
    using quiet_neighbour_fields(2) [OF shape_eqD(20) [OF assms(1)]] .
  then have "who c = who b" by (simp add: fun_eq_iff who_def src_dest_key_def route_src_def r f)
  moreover have "tables_ok c = tables_ok b"
    using source_table_ok_shape [OF assms(1)] shape_rib_ok [OF assms(1)] shape_eqD(13) [OF assms(1)]
    by (simp add: tables_ok_def r)
  moreover have "counted E c = counted E b"
    by (simp add: counted_def users_def r f source_dest_ok_def shape_eqD(13) [OF assms(1)])
  moreover have "steady c = steady b" by (rule steady_shape [OF assms(1)])
  ultimately show ?thesis using assms(2,3) by (simp add: holds_def routing_def r shape_eqD(9) [OF assms(1)])
qed

lemma routing_senders [routed]:
  assumes "holds (routing R W E) b"
  shows "dest_ok prefix plen src_prefix src_plen \<Longrightarrow>
      holds (routing R W E) (send_update ifp urgent (Some prefix) plen (Some src_prefix) src_plen b)"
    "dest_ok prefix plen src_prefix src_plen \<Longrightarrow>
      holds (routing R W E) (send_update_resend ifp prefix plen src_prefix src_plen b)"
    "dest_ok prefix plen src_prefix src_plen \<Longrightarrow>
      holds (routing R W E) (send_request ifp (Some prefix) plen (Some src_prefix) src_plen b)"
    "dest_ok prefix plen src_prefix src_plen \<Longrightarrow>
      holds (routing R W E) (send_unicast_request nb (Some prefix) plen (Some src_prefix) src_plen b)"
    "dest_ok prefix plen src_prefix src_plen \<Longrightarrow> length rid = 8 \<Longrightarrow>
      holds (routing R W E) (send_unicast_multihop_request nb prefix plen src_prefix src_plen seqno rid hops b)"
    "dest_ok prefix plen src_prefix src_plen \<Longrightarrow> length rid = 8 \<Longrightarrow>
      holds (routing R W E) (send_request_resend nb' prefix plen src_prefix src_plen seqno rid b)"
  using assms by (auto intro!: routing_shape [OF _ _ assms] readies simp: shaped opt_dest_ok_def)

lemma routing_basic [routed]:
  assumes "holds (routing R W E) b"
  shows "returns (\<lambda>_. routing R W E) (c_alloc b)" "holds (routing R W E) (emit ev b)"
    "returns (\<lambda>_. routing R W E) (c_roughly v b)"
  using routing_shape [OF _ _ assms, of "snd (c_alloc b)"] routing_shape [OF _ _ assms, of "emit ev b"]
    routing_shape [OF _ _ assms, of "snd (c_roughly v b)"] ready_basic [of b]
  by (auto simp: shaped returns_def holds_def)

section \<open>The kernel\<close>

lemma kernel_only_network:
  assumes "kernel_only b c" "network_ok b"
  shows "network_ok c"
  using assms(2) by (simp add: network_ok_def route_src_def kernel_only_eqs [OF assms(1)])

lemma routing_kernel:
  assumes "holds (routing R W E) b" "kernel_only b c"
  shows "holds (routing R W E) c"
proof -
  note e = kernel_only_eqs [OF assms(2)]
  note d = routingD [OF assms(1)]
  have "fault c = None" using e(12) d(4,7) by simp
  then have "ready c"
    using d(1) kernel_only_network [OF assms(2)]
    by (simp add: holds_def ready_def buffers_ok_def e)
  moreover have "tables_ok c = tables_ok b" "counted E c = counted E b" "steady c = steady b"
    by (simp_all only: tables_ok_def counted_def users_def steady_def allocs_succeed_def e(1,2,4,5,8))
  moreover have "who c = who b" by (simp add: fun_eq_iff who_def route_src_def e)
  ultimately show ?thesis using assms(1) by (simp add: holds_def routing_def e)
qed

lemma kernel_start: "(holds (kernel_only b) b \<Longrightarrow> holds (kernel_only b) c) \<Longrightarrow> kernel_only b c"
  by (simp add: holds_def)

lemma kernel_start_returns: "(holds (kernel_only b) b \<Longrightarrow> returns (\<lambda>_. kernel_only b) r) \<Longrightarrow> kernel_only b (snd r)"
  by (simp add: holds_def returns_def)

section \<open>Writing to a route\<close>

definition harmless :: "(babel_route \<Rightarrow> babel_route) \<Rightarrow> bool" where
  "harmless f \<longleftrightarrow>
     (\<forall>r. r_src (f r) = r_src r \<and> r_neigh (f r) = r_neigh r \<and> r_nexthop (f r) = r_nexthop r \<and>
        (r_installed (f r) \<longrightarrow> r_installed r) \<and>
        (r_channels_len r \<le> int (length (r_channels r)) \<longrightarrow> r_channels_len (f r) \<le> int (length (r_channels (f r)))))"

lemma upd_route_frame [simp]:
  "rib_routes (rib (upd_route rt f b)) = rib_routes (rib b)" "routes (rib (upd_route rt f b)) = routes (rib b)"
  "rib_fresh (rib (upd_route rt f b)) = rib_fresh (rib b)" "max_route_slots (rib (upd_route rt f b)) = max_route_slots (rib b)"
  "route (upd_route rt f b) p = (if p = rt then f (route b rt) else route b p)"
  "conf (upd_route rt f b) = conf b" "now (upd_route rt f b) = now b" "fault (upd_route rt f b) = fault b"
  "env (upd_route rt f b) = env b" "ifaces (upd_route rt f b) = ifaces b" "nbrs (upd_route rt f b) = nbrs b"
  "xroutes (upd_route rt f b) = xroutes b" "unicast (upd_route rt f b) = unicast b"
  "resends (upd_route rt f b) = resends b"
  by (simp_all add: upd_route_def rib_routes_def)

lemma heads_installed_mono:
  assumes "heads_installed rb" "\<And>p. r_installed (h p) \<Longrightarrow> r_installed (rib_heap rb p)"
  shows "heads_installed (rb\<lparr>rib_heap := h\<rparr>)"
  using assms by (auto simp: heads_installed_def)

lemma rib_ok_upd_route:
  assumes "rib_ok (st_heap (sources b)) (rib b)" "harmless f"
  shows "rib_ok (st_heap (sources b)) (rib (upd_route rt f b))"
proof -
  let ?h = "(rib_heap (rib b))(rt := f (route b rt))"
  have "r_src (?h p) = r_src (route b p)" "r_installed (?h p) \<Longrightarrow> r_installed (route b p)" for p
    using assms(2) by (auto simp: harmless_def split: if_splits)
  then show ?thesis
    using assms(1) rib_shape_cong [of "rib b" "st_heap (sources b)" ?h "st_heap (sources b)"]
      heads_installed_mono [of "rib b" ?h]
    by (simp add: rib_ok_def upd_route_def)
qed

lemma routing_upd_route [routed]:
  assumes "holds (routing R W E) b" "harmless f"
  shows "holds (routing R W E) (upd_route rt f b)"
proof -
  note d = routingD [OF assms(1)]
  have s: "r_src (route (upd_route rt f b) p) = r_src (route b p)"
    "r_neigh (route (upd_route rt f b) p) = r_neigh (route b p)"
    "r_nexthop (route (upd_route rt f b) p) = r_nexthop (route b p)"
    "r_channels_len (route b p) \<le> int (length (r_channels (route b p))) \<Longrightarrow>
     r_channels_len (route (upd_route rt f b) p) \<le> int (length (r_channels (route (upd_route rt f b) p)))" for p
    using assms(2) by (auto simp: harmless_def)
  have rs: "route_src (upd_route rt f b) p = route_src b p" for p
    by (simp only: route_src_def s upd_frame)
  note ok = rib_ok_upd_route [OF d(8) assms(2), of rt]
  have "network_ok (upd_route rt f b)"
    using d(1) ok s(4) unfolding network_ok_def ready_def holds_def
    by (simp only: rs upd_frame upd_route_frame(1,6-13)) simp
  then have "ready (upd_route rt f b)"
    using d(1) by (simp add: holds_def ready_def buffers_ok_def)
  moreover have "tables_ok (upd_route rt f b)"
    using d(2) ok by (simp only: tables_ok_def s(1) upd_frame upd_route_frame(1)) simp
  moreover have "counted E (upd_route rt f b)"
    using d(3) unfolding counted_def users_def s(1) upd_frame upd_route_frame(1) .
  moreover have "steady (upd_route rt f b)" using d(9) steady_cong [of "upd_route rt f b" b] by simp
  moreover have "who (upd_route rt f b) p = who b p" for p
    by (simp only: who_def rs s(2,3) upd_route_frame(11))
  ultimately show ?thesis using d(5,6,11) by (simp add: holds_def routing_def)
qed

lemma harmless_fields [simp]:
  "harmless (\<lambda>r. r\<lparr>r_smoothed_metric := sm, r_smoothed_metric_time := st\<rparr>)" "harmless (\<lambda>r. r\<lparr>r_time := t\<rparr>)"
  "harmless (\<lambda>r. r\<lparr>r_refmetric := m, r_cost := c, r_add_metric := a\<rparr>)" "harmless (\<lambda>r. r\<lparr>r_seqno := s\<rparr>)"
  "harmless (\<lambda>r. r\<lparr>r_hold_time := h\<rparr>)" "harmless (\<lambda>r. r\<lparr>r_installed := False\<rparr>)"
  by (simp_all add: harmless_def)

lemma routing_set_smoothed [routed]:
  "holds (routing R W E) b \<Longrightarrow> holds (routing R W E) (set_smoothed rt sm st b)"
  unfolding set_smoothed_def by (intro routed harmless_fields)

end
