(* ===== verification/Route_Safe.thy ===== *)
theory Route_Safe
  imports Route_Inv
begin

text \<open>
  The route operations are safe: they keep the invariant of the theory \<open>Route_Inv\<close>, so no
  assertion fails, no list is followed to a NULL, no reference count is released twice, and
  the tables they leave are well formed.
\<close>

section \<open>Replacing the table\<close>

text \<open>What a route of the table has to satisfy, beside its place in the table.\<close>

definition route_fits :: "babel \<Rightarrow> identity \<Rightarrow> babel_route \<Rightarrow> bool" where
  "route_fits b w r \<longleftrightarrow>
     source_dest_ok (src b (r_src r)) \<and> r_src r \<in> set (st_slots (sources b)) \<and>
     r_channels_len r \<le> int (length (r_channels r)) \<and>
     w = (src_dest_key (src b (r_src r)), r_neigh r, r_nexthop r, n_ifp (neigh b (r_neigh r))) \<and>
     r_neigh r \<in> set (neighs (nbrs b))"

lemma routing_fits:
  assumes "holds (routing R W E) b" "rt \<in> R"
  shows "route_fits b (W rt) (route b rt)"
proof -
  note d = routingD [OF assms(1)]
  have "network_ok b" using d(1) by (simp add: holds_def ready_def)
  moreover have "W rt = who b rt" using d(6) [OF assms(2)] by simp
  ultimately show ?thesis
    using d(2,5) d(11) [OF assms(2)] assms(2)
    by (auto simp: route_fits_def network_ok_def tables_ok_def route_src_def who_def)
qed

lemma routing_linked: "holds (routing R W E) b \<Longrightarrow> rt \<in> R \<Longrightarrow> r_neigh (route b rt) \<in> set (neighs (nbrs b))"
  using routing_fits by (simp add: route_fits_def)

lemma routing_rib:
  assumes "holds (routing R W E) b"
    and "rib_ok (st_heap (sources b)) rb" "rib_routes rb = R'"
    and "\<And>rt. rt \<in> R' \<Longrightarrow> route_fits b (W' rt) (rib_heap rb rt)"
    and "snd E' = snd E" "\<forall>p. card {rt \<in> R'. r_src (rib_heap rb rt) = p} + fst E' p \<le> s_route_count (src b p)"
  shows "holds (routing R' W' E') (b\<lparr>rib := rb\<rparr>)"
proof -
  note d = routingD [OF assms(1)]
  note f = assms(4) [unfolded route_fits_def]
  have n: "network_ok b" using d(1) by (simp add: holds_def ready_def)
  have "network_ok (b\<lparr>rib := rb\<rparr>)"
    using n assms(2,3) f by (simp add: network_ok_def route_src_def)
  then have "ready (b\<lparr>rib := rb\<rparr>)" using d(1) by (simp add: holds_def ready_def buffers_ok_def)
  moreover have "tables_ok (b\<lparr>rib := rb\<rparr>)" using d(2) assms(2,3) f by (simp add: tables_ok_def)
  moreover have "counted E' (b\<lparr>rib := rb\<rparr>)" using assms(3,5,6) d(3) by (simp add: counted_def users_def)
  ultimately show ?thesis
    using d(9) assms(3) f steady_cong [of "b\<lparr>rib := rb\<rparr>" b]
    by (simp add: holds_def routing_def who_def route_src_def)
qed

text \<open>When only the order of the routes or their flags change, nothing else has to be shown.\<close>

lemma routing_rib_same:
  assumes "holds (routing R W E) b" and "rib_ok (st_heap (sources b)) rb" "rib_routes rb = R"
    and "\<And>rt. r_src (rib_heap rb rt) = r_src (route b rt)" "\<And>rt. r_neigh (rib_heap rb rt) = r_neigh (route b rt)"
    "\<And>rt. r_nexthop (rib_heap rb rt) = r_nexthop (route b rt)"
    "\<And>rt. r_channels (rib_heap rb rt) = r_channels (route b rt)"
    "\<And>rt. r_channels_len (rib_heap rb rt) = r_channels_len (route b rt)"
  shows "holds (routing R W E) (b\<lparr>rib := rb\<rparr>)"
proof (rule routing_rib [OF assms(1-3)])
  note d = routingD [OF assms(1)]
  show "route_fits b (W rt) (rib_heap rb rt)" if "rt \<in> R" for rt
    using routing_fits [OF assms(1) that] unfolding route_fits_def assms(4-8) .
  show "\<forall>p. card {rt \<in> R. r_src (rib_heap rb rt) = p} + fst E p \<le> s_route_count (src b p)"
    using d(3,5) unfolding assms(4) by (simp add: counted_def users_def)
qed simp

lemma routing_slot:
  assumes "holds (routing R W E) b" "rt \<in> R"
  obtains i where "slot_for rt b = Found i" "i < length (routes (rib b))" "rt \<in> set (routes (rib b) ! i)"
    "routes (rib b) ! i \<in> set (routes (rib b))" "set (routes (rib b) ! i) \<subseteq> R"
    "\<And>p. p \<in> R \<Longrightarrow> src_dest_key (route_src b p) = src_dest_key (route_src b rt) \<longleftrightarrow> p \<in> set (routes (rib b) ! i)"
proof -
  note d = routingD [OF assms(1)]
  have shape: "rib_shape (st_heap (sources b)) (rib b)" using d(8) by (simp add: rib_ok_def)
  obtain i where i: "i < length (routes (rib b))" "rt \<in> set (routes (rib b) ! i)"
    using assms(2) d(5) by (auto simp: rib_routes_iff)
  have sl: "slot_for rt b = Found i"
    using slot_of_route_member [OF shape i] by (simp add: slot_for_def)
  let ?s = "src b (r_src (route b rt))"
  have f: "find_route_slot (st_heap (sources b)) (s_prefix ?s) (s_plen ?s) (s_src_prefix ?s) (s_src_plen ?s) (rib b) = Found i"
    using sl by (simp add: slot_for_def slot_of_route_def route_source_def Let_def)
  show ?thesis
  proof (rule that [OF sl i])
    show "routes (rib b) ! i \<in> set (routes (rib b))" using i by simp
    then show "set (routes (rib b) ! i) \<subseteq> R" using d(5) by (auto simp: rib_routes_def)
    show "src_dest_key (route_src b p) = src_dest_key (route_src b rt) \<longleftrightarrow> p \<in> set (routes (rib b) ! i)" if "p \<in> R" for p
      using find_route_slot_dest [OF shape, of "s_prefix ?s" "s_plen ?s" "s_src_prefix ?s" "s_src_plen ?s"] f that d(5)
      by (simp add: route_src_def route_source_def src_dest_key_def)
  qed
qed

lemma routing_installed:
  assumes "holds (routing R W E) b"
  shows "find_installed prefix plen src_prefix src_plen b = Some p \<longleftrightarrow>
      p \<in> R \<and> r_installed (route b p) \<and> src_dest_key (route_src b p) = dest_key prefix plen src_prefix src_plen"
    "p \<in> set (installed_stream ROUTE_INSTALLED b) \<longleftrightarrow> p \<in> R \<and> r_installed (route b p)"
  using find_routes_spec [OF routingD(8) [OF assms], of prefix plen src_prefix src_plen]
    route_streams_spec [OF routingD(8) [OF assms]] routingD(5) [OF assms]
  by (auto simp: find_installed_def installed_stream_def route_src_def route_source_def)

section \<open>The smoothed metric\<close>

lemma kernel_roughly [kernels]: "holds (kernel_only b0) b \<Longrightarrow> returns (\<lambda>_. kernel_only b0) (c_roughly v b)"
  by (simp add: c_roughly_def c_random_def ask_def returns_def holds_def kernel_only_def beside_kernel_def)

lemma smooth_halves_frame:
  assumes "smooth_halves metric hl t sm st b = ((sm', st'), b')" "kernel_only b0 b"
  shows "kernel_only b0 b' \<and> (st \<le> t \<longrightarrow> st' \<le> t)"
  using assms
proof (induction metric hl t sm st b rule: smooth_halves.induct)
  case (1 metric hl t sm st b)
  obtain d c where c: "c_roughly (metric - sm) b = (d, c)" by fastforce
  have k: "kernel_only b0 c"
    using kernel_roughly [of b0 b "metric - sm"] "1.prems"(2) c by (simp add: holds_def returns_def)
  show ?case
  proof (cases "0 < hl \<and> st \<le> t - hl")
    case True
    then show ?thesis
      using "1.IH" [OF True c [symmetric]] "1.prems"(1) k c by (subst (asm) (2) smooth_halves.simps) simp
  next
    case False
    then show ?thesis using "1.prems" by (auto simp: smooth_halves.simps)
  qed
qed

lemma smooth_seconds_frame:
  assumes "smooth_seconds metric factor t sm st b = ((sm', st'), b')" "kernel_only b0 b" "st \<le> t"
  shows "kernel_only b0 b' \<and> st' = t"
  using assms
proof (induction metric factor t sm st b rule: smooth_seconds.induct)
  case (1 metric factor t sm st b)
  obtain d c where c: "c_roughly (metric - sm) b = (d, c)" by fastforce
  have k: "kernel_only b0 c"
    using kernel_roughly [of b0 b "metric - sm"] "1.prems"(2) c by (simp add: holds_def returns_def)
  show ?case
  proof (cases "st < t")
    case True
    then show ?thesis
      using "1.IH" [OF True c [symmetric]] "1.prems"(1) k c by (subst (asm) (2) smooth_seconds.simps) simp
  next
    case False
    then show ?thesis using "1.prems" by (auto simp: smooth_seconds.simps)
  qed
qed

text \<open>
  So the state after \<open>route_smoothed_metric\<close> is a state in which only the environment was
  asked, with the two fields written; the assertion holds.
\<close>

lemma route_smoothed_metric_spec:
  obtains c sm where "kernel_only b c"
    "route_smoothed_metric rt b = (sm, set_smoothed rt sm (tv_sec (now b)) c)"
proof -
  let ?r = "route b rt" and ?t = "tv_sec (now b)"
  have fin: "(let b' = set_smoothed rt sm ?t c; b' = c_assert (r_smoothed_metric_time (route b' rt) = tv_sec (now b')) b'
      in (r_smoothed_metric (route b' rt), b')) = (sm, set_smoothed rt sm ?t c)" if "kernel_only b c" for sm c
    using kernel_only_eqs(7) [OF that] by (simp add: set_smoothed_def c_assert_def Let_def)
  show ?thesis
  proof (cases "smoothing_half_life (conf b) \<le> 0 \<or> route_metric ?r \<ge> INFINITY_METRIC \<or>
      r_smoothed_metric_time ?r > ?t \<or> r_smoothed_metric ?r = route_metric ?r")
    case True
    show ?thesis
      by (rule that [OF kernel_only_refl [of b], of "to_ushort (route_metric ?r)"])
        (use True fin [OF kernel_only_refl, of "to_ushort (route_metric ?r)"] in
          \<open>simp add: route_smoothed_metric_def Let_def\<close>)
  next
    case False
    obtain sm st c where h: "smooth_halves (route_metric ?r) (smoothing_half_life (conf b)) ?t
        (r_smoothed_metric ?r) (r_smoothed_metric_time ?r) b = ((sm, st), c)" by (metis prod.collapse)
    have hc: "kernel_only b c" "st \<le> ?t" using smooth_halves_frame [OF h kernel_only_refl] False by auto
    obtain sm' st' c' where s: "smooth_seconds (route_metric ?r) (two_to_the_one_over_hl (conf c) - 0x10000) ?t sm st c =
        ((sm', st'), c')" by (metis prod.collapse)
    have sc: "kernel_only b c'" "st' = ?t" using smooth_seconds_frame [OF s hc] by auto
    define v where "v = (if -4 < route_metric ?r - sm' \<and> route_metric ?r - sm' < 4
      then to_ushort (route_metric ?r) else sm')"
    show ?thesis
      by (rule that [OF sc(1), of v])
        (use False h s sc fin [OF sc(1), of v] in \<open>simp add: route_smoothed_metric_def Let_def v_def [symmetric]\<close>)
  qed
qed

lemma routing_smoothed [routed]:
  assumes "holds (routing R W E) b"
  shows "returns (\<lambda>_. routing R W E) (route_smoothed_metric rt b)"
proof (rule route_smoothed_metric_spec [of b rt])
  fix c sm
  assume k: "kernel_only b c" and e: "route_smoothed_metric rt b = (sm, set_smoothed rt sm (tv_sec (now b)) c)"
  have "holds (routing R W E) (set_smoothed rt sm (tv_sec (now b)) c)"
    by (intro routing_set_smoothed routing_kernel [OF assms k])
  then show ?thesis by (simp add: e returns_def holds_def)
qed

section \<open>The best route\<close>

text \<open>Comparing routes writes smoothed metrics only.\<close>

definition unsmoothed :: "babel_route \<Rightarrow> babel_route" where
  "unsmoothed r = r\<lparr>r_smoothed_metric := 0, r_smoothed_metric_time := 0\<rparr>"

definition smooth_only :: "babel \<Rightarrow> babel \<Rightarrow> bool" where
  "smooth_only b c \<longleftrightarrow>
     sources c = sources b \<and> now c = now b \<and> conf c = conf b \<and> routes (rib c) = routes (rib b) \<and>
     (\<forall>p. unsmoothed (route c p) = unsmoothed (route b p))"

lemma smooth_only_trans: "smooth_only a b \<Longrightarrow> smooth_only b c \<Longrightarrow> smooth_only a c"
  by (simp add: smooth_only_def)

lemma unsmoothed_fields:
  assumes "unsmoothed r = unsmoothed s"
  shows "r_src r = r_src s" "r_refmetric r = r_refmetric s" "r_cost r = r_cost s" "r_add_metric r = r_add_metric s"
    "r_seqno r = r_seqno s" "r_neigh r = r_neigh s" "r_time r = r_time s" "r_hold_time r = r_hold_time s"
    "r_installed r = r_installed s" "route_metric r = route_metric s"
  using arg_cong [OF assms, of r_src] arg_cong [OF assms, of r_refmetric] arg_cong [OF assms, of r_cost]
    arg_cong [OF assms, of r_add_metric] arg_cong [OF assms, of r_seqno] arg_cong [OF assms, of r_neigh]
    arg_cong [OF assms, of r_time] arg_cong [OF assms, of r_hold_time] arg_cong [OF assms, of r_installed]
  by (simp_all add: unsmoothed_def route_metric_def)

lemma smooth_only_smoothed: "smooth_only b (snd (route_smoothed_metric rt b))"
proof (rule route_smoothed_metric_spec [of b rt])
  fix c sm
  assume k: "kernel_only b c" and e: "route_smoothed_metric rt b = (sm, set_smoothed rt sm (tv_sec (now b)) c)"
  then show ?thesis by (simp add: smooth_only_def set_smoothed_def kernel_only_eqs [OF k] unsmoothed_def)
qed

lemma smooth_only_among: "smooth_only b (snd (best_among feasible exclude rs rt b))"
proof (induction rs arbitrary: rt b)
  case Nil
  then show ?case by (simp add: smooth_only_def)
next
  case (Cons r rs)
  obtain m c where c: "route_smoothed_metric r b = (m, c)" by fastforce
  obtain m' c' where c': "route_smoothed_metric rt c = (m', c')" by fastforce
  have "smooth_only b c'"
    using smooth_only_smoothed [of b r] smooth_only_smoothed [of c rt] c c' smooth_only_trans by simp
  then show ?case using Cons.IH c c' smooth_only_trans by (simp split: if_split)
qed

lemma smooth_only_best: "smooth_only b (snd (find_best_route prefix plen src_prefix src_plen feasible exclude b))"
proof -
  have r: "smooth_only b b" by (simp add: smooth_only_def)
  have "smooth_only b (snd (best_in_slot feasible exclude slot b))" for slot
    unfolding best_in_slot_def using r smooth_only_among [of b feasible exclude]
    by (auto simp: split_beta split: list.split)
  then show ?thesis using r by (auto simp: find_best_route_def split: slot.split)
qed

lemma routing_best_among:
  assumes "holds (routing R W E) b" "rt \<in> R" "set rs \<subseteq> R"
  shows "returns (\<lambda>x c. x \<in> R \<and> routing R W E c) (best_among feasible exclude rs rt b)"
  using assms
proof (induction feasible exclude rs rt b rule: best_among.induct)
  case (1 feasible exclude rt b)
  then show ?case by (simp add: returns_def holds_def)
next
  case (2 feasible exclude r rs rt b)
  obtain m c where c: "route_smoothed_metric r b = (m, c)" by fastforce
  obtain m' c' where c': "route_smoothed_metric rt c = (m', c')" by fastforce
  have "holds (routing R W E) c'"
    using routing_smoothed [OF "2.prems"(1), of r] routing_smoothed [of R W E c rt] c c'
    by (simp add: returns_def holds_def)
  then show ?case using "2.IH" c c' "2.prems" by auto
qed

lemma routing_best [routed]:
  assumes "holds (routing R W E) b"
  shows "returns (\<lambda>x c. (\<forall>rt. x = Some rt \<longrightarrow> rt \<in> R) \<and> routing R W E c)
    (find_best_route prefix plen src_prefix src_plen feasible exclude b)"
proof (cases "find_route_slot (st_heap (sources b)) prefix plen src_prefix src_plen (rib b)")
  case (Missing n)
  then show ?thesis using assms by (simp add: find_best_route_def returns_def holds_def)
next
  case (Found i)
  let ?slot = "routes (rib b) ! i"
  have "?slot \<in> set (routes (rib b))" using find_route_slot_found [OF Found] by simp
  then have sub: "set ?slot \<subseteq> R" using routingD(5) [OF assms] by (auto simp: rib_routes_def)
  show ?thesis
  proof (cases "dropWhile (\<lambda>r. \<not> route_acceptable r feasible exclude b) ?slot")
    case Nil
    then have "find_best_route prefix plen src_prefix src_plen feasible exclude b = (None, b)"
      unfolding find_best_route_def best_in_slot_def Found slot.case by (simp only: list.case)
    then show ?thesis using assms by (simp add: returns_def holds_def)
  next
    case (Cons rt rs)
    then have "rt \<in> R" "set rs \<subseteq> R"
      using sub set_dropWhileD [of _ "\<lambda>r. \<not> route_acceptable r feasible exclude b" ?slot] by auto
    note b = routing_best_among [OF assms this, of feasible exclude]
    have "find_best_route prefix plen src_prefix src_plen feasible exclude b =
        (case best_among feasible exclude rs rt b of (rt, b) \<Rightarrow> (Some rt, b))"
      unfolding find_best_route_def best_in_slot_def Found slot.case Cons by (simp only: list.case)
    then show ?thesis using b by (simp add: returns_def split_beta)
  qed
qed

section \<open>Installing\<close>

lemma kernel_refl: "holds (kernel_only b) b"
  by (simp add: holds_def)

lemma kernel_result_only: "returns (\<lambda>_. kernel_only b) r \<Longrightarrow> r = (x, c) \<Longrightarrow> kernel_only b c"
  by (simp add: returns_def)

lemma routing_uninstall [routed]:
  assumes "holds (routing R W E) b"
  shows "holds (routing R W E) (uninstall_route rt b)"
proof -
  let ?b = "set_installed False rt b"
  have a: "holds (routing R W E) ?b"
    unfolding set_installed_def by (intro routed assms harmless_fields)
  have "kernel_only ?b (snd (kuninstall_route rt ?b))"
    by (rule kernel_start_returns) (rule kernel_kuninstall)
  from routing_kernel [OF a this] show ?thesis
    using assms by (simp add: uninstall_route_def Let_def routed)
qed

text \<open>Setting the flag of a route whose slot has no installed route, and moving it to the head.\<close>

lemma routing_move:
  assumes "holds (routing R W E) b" "rt \<in> R" "slot_for rt b = Found i"
    and none: "\<forall>q \<in> set (routes (rib b) ! i). \<not> r_installed (route b q)"
  shows "holds (routing R W E) (with_rib (move_installed_route rt (Found i)) (set_installed True rt b))"
    and "r_installed (route (with_rib (move_installed_route rt (Found i)) (set_installed True rt b)) rt)"
proof -
  let ?c = "set_installed True rt b"
  note d = routingD [OF assms(1)]
  have h: "r_src (route ?c p) = r_src (route b p)" "r_neigh (route ?c p) = r_neigh (route b p)"
    "r_nexthop (route ?c p) = r_nexthop (route b p)" "r_channels (route ?c p) = r_channels (route b p)"
    "r_channels_len (route ?c p) = r_channels_len (route b p)"
    "r_installed (route ?c p) = (p = rt \<or> r_installed (route b p))" for p
    by (simp_all add: set_installed_def)
  have c: "sources ?c = sources b" "routes (rib ?c) = routes (rib b)" "rib_routes (rib ?c) = R"
    using d(5) by (simp_all add: set_installed_def)
  have shape: "rib_shape (st_heap (sources b)) (rib ?c)"
    using d(8) rib_shape_cong [of "rib b" "st_heap (sources b)" "rib_heap (rib ?c)" "st_heap (sources b)"] h(1)
    by (simp add: rib_ok_def set_installed_def upd_route_def)
  have slot: "slot_of_route (st_heap (sources b)) rt (rib ?c) = Found i"
    using assms(3) by (simp add: slot_for_def slot_of_route_def find_route_slot_def route_source_def h(1) c(2))
  have "\<exists>rb'. move_installed_route rt (Found i) (rib ?c) = Some rb' \<and> rib_ok (st_heap (sources b)) rb' \<and>
      rib_routes rb' = rib_routes (rib ?c) \<and> rib_heap rb' = rib_heap (rib ?c) \<and>
      routes rb' = (routes (rib ?c))[i := rt # remove1 rt (routes (rib ?c) ! i)]"
  proof (rule move_installed_route_ok [OF shape slot])
    show "rt \<in> rib_routes (rib ?c)" using assms(2) c(3) by simp
    show "r_installed (route ?c rt)" by (simp add: h)
    show "\<forall>q \<in> set (routes (rib ?c) ! i). r_installed (route ?c q) \<longrightarrow> q = rt" using none by (simp add: c(2) h(6))
    show "\<forall>j < length (routes (rib ?c)). j \<noteq> i \<longrightarrow>
        (\<forall>q \<in> set (tl (routes (rib ?c) ! j)). \<not> r_installed (route ?c q))"
    proof (intro allI impI ballI)
      fix j q assume j: "j < length (routes (rib ?c))" "j \<noteq> i" and q: "q \<in> set (tl (routes (rib ?c) ! j))"
      have "\<not> r_installed (route b q)"
        using d(8) j(1) q nth_mem [of j "routes (rib b)"] by (auto simp: rib_ok_def heads_installed_def c(2))
      moreover have "q \<in> set (routes (rib b) ! j)" using q by (cases "routes (rib b) ! j") (auto simp: c(2))
      then have "slot_of_route (st_heap (sources b)) q (rib b) = Found j"
        using slot_of_route_member j(1) d(8) by (auto simp: c(2) rib_ok_def)
      then have "q \<noteq> rt" using assms(3) j(2) by (auto simp: slot_for_def)
      ultimately show "\<not> r_installed (route ?c q)" by (simp add: h)
    qed
  qed
  then obtain rb' where rb': "move_installed_route rt (Found i) (rib ?c) = Some rb'"
    "rib_ok (st_heap (sources b)) rb'" "rib_routes rb' = R" "rib_heap rb' = rib_heap (rib ?c)"
    using c(3) by auto
  have e: "with_rib (move_installed_route rt (Found i)) ?c = b\<lparr>rib := rb'\<rparr>"
    by (simp add: with_rib_def rb'(1)) (simp add: set_installed_def upd_route_def)
  show "holds (routing R W E) (with_rib (move_installed_route rt (Found i)) ?c)"
    unfolding e by (rule routing_rib_same [OF assms(1) rb'(2,3)]) (simp_all only: rb'(4) h)
  show "r_installed (route (with_rib (move_installed_route rt (Found i)) ?c) rt)"
    unfolding e using h(6) [of rt] by (simp add: rb'(4))
qed

lemma routing_slot_tail:
  assumes "holds (routing R W E) b" "i < length (routes (rib b))" "q \<in> set (routes (rib b) ! i)"
    "r_installed (route b q)"
  shows "q = hd (routes (rib b) ! i)"
  using installed_head_iff [OF routingD(8) [OF assms(1)] nth_mem [OF assms(2)]] assms(3,4) by simp

lemma routing_install [routed]:
  assumes "holds (routing R W E) b" "rt \<in> R"
  shows "holds (routing R W E) (install_route rt b)"
proof -
  obtain i where i: "slot_for rt b = Found i" "i < length (routes (rib b))" "rt \<in> set (routes (rib b) ! i)"
    by (rule routing_slot [OF assms])
  let ?head = "hd (routes (rib b) ! i)"
  obtain rc c where k: "kinstall_route rt b = (rc, c)" by fastforce
  have kc: "kernel_only b c" by (rule kernel_result_only [OF kernel_kinstall [OF kernel_refl] k])
  note e = kernel_only_eqs [OF kc]
  have c: "holds (routing R W E) c" by (rule routing_kernel [OF assms(1) kc])
  have sc: "slot_for rt c = Found i" using i(1) by (simp add: slot_for_def e)
  have move: "holds (routing R W E) (with_rib (move_installed_route rt (Found i)) (set_installed True rt c))"
    if n: "\<not> r_installed (route b rt)" and h: "\<not> (?head \<noteq> rt \<and> r_installed (route b ?head))"
  proof (rule routing_move [OF c assms(2) sc])
    have "\<not> r_installed (route b ?head)" using n h by auto
    then show "\<forall>q \<in> set (routes (rib c) ! i). \<not> r_installed (route c q)"
      using routing_slot_tail [OF assms(1) i(2)] unfolding e(1) by metis
  qed
  show ?thesis
    unfolding install_route_def i(1) slot.case Let_def k prod.case
    using assms(1) c move by (auto intro: routing_basic)
qed

lemma routing_switch [routed]:
  assumes "holds (routing R W E) b" "new \<in> R"
    and "\<And>p. old = Some p \<Longrightarrow> p \<in> R \<and> src_dest_key (route_src b p) = src_dest_key (route_src b new)"
  shows "holds (routing R W E) (switch_routes old new b)"
proof (cases old)
  case None
  then show ?thesis using routing_install [OF assms(1,2)] by (simp add: switch_routes_def)
next
  case (Some old)
  note o = assms(3) [OF Some]
  obtain i where i: "slot_for new b = Found i" "i < length (routes (rib b))"
    "\<And>p. p \<in> R \<Longrightarrow> src_dest_key (route_src b p) = src_dest_key (route_src b new) \<longleftrightarrow> p \<in> set (routes (rib b) ! i)"
    using routing_slot [OF assms(1,2)] by metis
  have oi: "old \<in> set (routes (rib b) ! i)" using i(3) o by blast
  obtain rc c where k: "kswitch_routes old new b = (rc, c)" by fastforce
  show ?thesis
  proof (cases "r_installed (route b old)")
    case False
    then show ?thesis using assms(1) Some by (simp add: switch_routes_def)
  next
    case True
    have kc: "kernel_only b c"
      by (rule kernel_result_only [OF kernel_kswitch [OF kernel_refl] k])
        (use routing_installed(2) [OF assms(1)] o True in simp)
    note e = kernel_only_eqs [OF kc]
    have c: "holds (routing R W E) c" by (rule routing_kernel [OF assms(1) kc])
    let ?c = "set_installed False old c"
    have c': "holds (routing R W E) ?c" unfolding set_installed_def by (intro routed c harmless_fields)
    have src: "r_src (route ?c p) = r_src (route b p)" for p by (simp add: set_installed_def e)
    have sc: "slot_for new ?c = Found i"
      using i(1) by (simp add: slot_for_def slot_of_route_def find_route_slot_def route_source_def src e)
        (simp add: set_installed_def e)
    have src2: "r_src (route (set_installed True new ?c) p) = r_src (route b p)" for p
      by (simp add: set_installed_def e)
    have sc2: "slot_for new (set_installed True new ?c) = Found i"
      using i(1) by (simp add: slot_for_def slot_of_route_def find_route_slot_def route_source_def src2 e)
        (simp add: set_installed_def e)
    have "holds (routing R W E) (with_rib (move_installed_route new (Found i)) (set_installed True new ?c))"
    proof (rule routing_move [OF c' assms(2) sc])
      show "\<forall>q \<in> set (routes (rib ?c) ! i). \<not> r_installed (route ?c q)"
        using routing_slot_tail [OF assms(1) i(2)] oi True by (auto simp: set_installed_def e)
    qed
    then show ?thesis
      unfolding switch_routes_def Some option.case k prod.case Let_def sc2
      using True c by (auto intro!: routing_basic)
  qed
qed

end
