(* ===== verification/Route_Safe2.thy ===== *)
theory Route_Safe2
  imports Route_Safe
begin

text \<open>
  The invariant of the routes through the decisions and through a received update: the
  operations from \<open>change_route_metric\<close> to \<open>update_route\<close>, and the removal of a route.
\<close>

section \<open>Metrics and updates\<close>

lemma routing_change_metric [routed]:
  assumes "holds (routing R W E) b" "rt \<in> R"
  shows "holds (routing R W E) (change_route_metric rt refmetric cost add b)"
proof -
  have s: "holds (routing R W E) (store_metric rt refmetric cost add c)" if "holds (routing R W E) c" for c
    unfolding store_metric_def by (intro inv_rules routed that harmless_fields)
  have k: "returns (\<lambda>_. routing R W E) (kchange_route_metric rt refmetric cost add b)" if "r_installed (route b rt)"
    using routing_kernel [OF assms(1) kernel_result_only [OF kernel_kchange [OF kernel_refl]]]
      routing_installed(2) [OF assms(1)] assms(2) that
    by (simp add: returns_def holds_def) (metis prod.collapse)
  show ?thesis
    unfolding change_route_metric_def let_values by (intro inv_rules s assms(1) k) auto
qed

lemma routing_retract [routed]:
  "holds (routing R W E) b \<Longrightarrow> rt \<in> R \<Longrightarrow> holds (routing R W E) (retract_route rt b)"
  unfolding retract_route_def by (rule routed)

lemma routing_update_about [routed]:
  assumes "holds (routing R W E) b" "dest_ok (s_prefix s) (s_plen s) (s_src_prefix s) (s_src_plen s)"
  shows "holds (routing R W E) (send_update_about u s b)"
  using assms by (cases u) (auto simp: send_update_about_def intro: routed)

lemma routing_triggered [routed]:
  assumes "holds (routing R W E) b" "rt \<in> R"
  shows "holds (routing R W E) (send_triggered_update rt oldsrc oldmetric b)"
  unfolding send_triggered_update_def let_values Let_def [where 'a = urgency]
  by (intro inv_rules routed assms routing_dest [where R = R and W = W and E = E, OF _ assms(2)])

section \<open>Choosing a route\<close>

lemma same_destination:
  assumes "holds (routing R W E) b" "p \<in> R" "q \<in> R"
  shows "src_dest_key (route_src b p) = src_dest_key (route_src b q) \<longleftrightarrow> fst (W p) = fst (W q)"
  unfolding routingD(6) [OF assms(1,2), symmetric] routingD(6) [OF assms(1,3), symmetric] by (simp add: who_def)

lemma routing_prefer:
  assumes "holds (routing R W E) b" "rt \<in> R"
  shows "returns (\<lambda>x c. routing R W E c \<and> (\<forall>p. x = Some (Some p) \<longrightarrow> p \<in> R \<and> fst (W p) = fst (W rt)))
    (prefer_route rt b)"
proof -
  have fi: "p \<in> R \<and> fst (W p) = fst (W rt)"
    if "find_installed (s_prefix (route_src b rt)) (s_plen (route_src b rt)) (s_src_prefix (route_src b rt))
          (s_src_plen (route_src b rt)) b = Some p" for p
    using that routing_installed(1) [OF assms(1)] same_destination [OF assms(1) _ assms(2)]
    by (auto simp: src_dest_key_def)
  have sm: "returns (\<lambda>x c. routing R W E c \<and> (\<forall>p. x = Some (Some p) \<longrightarrow> p \<in> R \<and> fst (W p) = fst (W rt)))
      (case route_smoothed_metric p b of (m, c) \<Rightarrow> case route_smoothed_metric rt c of (m', d) \<Rightarrow>
        (if m > m' then Some (Some p) else None, d))" if "p \<in> R \<and> fst (W p) = fst (W rt)" for p
    using routing_smoothed [OF assms(1), of p] routing_smoothed [of R W E _ rt] that
    by (auto simp: returns_def holds_def split_beta)
  show ?thesis
    unfolding prefer_route_def let_values
    by (intro returns_if returns_case_option sm fi; (simp add: returns_def holdsD [OF assms(1)]; blast dest: fi))
qed

lemma routing_replace:
  assumes "holds (routing R W E) b" "rt \<in> R" "\<And>p. old = Some p \<Longrightarrow> p \<in> R \<and> fst (W p) = fst (W rt)"
  shows "holds (routing R W E) (replace_route old rt b)"
proof -
  have s: "holds (routing R W E) (switch_routes old rt b)"
    using assms(3) same_destination [OF assms(1) _ assms(2)] by (intro routed assms(1,2)) auto
  show ?thesis
    unfolding replace_route_def let_values
    by (intro inv_rules routed s assms(2) routing_dest [where R = R and W = W and E = E, OF _ assms(2)])
qed

lemma routing_consider [routed]:
  assumes "holds (routing R W E) b" "rt \<in> R"
  shows "holds (routing R W E) (consider_route rt b)"
proof -
  obtain x c where p: "prefer_route rt b = (x, c)" by fastforce
  have "holds (routing R W E) c" "\<And>p. x = Some (Some p) \<Longrightarrow> p \<in> R \<and> fst (W p) = fst (W rt)"
    using routing_prefer [OF assms] by (auto simp: p returns_def holds_def)
  then show ?thesis
    using routing_replace [OF _ assms(2)] by (auto simp: consider_route_def p split: option.split)
qed

lemma routing_best_for:
  assumes "holds (routing R W E) b"
  obtains c where "best_for s b = (None, c)" "holds (routing R W E) c"
  | rt c where "best_for s b = (Some rt, c)" "rt \<in> R" "holds (routing R W E) c"
proof -
  obtain x c where "best_for s b = (x, c)" by fastforce
  moreover from this have "holds (routing R W E) c" "\<And>rt. x = Some rt \<Longrightarrow> rt \<in> R"
    using routing_best [OF assms, of "s_prefix s" "s_plen s" "s_src_prefix s" "s_src_plen s" True None]
    by (auto simp: best_for_def returns_def holds_def)
  ultimately show ?thesis using that by (cases x) auto
qed

lemma routing_changed [routed]:
  assumes "holds (routing R W E) b" "rt \<in> R"
  shows "holds (routing R W E) (route_changed rt oldsrc oldmetric b)"
proof -
  have "holds (routing R W E) (case best_for s b of (None, b) \<Rightarrow> b
      | (Some better, b) \<Rightarrow> if route_metric (route b better) < route_metric (route b rt) then consider_route better b else b)" for s
    by (rule routing_best_for [OF assms(1), of s]) (auto intro: routed)
  then show ?thesis
    unfolding route_changed_def by (intro inv_let holds_if routed assms)
qed

lemma routing_lost [routed]:
  assumes "holds (routing R W E) b" "source_dest_ok (src b p)"
  shows "holds (routing R W E) (route_lost p oldmetric b)"
proof (rule routing_best_for [OF assms(1), of "src b p"])
  fix rt c assume "best_for (src b p) b = (Some rt, c)" "rt \<in> R" "holds (routing R W E) c"
  then show ?thesis by (simp add: route_lost_def routed)
next
  fix c assume c: "best_for (src b p) b = (None, c)" "holds (routing R W E) c"
  have "sources c = sources b"
    using smooth_only_best [of b] c(1) by (metis best_for_def snd_conv smooth_only_def)
  then have s: "source_dest_ok (src c p)" using assms(2) by simp
  let ?d = "send_update_resend None (s_prefix (src c p)) (s_plen (src c p)) (s_src_prefix (src c p)) (s_src_plen (src c p)) c"
  have d: "holds (routing R W E) ?d" using s by (intro routed c(2)) (simp add: source_dest_ok_def)
  have "shape ?d = shape c" by (simp add: shaped)
  then have "source_dest_ok (src ?d p)"
    using s quiet_source_fields [OF shape_eqD(18) [of ?d c]] by (simp add: source_dest_ok_def)
  then show ?thesis
    using c d by (simp add: route_lost_def Let_def source_dest_ok_def routed)
qed

end
