(* ===== verification/Route_Safe3.thy ===== *)
theory Route_Safe3
  imports Route_Safe2
begin

text \<open>
  The invariant of the routes through a received update and through the removal of a route.
\<close>

lemma routing_source:
  "holds (routing R W E) b \<Longrightarrow> p \<in> set (snd E) \<Longrightarrow> source_dest_ok (src b p)"
  by (auto simp: holds_def routing_def counted_def)

lemma routing_used: "holds (routing R W E) b \<Longrightarrow> rt \<in> R \<Longrightarrow> r_src (route b rt) \<in> set (snd E)"
  by (auto simp: holds_def routing_def counted_def tables_ok_def)

lemma routing_lost_source [routed]:
  "holds (routing R W E) b \<Longrightarrow> p \<in> set (snd E) \<Longrightarrow> holds (routing R W E) (route_lost p oldmetric b)"
  by (rule routing_lost) (auto intro: routing_source)

lemma routing_unfeasible [routed]:
  assumes "holds (routing R W E) b" "p \<in> set (snd E)"
  shows "holds (routing R W E) (send_unfeasible_request nb force seqno metric p b)"
  using routing_source [OF assms] assms(1) unfolding send_unfeasible_request_def let_values
  by (intro holds_if routed) (auto simp: source_dest_ok_def)

lemma routing_cost:
  assumes "holds (routing R W E) b"
  obtains cost where "neighbour_cost nb b = (cost, b)" "0 \<le> cost" "cost \<le> INFINITY_METRIC"
proof (rule that [of "fst (neighbour_cost nb b)"])
  note c = neighbour_cost_ok [OF routingD(10) [OF assms], of nb]
  show "neighbour_cost nb b = (fst (neighbour_cost nb b), b)"
    using c by (metis prod.collapse)
  show "0 \<le> fst (neighbour_cost nb b)" "fst (neighbour_cost nb b) \<le> INFINITY_METRIC"
    using c by (simp_all add: Let_def)
qed

section \<open>The metric of a route follows its neighbour\<close>

lemma routing_update_metric [routed]:
  assumes "holds (routing R W E) b" "rt \<in> R"
  shows "holds (routing R W E) (update_route_metric rt b)"
proof -
  have c: "returns (\<lambda>_. routing R W E) (neighbour_cost nb c)" if "holds (routing R W E) c" for nb c
    using routing_cost [OF that, of nb] that by (metis inv_returns_pair)
  show ?thesis
    unfolding update_route_metric_def let_values Let_def [where 'a = ptr]
    by (intro inv_rules routed c assms harmless_fields)
qed

lemma routing_retract_neighbour [routed]:
  assumes "holds (routing R W E) b" "rt \<in> R"
  shows "holds (routing R W E) (retract_neighbour_route nb rt b)"
  unfolding retract_neighbour_route_def let_values by (intro inv_rules routed assms)

section \<open>Removing a route\<close>

definition hold_more :: "ptr \<Rightarrow> held \<Rightarrow> held" where
  "hold_more p E = ((fst E)(p := fst E p + 1), snd E)"

lemma snd_hold_more [simp]: "snd (hold_more p E) = snd E"
  by (simp add: hold_more_def)

text \<open>Replacing the source table by one in which the routes find their destinations.\<close>

lemma routing_sources:
  assumes "holds (routing R W E) b" "source_table_ok st" "st_slots st = snd E'"
    "\<And>q. q \<in> set (snd E') \<Longrightarrow> source_dest_ok (st_heap st q)"
    "\<And>q. q \<in> set (snd E) \<Longrightarrow> q \<in> set (snd E') \<and> src_dest_key (st_heap st q) = src_dest_key (src b q)"
    "\<And>q. card (users b q) + fst E' q \<le> s_route_count (st_heap st q)"
  shows "holds (routing R W E') (b\<lparr>sources := st\<rparr>)"
proof -
  note d = routingD [OF assms(1)]
  have u: "r_src (route b rt) \<in> set (snd E)" if "rt \<in> R" for rt using routing_used [OF assms(1) that] .
  have "rib_shape (st_heap st) (rib b) = rib_shape (st_heap (sources b)) (rib b)"
    using rib_shape_cong [of "rib b" "st_heap st" "rib_heap (rib b)" "st_heap (sources b)"] assms(5) u d(5) by simp
  then have rok: "rib_ok (st_heap st) (rib b)" using d(8) by (simp add: rib_ok_def)
  have n: "network_ok b" using d(1) by (simp add: ready_def holds_def)
  have "network_ok (b\<lparr>sources := st\<rparr>)"
    using n rok assms(4,5) u d(5) by (simp add: network_ok_def route_src_def)
  then have "ready (b\<lparr>sources := st\<rparr>)" using d(1) by (simp add: holds_def ready_def)
  moreover have "tables_ok (b\<lparr>sources := st\<rparr>)"
    using d(5) rok assms(2,3,5) u by (simp add: tables_ok_def)
  moreover have "users (b\<lparr>sources := st\<rparr>) q = users b q" for q by (simp add: users_def)
  then have "counted E' (b\<lparr>sources := st\<rparr>)" using assms(3,4,6) by (simp add: counted_def)
  moreover have "steady (b\<lparr>sources := st\<rparr>)" using d(9) steady_cong [of "b\<lparr>sources := st\<rparr>" b] by simp
  moreover have "who (b\<lparr>sources := st\<rparr>) q = who b q" if "q \<in> R" for q
    using assms(5) u that by (simp add: who_def route_src_def)
  ultimately show ?thesis using d(5,6,11) by (simp add: holds_def routing_def)
qed

lemma routing_table:
  assumes "holds (routing R W E) b"
  shows "source_table_ok (sources b)" "st_slots (sources b) = snd E"
    "card (users b q) + fst E q \<le> s_route_count (src b q)"
  using routingD(2,3) [OF assms] by (simp_all add: tables_ok_def counted_def)

lemma source_table_ok_count:
  assumes "source_table_ok st" "n \<le> 65535"
  shows "source_table_ok (st\<lparr>st_heap := (st_heap st)(p := (st_heap st p)\<lparr>s_route_count := n\<rparr>)\<rparr>)"
proof -
  let ?h = "(st_heap st)(p := (st_heap st p)\<lparr>s_route_count := n\<rparr>)"
  have "source_key (?h q) = source_key (st_heap st q)" "source_ok (st_heap st q) \<Longrightarrow> source_ok (?h q)" for q
    using assms(2) by (auto simp: source_key_def source_ok_def)
  then show ?thesis using assms(1) by (simp add: source_table_ok_def)
qed

lemma routing_count:
  assumes "holds (routing R W E) b" "n \<le> 65535" "card (users b p) + fst E' p \<le> n" "snd E' = snd E"
    "\<And>q. q \<noteq> p \<Longrightarrow> fst E' q \<le> fst E q"
  shows "holds (routing R W E') (b\<lparr>sources := (sources b)\<lparr>st_heap :=
      (st_heap (sources b))(p := (src b p)\<lparr>s_route_count := n\<rparr>)\<rparr>\<rparr>)"
proof (rule routing_sources [OF assms(1) source_table_ok_count])
  note t = routing_table [OF assms(1)]
  show "source_table_ok (sources b)" by (rule t(1))
  let ?st = "(sources b)\<lparr>st_heap := (st_heap (sources b))(p := (src b p)\<lparr>s_route_count := n\<rparr>)\<rparr>"
  show "st_slots ?st = snd E'" using t(2) assms(4) by simp
  show "source_dest_ok (st_heap ?st q)" if "q \<in> set (snd E')" for q
    using routing_source [OF assms(1), of q] that assms(4) by (auto simp: source_dest_ok_def)
  show "q \<in> set (snd E') \<and> src_dest_key (st_heap ?st q) = src_dest_key (src b q)" if "q \<in> set (snd E)" for q
    using that assms(4) by (simp add: src_dest_key_def)
  show "card (users b q) + fst E' q \<le> s_route_count (st_heap ?st q)" for q
    using assms(3) t(3) [of q] assms(5) [of q] by (cases "q = p") (auto intro: order_trans)
qed (rule assms(2))

lemma route_count_bound:
  assumes "holds (routing R W E) b" "p \<in> set (snd E)"
  shows "s_route_count (src b p) \<le> 65535"
  using routing_table(1,2) [OF assms(1)] assms(2) by (simp add: source_table_ok_def source_ok_def)

lemma routing_release:
  assumes "holds (routing R W (hold_more p E)) b" "p \<in> set (snd E)"
  shows "holds (routing R W E) (with_sources (release_source p) b)"
proof -
  let ?c = "s_route_count (src b p)"
  have c: "card (users b p) + fst E p + 1 \<le> ?c"
    using routing_table(3) [OF assms(1), of p] by (simp add: hold_more_def)
  have "holds (routing R W E) (b\<lparr>sources := (sources b)\<lparr>st_heap :=
      (st_heap (sources b))(p := (src b p)\<lparr>s_route_count := ?c - 1\<rparr>)\<rparr>\<rparr>)"
    using route_count_bound [OF assms(1), of p] assms(2) c
    by (intro routing_count [OF assms(1)]) (auto simp: hold_more_def)
  then show ?thesis using c by (simp add: with_sources_def release_source_def Let_def)
qed

lemma routing_retain:
  assumes "holds (routing R W E) b" "s_route_count (src b p) < 65535"
  shows "holds (routing R W (hold_more p E)) (with_sources (retain_source p) b)"
proof -
  have "holds (routing R W (hold_more p E)) (b\<lparr>sources := (sources b)\<lparr>st_heap :=
      (st_heap (sources b))(p := (src b p)\<lparr>s_route_count := s_route_count (src b p) + 1\<rparr>)\<rparr>\<rparr>)"
    using routing_table(3) [OF assms(1), of p] assms(2)
    by (intro routing_count [OF assms(1)]) (auto simp: hold_more_def)
  then show ?thesis using assms(2) by (simp add: with_sources_def retain_source_def Let_def)
qed

lemma routing_flush:
  assumes "holds (routing R W E) b" "rt \<in> R"
  shows "holds (routing (R - {rt}) W E) (flush_route rt b)"
proof -
  let ?p = "r_src (route b rt)" and ?m = "route_metric (route b rt)" and ?l = "r_installed (route b rt)"
  have p: "?p \<in> set (snd E)" by (rule routing_used [OF assms])
  define b1 where "b1 = (if ?l then uninstall_route rt b else b)"
  have b1: "holds (routing R W E) b1" unfolding b1_def by (intro holds_if routed assms)
  have p1: "r_src (route b1 rt) = ?p"
  proof -
    let ?b = "set_installed False rt b"
    have "kernel_only ?b (snd (kuninstall_route rt ?b))"
      by (rule kernel_start_returns) (rule kernel_kuninstall)
    from kernel_only_eqs(1) [OF this] show ?thesis
      by (simp add: b1_def uninstall_route_def Let_def emit_def) (simp add: set_installed_def)
  qed
  obtain i where i: "slot_for rt b1 = Found i" by (rule routing_slot [OF b1 assms(2)])
  obtain ok b2 where a: "c_alloc (emit (Notify_route LOCAL_FLUSH rt) b1) = (ok, b2)" by fastforce
  have b2: "holds (routing R W E) b2"
    using routing_basic(1) [OF routing_basic(2) [OF b1]] a by (metis holds_def returnsD)
  have r2: "rib b2 = rib b1" "sources b2 = sources b1"
    using a by (auto simp: c_alloc_def ask_def emit_def)
  note d = routingD [OF b2]
  have "slot_of_route (st_heap (sources b2)) rt (rib b2) = Found i" using i by (simp add: slot_for_def r2)
  from unlink_route_ok [OF d(8) _ this, of ok] obtain rb where
    rb: "unlink_route ok rt i (rib b2) = Some rb" "rib_ok (st_heap (sources b2)) rb"
      "rib_routes rb = R - {rt}" "rib_heap rb = rib_heap (rib b2)"
    using assms(2) d(5) by auto
  have b3: "holds (routing (R - {rt}) W (hold_more ?p E)) (b2\<lparr>rib := rb\<rparr>)"
  proof (rule routing_rib [OF b2 rb(2,3)])
    show "route_fits b2 (W q) (rib_heap rb q)" if "q \<in> R - {rt}" for q
      using routing_fits [OF b2, of q] that by (simp add: rb(4))
    show "\<forall>p. card {q \<in> R - {rt}. r_src (rib_heap rb q) = p} + fst (hold_more ?p E) p \<le> s_route_count (src b2 p)"
    proof
      fix q
      let ?u = "{q' \<in> R - {rt}. r_src (rib_heap rb q') = q}"
      have fin: "finite R" using d(5) by (auto simp: rib_routes_def)
      have old: "card (users b2 q) + fst E q \<le> s_route_count (src b2 q)" by (rule routing_table(3) [OF b2])
      show "card ?u + fst (hold_more ?p E) q \<le> s_route_count (src b2 q)"
      proof (cases "q = ?p")
        case True
        have "users b2 q = insert rt ?u"
          using assms(2) d(5) p1 True by (auto simp: users_def rb(4) r2)
        then have "card (users b2 q) = Suc (card ?u)" using fin by simp
        then show ?thesis using old True by (simp add: hold_more_def)
      next
        case False
        then have "users b2 q = ?u"
          using d(5) p1 by (auto simp: users_def rb(4) r2)
        then show ?thesis using old False by (simp add: hold_more_def)
      qed
    qed
  qed simp
  have "holds (routing (R - {rt}) W (hold_more ?p E)) (if ?l then route_lost ?p ?m (b2\<lparr>rib := rb\<rparr>) else b2\<lparr>rib := rb\<rparr>)"
    by (intro holds_if routed b3) (simp_all add: p)
  from routing_release [OF this p] show ?thesis
    unfolding flush_route_def Let_def b1_def [symmetric] i slot.case a prod.case
    by (simp add: with_rib_def rb(1) split: if_splits)
qed

end
