(* ===== verification/Route_Safe4.thy ===== *)
theory Route_Safe4
  imports Route_Safe3
begin

text \<open>
  The invariant through a received update.  Afterwards \<open>daemon_ok\<close>, the invariant without its
  parameters, and what an update does to the set of routes.
\<close>

section \<open>An update for a route that is there\<close>

lemma harmless_channels: "n \<le> int (length cs) \<Longrightarrow>
    harmless (\<lambda>r. r\<lparr>r_channels := take (nat n) cs @ drop (nat n) room, r_channels_len := n\<rparr>)"
  by (auto simp: harmless_def)

lemma routing_channels [routed]:
  assumes "holds (routing R W E) b" "rt \<in> R"
  shows "holds (routing R W E) (set_channels rt channels b)"
proof -
  let ?r = "route b rt" and ?n = "int (length channels)"
  have len: "r_channels_len ?r \<le> int (length (r_channels ?r))"
    using assms by (auto simp: holds_def routing_def ready_def network_ok_def)
  have z: "harmless (\<lambda>r. r\<lparr>r_channels := [], r_channels_len := 0\<rparr>)" by (simp add: harmless_def)
  obtain ok c where c: "(if ?n \<noteq> r_channels_len ?r then c_alloc b else (False, b)) = (ok, c)" by fastforce
  have hc: "holds (routing R W E) c"
    using routing_basic(1) [OF assms(1)] assms(1) c by (auto simp: returns_def holds_def split: if_splits)
  let ?len = "if ?n = r_channels_len ?r \<or> ok then ?n else min ?n (r_channels_len ?r)"
  let ?room = "if ok then replicate (nat ?n) 0 else r_channels ?r"
  have fit: "\<not> int (length ?room) < ?len" using len by auto
  have le: "?len \<le> ?n" by auto
  have eq: "set_channels rt channels b =
      (if ?n = 0 then upd_route rt (\<lambda>r. r\<lparr>r_channels := [], r_channels_len := 0\<rparr>) b
       else upd_route rt (\<lambda>r. r\<lparr>r_channels := take (nat ?len) channels @ drop (nat ?len) ?room, r_channels_len := ?len\<rparr>) c)"
    unfolding set_channels_def Let_def c prod.case using fit by (simp only: if_False)
  show ?thesis
    unfolding eq
    by (intro holds_if routing_upd_route [OF assms(1) z] routing_upd_route [OF hc harmless_channels [OF le]])
qed

lemma routing_set_source:
  assumes "holds (routing R W (hold_more p E)) b" "rt \<in> R" "p \<in> set (snd E)" "src_dest_key (src b p) = fst (W rt)"
  shows "holds (routing R W (hold_more (r_src (route b rt)) E)) (upd_route rt (\<lambda>r. r\<lparr>r_src := p\<rparr>) b)"
proof -
  note d = routingD [OF assms(1)]
  let ?o = "r_src (route b rt)" and ?rb = "rib (upd_route rt (\<lambda>r. r\<lparr>r_src := p\<rparr>) b)"
  have h: "rib_heap ?rb q = (if q = rt then (route b rt)\<lparr>r_src := p\<rparr> else route b q)" for q by simp
  have key: "src_dest_key (src b p) = src_dest_key (src b ?o)"
    using assms(4) d(6) [OF assms(2)] by (metis who_def route_src_def fst_conv)
  have e: "upd_route rt (\<lambda>r. r\<lparr>r_src := p\<rparr>) b = b\<lparr>rib := ?rb\<rparr>" by (simp add: upd_route_def)
  have k: "src_dest_key (src b (r_src (rib_heap ?rb q))) = src_dest_key (src b (r_src (route b q)))" for q
    using key by (simp add: h)
  have fin: "finite R" using d(5) by (auto simp: rib_routes_def)
  show ?thesis
  proof (subst e, rule routing_rib [OF assms(1)])
    show "rib_ok (st_heap (sources b)) ?rb"
      using d(8) rib_shape_cong [of "rib b" "st_heap (sources b)" "rib_heap ?rb" "st_heap (sources b)"] k
        heads_installed_cong [of "rib b" "rib_heap ?rb"] h
      by (simp add: rib_ok_def upd_route_def)
    show "rib_routes ?rb = R" using d(5) by simp
    show "route_fits b (W q) (rib_heap ?rb q)" if "q \<in> R" for q
      using routing_fits [OF assms(1) that] k [of q] assms(3) routing_source [OF assms(1), of p] routing_table(2) [OF assms(1)]
      by (auto simp: h route_fits_def)
    show "\<forall>q. card {q' \<in> R. r_src (rib_heap ?rb q') = q} + fst (hold_more ?o E) q \<le> s_route_count (src b q)"
    proof
      fix q
      let ?n = "{q' \<in> R. r_src (rib_heap ?rb q') = q}" and ?u = "users b q"
      have old: "card ?u + fst (hold_more p E) q \<le> s_route_count (src b q)" by (rule routing_table(3) [OF assms(1)])
      have u: "?u = {q' \<in> R. r_src (route b q') = q}" using d(5) by (simp add: users_def)
      have fu: "finite ?u" "finite ?n" using fin by (simp_all add: u)
      show "card ?n + fst (hold_more ?o E) q \<le> s_route_count (src b q)"
      proof (cases "p = ?o")
        case True
        then have "?n = ?u" unfolding u by (intro Collect_cong) (auto simp: h)
        then show ?thesis using old True by simp
      next
        case False
        consider "q = p" | "q = ?o" | "q \<noteq> p \<and> q \<noteq> ?o" by blast
        then show ?thesis
        proof cases
          case 1
          then have "?n = insert rt ?u" "rt \<notin> ?u" using assms(2) False unfolding u by (auto simp: h)
          then have "card ?n = Suc (card ?u)" using fu by simp
          then show ?thesis using old 1 False by (simp add: hold_more_def)
        next
          case 2
          then have "?u = insert rt ?n" "rt \<notin> ?n" using assms(2) False unfolding u by (auto simp: h)
          then have "card ?u = Suc (card ?n)" using fu by simp
          then show ?thesis using old 2 False by (simp add: hold_more_def)
        next
          case 3
          then have "?n = ?u" unfolding u by (intro Collect_cong) (auto simp: h)
          then show ?thesis using old 3 by (simp add: hold_more_def)
        qed
      qed
    qed
  qed simp
qed

lemma uninstall_frame:
  "sources (uninstall_route rt b) = sources b" "r_src (route (uninstall_route rt b) q) = r_src (route b q)"
proof -
  let ?b = "set_installed False rt b"
  have "kernel_only ?b (snd (kuninstall_route rt ?b))"
    by (rule kernel_start_returns) (rule kernel_kuninstall)
  from kernel_only_eqs(1,2) [OF this]
  show "sources (uninstall_route rt b) = sources b" "r_src (route (uninstall_route rt b) q) = r_src (route b q)"
    by (simp_all add: uninstall_route_def Let_def emit_def) (simp_all add: set_installed_def)
qed

lemma routing_update_old:
  assumes "holds (routing R W E) b" "rt \<in> R" "p \<in> set (snd E)" "src_dest_key (src b p) = fst (W rt)"
    "s_route_count (src b p) < 65535"
  shows "holds (routing R W E)
    (update_old_route rt p feasible seqno refmetric metric add_metric hold_time nb channels b)"
proof -
  let ?o = "r_src (route b rt)"
  have o: "?o \<in> set (snd E)" by (rule routing_used [OF assms(1,2)])
  define lost where "lost = (\<not> feasible \<and> r_installed (route b rt) \<and> p \<noteq> ?o)"
  define b1 where "b1 = (if lost then uninstall_route rt b else b)"
  have b1: "holds (routing R W E) b1" unfolding b1_def by (intro holds_if routed assms(1))
  have f1: "sources b1 = sources b" "r_src (route b1 rt) = ?o" by (simp_all add: b1_def uninstall_frame)
  let ?b2 = "with_sources (retain_source p) b1"
  have b2: "holds (routing R W (hold_more p E)) ?b2"
    by (rule routing_retain [OF b1]) (simp add: f1 assms(5))
  have f2: "src_dest_key (src ?b2 p) = src_dest_key (src b p)" "r_src (route ?b2 rt) = ?o"
    using f1 assms(5) by (simp_all add: with_sources_def retain_source_def src_dest_key_def Let_def)
  have b3: "holds (routing R W (hold_more ?o E)) (upd_route rt (\<lambda>r. r\<lparr>r_src := p\<rparr>) ?b2)"
    using routing_set_source [OF b2 assms(2,3)] f2 assms(4) by simp
  have c: "returns (\<lambda>_. routing R W (hold_more ?o E)) (neighbour_cost nb c)"
    if "holds (routing R W (hold_more ?o E)) c" for nb c
    using routing_cost [OF that, of nb] that by (metis inv_returns_pair)
  have "holds (routing R W (hold_more ?o E))
     (let b = upd_route rt (\<lambda>r. r\<lparr>r_src := p\<rparr>) ?b2;
          b = (if (feasible \<or> keep_unfeasible (conf b)) \<and> refmetric < INFINITY_METRIC
               then upd_route rt (\<lambda>r. r\<lparr>r_time := tv_sec (now b)\<rparr>) b else b);
          b = upd_route rt (\<lambda>r. r\<lparr>r_seqno := seqno\<rparr>) b;
          b = set_channels rt channels b
      in case neighbour_cost nb b of (cost, b) \<Rightarrow>
        let b = change_route_metric rt refmetric cost add_metric b;
            b = upd_route rt (\<lambda>r. r\<lparr>r_hold_time := hold_time\<rparr>) b;
            b = route_changed rt ?o (route_metric (route b0 rt)) b;
            b = (if lost then route_lost ?o (route_metric (route b0 rt)) b else b)
        in (if \<not> feasible
                 then send_unfeasible_request nb (r_installed (route b rt) \<and> route_old rt b) seqno metric p b
                 else b))" for b0
    by (intro inv_rules routed c b3 assms(2) harmless_fields) (simp_all add: o assms(3))
  from routing_release [OF this [of b] o] show ?thesis
    unfolding update_old_route_def let_values lost_def [symmetric] b1_def [symmetric]
    by (simp only: Let_def split_beta)
qed

section \<open>An update for a new route\<close>

lemma routing_weaken:
  assumes "holds (routing R W (hold_more p E)) b"
  shows "holds (routing R W E) b"
proof -
  have "counted E b" using routingD(3) [OF assms] unfolding counted_def
    by (auto simp: hold_more_def split: if_splits) (metis add_leD1 add_Suc_right Suc_leD le_trans le_add1 order_refl)
  then show ?thesis using assms by (simp add: holds_def routing_def)
qed

lemma routing_new_route:
  assumes "holds (routing R W E) b" "rt \<notin> R" "rib_fresh (rib b) \<le> n"
  shows "holds (routing R W E) (b\<lparr>rib := (rib b)\<lparr>rib_fresh := n, rib_heap := (rib_heap (rib b))(rt := r)\<rparr>\<rparr>)"
proof -
  note d = routingD [OF assms(1)]
  let ?rb = "(rib b)\<lparr>rib_fresh := n, rib_heap := (rib_heap (rib b))(rt := r)\<rparr>"
  have same: "rib_heap ?rb q = route b q" if "q \<in> R" for q using that assms(2) by auto
  have u: "rib_routes ?rb = R" using d(5) by (simp add: rib_routes_def)
  have s: "rib_ok (st_heap (sources b)) ((rib b)\<lparr>rib_heap := (rib_heap (rib b))(rt := r)\<rparr>)"
    using d(8) rib_shape_cong [of "rib b" "st_heap (sources b)" "rib_heap ?rb" "st_heap (sources b)"]
      heads_installed_cong [of "rib b" "rib_heap ?rb"] same d(5)
    by (simp add: rib_ok_def)
  then have "rib_shape (st_heap (sources b)) ?rb"
    using assms(3) unfolding rib_ok_def rib_shape_def by (fastforce simp: less_Suc_eq)
  then have ok: "rib_ok (st_heap (sources b)) ?rb" using s by (simp add: rib_ok_def heads_installed_def)
  show ?thesis
  proof (rule routing_rib [OF assms(1) ok u])
    show "route_fits b (W q) (rib_heap ?rb q)" if "q \<in> R" for q
      using routing_fits [OF assms(1) that] same [OF that] by simp
    have "{q' \<in> R. r_src (rib_heap ?rb q') = q} = users b q" for q
      using d(5) assms(2) unfolding users_def by (intro Collect_cong) auto
    then show "\<forall>q. card {q' \<in> R. r_src (rib_heap ?rb q') = q} + fst E q \<le> s_route_count (src b q)"
      using routing_table(3) [OF assms(1)] by simp
  qed simp
qed

lemma routing_write_new:
  assumes "holds (routing R W E) b" "rt \<notin> R"
  shows "holds (routing R W E) (upd_route rt f b)"
proof -
  have "upd_route rt f b = b\<lparr>rib := (rib b)\<lparr>rib_fresh := rib_fresh (rib b),
      rib_heap := (rib_heap (rib b))(rt := f (route b rt))\<rparr>\<rparr>" by (simp add: upd_route_def)
  then show ?thesis using routing_new_route [OF assms order_refl] by simp
qed

lemma routing_insert:
  assumes "holds (routing R W (hold_more p E)) b" "rt \<notin> R" "rt < rib_fresh (rib b)"
    and "r_src (route b rt) = p" "p \<in> set (snd E)" "\<not> r_installed (route b rt)"
    and "r_channels_len (route b rt) \<le> int (length (r_channels (route b rt)))"
    and "Rib.insert_route ok (st_heap (sources b)) rt (rib b) = Some (Some rt', rb)"
    and "r_neigh (route b rt) \<in> set (neighs (nbrs b))"
  shows "holds (routing (insert rt R) (W(rt := who b rt)) E) (b\<lparr>rib := rb\<rparr>)"
proof -
  note d = routingD [OF assms(1)]
  have r: "rib_ok (st_heap (sources b)) rb" "rib_routes rb = insert rt R" "rib_heap rb = rib_heap (rib b)"
    using insert_route_ok [OF d(8) _ assms(3,8)] assms(2) d(5) by auto
  show ?thesis
  proof (rule routing_rib [OF assms(1) r(1,2)])
    show "route_fits b ((W(rt := who b rt)) q) (rib_heap rb q)" if q: "q \<in> insert rt R" for q
    proof (cases "q = rt")
      case True
      have "source_dest_ok (src b p)" by (rule routing_source [OF assms(1)]) (simp add: assms(5))
      then show ?thesis using True assms(4,5,7,9) routing_table(2) [OF assms(1)]
        by (simp add: route_fits_def r(3) who_def route_src_def)
    next
      case False
      then show ?thesis using routing_fits [OF assms(1), of q] q by (simp add: r(3))
    qed
    show "\<forall>q. card {q' \<in> insert rt R. r_src (rib_heap rb q') = q} + fst E q \<le> s_route_count (src b q)"
    proof
      fix q
      have u: "users b q = {q' \<in> R. r_src (route b q') = q}" using d(5) by (simp add: users_def)
      have fin: "finite (users b q)" using d(5) by (auto simp: users_def rib_routes_def)
      have old: "card (users b q) + fst (hold_more p E) q \<le> s_route_count (src b q)"
        by (rule routing_table(3) [OF assms(1)])
      show "card {q' \<in> insert rt R. r_src (rib_heap rb q') = q} + fst E q \<le> s_route_count (src b q)"
      proof (cases "q = p")
        case True
        then have "{q' \<in> insert rt R. r_src (rib_heap rb q') = q} = insert rt (users b q)" "rt \<notin> users b q"
          using assms(2,4) unfolding u r(3) by auto
        then have "card {q' \<in> insert rt R. r_src (rib_heap rb q') = q} = Suc (card (users b q))" using fin by simp
        then show ?thesis using old True by (simp add: hold_more_def)
      next
        case False
        then have "{q' \<in> insert rt R. r_src (rib_heap rb q') = q} = users b q"
          using assms(4) unfolding u r(3) by auto
        then show ?thesis using old False by (simp add: hold_more_def)
      qed
    qed
  qed simp
qed

lemma routing_add_new:
  assumes "holds (routing R W E) b" "p \<in> set (snd E)" "s_route_count (src b p) < 65535"
    and nb: "nb \<in> set (neighs (nbrs b))"
    and "add_new_route p feasible seqno refmetric metric add_metric hold_time nb nexthop channels b = (x, b')"
  shows "case x of None \<Rightarrow> holds (routing R W E) b'
    | Some rt \<Rightarrow> rt \<notin> R \<and>
        (\<exists>ifp. holds (routing (insert rt R) (W(rt := (src_dest_key (src b p), nb, take 16 nexthop, ifp))) E) b')"
proof -
  define b1 where "b1 = (if \<not> feasible then send_unfeasible_request nb False seqno metric p b else b)"
  have b1: "holds (routing R W E) b1" unfolding b1_def by (intro holds_if routed assms(1,2))
  have sh: "shape b1 = shape b" by (simp add: b1_def send_unfeasible_request_def Let_def shaped)
  note q = quiet_source_fields [OF shape_eqD(18) [OF sh]]
  have f1: "src_dest_key (src b1 p) = src_dest_key (src b p)" "s_route_count (src b1 p) < 65535"
    using assms(3) q by (simp_all add: src_dest_key_def)
  show ?thesis
  proof (cases "refmetric \<ge> INFINITY_METRIC \<or> (\<not> feasible \<and> \<not> keep_unfeasible (conf b1))")
    case True
    then have "x = None \<and> (b' = b \<or> b' = b1)"
      using assms(5) unfolding add_new_route_def Let_def b1_def [symmetric] by (auto split: if_splits)
    then show ?thesis using assms(1) b1 by auto
  next
    case False
    obtain ok b2 where a: "c_alloc b1 = (ok, b2)" by fastforce
    have b2: "holds (routing R W E) b2" using routing_basic(1) [OF b1] a by (simp add: returns_def holds_def)
    have ok: ok using routingD(4) [OF b1] a by (auto simp: allocs_succeed_def c_alloc_def ask_def)
    have r2: "rib b2 = rib b1" "sources b2 = sources b1" using a by (auto simp: c_alloc_def ask_def)
    let ?rt = "rib_fresh (rib b2)"
    have fresh: "?rt \<notin> R"
      using routingD(5,8) [OF b2] by (auto simp: rib_ok_def rib_shape_def rib_routes_def)
    let ?b3 = "with_sources (retain_source p) b2"
    have b3: "holds (routing R W (hold_more p E)) ?b3"
      by (rule routing_retain [OF b2]) (simp add: r2 f1)
    have r3: "rib ?b3 = rib b2" "src_dest_key (src ?b3 p) = src_dest_key (src b p)"
      using f1 by (simp_all add: with_sources_def retain_source_def Let_def r2 src_dest_key_def)
    obtain cost where c: "neighbour_cost nb ?b3 = (cost, ?b3)" by (rule routing_cost [OF b3])
    define r where "r = new_route p seqno refmetric cost add_metric hold_time nb nexthop (tv_sec (now ?b3))"
    define b4 where "b4 = ?b3\<lparr>rib := (rib ?b3)\<lparr>rib_fresh := ?rt + 1, rib_heap := (rib_heap (rib ?b3))(?rt := r)\<rparr>\<rparr>"
    have b4: "holds (routing R W (hold_more p E)) b4"
      unfolding b4_def by (rule routing_new_route [OF b3 fresh]) (simp add: r3)
    obtain chans b5 where c5: "(if channels \<noteq> [] then c_alloc b4 else (False, b4)) = (chans, b5)" by fastforce
    have b5: "holds (routing R W (hold_more p E)) b5"
      using routing_basic(1) [OF b4] b4 c5 by (auto simp: returns_def holds_def split: if_splits)
    have r5: "rib b5 = rib b4" "sources b5 = sources b4" using c5 by (auto simp: c_alloc_def ask_def split: if_splits)
    define b6 where "b6 = upd_route ?rt (\<lambda>r. r\<lparr>r_channels := (if chans then channels else [])\<rparr>) b5"
    have route5: "route b5 ?rt = r" by (simp add: r5 b4_def)
    have b6: "holds (routing R W (hold_more p E)) b6"
      unfolding b6_def by (rule routing_write_new [OF b5 fresh])
    have h6: "sources b6 = sources b5" "rib_fresh (rib b6) = ?rt + 1"
      "route b6 ?rt = r\<lparr>r_channels := (if chans then channels else [])\<rparr>"
      by (simp_all add: b6_def route5) (simp add: r5 b4_def)
    have new: "r_src r = p" "\<not> r_installed r" "r_channels_len r = 0" "r_neigh r = nb" "r_nexthop r = take 16 nexthop"
      by (simp_all add: r_def new_route_def route_zero_def Let_def)
    obtain ok' b7 where c7: "c_alloc b6 = (ok', b7)" by fastforce
    have b7: "holds (routing R W (hold_more p E)) b7"
      using routing_basic(1) [OF b6] c7 by (simp add: returns_def holds_def)
    have r7: "rib b7 = rib b6" "sources b7 = sources b6" using c7 by (auto simp: c_alloc_def ask_def)
    have ok': ok' using routingD(4) [OF b6] c7 by (auto simp: allocs_succeed_def c_alloc_def ask_def)
    have "rib_shape (st_heap (sources b7)) (rib b7)" using routingD(8) [OF b7] by (simp add: rib_ok_def)
    from insert_route_total [OF this, of ?rt ok'] obtain rb where
      ins: "Rib.insert_route ok' (st_heap (sources b7)) ?rt (rib b7) = Some (Some ?rt, rb)"
      using ok' h6(3) new(2) by (auto simp: r7)
    have "nbrs b2 = nbrs b1" using a by (auto simp: c_alloc_def ask_def)
    then have "nbrs b4 = nbrs b1" by (simp add: b4_def with_sources_def raise_fault_def split: option.split)
    moreover have "nbrs b5 = nbrs b4" using c5 by (auto simp: c_alloc_def ask_def split: if_splits)
    moreover have "nbrs b6 = nbrs b5" by (simp add: b6_def)
    moreover have "nbrs b7 = nbrs b6" using c7 by (auto simp: c_alloc_def ask_def)
    ultimately have "nbrs b7 = nbrs b1" by simp
    then have nb7: "nb \<in> set (neighs (nbrs b7))" using nb shape_eqD(9) [OF sh] by simp
    have b8: "holds (routing (insert ?rt R) (W(?rt := who b7 ?rt)) E) (b7\<lparr>rib := rb\<rparr>)"
      by (rule routing_insert [OF b7 fresh _ _ assms(2) _ _ ins]) (simp_all add: r7 h6 new nb7)
    have w: "who b7 ?rt = (src_dest_key (src b p), nb, take 16 nexthop, n_ifp (neigh b7 nb))"
      using r3(2) by (simp add: who_def route_src_def r7 h6 new r5) (simp add: b4_def)
    have b9: "holds (routing (insert ?rt R) (W(?rt := who b7 ?rt)) E)
        (consider_route ?rt (emit (Notify_route LOCAL_ADD ?rt) (b7\<lparr>rib := rb\<rparr>)))"
      by (intro routing_consider routing_basic b8) simp
    have "add_new_route p feasible seqno refmetric metric add_metric hold_time nb nexthop channels b =
        (Some ?rt, consider_route ?rt (emit (Notify_route LOCAL_ADD ?rt) (b7\<lparr>rib := rb\<rparr>)))"
      unfolding add_new_route_def Let_def b1_def [symmetric] a prod.case c r_def [symmetric] b4_def [symmetric] c5
        b6_def [symmetric] c7 ins
      using False ok by simp
    then show ?thesis using assms(5) fresh b9 by (auto simp: w)
  qed
qed

end
