(* ===== verification/Route_Props.thy ===== *)
theory Route_Props
  imports Route_Safe4
begin

text \<open>
  What \<open>route.c\<close> promises: a received update leaves the daemon's tables well formed; the routes
  of a neighbour or of an interface are all removed, and the loops that remove them end; the
  best route is the best; a route is chosen only when it is feasible.
\<close>

section \<open>The invariant of the daemon\<close>

text \<open>
  \<open>daemon_ok\<close>: the buffers, the tables, the reference counts, the destinations in the source
  table, the ranges of the costs; and the allocations succeed.
\<close>

definition daemon_ok :: "babel \<Rightarrow> bool" where
  "daemon_ok b \<longleftrightarrow>
     ready b \<and> tables_ok b \<and> steady b \<and>
     (\<forall>p \<in> set (st_slots (sources b)). source_dest_ok (src b p)) \<and>
     (\<forall>p. card (users b p) \<le> s_route_count (src b p)) \<and>
     (\<forall>rt \<in> rib_routes (rib b). r_neigh (route b rt) \<in> set (neighs (nbrs b)))"

definition held_now :: "babel \<Rightarrow> held" where
  "held_now b = ((\<lambda>_. 0), st_slots (sources b))"

lemma daemon_ok_routing: "daemon_ok b \<longleftrightarrow> holds (routing (rib_routes (rib b)) (who b) (held_now b)) b"
  by (auto simp: daemon_ok_def holds_def routing_def counted_def held_now_def who_def)

lemma routing_daemon_ok: "holds (routing R W E) b \<Longrightarrow> daemon_ok b"
  using routing_linked [of R W E b] unfolding holds_def routing_def daemon_ok_def counted_def using add_leD1 by blast

text \<open>
  The source table takes an entry for a destination: no entry of the same router and prefixes
  has another source prefix length (\<open>find_source\<close> would return that one).
\<close>

definition source_fits :: "byte list \<Rightarrow> byte list \<Rightarrow> nat \<Rightarrow> byte list \<Rightarrow> nat \<Rightarrow> babel \<Rightarrow> bool" where
  "source_fits rid prefix plen src_prefix src_plen b \<longleftrightarrow>
     (\<forall>p \<in> set (st_slots (sources b)).
        source_key (src b p) = wanted_key rid prefix plen src_prefix \<longrightarrow> s_src_plen (src b p) = src_plen)"

lemma source_key_dest_key:
  assumes "source_key s = wanted_key rid prefix plen src_prefix" "s_src_plen s = src_plen"
  shows "src_dest_key s = dest_key prefix plen src_prefix src_plen"
  using assms by (auto simp: source_key_def wanted_key_def src_dest_key_def dest_key_def)

lemma routing_find_source:
  assumes "holds (routing R W E) b" "fst E = (\<lambda>_. 0)" "dest_ok prefix plen src_prefix src_plen" "length rid = 8"
    "source_fits rid prefix plen src_prefix src_plen b" "\<forall>q. s_route_count (src b q) < 65535"
  obtains p b' E' where "g_find_source rid prefix plen src_prefix src_plen True seqno b = (Some p, b')"
    "holds (routing R W E') b'" "p \<in> set (snd E')" "rib b' = rib b"
    "src_dest_key (src b' p) = dest_key prefix plen src_prefix src_plen" "s_route_count (src b' p) < 65535"
proof -
  obtain ok1 b1 where a1: "c_alloc b = (ok1, b1)" by fastforce
  obtain ok2 b2 where a2: "c_alloc b1 = (ok2, b2)" by fastforce
  have b1: "holds (routing R W E) b1" using routing_basic(1) [OF assms(1)] a1 by (simp add: returns_def holds_def)
  have b2: "holds (routing R W E) b2" using routing_basic(1) [OF b1] a2 by (simp add: returns_def holds_def)
  have ok: ok1 ok2
    using routingD(4) [OF assms(1)] routingD(4) [OF b1] a1 a2 by (auto simp: allocs_succeed_def c_alloc_def ask_def)
  have r: "rib b2 = rib b" "sources b2 = sources b" using a1 a2 by (auto simp: c_alloc_def ask_def)
  note t = routing_table [OF b2]
  let ?find = "find_source ok1 ok2 (tv_sec (now b2)) rid prefix plen src_prefix src_plen True seqno (sources b2)"
  let ?new = "new_source rid prefix plen src_prefix src_plen seqno (tv_sec (now b2))"
  have len: "length prefix = 16" "length src_prefix = 16" using assms(3) by (auto simp: dest_ok_def)
  show ?thesis
    using t(1)
  proof (cases rule: find_source_cases [where rid = rid and prefix = prefix and plen = plen
        and src_prefix = src_prefix and src_plen = src_plen and ca = ok1 and ra = ok2 and now = "tv_sec (now b2)"
        and create = True and seqno = seqno])
    case (1 i)
    let ?p = "st_slots (sources b) ! i"
    note f = find_source_slot_found [OF 1(1)]
    have p: "?p \<in> set (st_slots (sources b))" using f by (simp add: r)
    have "src_dest_key (src b ?p) = dest_key prefix plen src_prefix src_plen"
      using source_key_dest_key f assms(5) p by (simp add: source_fits_def r)
    then show ?thesis
      by (intro that [of ?p b2 E])
        (use 1(2) b2 p t(2) assms(6) in \<open>simp_all add: g_find_source_def a1 a2 r\<close>)
  next
    case (2 n)
    let ?st = "insert_source n ?new (sources b2)" and ?p = "st_fresh (sources b2)"
    let ?E = "(fst E, st_slots ?st)"
    have n: "n \<le> length (st_slots (sources b2))" using find_source_slot_missing [OF t(1) 2(1)] by simp
    have td: "set (take n xs) \<union> set (drop n xs) = set xs" for xs :: "ptr list"
      by (metis append_take_drop_id set_append)
    have slots: "set (st_slots ?st) = insert ?p (set (st_slots (sources b2)))"
      unfolding td [of "st_slots (sources b2)", symmetric] by (simp add: insert_source_def)
    have fresh: "q < ?p" if "q \<in> set (st_slots (sources b2))" for q using t(1) that by (auto simp: source_table_ok_def)
    have heap: "st_heap ?st q = (if q = ?p then ?new else src b2 q)" for q by (simp add: insert_source_def)
    have ok_new: "source_dest_ok ?new" using assms(3,4) len by (simp add: source_dest_ok_def new_source_def)
    have un: "users b2 ?p = {}"
      using routing_used [OF b2] fresh routingD(5) [OF b2] t(2) by (force simp: users_def)
    have "holds (routing R W ?E) (b2\<lparr>sources := ?st\<rparr>)"
    proof (rule routing_sources [OF b2])
      show "source_table_ok ?st"
        by (rule insert_source_ok [OF t(1) 2(1) new_source_ok source_key_new_source]) (simp_all add: assms(4) len)
      show "source_dest_ok (st_heap ?st q)" if "q \<in> set (snd ?E)" for q
        using that routing_source [OF b2] t(2) ok_new by (auto simp: heap slots)
      show "q \<in> set (snd ?E) \<and> src_dest_key (st_heap ?st q) = src_dest_key (src b2 q)" if "q \<in> set (snd E)" for q
        using that fresh [of q] t(2) by (auto simp: heap slots)
      show "card (users b2 q) + fst ?E q \<le> s_route_count (st_heap ?st q)" for q
        using t(3) [of q] un assms(2) by (simp add: heap)
    qed simp
    note inv = this
    have g: "g_find_source rid prefix plen src_prefix src_plen True seqno b = (Some ?p, b2\<lparr>sources := ?st\<rparr>)"
      by (simp add: g_find_source_def a1 a2 2(4))
    have k: "src_dest_key ?new = dest_key prefix plen src_prefix src_plen" "s_route_count ?new = 0"
      by (simp_all add: new_source_def src_dest_key_def dest_key_def)
    show ?thesis
      by (rule that [OF g inv]) (simp_all add: slots heap k r(1))
  qed (use ok in auto)
qed

lemma update_source_for_nbrs: "nbrs (snd (update_source_for rt rid prefix plen src_prefix src_plen seqno b)) = nbrs b"
  by (auto simp: update_source_for_def g_find_source_def c_alloc_def ask_def raise_fault_def split: option.split)

lemma routing_find_route:
  assumes "holds (routing R W E) b" "find_route (st_heap (sources b)) prefix plen src_prefix src_plen nb nexthop (rib b) = Some rt"
  shows "rt \<in> R \<and> src_dest_key (route_src b rt) = dest_key prefix plen src_prefix src_plen \<and> r_neigh (route b rt) = nb"
proof -
  note d = routingD [OF assms(1)]
  have shape: "rib_shape (st_heap (sources b)) (rib b)" using d(8) by (simp add: rib_ok_def)
  obtain i where i: "find_route_slot (st_heap (sources b)) prefix plen src_prefix src_plen (rib b) = Found i"
    using assms(2) by (auto simp: find_route_def split: slot.splits)
  then have rt: "rt \<in> set (routes (rib b) ! i)" "r_neigh (route b rt) = nb"
    using assms(2) by (auto simp: find_route_def find_Some_iff)
  have il: "i < length (routes (rib b))" using find_route_slot_found [OF i] by simp
  then have R: "rt \<in> R" using rt d(5) by (auto simp: rib_routes_iff)
  then show ?thesis
    using find_route_slot_dest [OF shape, of prefix plen src_prefix src_plen] i rt d(5)
    by (auto simp: route_src_def route_source_def)
qed

text \<open>What an update does to the routes: it may add one, of its destination, neighbour and next hop.\<close>

text \<open>The interfaces that routes lead through.\<close>

definition route_ifps :: "babel \<Rightarrow> ptr set" where
  "route_ifps b = route_ifp b ` rib_routes (rib b)"

lemma routing_ifps:
  assumes "holds (routing R W E) c"
  shows "route_ifps c = (\<lambda>rt. snd (snd (snd (W rt)))) ` R"
proof -
  have "route_ifp c rt = snd (snd (snd (W rt)))" if "rt \<in> R" for rt
    using routingD(6) [OF assms that, symmetric] by (simp add: who_def route_ifp_def)
  then show ?thesis using routingD(5) [OF assms] by (simp add: route_ifps_def)
qed

lemma who_ifps: "(\<lambda>rt. snd (snd (snd (who b rt)))) ` rib_routes (rib b) = route_ifps b"
  by (simp add: route_ifps_def who_def route_ifp_def)

lemma update_route_result:
  assumes "daemon_ok b" "dest_ok prefix plen src_prefix src_plen" "length rid = 8"
    "source_fits rid prefix plen src_prefix src_plen b" "\<forall>q. s_route_count (src b q) < 65535"
    and nb: "nb \<in> set (neighs (nbrs b))"
    and u: "update_route rid prefix plen src_prefix src_plen seqno refmetric interval nb nexthop channels b = (x, b')"
  shows "daemon_ok b' \<and>
    (rib_routes (rib b') = rib_routes (rib b) \<or>
     (\<exists>rt. x = Some rt \<and> rt \<notin> rib_routes (rib b) \<and> rib_routes (rib b') = insert rt (rib_routes (rib b)) \<and>
        (\<exists>ifp. who b' rt = (dest_key prefix plen src_prefix src_plen, nb, take 16 nexthop, ifp)))) \<and>
    route_ifps b' \<subseteq> insert (n_ifp (neigh b' nb)) (route_ifps b)"
proof -
  let ?R = "rib_routes (rib b)" and ?W = "who b" and ?E = "held_now b"
  have b: "holds (routing ?R ?W ?E) b" using assms(1) by (simp add: daemon_ok_routing)
  have keep: ?thesis if "holds (routing ?R ?W E) b'" for E
    using routing_daemon_ok [OF that] routingD(5) [OF that] routing_ifps [OF that] who_ifps by auto
  define rt where "rt = find_route (st_heap (sources b)) prefix plen src_prefix src_plen nb nexthop (rib b)"
  define am where "am = update_add_metric rid prefix plen src_prefix src_plen nb b"
  show ?thesis
  proof (cases "update_refused rid prefix plen src_prefix src_plen b \<or> am \<ge> INFINITY_METRIC")
    case True
    then have "b' = b" using u unfolding update_route_def Let_def am_def [symmetric] by (auto split: if_splits)
    then show ?thesis using keep b by simp
  next
    case False
    obtain p b1 E1 where s: "update_source_for rt rid prefix plen src_prefix src_plen seqno b = (Some p, b1)"
      "holds (routing ?R ?W E1) b1" "p \<in> set (snd E1)" "rib b1 = rib b"
      "src_dest_key (src b1 p) = dest_key prefix plen src_prefix src_plen" "s_route_count (src b1 p) < 65535"
    proof (cases "\<exists>q. rt = Some q \<and> memcmp (s_id (route_src b q)) rid 8 = 0")
      case True
      then obtain q where q: "rt = Some q" "memcmp (s_id (route_src b q)) rid 8 = 0" by blast
      note f = routing_find_route [OF b q(1) [unfolded rt_def]]
      show ?thesis
        by (rule that [of "r_src (route b q)" b ?E])
          (use q f b routing_used [OF b] assms(5) in \<open>auto simp: update_source_for_def route_src_def\<close>)
    next
      case False
      then have e: "update_source_for rt rid prefix plen src_prefix src_plen seqno b =
          g_find_source rid prefix plen src_prefix src_plen True seqno b"
        by (auto simp: update_source_for_def split: option.split)
      show ?thesis
        by (rule routing_find_source [OF b _ assms(2-5), of seqno])
          (use that in \<open>auto simp: held_now_def e\<close>)
    qed
    obtain cost where c: "neighbour_cost nb b1 = (cost, b1)" by (rule routing_cost [OF s(2)])
    let ?f = "update_feasible (Some p) seqno refmetric b1" and ?m = "min (refmetric + cost + am) INFINITY_METRIC"
    have eq: "(x, b') = (case rt of
          Some rt \<Rightarrow> (Some rt, update_old_route rt p ?f seqno refmetric ?m am (update_hold_time interval) nb channels b1)
        | None \<Rightarrow> add_new_route p ?f seqno refmetric ?m am (update_hold_time interval) nb nexthop channels b1)"
      using u False unfolding update_route_def Let_def am_def [symmetric] rt_def [symmetric] s(1) prod.case option.case c
      by (simp del: split_paired_All)
    show ?thesis
    proof (cases rt)
      case (Some q)
      note f = routing_find_route [OF b Some [unfolded rt_def]]
      have "src_dest_key (src b1 p) = fst (who b q)" using s(5) f by (simp add: who_def)
      then have "holds (routing ?R ?W E1) b'"
        using eq Some routing_update_old [OF s(2) _ s(3) _ s(6)] f by simp
      then show ?thesis by (rule keep)
    next
      case None
      have "nbrs b1 = nbrs b"
        using update_source_for_nbrs [of rt rid prefix plen src_prefix src_plen seqno b] s(1) by simp
      then have nb1: "nb \<in> set (neighs (nbrs b1))" using nb by simp
      note n = routing_add_new [OF s(2,3,6) nb1, of ?f seqno refmetric ?m am "update_hold_time interval" nexthop channels x b']
      show ?thesis
      proof (cases x)
        case None
        then show ?thesis using n eq \<open>rt = None\<close> keep by simp
      next
        case (Some q)
        then obtain ifp where q: "q \<notin> ?R"
          "holds (routing (insert q ?R) (?W(q := (src_dest_key (src b1 p), nb, take 16 nexthop, ifp))) E1) b'"
          using n eq \<open>rt = None\<close> by auto
        have "ifp = n_ifp (neigh b' nb)" using routingD(6) [OF q(2), of q] by (auto simp: who_def)
        moreover have "route_ifps b' \<subseteq> insert ifp (route_ifps b)"
          unfolding routing_ifps [OF q(2)] by (auto simp: route_ifps_def who_def route_ifp_def)
        ultimately show ?thesis
          using routing_daemon_ok [OF q(2)] routingD(5,6) [OF q(2)] q(1) s(5) Some by simp
      qed
    qed
  qed
qed

end
