(* ===== verification/Route_Flush.thy ===== *)
theory Route_Flush
  imports Route_Props
begin

text \<open>
  The loops of \<open>route.c\<close> that remove routes end and remove what they should; the walks that only
  change routes keep the tables.

  The slot of a route is told by its destination: it is the number of destinations in the table
  that come before (\<open>rank\<close>).  So a loop that looks at the slots in order can be followed
  although every removal may shift them.
\<close>

section \<open>Slots and destinations\<close>

definition keys :: "(ptr \<Rightarrow> identity) \<Rightarrow> ptr set \<Rightarrow> route_key set" where
  "keys W R = (\<lambda>rt. fst (W rt)) ` R"

definition rank :: "(ptr \<Rightarrow> identity) \<Rightarrow> ptr set \<Rightarrow> route_key \<Rightarrow> nat" where
  "rank W R k = card {k' \<in> keys W R. k' < k}"

lemma sorted_rank:
  fixes ks :: "'a :: linorder list"
  assumes "sorted_wrt (<) ks" "j < length ks"
  shows "card {k \<in> set ks. k < ks ! j} = j"
proof -
  have d: "distinct ks" using assms(1) by (simp add: strict_sorted_iff)
  have "{k \<in> set ks. k < ks ! j} = set (take j ks)"
  proof
    show "{k \<in> set ks. k < ks ! j} \<subseteq> set (take j ks)"
    proof
      fix k assume "k \<in> {k \<in> set ks. k < ks ! j}"
      then obtain i where i: "i < length ks" "k = ks ! i" "ks ! i < ks ! j" by (auto simp: in_set_conv_nth)
      have "\<not> j \<le> i" using sorted_wrt_nth_less [OF assms(1), of j i] i by (metis less_asym le_neq_implies_less less_irrefl)
      then show "k \<in> set (take j ks)" using i by (auto simp: in_set_conv_nth)
    qed
    show "set (take j ks) \<subseteq> {k \<in> set ks. k < ks ! j}"
    proof
      fix k assume k: "k \<in> set (take j ks)"
      then obtain i where "i < j" "k = ks ! i" using assms(2) by (auto simp: in_set_conv_nth)
      then show "k \<in> {k \<in> set ks. k < ks ! j}"
        using sorted_wrt_nth_less [OF assms(1), of i j] assms(2) in_set_takeD [OF k] by simp
    qed
  qed
  moreover have "card (set (take j ks)) = j" using d assms(2) by (simp add: distinct_card)
  ultimately show ?thesis by simp
qed

lemma routing_slots:
  assumes "holds (routing R W E) b"
  shows "length (routes (rib b)) = card (keys W R)"
    "\<And>i rt. i < length (routes (rib b)) \<Longrightarrow> rt \<in> set (routes (rib b) ! i) \<Longrightarrow> rt \<in> R \<and> rank W R (fst (W rt)) = i"
    "\<And>rt. rt \<in> R \<Longrightarrow> \<exists>i < length (routes (rib b)). rt \<in> set (routes (rib b) ! i)"
    "length (concat (routes (rib b))) = card R" "finite R"
proof -
  note d = routingD [OF assms]
  let ?rs = "routes (rib b)" and ?key = "slot_key (st_heap (sources b)) (rib_heap (rib b))"
  have shape: "rib_shape (st_heap (sources b)) (rib b)" using d(8) by (simp add: rib_ok_def)
  have key: "fst (W rt) = ?key slot" "rt \<in> R" if "slot \<in> set ?rs" "rt \<in> set slot" for slot rt
  proof -
    show R: "rt \<in> R" using that d(5) by (auto simp: rib_routes_def)
    have "src_dest_key (route_src b rt) = ?key slot"
      using shape that by (auto simp: rib_shape_def same_dest_def route_src_def)
    then show "fst (W rt) = ?key slot" using d(6) [OF R] by (simp add: who_def [abs_def] flip: fst_conv) (metis fst_conv who_def)
  qed
  have ne: "slot \<noteq> []" if "slot \<in> set ?rs" for slot using shape that by (auto simp: rib_shape_def same_dest_def)
  let ?ks = "map ?key ?rs"
  have sorted: "sorted_wrt (<) ?ks" using shape by (simp add: rib_shape_def sorted_by_def sorted_wrt_map)
  have ks: "set ?ks = keys W R"
  proof
    show "set ?ks \<subseteq> keys W R"
    proof
      fix k assume "k \<in> set ?ks"
      then obtain slot where slot: "slot \<in> set ?rs" "k = ?key slot" by auto
      then have "hd slot \<in> set slot" using ne by simp
      then show "k \<in> keys W R" using key [OF slot(1)] slot(2) by (metis image_eqI keys_def)
    qed
    show "keys W R \<subseteq> set ?ks" using key d(5) by (auto simp: keys_def rib_routes_def)
  qed
  have "distinct ?ks" using sorted by (simp only: strict_sorted_iff)
  then show "length ?rs = card (keys W R)" using ks distinct_card [of ?ks] by simp
  show "rt \<in> R \<and> rank W R (fst (W rt)) = i" if "i < length ?rs" "rt \<in> set (?rs ! i)" for i rt
    using sorted_rank [OF sorted, of i] key [OF nth_mem [OF that(1)] that(2)] that(1) ks by (simp add: rank_def)
  show "\<exists>i < length ?rs. rt \<in> set (?rs ! i)" if "rt \<in> R" for rt using that d(5) rib_routes_iff by blast
  have "distinct (concat ?rs)" using shape by (simp add: rib_shape_def)
  then show "length (concat ?rs) = card R" using d(5) by (metis distinct_card rib_routes_def)
  show "finite R" using d(5) by (auto simp: rib_routes_def)
qed

lemma rank_removed:
  assumes "finite R" "r \<in> R" "rt \<in> R" "rank W R (fst (W r)) \<le> rank W R (fst (W rt))"
  shows "rank W R (fst (W r)) \<le> rank W (R - {r}) (fst (W rt))"
proof -
  have fin: "finite (keys W R)" "finite (keys W (R - {r}))" using assms(1) by (simp_all add: keys_def)
  have "fst (W r) \<le> fst (W rt)"
  proof (rule ccontr)
    assume "\<not> fst (W r) \<le> fst (W rt)"
    then have "{k \<in> keys W R. k < fst (W rt)} \<subset> {k \<in> keys W R. k < fst (W r)}"
      using assms(3) by (auto simp: keys_def not_le)
    then have "rank W R (fst (W rt)) < rank W R (fst (W r))"
      unfolding rank_def using fin by (intro psubset_card_mono) auto
    then show False using assms(4) by simp
  qed
  then have "{k \<in> keys W R. k < fst (W r)} \<subseteq> {k \<in> keys W (R - {r}). k < fst (W rt)}"
    by (auto simp: keys_def)
  then show ?thesis unfolding rank_def using fin by (intro card_mono) auto
qed

lemma card_keys_removed: "finite R \<Longrightarrow> card (keys W (R - {r})) \<le> card (keys W R)"
  unfolding keys_def by (intro card_mono) auto

section \<open>Removing the routes that qualify\<close>

lemma flush_matching_ok:
  assumes "holds (routing R W E) b"
    and "\<And>R c rt. holds (routing R W E) c \<Longrightarrow> rt \<in> R \<Longrightarrow> q rt c = Q (W rt)"
    and "card R + (card (keys W R) - i) \<le> n"
    and "\<forall>rt \<in> R. Q (W rt) \<longrightarrow> i \<le> rank W R (fst (W rt))"
  shows "holds (routing {rt \<in> R. \<not> Q (W rt)} W E) (flush_matching n q i b)"
  using assms(1,3,4)
proof (induction n arbitrary: i R b)
  case (0 i R b)
  note s = routing_slots [OF "0.prems"(1)]
  have "R = {}" using "0.prems"(2) s(5) by simp
  then have "flush_matching 0 q i b = b" using s(1) by (simp add: flush_matching.simps keys_def)
  then show ?case using "0.prems"(1) \<open>R = {}\<close> by simp
next
  case (Suc n i R b)
  note s = routing_slots [OF "Suc.prems"(1)]
  have nf: "fault b = None" by (rule routingD(7) [OF "Suc.prems"(1)])
  show ?case
  proof (cases "i < length (routes (rib b))")
    case False
    have "\<not> Q (W rt)" if rt: "rt \<in> R" for rt
    proof
      assume "Q (W rt)"
      then have "i \<le> rank W R (fst (W rt))" using Suc.prems(3) rt by simp
      moreover obtain j where "j < length (routes (rib b))" "rt \<in> set (routes (rib b) ! j)" using s(3) [OF rt] by blast
      ultimately show False using s(2) False by auto
    qed
    then have "{rt \<in> R. \<not> Q (W rt)} = R" by blast
    then show ?thesis using False "Suc.prems"(1) by (subst flush_matching.simps) simp
  next
    case True
    let ?slot = "routes (rib b) ! i"
    have sub: "rt \<in> set ?slot \<Longrightarrow> rt \<in> R" for rt using s(2) [of i rt] True by blast
    show ?thesis
    proof (cases "find (\<lambda>r. q r b) ?slot")
      case None
      have none: "\<not> Q (W rt)" if "rt \<in> set ?slot" for rt
        using None that assms(2) [OF "Suc.prems"(1) sub [OF that]] by (auto simp: find_None_iff)
      have "\<forall>rt \<in> R. Q (W rt) \<longrightarrow> i + 1 \<le> rank W R (fst (W rt))"
      proof (intro ballI impI)
        fix rt assume rt: "rt \<in> R" "Q (W rt)"
        obtain j where j: "j < length (routes (rib b))" "rt \<in> set (routes (rib b) ! j)" using s(3) [OF rt(1)] by blast
        have "j \<noteq> i" using none j rt(2) by blast
        then show "i + 1 \<le> rank W R (fst (W rt))"
          using Suc.prems(3) rt s(2) [of j rt] j by (metis Suc_eq_plus1 Suc_leI le_neq_implies_less)
      qed
      moreover have "card R + (card (keys W R) - (i + 1)) \<le> n" using Suc.prems(2) True s(1) by simp
      ultimately have "holds (routing {rt \<in> R. \<not> Q (W rt)} W E) (flush_matching n q (i + 1) b)"
        using Suc.IH [OF "Suc.prems"(1)] by blast
      then show ?thesis using True None nf by (subst flush_matching.simps) simp
    next
      case (Some r)
      then have r: "r \<in> set ?slot" "q r b" by (auto simp: find_Some_iff)
      have R: "r \<in> R" "rank W R (fst (W r)) = i" using s(2) [of i r] True r(1) by auto
      have qr: "Q (W r)" using assms(2) [OF "Suc.prems"(1) R(1)] r(2) by simp
      have f: "holds (routing (R - {r}) W E) (flush_route r b)" by (rule routing_flush [OF "Suc.prems"(1) R(1)])
      have "\<forall>rt \<in> R - {r}. Q (W rt) \<longrightarrow> i \<le> rank W (R - {r}) (fst (W rt))"
        using rank_removed [OF s(5) R(1)] R(2) Suc.prems(3) by auto
      moreover have "card (R - {r}) + (card (keys W (R - {r})) - i) \<le> n"
      proof -
        have "card (R - {r}) = card R - 1" "0 < card R" using R(1) s(5) by (auto simp: card_gt_0_iff)
        then show ?thesis using Suc.prems(2) card_keys_removed [OF s(5), of W r] by linarith
      qed
      ultimately have "holds (routing {rt \<in> R - {r}. \<not> Q (W rt)} W E) (flush_matching n q i (flush_route r b))"
        using Suc.IH [OF f] by blast
      moreover have "{rt \<in> R - {r}. \<not> Q (W rt)} = {rt \<in> R. \<not> Q (W rt)}" using qr by blast
      ultimately show ?thesis using True Some nf by (subst flush_matching.simps) simp
    qed
  qed
qed

lemma flush_matching_start:
  assumes "daemon_ok b"
    and "\<And>R W E c rt. holds (routing R W E) c \<Longrightarrow> rt \<in> R \<Longrightarrow> q rt c = Q (W rt)"
  shows "holds (routing {rt \<in> rib_routes (rib b). \<not> Q (who b rt)} (who b) (held_now b)) (flush_matching (flush_fuel b) q 0 b)"
proof -
  have b: "holds (routing (rib_routes (rib b)) (who b) (held_now b)) b" using assms(1) by (simp add: daemon_ok_routing)
  show ?thesis
    by (rule flush_matching_ok [OF b assms(2)])
      (use routing_slots [OF b] in \<open>simp_all add: flush_fuel_def\<close>)
qed

lemma flush_neighbour_ok:
  assumes "daemon_ok b"
  shows "holds (routing {rt \<in> rib_routes (rib b). r_neigh (route b rt) \<noteq> nb} (who b) (held_now b))
    (flush_neighbour_routes nb b)"
proof -
  have "(r_neigh (route c rt) = nb) = (fst (snd (W rt)) = nb)" if "holds (routing R W E) c" "rt \<in> R" for R W E c rt
    using routingD(6) [OF that] by (metis who_def fst_conv snd_conv)
  then have "holds (routing {rt \<in> rib_routes (rib b). \<not> fst (snd (who b rt)) = nb} (who b) (held_now b))
      (flush_matching (flush_fuel b) (\<lambda>r b. r_neigh (route b r) = nb) 0 b)"
    by (intro flush_matching_start [where Q = "\<lambda>w. fst (snd w) = nb", OF assms]) blast
  then show ?thesis by (simp add: flush_neighbour_routes_def who_def)
qed

lemma flush_interface_ok:
  assumes "daemon_ok b"
  shows "holds (routing {rt \<in> rib_routes (rib b).
      \<not> (route_ifp b rt = ifp \<and> (\<not> v4only \<or> v4mapped (r_nexthop (route b rt))))} (who b) (held_now b))
    (flush_interface_routes ifp v4only b)"
proof -
  have "(route_ifp c rt = ifp \<and> (\<not> v4only \<or> v4mapped (r_nexthop (route c rt)))) =
      (snd (snd (snd (W rt))) = ifp \<and> (\<not> v4only \<or> v4mapped (fst (snd (snd (W rt))))))"
    if "holds (routing R W E) c" "rt \<in> R" for R W E c rt
    using routingD(6) [OF that, symmetric] by (simp add: who_def route_ifp_def)
  then have "holds (routing {rt \<in> rib_routes (rib b). \<not> (snd (snd (snd (who b rt))) = ifp \<and>
        (\<not> v4only \<or> v4mapped (fst (snd (snd (who b rt))))))} (who b) (held_now b))
      (flush_matching (flush_fuel b)
        (\<lambda>r b. route_ifp b r = ifp \<and> (\<not> v4only \<or> v4mapped (r_nexthop (route b r)))) 0 b)"
    by (intro flush_matching_start [where Q = "\<lambda>w. snd (snd (snd w)) = ifp \<and>
        (\<not> v4only \<or> v4mapped (fst (snd (snd w))))", OF assms]) blast
  then show ?thesis by (simp add: flush_interface_routes_def who_def route_ifp_def)
qed

section \<open>Removing all routes\<close>

lemma flush_tail_ok:
  assumes "holds (routing R W E) b" "card R \<le> n"
  shows "\<exists>R'. holds (routing R' W E) (flush_tail n i b) \<and> card (keys W R') \<le> i"
  using assms
proof (induction n arbitrary: R b)
  case (0 R b)
  then have "R = {}" using routing_slots(5) [OF "0.prems"(1)] by simp
  then have "flush_tail 0 i b = b" using routing_slots(1) [OF "0.prems"(1)] by (simp add: flush_tail.simps keys_def)
  then show ?case using "0.prems"(1) \<open>R = {}\<close> by (auto simp: keys_def)
next
  case (Suc n R b)
  note s = routing_slots [OF "Suc.prems"(1)]
  have nf: "fault b = None" by (rule routingD(7) [OF "Suc.prems"(1)])
  show ?case
  proof (cases "i < length (routes (rib b))")
    case False
    then have "flush_tail (Suc n) i b = b" by (simp add: flush_tail.simps)
    then show ?thesis using "Suc.prems"(1) False s(1) by auto
  next
    case True
    let ?rt = "hd (routes (rib b) ! i)"
    have "routes (rib b) ! i \<noteq> []"
      using routingD(8) [OF "Suc.prems"(1)] nth_mem [OF True] by (auto simp: rib_ok_def rib_shape_def same_dest_def)
    then have R: "?rt \<in> R" using s(2) [of i ?rt] True by simp
    have "holds (routing (R - {?rt}) W E) (flush_route ?rt (uninstall_route ?rt b))"
      by (intro routing_flush routed "Suc.prems"(1) R)
    moreover have "card (R - {?rt}) \<le> n" using Suc.prems(2) R s(5) by simp
    ultimately have "\<exists>R'. holds (routing R' W E) (flush_tail n i (flush_route ?rt (uninstall_route ?rt b))) \<and>
        card (keys W R') \<le> i" by (rule Suc.IH)
    then show ?thesis using True nf by (subst flush_tail.simps) (simp add: Let_def)
  qed
qed

lemma flush_all_ok:
  assumes "holds (routing R W E) b"
  shows "holds (routing {} W E) (flush_all_routes b)"
proof -
  have "\<exists>R'. holds (routing R' W E)
      (fold (\<lambda>i b. flush_tail (length (concat (routes (rib b)))) i b) (rev [0..<n]) b) \<and> card (keys W R') = 0"
    if "holds (routing R W E) b" "card (keys W R) \<le> n" for n R b
    using that
  proof (induction n arbitrary: R b)
    case 0
    then show ?case by auto
  next
    case (Suc n)
    obtain R' where "holds (routing R' W E) (flush_tail (length (concat (routes (rib b)))) n b)" "card (keys W R') \<le> n"
      using flush_tail_ok [OF Suc.prems(1)] routing_slots(4) [OF Suc.prems(1)] by auto
    from Suc.IH [OF this] show ?case by simp
  qed
  from this [OF assms] obtain R' where R': "holds (routing R' W E) (flush_all_routes b)" "card (keys W R') = 0"
    using routing_slots(1) [OF assms] by (auto simp: flush_all_routes_def)
  then have "R' = {}" using routing_slots(5) [OF R'(1)] by (auto simp: keys_def)
  then show ?thesis using R'(1) by simp
qed

end
