(* ===== verification/A_Router.thy ===== *)
theory A_Router
  imports Route_Flush
begin

text \<open>
  A concrete daemon, with one interface, one neighbour and one route, that satisfies the
  invariant; the claims are applied to it.
\<close>

text \<open>
  A router with one wired interface and one neighbour behind it, after one update for
  \<open>fd00::/64\<close> through that neighbour.
\<close>

definition the_iface :: interface where
  "the_iface = interface_zero\<lparr>i_ifindex := 3, i_flags := IF_UP, i_cost := 96, i_bufsize := 1400,
     i_channel := 0, i_hello_seqno := 5, i_hello_interval := 400, i_update_interval := 1600,
     i_bucket := 100, i_bucket_time := 1000, i_buffered_hello := -1\<rparr>"

definition the_neigh :: neighbour where
  "the_neigh = neighbour_zero\<lparr>n_address := 0xfe # 0x80 # replicate 13 0 @ [2], n_reach := 0xffff,
     n_txcost := 96, n_hello_interval := 400, n_ifp := 1\<rparr>"

definition a_prefix :: "byte list" where
  "a_prefix = 0xfd # replicate 15 0"

definition the_rid :: "byte list" where
  "the_rid = replicate 7 0 @ [7]"

definition a_router :: babel where
  "a_router = (babel_init good_env)\<lparr>
     now := \<lparr>tv_sec = 1000, tv_usec = 0\<rparr>,
     ifaces := \<lparr>i_heap = (\<lambda>p. if p = 1 then the_iface else interface_zero), interfaces = [1], i_fresh = 2\<rparr>,
     nbrs := \<lparr>n_heap = (\<lambda>p. if p = 1 then the_neigh else neighbour_zero), neighs = [1], n_fresh = 2\<rparr>\<rparr>"

definition a_distance :: "source" where
  "a_distance = new_source the_rid a_prefix 64 (replicate 16 0) 0 1 1000"

definition the_source :: source where
  "the_source = a_distance\<lparr>s_route_count := 1\<rparr>"

definition the_route :: babel_route where
  "the_route = (new_route 1 1 96 96 0 15 1 (n_address the_neigh) 1000)\<lparr>r_installed := True\<rparr>"

definition routed_router :: babel where
  "routed_router = a_router\<lparr>
     sources := \<lparr>st_heap = (\<lambda>p. the_source), st_slots = [1], st_max = 1, st_fresh = 2\<rparr>,
     rib := rib_init\<lparr>rib_heap := (\<lambda>p. the_route), routes := [[1]], rib_fresh := 2, max_route_slots := 1\<rparr>\<rparr>"

lemma a_prefix_dest: "dest_ok a_prefix 64 (replicate 16 0) 0"
  by (simp add: dest_ok_def a_prefix_def update_is_v4_def v4mapped_def)

lemma routed_router_ok: "daemon_ok routed_router"
  unfolding daemon_ok_def
proof (intro conjI ballI allI)
  have d: "source_dest_ok the_source"
    using a_prefix_dest by (simp add: the_source_def a_distance_def new_source_def source_dest_ok_def the_rid_def a_prefix_def)
  have i: "iface_conf_ok (iface routed_router p)" "buffer_ok (iface routed_router p)" for p
    by (simp_all add: routed_router_def a_router_def the_iface_def interface_zero_def iface_conf_ok_def buffer_ok_def
        if_up_def if_flag_def IF_UP_def IF_TIMESTAMPS_def IF_CHANNEL_UNKNOWN_def)
  have rib: "rib_ok (st_heap (sources routed_router)) (rib routed_router)"
    by (simp add: routed_router_def rib_ok_def rib_shape_def heads_installed_def rib_init_def sorted_by_def same_dest_def slot_key_def)
  have routes: "rib_routes (rib routed_router) = {1}" by (simp add: routed_router_def rib_routes_def)
  show "ready routed_router"
    using i rib d
    by (simp add: ready_def network_ok_def buffers_ok_def routes)
      (simp add: routed_router_def a_router_def babel_init_def unicast_ok_def the_route_def new_route_def Let_def
        route_src_def route_zero_def the_neigh_def neighbour_zero_def conf_init_def resends_typed_def resend_typed_def
        resends_init_def)
  show "tables_ok routed_router"
    using rib by (simp add: tables_ok_def routes source_table_ok_def)
      (simp add: routed_router_def sorted_by_def the_source_def a_distance_def new_source_def source_ok_def
        a_prefix_def the_rid_def the_route_def new_route_def Let_def)
  show "steady routed_router"
    by (simp add: steady_def allocs_succeed_def link_costs_ok_def iface_costs_ok_def routed_router_def a_router_def babel_init_def good_env_def
        the_neigh_def neighbour_zero_def the_iface_def interface_zero_def INFINITY_METRIC_def)
  show "source_dest_ok (src routed_router p)" if "p \<in> set (st_slots (sources routed_router))" for p
    using d by (simp add: routed_router_def)
  show "r_neigh (route routed_router rt) \<in> set (neighs (nbrs routed_router))" for rt
    by (simp add: routed_router_def a_router_def the_route_def new_route_def Let_def)
  show "card (users routed_router p) \<le> s_route_count (src routed_router p)" for p
  proof -
    have "users routed_router p \<subseteq> {1}" using routes by (auto simp: users_def)
    then have "card (users routed_router p) \<le> card {1 :: ptr}" by (rule card_mono [rotated]) simp
    then show ?thesis by (simp add: routed_router_def the_source_def)
  qed
qed

end
