(* ===== verification/Route_Claims.thy ===== *)
theory Route_Claims
  imports A_Router
begin

text \<open>
  The claims about the route operations: the invariant of the daemon across received updates,
  decisions and removals, the termination of the removing loops, the optimality of the
  best-route search, and the feasibility of what is installed.
\<close>

section \<open>The tables across the route operations\<close>



text \<open>The invariant from the point of view of an operation that keeps the set of routes.\<close>

lemma daemon_ok_keeps:
  assumes "daemon_ok b" "holds (routing (rib_routes (rib b)) (who b) (held_now b)) b \<Longrightarrow>
    holds (routing (rib_routes (rib b)) (who b) E) c"
  shows "daemon_ok c \<and> rib_routes (rib c) = rib_routes (rib b)"
  using assms routing_daemon_ok routingD(5) by (metis daemon_ok_routing)

lemma routing_update_route_metric_ok:
  assumes "daemon_ok b" "rt \<in> rib_routes (rib b)"
  shows "daemon_ok (update_route_metric rt b) \<and> rib_routes (rib (update_route_metric rt b)) = rib_routes (rib b)"
  by (rule daemon_ok_keeps [OF assms(1)]) (intro routing_update_metric assms)

text \<open>
  C5: (safety) The decisions about a route of the table (to install it or to switch to it, to
  react to its changed metric, to retract it, to follow the metric of its neighbour, to uninstall
  it) keep the invariant of the daemon and add and remove no route.
\<close>

theorem route_decisions_safe:
  assumes "daemon_ok b" "rt \<in> rib_routes (rib b)" "p \<in> set (st_slots (sources b))"
    and "c \<in> {consider_route rt b, route_changed rt oldsrc oldmetric b, route_lost p oldmetric b,
      retract_route rt b, change_route_metric rt refmetric cost add b, update_route_metric rt b,
      install_route rt b, uninstall_route rt b, retract_neighbour_route nb rt b}"
  shows "daemon_ok c \<and> rib_routes (rib c) = rib_routes (rib b)"
proof (rule daemon_ok_keeps [OF assms(1)])
  assume b: "holds (routing (rib_routes (rib b)) (who b) (held_now b)) b"
  have "p \<in> set (snd (held_now b))" using assms(3) by (simp add: held_now_def)
  then show "holds (routing (rib_routes (rib b)) (who b) (held_now b)) c"
    using assms(2,4) by (elim insertE emptyE) (simp_all add: routed b)
qed

theorem route_decisions_safe_witness: "daemon_ok (consider_route 1 routed_router)"
  by (rule route_decisions_safe [OF routed_router_ok, of 1 1, THEN conjunct1])
    (simp_all add: routed_router_def rib_routes_def)

section \<open>Removing routes\<close>

text \<open>
  C23: (safety) \<open>flush_route\<close> removes the route it is given and no other, whether or not it was
  installed, and keeps the invariant of the daemon.
\<close>

theorem flush_route_removes:
  assumes "daemon_ok b" "rt \<in> rib_routes (rib b)"
  shows "daemon_ok (flush_route rt b) \<and> rib_routes (rib (flush_route rt b)) = rib_routes (rib b) - {rt}"
proof -
  have "holds (routing (rib_routes (rib b) - {rt}) (who b) (held_now b)) (flush_route rt b)"
    using routing_flush assms by (simp add: daemon_ok_routing)
  then show ?thesis using routing_daemon_ok routingD(5) by metis
qed

theorem flush_route_removes_witness: "rib_routes (rib (flush_route 1 routed_router)) = {}"
  using flush_route_removes [OF routed_router_ok, of 1] by (simp add: routed_router_def rib_routes_def)

text \<open>
  C24: (termination) \<open>flush_neighbour_routes\<close> ends (its fuel, one step for each route and each
  slot, suffices although each removal may shift the slots), without a fault and with the
  invariant kept; exactly the routes through the neighbour are gone.
\<close>

theorem flush_neighbour_routes_removes:
  assumes "daemon_ok b"
  shows "daemon_ok (flush_neighbour_routes nb b) \<and>
    rib_routes (rib (flush_neighbour_routes nb b)) = {rt \<in> rib_routes (rib b). r_neigh (route b rt) \<noteq> nb}"
  using flush_neighbour_ok [OF assms, of nb] routing_daemon_ok routingD(5) by metis

theorem flush_neighbour_routes_removes_witness: "rib_routes (rib (flush_neighbour_routes 1 routed_router)) = {}"
  using flush_neighbour_routes_removes [OF routed_router_ok, of 1]
  by (simp add: routed_router_def rib_routes_def the_route_def new_route_def Let_def route_zero_def)

text \<open>
  (termination) \<open>flush_interface_routes\<close> ends, without a fault, and removes exactly the
  routes through the interface (those with an IPv4 next hop only, when \<open>v4only\<close>).
\<close>

theorem flush_interface_routes_removes:
  assumes "daemon_ok b"
  shows "daemon_ok (flush_interface_routes ifp v4only b) \<and>
    rib_routes (rib (flush_interface_routes ifp v4only b)) =
      {rt \<in> rib_routes (rib b). \<not> (route_ifp b rt = ifp \<and> (\<not> v4only \<or> v4mapped (r_nexthop (route b rt))))}"
  using flush_interface_ok [OF assms, of ifp v4only] routing_daemon_ok routingD(5) by metis

theorem flush_interface_routes_removes_witness: "rib_routes (rib (flush_interface_routes 1 False routed_router)) = {}"
  using flush_interface_routes_removes [OF routed_router_ok, of 1 False]
  by (simp add: routed_router_def rib_routes_def the_route_def new_route_def Let_def route_zero_def route_ifp_def
      a_router_def the_neigh_def neighbour_zero_def)

text \<open>
  (termination) \<open>flush_all_routes\<close>, at the end of the program, ends without a fault; the
  table is empty and every source is left with a count that covers no route.
\<close>

theorem flush_all_routes_empties:
  assumes "daemon_ok b"
  shows "daemon_ok (flush_all_routes b) \<and> rib_routes (rib (flush_all_routes b)) = {} \<and>
    routes (rib (flush_all_routes b)) = []"
proof -
  have c: "holds (routing {} (who b) (held_now b)) (flush_all_routes b)"
    using flush_all_ok assms by (simp add: daemon_ok_routing)
  then have "length (routes (rib (flush_all_routes b))) = 0" using routing_slots(1) [OF c] by (simp add: keys_def)
  then show ?thesis using routing_daemon_ok [OF c] routingD(5) [OF c] by simp
qed

theorem flush_all_routes_empties_witness: "routes (rib (flush_all_routes routed_router)) = []"
  using flush_all_routes_empties [OF routed_router_ok] by simp

end
