(* ===== verification/Route_Best.thy ===== *)
theory Route_Best
  imports A_Router
begin

text \<open>
  The smoothed metric and the best route: asked twice in the same second, the smoothed metric is
  the same; so the comparisons of the search agree with the metrics it leaves, and the route it
  finds is a minimum.  Feasibility is the condition that keeps the routing free of loops.
\<close>

section \<open>The smoothed metric\<close>

definition smoothed :: "babel \<Rightarrow> ptr \<Rightarrow> int" where
  "smoothed b rt = r_smoothed_metric (route b rt)"

text \<open>A route whose smoothed metric was computed in this second: asking again changes nothing.\<close>

definition settled :: "ptr \<Rightarrow> babel \<Rightarrow> bool" where
  "settled rt b \<longleftrightarrow>
     r_smoothed_metric_time (route b rt) = tv_sec (now b) \<and>
     (let metric = route_metric (route b rt); sm = smoothed b rt in
      sm = to_ushort metric \<or>
      (0 < smoothing_half_life (conf b) \<and> metric < INFINITY_METRIC \<and> \<not> (-4 < metric - sm \<and> metric - sm < 4)))"

lemma route_smoothed_metric_settles:
  obtains c sm where "kernel_only b c"
    "route_smoothed_metric rt b = (sm, set_smoothed rt sm (tv_sec (now b)) c)"
    "settled rt (set_smoothed rt sm (tv_sec (now b)) c)"
proof -
  let ?r = "route b rt" and ?t = "tv_sec (now b)"
  have fin: "(let b' = set_smoothed rt sm ?t c; b' = c_assert (r_smoothed_metric_time (route b' rt) = tv_sec (now b')) b'
      in (r_smoothed_metric (route b' rt), b')) = (sm, set_smoothed rt sm ?t c)" if "kernel_only b c" for sm c
    using kernel_only_eqs(7) [OF that] by (simp add: set_smoothed_def c_assert_def Let_def)
  have st: "settled rt (set_smoothed rt sm ?t c)"
    if "kernel_only b c" "sm = to_ushort (route_metric ?r) \<or>
      (0 < smoothing_half_life (conf b) \<and> route_metric ?r < INFINITY_METRIC \<and>
       \<not> (-4 < route_metric ?r - sm \<and> route_metric ?r - sm < 4))" for sm c
  proof -
    note e = kernel_only_eqs [OF that(1)]
    have "route_metric (route (set_smoothed rt sm ?t c) rt) = route_metric ?r"
      by (simp add: set_smoothed_def route_metric_def e)
    then show ?thesis using that(2) by (simp add: settled_def smoothed_def Let_def set_smoothed_def e)
  qed
  show ?thesis
  proof (cases "smoothing_half_life (conf b) \<le> 0 \<or> route_metric ?r \<ge> INFINITY_METRIC \<or>
      r_smoothed_metric_time ?r > ?t \<or> r_smoothed_metric ?r = route_metric ?r")
    case True
    show ?thesis
      by (rule that [OF kernel_only_refl [of b], of "to_ushort (route_metric ?r)"])
        (use True fin [OF kernel_only_refl, of "to_ushort (route_metric ?r)"] st [OF kernel_only_refl] in
          \<open>simp_all add: route_smoothed_metric_def Let_def\<close>)
  next
    case False
    obtain sm st' c where h: "smooth_halves (route_metric ?r) (smoothing_half_life (conf b)) ?t
        (r_smoothed_metric ?r) (r_smoothed_metric_time ?r) b = ((sm, st'), c)" by (metis prod.collapse)
    have hc: "kernel_only b c" "st' \<le> ?t" using smooth_halves_frame [OF h kernel_only_refl] False by auto
    obtain sm' st'' c' where s: "smooth_seconds (route_metric ?r) (two_to_the_one_over_hl (conf c) - 0x10000) ?t sm st' c =
        ((sm', st''), c')" by (metis prod.collapse)
    have sc: "kernel_only b c'" "st'' = ?t" using smooth_seconds_frame [OF s hc] by auto
    define v where "v = (if -4 < route_metric ?r - sm' \<and> route_metric ?r - sm' < 4
      then to_ushort (route_metric ?r) else sm')"
    have "v = to_ushort (route_metric ?r) \<or> \<not> (-4 < route_metric ?r - v \<and> route_metric ?r - v < 4)"
      by (simp add: v_def)
    then have "settled rt (set_smoothed rt v ?t c')" using st [OF sc(1)] False by force
    with that [OF sc(1), of v] show ?thesis
      using False h s sc fin [OF sc(1), of v] by (simp add: route_smoothed_metric_def Let_def v_def [symmetric])
  qed
qed

lemma smoothed_again:
  assumes "settled rt b"
  shows "fst (route_smoothed_metric rt b) = smoothed b rt"
  using assms
  by (auto simp: settled_def route_smoothed_metric_def Let_def set_smoothed_def c_assert_def smoothed_def
      smooth_halves.simps smooth_seconds.simps)

text \<open>What a comparison leaves of another route that was settled.\<close>

lemma smoothed_metric_result:
  assumes "route_smoothed_metric rt b = (m, c)"
  shows "settled rt c" "smoothed c rt = m" "settled r b \<Longrightarrow> settled r c \<and> smoothed c r = smoothed b r"
proof -
  obtain d sm where d: "kernel_only b d" "route_smoothed_metric rt b = (sm, set_smoothed rt sm (tv_sec (now b)) d)"
    "settled rt (set_smoothed rt sm (tv_sec (now b)) d)" by (rule route_smoothed_metric_settles)
  note e = kernel_only_eqs [OF d(1)]
  have c: "m = sm" "c = set_smoothed rt sm (tv_sec (now b)) d" using assms d(2) by auto
  show "settled rt c" using d(3) c by simp
  show "smoothed c rt = m" by (simp add: c smoothed_def set_smoothed_def)
  show "settled r c \<and> smoothed c r = smoothed b r" if r: "settled r b"
  proof (cases "r = rt")
    case True
    have "m = smoothed b rt" using smoothed_again r assms True by (metis fst_conv)
    then show ?thesis using \<open>settled rt c\<close> \<open>smoothed c rt = m\<close> True by simp
  next
    case False
    then show ?thesis using r by (simp add: c settled_def smoothed_def set_smoothed_def e)
  qed
qed

text \<open>
  (functional) The smoothed metric of a route is computed without a failing assertion, and is
  stable within a second: asked again at once it is the same, whatever the smoothing and the
  random noise; without smoothing it is the metric itself.
\<close>

theorem smoothed_metric_stable:
  assumes "route_smoothed_metric rt b = (m, c)" "fault b = None" "allocs_succeed b"
  shows "fst (route_smoothed_metric rt c) = m \<and> fault c = None \<and> r_smoothed_metric (route c rt) = m \<and>
    r_smoothed_metric_time (route c rt) = tv_sec (now b) \<and>
    (smoothing_half_life (conf b) \<le> 0 \<and> 0 \<le> route_metric (route b rt) \<longrightarrow> m = route_metric (route b rt))"
proof (intro conjI impI)
  show "fst (route_smoothed_metric rt c) = m"
    using smoothed_again [OF smoothed_metric_result(1) [OF assms(1)]] smoothed_metric_result(2) [OF assms(1)] by simp
  show "r_smoothed_metric (route c rt) = m" using smoothed_metric_result(2) [OF assms(1)] by (simp add: smoothed_def)
  obtain d sm where d: "kernel_only b d" "route_smoothed_metric rt b = (sm, set_smoothed rt sm (tv_sec (now b)) d)"
    by (rule route_smoothed_metric_spec)
  note e = kernel_only_eqs [OF d(1)]
  have "fault d = None" using e(12) assms(2,3) by simp
  then show "fault c = None" using assms(1) d(2) by (auto simp: set_smoothed_def)
  show "r_smoothed_metric_time (route c rt) = tv_sec (now b)" using assms(1) d(2) by (auto simp: set_smoothed_def)
  assume h: "smoothing_half_life (conf b) \<le> 0 \<and> 0 \<le> route_metric (route b rt)"
  then have "m = to_ushort (route_metric (route b rt))"
    using assms(1) by (auto simp: route_smoothed_metric_def Let_def set_smoothed_def c_assert_def)
  then show "m = route_metric (route b rt)"
    using h by (simp add: to_ushort_def route_metric_def INFINITY_METRIC_def Let_def)
qed

theorem smoothed_metric_stable_witness:
  "r_smoothed_metric (route (snd (route_smoothed_metric 1 routed_router)) 1) = fst (route_smoothed_metric 1 routed_router)"
  by (rule smoothed_metric_stable [of 1 routed_router, THEN conjunct2, THEN conjunct2, THEN conjunct1])
    (simp_all add: routed_router_def a_router_def babel_init_def allocs_succeed_def good_env_def)

section \<open>The best route\<close>

lemma smooth_only_acceptable:
  assumes "smooth_only b c"
  shows "route_acceptable r feasible exclude c = route_acceptable r feasible exclude b"
proof -
  have "unsmoothed (route c r) = unsmoothed (route b r)" using assms by (simp add: smooth_only_def)
  note f = unsmoothed_fields [OF this]
  show ?thesis using assms
    by (simp add: smooth_only_def route_acceptable_def route_expired_def route_feasible_def update_feasible_def f)
qed

lemma best_among_min:
  assumes "\<forall>s \<in> S. settled s b \<and> smoothed b rt \<le> smoothed b s" "S \<noteq> {} \<longrightarrow> settled rt b"
    and "best_among feasible exclude rs rt b = (x, c)"
  shows "x \<in> insert rt {r \<in> set rs. route_acceptable r feasible exclude b} \<and>
    (\<forall>s \<in> insert rt S \<union> {r \<in> set rs. route_acceptable r feasible exclude b}. s \<noteq> x \<longrightarrow> smoothed c x \<le> smoothed c s)"
  using assms
proof (induction rs arbitrary: rt b S)
  case Nil
  then show ?case by auto
next
  case (Cons r rs)
  show ?case
  proof (cases "route_acceptable r feasible exclude b")
    case False
    then show ?thesis using Cons.IH [OF Cons.prems(1,2)] Cons.prems(3) by auto
  next
    case True
    obtain m b1 where b1: "route_smoothed_metric r b = (m, b1)" by fastforce
    obtain m' b2 where b2: "route_smoothed_metric rt b1 = (m', b2)" by fastforce
    note r1 = smoothed_metric_result [OF b1]
    note r2 = smoothed_metric_result [OF b2]
    have acc: "route_acceptable q feasible exclude b2 = route_acceptable q feasible exclude b" for q
      using smooth_only_acceptable smooth_only_smoothed [of b r] smooth_only_smoothed [of b1 rt] b1 b2
      by (metis snd_conv)
    let ?rt = "if m < m' then r else rt"
    let ?S = "insert rt (insert r S)"
    have rest: "best_among feasible exclude rs ?rt b2 = (x, c)" using Cons.prems(3) True b1 b2 by simp
    have rm: "settled r b2" "smoothed b2 r = m" using r2(3) [OF r1(1)] r1(2) by simp_all
    have old: "settled s b2 \<and> m' \<le> smoothed b2 s" if "s \<in> S" for s
    proof -
      have s: "settled s b" "smoothed b rt \<le> smoothed b s" "settled rt b" using Cons.prems(1,2) that by auto
      have "settled s b2" "smoothed b2 s = smoothed b s" "smoothed b2 rt = smoothed b rt"
        using r1(3) s(1,3) r2(3) by simp_all
      then show ?thesis using s(2) r2(2) by simp
    qed
    have S: "\<forall>s \<in> ?S. settled s b2 \<and> smoothed b2 ?rt \<le> smoothed b2 s"
    proof
      fix s assume "s \<in> ?S"
      then consider "s = rt" | "s = r" | "s \<in> S" by blast
      then show "settled s b2 \<and> smoothed b2 ?rt \<le> smoothed b2 s"
        by cases (use rm r2(1,2) old [of s] in auto)
    qed
    have "?S \<noteq> {} \<longrightarrow> settled ?rt b2" using rm r2(1) by simp
    from Cons.IH [OF S this rest] True show ?thesis by (auto simp: acc)
  qed
qed

lemma best_in_slot_min:
  assumes "best_in_slot feasible exclude slot b = (x, c)"
  shows "case x of
      None \<Rightarrow> \<forall>r \<in> set slot. \<not> route_acceptable r feasible exclude b
    | Some rt \<Rightarrow> rt \<in> set slot \<and> route_acceptable rt feasible exclude b \<and>
        (\<forall>r \<in> set slot. route_acceptable r feasible exclude b \<longrightarrow> smoothed c rt \<le> smoothed c r)"
proof (cases "dropWhile (\<lambda>r. \<not> route_acceptable r feasible exclude b) slot")
  case Nil
  then have "x = None" using assms unfolding best_in_slot_def Nil list.case by simp
  then show ?thesis using Nil by (simp add: dropWhile_eq_Nil_conv)
next
  case (Cons rt rs)
  obtain x' where x: "x = Some x'" "best_among feasible exclude rs rt b = (x', c)"
    using assms Cons by (auto simp: best_in_slot_def split: prod.splits)
  let ?P = "\<lambda>r. route_acceptable r feasible exclude b"
  have acc: "?P rt" using dropWhile_eq_Cons_conv [of "\<lambda>r. \<not> ?P r" slot rt rs] Cons by simp
  have split: "slot = takeWhile (\<lambda>r. \<not> ?P r) slot @ rt # rs" using Cons takeWhile_dropWhile_id by metis
  have same: "{r \<in> set slot. ?P r} = insert rt {r \<in> set rs. ?P r}"
    using acc set_takeWhileD [of _ "\<lambda>r. \<not> ?P r" slot] arg_cong [OF split, of set] by auto
  have "x' \<in> insert rt {r \<in> set rs. ?P r} \<and>
      (\<forall>s \<in> insert rt {} \<union> {r \<in> set rs. ?P r}. s \<noteq> x' \<longrightarrow> smoothed c x' \<le> smoothed c s)"
    by (rule best_among_min [OF _ _ x(2)]) simp_all
  then show ?thesis using same x(1) by (auto simp: set_eq_iff)
qed

text \<open>
  C18: (functional) \<open>find_best_route\<close> returns nothing exactly when no route to the destination is
  acceptable (alive, feasible if asked, not through the excluded neighbour); otherwise it
  returns an acceptable route to the destination whose smoothed metric, as it leaves them, is
  the least among the acceptable ones.  It changes nothing but smoothed metrics.
\<close>

theorem find_best_route_optimal:
  assumes "rib_ok (st_heap (sources b)) (rib b)"
    and "find_best_route prefix plen src_prefix src_plen feasible exclude b = (x, c)"
  defines "candidates \<equiv> {rt \<in> rib_routes (rib b). route_acceptable rt feasible exclude b \<and>
    src_dest_key (route_src b rt) = dest_key prefix plen src_prefix src_plen}"
  shows "(case x of None \<Rightarrow> candidates = {}
     | Some rt \<Rightarrow> rt \<in> candidates \<and> (\<forall>r \<in> candidates. smoothed c rt \<le> smoothed c r)) \<and>
    sources c = sources b \<and> routes (rib c) = routes (rib b) \<and>
    (\<forall>p. unsmoothed (route c p) = unsmoothed (route b p))"
proof -
  have so: "smooth_only b c" using smooth_only_best assms(2) by (metis snd_conv)
  have shape: "rib_shape (st_heap (sources b)) (rib b)" using assms(1) by (simp add: rib_ok_def)
  have "case x of None \<Rightarrow> candidates = {}
     | Some rt \<Rightarrow> rt \<in> candidates \<and> (\<forall>r \<in> candidates. smoothed c rt \<le> smoothed c r)"
  proof (cases "find_route_slot (st_heap (sources b)) prefix plen src_prefix src_plen (rib b)")
    case (Missing n)
    have "candidates = {}"
      using find_route_slot_dest [OF shape, of prefix plen src_prefix src_plen] Missing
      by (simp add: candidates_def route_src_def route_source_def)
    then show ?thesis using assms(2) Missing by (simp add: find_best_route_def)
  next
    case (Found i)
    have mem: "rt \<in> set (routes (rib b) ! i) \<longleftrightarrow>
        rt \<in> rib_routes (rib b) \<and> src_dest_key (route_src b rt) = dest_key prefix plen src_prefix src_plen" for rt
      using find_route_slot_dest [OF shape, of prefix plen src_prefix src_plen] Found rib_routes_iff [of rt "rib b"]
      by (simp add: route_src_def route_source_def) blast
    have "best_in_slot feasible exclude (routes (rib b) ! i) b = (x, c)"
      using assms(2) Found by (simp add: find_best_route_def)
    from best_in_slot_min [OF this] show ?thesis
      by (auto simp: candidates_def mem split: option.splits)
  qed
  then show ?thesis using so by (simp add: smooth_only_def)
qed

theorem find_best_route_optimal_witness:
  "sources (snd (find_best_route a_prefix 64 (replicate 16 0) 0 True None routed_router)) = sources routed_router"
proof -
  have "rib_ok (st_heap (sources routed_router)) (rib routed_router)"
    using routed_router_ok by (simp add: daemon_ok_def tables_ok_def)
  from find_best_route_optimal [OF this prod.collapse [symmetric], where prefix = a_prefix and plen = 64 and
    src_prefix = "replicate 16 0" and src_plen = 0 and feasible = True and exclude = None]
  show ?thesis by blast
qed

end
