(* ===== verification/Route_Feasible.thy ===== *)
theory Route_Feasible
  imports Route_Best
begin

text \<open>
  Feasibility: the condition on received updates, what announcing a route does to it, and that a
  route becomes installed by a decision only when it satisfies it.
\<close>

section \<open>Announced distances\<close>

text \<open>Half the circle away, each of two sequence numbers is newer than the other.\<close>

lemma seqno_newer_iff:
  "seqno_compare seqno s > 0 \<longleftrightarrow> seqno_compare s seqno < 0 \<or> s - seqno = 0x8000"
proof (cases "s = seqno")
  case False
  note u = unat_minus_swap [OF False]
  have "0x8000 \<le> s - seqno \<longleftrightarrow> seqno - s < 0x8000 \<or> s - seqno = 0x8000"
    using u by (auto simp: word_le_nat_alt word_less_nat_alt word_unat_eq_iff)
  then show ?thesis using False by (simp add: seqno_compare_pos seqno_compare_neg)
qed simp

lemma update_feasible_iff:
  "update_feasible (Some p) seqno refmetric b \<longleftrightarrow>
     s_time (src b p) < tv_sec (now b) - SOURCE_GC_TIME \<or> INFINITY_METRIC \<le> refmetric \<or>
     better_distance seqno refmetric (s_seqno (src b p)) (s_metric (src b p)) \<or>
     s_seqno (src b p) - seqno = 0x8000"
  using seqno_newer_iff [of seqno "s_seqno (src b p)"]
  by (auto simp: update_feasible_def Let_def better_distance_def)

text \<open>
  C10: (safety) Loop avoidance: once a distance is recorded as announced, an update with the same
  sequence number that is not strictly shorter is not feasible, so a route that goes back to
  the announcer is not accepted.  (The sequence number recorded before is not half the circle
  away, where the two would each be newer than the other.)
\<close>

theorem announced_never_feasible:
  assumes "0 \<le> metric" "metric \<le> refmetric" "refmetric < INFINITY_METRIC"
    and "s_seqno (src b p) - seqno \<noteq> 0x8000"
  shows "\<not> update_feasible (Some p) seqno refmetric
    (b\<lparr>sources := update_source (tv_sec (now b)) p seqno metric (sources b)\<rparr>)"
proof -
  let ?s = "update_source1 (tv_sec (now b)) seqno metric (src b p)"
  have t: "s_time ?s = tv_sec (now b)" using assms(2,3) by (simp add: update_source1_def)
  have "\<not> better_distance seqno refmetric (s_seqno ?s) (s_metric ?s)"
    using assms(2,3) by (auto simp: update_source1_def better_distance_def)
  moreover have "s_seqno ?s - seqno \<noteq> 0x8000" using assms(2-4) by (simp add: update_source1_def)
  ultimately show ?thesis
    using t assms(3) by (simp add: update_feasible_iff update_source_def SOURCE_GC_TIME_def)
qed

theorem announced_never_feasible_witness:
  "\<not> update_feasible (Some 1) 1 300 (routed_router\<lparr>sources := update_source (tv_sec (now routed_router)) 1 1 200 (sources routed_router)\<rparr>)"
  by (rule announced_never_feasible)
    (simp_all add: INFINITY_METRIC_def routed_router_def the_source_def a_distance_def new_source_def)

text \<open>
  C0: (functional) Sending an update for a route records its distance: when \<open>send_route_update\<close>
  sends a finite metric, the feasibility distance of the source is fresh and no worse than
  what was sent, and from then on exactly the retractions, the strictly better updates and
  those half the circle away are feasible.
\<close>

theorem send_route_update_commits:
  assumes "send_route_update ifp rt b = (True, b')" "update_metric b rt ifp < INFINITY_METRIC"
  shows "s_time (src b' (r_src (route b rt))) = tv_sec (now b') \<and>
    \<not> better_distance (r_seqno (route b rt)) (update_metric b rt ifp)
        (s_seqno (src b' (r_src (route b rt)))) (s_metric (src b' (r_src (route b rt)))) \<and>
    (update_feasible (Some (r_src (route b rt))) seqno refmetric b' \<longleftrightarrow>
       INFINITY_METRIC \<le> refmetric \<or>
       better_distance seqno refmetric (s_seqno (src b' (r_src (route b rt)))) (s_metric (src b' (r_src (route b rt)))) \<or>
       s_seqno (src b' (r_src (route b rt))) - seqno = 0x8000)"
proof -
  let ?m = "update_metric b rt ifp" and ?p = "r_src (route b rt)" and ?q = "r_seqno (route b rt)"
  define b1 where "b1 = g_satisfy_request (s_prefix (route_src b rt)) (s_plen (route_src b rt))
    (s_src_prefix (route_src b rt)) (s_src_plen (route_src b rt)) ?q (s_id (route_src b rt)) (Some ifp) b"
  obtain channels b2 where b2: "update_channels b1 rt = (channels, b2)" by fastforce
  define c where "c = really_send_update ifp (s_id (route_src b rt)) (s_prefix (route_src b rt))
    (s_plen (route_src b rt)) (s_src_prefix (route_src b rt)) (s_src_plen (route_src b rt)) ?q ?m channels
    (int (length channels)) b2"
  have "shape c = shape b2" unfolding c_def by (simp add: shaped)
  moreover have "shape (snd (update_channels b1 rt)) = shape b1" by (rule shape_flushupdates)
  then have "shape b2 = shape b1" by (simp add: b2)
  moreover have "shape b1 = shape b" by (simp add: b1_def shaped)
  ultimately have "shape c = shape b" by simp
  then have "rib c = rib b" by (rule shape_eqD(1))
  then have b': "b' = c\<lparr>sources := update_source (tv_sec (now c)) ?p ?q ?m (sources c)\<rparr>"
    using assms(1)
    unfolding send_route_update_def Let_def if_P [OF assms(2)] b1_def [symmetric] b2 prod.case c_def [symmetric]
    by (simp split: if_splits)
  let ?s = "update_source1 (tv_sec (now c)) ?q ?m (src c ?p)"
  have s: "src b' ?p = ?s" "now b' = now c" by (simp_all add: b' update_source_def)
  have t: "s_time ?s = tv_sec (now c)" using assms(2) by (simp add: update_source1_def)
  have "\<not> better_distance ?q ?m (s_seqno ?s) (s_metric ?s)"
    using assms(2) by (auto simp: update_source1_def better_distance_def)
  then show ?thesis using t s by (simp add: update_feasible_iff SOURCE_GC_TIME_def)
qed

theorem send_route_update_commits_witness:
  "s_time (src (snd (send_route_update 1 1 routed_router)) 1) = tv_sec (now (snd (send_route_update 1 1 routed_router)))"
proof -
  have r: "r_src (route routed_router 1) = 1"
    by (simp add: routed_router_def the_route_def new_route_def Let_def)
  have "\<not> if_flag IF_SPLIT_HORIZON (iface (g_satisfy_request p l p' l' q i f routed_router) 1)"
    "\<not> if_flag IF_SPLIT_HORIZON (iface routed_router 1)" for p l p' l' q i f
    by (simp_all add: g_satisfy_request_def routed_router_def a_router_def the_iface_def if_flag_def IF_UP_def
        IF_SPLIT_HORIZON_def)
  then have "fst (send_route_update 1 1 routed_router) = True"
    unfolding send_route_update_def Let_def by (simp add: split_beta)
  then have f: "send_route_update 1 1 routed_router = (True, snd (send_route_update 1 1 routed_router))"
    by (metis prod.collapse)
  have "route_interferes 1 1 routed_router"
    by (simp add: route_interferes_def routed_router_def a_router_def babel_init_def conf_init_def)
  then have "update_metric routed_router 1 1 < INFINITY_METRIC"
    by (simp add: update_metric_def routed_router_def the_route_def new_route_def Let_def route_metric_def
        to_ushort_def INFINITY_METRIC_def route_zero_def)
  from send_route_update_commits [OF f this] show ?thesis unfolding r by blast
qed

section \<open>What becomes installed\<close>

definition installs :: "ptr set \<Rightarrow> babel \<Rightarrow> babel \<Rightarrow> bool" where
  "installs A b c \<longleftrightarrow> (\<forall>r. r_installed (route c r) \<longrightarrow> r \<in> A \<or> r_installed (route b r))"

lemma installs_refl: "installs A b b"
  by (simp add: installs_def)

lemma installs_trans: "installs A b c \<Longrightarrow> installs A c d \<Longrightarrow> installs A b d"
  by (auto simp: installs_def)

lemma installs_shape: "shape c = shape b \<Longrightarrow> installs A b c"
  using shape_eqD(1) [of c b] by (simp add: installs_def)

lemma installs_kernel: "kernel_only b c \<Longrightarrow> installs A b c"
  by (simp add: installs_def kernel_only_eqs(1))

lemma installs_set: "(v \<longrightarrow> rt \<in> A) \<Longrightarrow> installs A b (set_installed v rt b)"
  unfolding installs_def set_installed_def upd_route_frame(5) by simp

lemma installs_move: "installs A b (with_rib (move_installed_route rt sl) b)"
  by (auto simp: installs_def with_rib_def move_installed_route_def raise_fault_def split: slot.split)

lemma installs_fault: "installs A b (raise_fault f b)"
  by (simp add: installs_def raise_fault_def)

lemma installs_emit: "installs A b (emit ev b)"
  by (simp add: installs_def)

lemma installs_install: "installs {rt} b (install_route rt b)"
proof -
  obtain rc c where k: "kinstall_route rt b = (rc, c)" by fastforce
  have kc: "installs {rt} b c" by (rule installs_kernel [OF kernel_result_only [OF kernel_kinstall [OF kernel_refl] k]])
  have "installs {rt} b (with_rib (move_installed_route rt sl) (set_installed True rt c))" for sl
    by (rule installs_trans [OF installs_trans [OF kc installs_set] installs_move]) simp
  then show ?thesis
    unfolding install_route_def k prod.case Let_def using kc
    by (auto simp: installs_refl installs_fault intro: installs_trans [OF _ installs_emit] installs_shape split: slot.split)
qed

lemma installs_switch:
  assumes "holds (routing R W E) b" "\<And>p. old = Some p \<Longrightarrow> p \<in> R"
  shows "installs {new} b (switch_routes old new b)"
proof (cases old)
  case None
  then show ?thesis by (simp add: switch_routes_def installs_install)
next
  case (Some q)
  obtain rc c where k: "kswitch_routes q new b = (rc, c)" by fastforce
  have *: "installs {new} b (emit ev' (emit ev (with_rib (move_installed_route new sl)
      (set_installed True new (set_installed False q c)))))" if "kernel_only b c" for ev ev' sl
    by (rule installs_trans [OF installs_trans [OF installs_trans [OF installs_trans [OF
          installs_trans [OF installs_kernel [OF that] installs_set] installs_set] installs_move] installs_emit] installs_emit])
      simp_all
  show ?thesis
  proof (cases "r_installed (route b q)")
    case True
    have kc: "kernel_only b c"
      by (rule kernel_result_only [OF kernel_kswitch [OF kernel_refl] k])
        (use routing_installed(2) [OF assms(1)] assms(2) Some True in simp)
    show ?thesis
      unfolding switch_routes_def Some option.case k prod.case Let_def
      using * [OF kc] installs_kernel [OF kc] by (simp add: installs_refl)
  qed (simp add: switch_routes_def Some installs_refl)
qed

lemma installs_replace:
  assumes "holds (routing R W E) b" "\<And>p. old = Some p \<Longrightarrow> p \<in> R"
  shows "installs {rt} b (replace_route old rt b)"
proof -
  have u: "shape (send_update None True (Some p) l (Some p') l' c) = shape c" for p l p' l' c by (simp add: shaped)
  have t: "shape (send_triggered_update r p m c) = shape c" for r p m c
    by (simp add: send_triggered_update_def send_update_about_def Let_def shaped split: urgency.split)
  show ?thesis
    unfolding replace_route_def Let_def
    using installs_trans [OF installs_switch [OF assms, where new = rt] installs_shape [OF u]]
      installs_trans [OF installs_switch [OF assms, where new = rt] installs_shape [OF t]]
    by (simp split: option.split)
qed

lemma prefer_smooth: "smooth_only b (snd (prefer_route rt b))"
proof -
  have r: "smooth_only b b" by (simp add: smooth_only_def)
  have "smooth_only b (snd (case route_smoothed_metric p b of (m, c) \<Rightarrow> case route_smoothed_metric rt c of (m', d) \<Rightarrow>
        (if m > m' then Some (Some p) else None, d)))" for p
    using smooth_only_trans [OF smooth_only_smoothed smooth_only_smoothed, of b rt p] by (simp add: split_beta)
  then show ?thesis
    unfolding prefer_route_def Let_def using r by (simp split: option.split)
qed

text \<open>
  C9: (safety) A decision installs a route only when it is feasible and no local route for the
  destination takes precedence: after \<open>consider_route\<close> a route that was not installed before
  is installed only if it is the route considered, and these conditions held when it was.
\<close>

theorem consider_route_installs_feasible:
  assumes "daemon_ok b" "rt \<in> rib_routes (rib b)"
  shows "{r. r_installed (route (consider_route rt b) r)} \<subseteq>
    {r. r_installed (route b r)} \<union> (if route_feasible rt b \<and> \<not> xroute_prevails (route_src b rt) b then {rt} else {})"
proof -
  let ?R = "rib_routes (rib b)"
  have b: "holds (routing ?R (who b) (held_now b)) b" using assms(1) by (simp add: daemon_ok_routing)
  obtain x c where p: "prefer_route rt b = (x, c)" by fastforce
  have c: "holds (routing ?R (who b) (held_now b)) c" "\<And>q. x = Some (Some q) \<Longrightarrow> q \<in> ?R"
    using routing_prefer [OF b assms(2)] by (auto simp: p returns_def holds_def)
  have so: "smooth_only b c" using prefer_smooth p by (metis snd_conv)
  have same: "r_installed (route c r) = r_installed (route b r)" for r
    using so unsmoothed_fields(9) [of "route c r" "route b r"] by (simp add: smooth_only_def)
  show ?thesis
  proof (cases x)
    case None
    then show ?thesis using same p by (auto simp: consider_route_def)
  next
    case (Some old)
    have "installs {rt} c (replace_route old rt c)" by (rule installs_replace [OF c(1)]) (use c(2) Some in simp)
    moreover have "route_feasible rt b \<and> \<not> xroute_prevails (route_src b rt) b"
      using p Some by (auto simp: prefer_route_def Let_def split: if_splits)
    ultimately show ?thesis using same p Some by (auto simp: consider_route_def installs_def)
  qed
qed

theorem consider_route_installs_feasible_witness:
  "{r. r_installed (route (consider_route 1 routed_router) r)} \<subseteq> {r. r_installed (route routed_router r)} \<union> {1}"
proof -
  have "1 \<in> rib_routes (rib routed_router)" by (simp add: routed_router_def rib_routes_def)
  from consider_route_installs_feasible [OF routed_router_ok this] show ?thesis by (auto split: if_splits)
qed

end
