(* ===== verification/Neighbour.thy ===== *)
theory Neighbour
  imports Route_Update
begin

text \<open>
  The neighbour table of \<open>neighbour.c\<close>: creation and removal of neighbours, the history of
  received hellos (\<open>reach\<close>), and the periodic check.  Also \<open>do_resend\<close> of \<open>resend.c\<close>.

  \<open>reach >>= missed_hellos\<close> shifts an \<open>int\<close>; C leaves the result undefined when the count is
  32 or more (x86 takes it modulo 32), so the model takes any value then.
\<close>

section \<open>The table\<close>

definition find_neighbour_nocreate :: "byte list \<Rightarrow> ptr \<Rightarrow> babel \<Rightarrow> ptr option" where
  "find_neighbour_nocreate address ifp b =
     find (\<lambda>nb. v6_equal address (n_address (neigh b nb)) \<and> n_ifp (neigh b nb) = ifp) (neighs (nbrs b))"

definition flush_neighbour :: "ptr \<Rightarrow> babel \<Rightarrow> babel" where
  "flush_neighbour nb b =
     (let b = flush_neighbour_routes nb b;
          b = (if unicast_neighbour (unicast b) = Some nb then flush_unicast True b else b);
          b = (if nb \<in> set (neighs (nbrs b))
               then b\<lparr>nbrs := (nbrs b)\<lparr>neighs := remove1 nb (neighs (nbrs b))\<rparr>\<rparr>
               else raise_fault Null_dereference b)
      in emit (Notify_neighbour LOCAL_FLUSH nb) b)"

definition new_neighbour :: "byte list \<Rightarrow> ptr \<Rightarrow> timeval \<Rightarrow> neighbour" where
  "new_neighbour address ifp t =
     neighbour_zero\<lparr>n_hello_seqno := -1, n_address := take 16 address, n_txcost := INFINITY_METRIC,
       n_ihu_time := t, n_hello_time := tv_zero, n_hello_rtt_receive_time := tv_zero,
       n_rtt_time := tv_zero, n_ifp := ifp\<rparr>"

definition insert_neighbour :: "neighbour \<Rightarrow> neighbour_table \<Rightarrow> neighbour_table" where
  "insert_neighbour n t =
     t\<lparr>n_heap := (n_heap t)(n_fresh t := n), neighs := n_fresh t # neighs t, n_fresh := n_fresh t + 1\<rparr>"

definition find_neighbour :: "byte list \<Rightarrow> ptr \<Rightarrow> babel \<Rightarrow> ptr option \<times> babel" where
  "find_neighbour address ifp b =
     (case find_neighbour_nocreate address ifp b of
        Some nb \<Rightarrow> (Some nb, b)
      | None \<Rightarrow>
          case c_alloc b of (ok, b) \<Rightarrow>
            if \<not> ok then (None, b)
            else
              let nb = n_fresh (nbrs b);
                  b = b\<lparr>nbrs := insert_neighbour (new_neighbour address ifp (now b)) (nbrs b)\<rparr>;
                  b = emit (Notify_neighbour LOCAL_ADD nb) b
              in (Some nb, send_hello ifp b))"

section \<open>The history of hellos\<close>

definition shift_reach :: "int \<Rightarrow> u16 \<Rightarrow> babel \<Rightarrow> u16 \<times> babel" where
  "shift_reach n reach b =
     (if n < 32 then (drop_bit (nat n) reach, b) else (case ask b of (a, b) \<Rightarrow> (word_of_int a, b)))"

text \<open>
  The first part of \<open>update_neighbour\<close>, for the periodic check (no hello): the number of hellos
  missed since the last one, \<open>None\<close> when the function returns.
\<close>

definition missed_on_timeout :: "timeval \<Rightarrow> neighbour \<Rightarrow> int option" where
  "missed_on_timeout t n =
     (if n_hello_interval n \<le> 0 then None
      else
        let missed = (timeval_minus_msec t (n_hello_time n) - n_hello_interval n * 7) sdiv (n_hello_interval n * 10)
        in if missed \<le> 0 then None else Some missed)"

text \<open>
  The same for a received hello: the changed neighbour, the hellos missed, whether the hello
  still counts (a late one does not), and whether something changed.
\<close>

definition hello_received ::
  "timeval \<Rightarrow> u16 \<Rightarrow> int \<Rightarrow> neighbour \<Rightarrow> neighbour \<times> int \<times> bool \<times> bool" where
  "hello_received t hello interval n =
     (let (n, missed, counts, changed) =
            (if n_hello_seqno n \<ge> 0 \<and> n_reach n > 0 then
               let missed = seqno_minus hello (word_of_int (n_hello_seqno n)) - 1 in
               if missed < -8 then (n\<lparr>n_reach := 0\<rparr>, 0, True, True)
               else if missed < 0 then
                 (if interval > n_hello_interval n
                  then (n\<lparr>n_reach := push_bit (nat (- missed)) (n_reach n)\<rparr>, 0, True, True)
                  else (n\<lparr>n_hello_seqno := uint hello\<rparr>, 0, False, True))
               else (n, missed, True, False)
             else (n, 0, True, False))
      in (n\<lparr>n_hello_time := t, n_hello_interval := to_ushort interval\<rparr>, missed, counts, changed))"

definition count_missed :: "ptr \<Rightarrow> int \<Rightarrow> babel \<Rightarrow> babel" where
  "count_missed nb missed b =
     (if missed > 0 then
        (case shift_reach missed (n_reach (neigh b nb)) b of (reach, b) \<Rightarrow>
           upd_neigh nb (\<lambda>n. n\<lparr>n_reach := reach,
             n_hello_seqno := uint (seqno_plus (word_of_int (n_hello_seqno n)) missed)\<rparr>) b)
      else b)"

definition count_hello :: "u16 \<Rightarrow> neighbour \<Rightarrow> neighbour" where
  "count_hello hello n = n\<lparr>n_hello_seqno := uint hello, n_reach := drop_bit 1 (n_reach n) OR 0x8000\<rparr>"

text \<open>The messages that \<open>update_neighbour\<close> sends, after the history alone.\<close>

definition hello_feedback :: "ptr \<Rightarrow> babel \<Rightarrow> babel" where
  "hello_feedback nb b =
     (let reach = n_reach (neigh b nb);
          b = (if reach AND 0xBF00 = 0x8000 then send_hello (n_ifp (neigh b nb)) b
               else if (reach AND 0xC000 = 0xC000 \<and> reach AND 0x3000 = 0) \<or>
                       (reach AND 0xC000 = 0 \<and> reach AND 0x3000 = 0x3000)
               then send_self_update (n_ifp (neigh b nb)) b
               else b)
      in if n_reach (neigh b nb) AND 0xFC00 = 0xC000
         then send_ihu nb None (send_unicast_request nb None 0 None 0 b)
         else b)"

definition update_neighbour :: "ptr \<Rightarrow> u16 option \<Rightarrow> int \<Rightarrow> babel \<Rightarrow> bool \<times> babel" where
  "update_neighbour nb hello interval b =
     (case hello of
        None \<Rightarrow>
          (case missed_on_timeout (now b) (neigh b nb) of
             None \<Rightarrow> (False, b)
           | Some missed \<Rightarrow>
               let b = upd_neigh nb (\<lambda>n. n\<lparr>n_hello_time :=
                         timeval_add_msec (n_hello_time n) (missed * n_hello_interval n * 10)\<rparr>) b;
                   b = count_missed nb missed b
               in (True, hello_feedback nb b))
      | Some hello \<Rightarrow>
          (case hello_received (now b) hello interval (neigh b nb) of (n, missed, counts, changed) \<Rightarrow>
             let b = upd_neigh nb (\<lambda>_. n) b;
                 b = count_missed nb missed b;
                 b = (if counts then upd_neigh nb (count_hello hello) b else b);
                 lossy = (counts \<and> n_reach (neigh b nb) AND 0xFC00 \<noteq> 0xFC00)
             in (changed \<or> missed > 0 \<or> lossy, hello_feedback nb b)))"

section \<open>The periodic check\<close>

definition reset_txcost :: "ptr \<Rightarrow> babel \<Rightarrow> bool \<times> babel" where
  "reset_txcost nb b =
     (let n = neigh b nb; delay = timeval_minus_msec (now b) (n_ihu_time n) in
      if n_ihu_interval n > 0 \<and> delay < n_ihu_interval n * 10 * 3 then (False, b)
      else if delay \<ge> 180000 \<or> n_reach n AND 0xFFF0 = 0 \<or>
              (n_ihu_interval n > 0 \<and> delay \<ge> n_ihu_interval n * 10 * 10)
      then (True, upd_neigh nb (\<lambda>n. n\<lparr>n_txcost := INFINITY_METRIC, n_ihu_time := now b\<rparr>) b)
      else (False, b))"

definition neighbour_gone :: "ptr \<Rightarrow> babel \<Rightarrow> bool" where
  "neighbour_gone nb b \<longleftrightarrow>
     n_reach (neigh b nb) = 0 \<or> tv_sec (n_hello_time (neigh b nb)) > tv_sec (now b) \<or>
     timeval_minus_msec (now b) (n_hello_time (neigh b nb)) > 300000"

definition check_neighbour :: "ptr \<Rightarrow> int \<times> babel \<Rightarrow> int \<times> babel" where
  "check_neighbour nb = (\<lambda>(msecs, b).
     if fault b \<noteq> None then (msecs, b)
     else case update_neighbour nb None 0 b of (changed, b) \<Rightarrow>
       if neighbour_gone nb b then (msecs, flush_neighbour nb b)
       else case reset_txcost nb b of (reset, b) \<Rightarrow>
         let b = update_neighbour_metric nb (changed \<or> reset) b; n = neigh b nb;
             msecs = (if n_hello_interval n > 0 then min msecs (n_hello_interval n * 10) else msecs);
             msecs = (if n_ihu_interval n > 0 then min msecs (n_ihu_interval n * 10) else msecs)
         in (msecs, b))"

definition check_neighbours :: "babel \<Rightarrow> int \<times> babel" where
  "check_neighbours b = fold check_neighbour (neighs (nbrs b)) (50000, b)"

section \<open>Resending\<close>

definition upd_resend :: "ptr \<Rightarrow> (resend \<Rightarrow> resend) \<Rightarrow> babel \<Rightarrow> babel" where
  "upd_resend p f b = b\<lparr>resends := (resends b)\<lparr>rt_heap := (rt_heap (resends b))(p := f (rt_heap (resends b) p))\<rparr>\<rparr>"

definition resend_due :: "timeval \<Rightarrow> resend \<Rightarrow> bool" where
  "resend_due t r \<longleftrightarrow> resend_active t r \<and> timeval_compare t (resend_timeout r) \<ge> 0"

definition resend_again :: "resend \<Rightarrow> babel \<Rightarrow> babel" where
  "resend_again r b =
     (case q_kind r of
        RESEND_REQUEST \<Rightarrow>
          send_multihop_request (q_ifp r) (q_prefix r) (q_plen r) (q_src_prefix r) (q_src_plen r)
            (q_seqno r) (q_id r) 127 b
      | RESEND_UPDATE \<Rightarrow>
          send_update (q_ifp r) True (Some (q_prefix r)) (q_plen r) (Some (q_src_prefix r)) (q_src_plen r) b)"

definition back_off :: "resend \<Rightarrow> resend" where
  "back_off r = r\<lparr>q_delay := min 0xFFFF (q_delay r * 2), q_max := q_max r - 1\<rparr>"

definition do_resend1 :: "ptr \<Rightarrow> babel \<Rightarrow> babel" where
  "do_resend1 p b =
     (let r = rt_heap (resends b) p in
      if resend_due (now b) r then upd_resend p back_off (resend_again r b) else b)"

definition do_resend :: "babel \<Rightarrow> babel" where
  "do_resend b =
     (let b = fold do_resend1 (to_resend (resends b)) b
      in b\<lparr>resends := recompute_resend_time (now b) (resends b)\<rparr>)"

end
