(* ===== verification/Neighbour_Safe.thy ===== *)
theory Neighbour_Safe
  imports Neighbour Route_Flush
begin

text \<open>
  The invariant of the daemon through the walks over the route table and the operations on
  neighbours.  A walk keeps it or runs out of fuel; in the second case the fault is recorded
  and nothing is claimed of the rest of the state.
\<close>

section \<open>Changing a neighbour\<close>

definition mild :: "neighbour \<Rightarrow> neighbour \<Rightarrow> bool" where
  "mild n m \<longleftrightarrow>
     n_ifp m = n_ifp n \<and> n_address m = n_address n \<and>
     (0 \<le> n_txcost n \<and> n_txcost n \<le> INFINITY_METRIC \<longrightarrow> 0 \<le> n_txcost m \<and> n_txcost m \<le> INFINITY_METRIC) \<and>
     (0 \<le> n_rtt n \<longrightarrow> 0 \<le> n_rtt m)"

lemma upd_neigh_frame [simp]:
  "neigh (upd_neigh nb f b) p = (if p = nb then f (neigh b nb) else neigh b p)"
  "neighs (nbrs (upd_neigh nb f b)) = neighs (nbrs b)" "n_fresh (nbrs (upd_neigh nb f b)) = n_fresh (nbrs b)"
  "conf (upd_neigh nb f b) = conf b" "now (upd_neigh nb f b) = now b" "fault (upd_neigh nb f b) = fault b"
  "env (upd_neigh nb f b) = env b" "ifaces (upd_neigh nb f b) = ifaces b" "xroutes (upd_neigh nb f b) = xroutes b"
  "maxxroutes (upd_neigh nb f b) = maxxroutes b"
  "unicast (upd_neigh nb f b) = unicast b" "resends (upd_neigh nb f b) = resends b"
  by (simp_all add: upd_neigh_def)

lemma routing_nbrs:
  assumes b: "holds (routing R W E) b"
    and c: "rib c = rib b" "sources c = sources b" "conf c = conf b" "fault c = fault b" "env c = env b"
      "ifaces c = ifaces b" "xroutes c = xroutes b" "unicast c = unicast b" "resends c = resends b"
    and n: "\<And>p. length (n_address (neigh c p)) = 16" "\<And>p. link_costs_ok (neigh c p)"
      "distinct (neighs (nbrs c))" "\<And>p. p \<in> set (neighs (nbrs c)) \<Longrightarrow> p < n_fresh (nbrs c)"
      "\<And>rt. rt \<in> R \<Longrightarrow> n_ifp (neigh c (r_neigh (route b rt))) = n_ifp (neigh b (r_neigh (route b rt))) \<and>
        r_neigh (route b rt) \<in> set (neighs (nbrs c))"
  shows "holds (routing R W E) c"
proof -
  note d = routingD [OF b]
  have rs: "route_src c p = route_src b p" for p by (simp add: route_src_def c)
  have "ready c" using d(1) n(1) by (simp add: holds_def ready_def network_ok_def buffers_ok_def c rs)
  moreover have "tables_ok c" using d(2) by (simp add: tables_ok_def c)
  moreover have "counted E c" using d(3) by (simp add: counted_def users_def c)
  moreover have "steady c" using d(9) n(2-4) by (simp add: steady_def allocs_succeed_def c)
  moreover have "rt \<in> R \<Longrightarrow> who c rt = who b rt" for rt using n(5) by (simp add: who_def rs c)
  moreover have "rt \<in> R \<Longrightarrow> fst (snd (who b rt)) \<in> set (neighs (nbrs c))" for rt using n(5) by (simp add: who_def)
  ultimately show ?thesis using d(5,6) by (simp add: holds_def routing_def c)
qed

lemma routing_address: "holds (routing R W E) b \<Longrightarrow> length (n_address (neigh b p)) = 16"
  by (simp add: holds_def routing_def ready_def network_ok_def)

lemma routing_upd_neigh:
  assumes "holds (routing R W E) b" "mild (neigh b nb) (f (neigh b nb))"
  shows "holds (routing R W E) (upd_neigh nb f b)"
proof (rule routing_nbrs [OF assms(1)])
  note m = assms(2) [unfolded mild_def]
  show "length (n_address (neigh (upd_neigh nb f b) p)) = 16" for p
    using m routing_address [OF assms(1)] by simp
  have "link_costs_ok (neigh b p)" for p using routingD(9) [OF assms(1)] by (simp add: steady_def)
  then show "link_costs_ok (neigh (upd_neigh nb f b) p)" for p using m by (auto simp: link_costs_ok_def)
  show "p < n_fresh (nbrs (upd_neigh nb f b))" if "p \<in> set (neighs (nbrs (upd_neigh nb f b)))" for p
    using that routingD(9) [OF assms(1)] by (simp add: steady_def)
  show "distinct (neighs (nbrs (upd_neigh nb f b)))" using routingD(9) [OF assms(1)] by (simp add: steady_def)
  show "n_ifp (neigh (upd_neigh nb f b) (r_neigh (route b rt))) = n_ifp (neigh b (r_neigh (route b rt))) \<and>
      r_neigh (route b rt) \<in> set (neighs (nbrs (upd_neigh nb f b)))" if "rt \<in> R" for rt
    using m routing_linked [OF assms(1) that] by simp
qed simp_all

lemma mild_fields [simp]:
  "mild n (n\<lparr>n_hello_time := t\<rparr>)" "mild n (n\<lparr>n_reach := r, n_hello_seqno := s\<rparr>)" "mild n (count_hello h n)"
  "mild n (n\<lparr>n_txcost := INFINITY_METRIC, n_ihu_time := t\<rparr>)"
  "mild n (n\<lparr>n_hello_send_us := u, n_hello_rtt_receive_time := t\<rparr>)" "mild n (n\<lparr>n_rtt_time := t\<rparr>)"
  "0 \<le> v \<Longrightarrow> mild n (n\<lparr>n_rtt := v\<rparr>)"
  "0 \<le> c \<Longrightarrow> c \<le> INFINITY_METRIC \<Longrightarrow> mild n (n\<lparr>n_txcost := c, n_ihu_time := t, n_ihu_interval := i\<rparr>)"
  by (simp_all add: mild_def count_hello_def INFINITY_METRIC_def)

lemma mild_hello: "hello_received t hello interval n = (m, missed, counts, changed) \<Longrightarrow> mild n m"
  by (auto simp: hello_received_def Let_def mild_def split: if_splits)

section \<open>Walks\<close>

definition spent :: "ptr set \<Rightarrow> (ptr \<Rightarrow> identity) \<Rightarrow> held \<Rightarrow> babel \<Rightarrow> bool" where
  "spent R W E b \<longleftrightarrow> routing R W E b \<or> fault b = Some Out_of_fuel"

lemma spentI: "holds (routing R W E) b \<Longrightarrow> holds (spent R W E) b"
  by (simp add: holds_def spent_def)

lemma next_in_set: "next_in p slot = Some q \<Longrightarrow> q \<in> set slot"
  by (induction p slot rule: next_in.induct) (auto split: if_splits list.splits)

lemma route_next_member: "route_next rb p = Some q \<Longrightarrow> q \<in> rib_routes rb"
  by (auto simp: route_next_def rib_routes_def find_Some_iff split: option.splits)
    (metis next_in_set nth_mem)

lemma walk_ok:
  assumes "holds (routing R W E) b" "\<And>r. p = Some r \<Longrightarrow> r \<in> R"
    and f: "\<And>r c. holds (routing R W E) c \<Longrightarrow> r \<in> R \<Longrightarrow> holds (routing R W E) (f r c)"
  shows "holds (spent R W E) (walk n f p b)"
  using assms(1,2)
proof (induction n arbitrary: p b)
  case (0 p b)
  then show ?case using routingD(7) [OF "0.prems"(1)]
    by (cases p) (simp_all add: spentI, simp add: holds_def spent_def raise_fault_def)
next
  case (Suc n p b)
  show ?case
  proof (cases p)
    case None
    then show ?thesis using Suc.prems(1) by (simp add: spentI)
  next
    case (Some r)
    have c: "holds (routing R W E) (f r b)" using f Suc.prems Some by simp
    have "holds (spent R W E) (walk n f (route_next (rib (f r b)) r) (f r b))"
      by (rule Suc.IH [OF c]) (use route_next_member routingD(5) [OF c] in blast)
    then show ?thesis using Some by (simp add: Let_def)
  qed
qed

lemma slot_head_member:
  assumes "holds (routing R W E) b" "slot_head i b = Some r"
  shows "r \<in> R"
proof -
  have i: "i < length (routes (rib b))" "r = hd (routes (rib b) ! i)" using assms(2) by (auto simp: slot_head_def split: if_splits)
  have "routes (rib b) ! i \<noteq> []"
    using routingD(8) [OF assms(1)] nth_mem [OF i(1)] by (auto simp: rib_ok_def rib_shape_def same_dest_def)
  then show ?thesis using routing_slots(2) [OF assms(1) i(1), of r] i(2) by simp
qed

lemma for_all_routes_ok:
  assumes "holds (routing R W E) b"
    and "\<And>r c. holds (routing R W E) c \<Longrightarrow> r \<in> R \<Longrightarrow> holds (routing R W E) (f r c)"
  shows "holds (spent R W E) (for_all_routes f b)"
  unfolding for_all_routes_def
proof (rule holds_fold [OF spentI [OF assms(1)]])
  fix i c assume c: "holds (spent R W E) c"
  have "holds (spent R W E) (walk (walk_fuel c) f (slot_head i c) c)" if r: "holds (routing R W E) c"
    by (rule walk_ok [OF r slot_head_member [OF r] assms(2)])
  then show "holds (spent R W E) (if fault c \<noteq> None then c else walk (walk_fuel c) f (slot_head i c) c)"
    using c by (auto simp: spent_def holds_def)
qed

lemma spent_emit: "holds (spent R W E) b \<Longrightarrow> holds (spent R W E) (emit ev b)"
  using routing_basic(2) [of R W E b ev] by (auto simp: holds_def spent_def emit_def)

lemma spent_update_neighbour_metric:
  assumes "holds (routing R W E) b"
  shows "holds (spent R W E) (update_neighbour_metric nb changed b)"
proof -
  have "holds (spent R W E) (for_all_routes (\<lambda>r b. if r_neigh (route b r) = nb then update_route_metric r b else b) b)"
    by (rule for_all_routes_ok [OF assms]) (simp add: routed)
  then show ?thesis using assms unfolding update_neighbour_metric_def by (simp add: spent_emit spentI)
qed

lemma spent_update_interface_metric:
  "holds (routing R W E) b \<Longrightarrow> holds (spent R W E) (update_interface_metric ifp b)"
  unfolding update_interface_metric_def by (rule for_all_routes_ok) (simp_all add: routed)

lemma spent_retract_neighbour_routes:
  "holds (routing R W E) b \<Longrightarrow> holds (spent R W E) (retract_neighbour_routes nb b)"
  unfolding retract_neighbour_routes_def by (rule for_all_routes_ok) (simp_all add: routed)

end
