(* ===== verification/Links.thy ===== *)
theory Links
  imports Neighbour_Safe
begin

text \<open>
  What the operations on routes leave alone, whatever they are given: the lists of neighbours and
  interfaces, whose neighbour is on which interface, the configuration, the exported routes
  (\<open>linked\<close>).  So a loop over the neighbours may change routes on its way.
\<close>

section \<open>The relation\<close>

definition linked :: "babel \<Rightarrow> babel \<Rightarrow> bool" where
  "linked b0 b \<longleftrightarrow>
     neighs (nbrs b) = neighs (nbrs b0) \<and> n_fresh (nbrs b) = n_fresh (nbrs b0) \<and>
     interfaces (ifaces b) = interfaces (ifaces b0) \<and> i_fresh (ifaces b) = i_fresh (ifaces b0) \<and>
     conf b = conf b0 \<and> filters_of b = filters_of b0 \<and> xroutes b = xroutes b0 \<and>
     maxxroutes b = maxxroutes b0 \<and> env b = env b0 \<and>
     (\<forall>p. quiet_neighbour (neigh b p) = quiet_neighbour (neigh b0 p)) \<and>
     (\<forall>p. quiet_iface (iface b p) = quiet_iface (iface b0 p))"

named_theorems links \<open>operations that keep the lists and the configuration\<close>

lemma linked_refl [simp]: "linked b b"
  by (simp add: linked_def)

lemma linked_start: "holds (linked b) b"
  by (simp add: holds_def)

lemma linked_shape:
  assumes "shape c = shape b" "holds (linked b0) b"
  shows "holds (linked b0) c"
  using assms(2) by (simp add: holds_def linked_def shape_eqD(2-5,8-12,19,20) [OF assms(1)])

lemma linked_shape_returns:
  "shape (snd r) = shape b \<Longrightarrow> holds (linked b0) b \<Longrightarrow> returns (\<lambda>_. linked b0) r"
  using linked_shape [of "snd r"] by (simp add: holds_def returns_def)

lemma linked_basic [links]:
  assumes "holds (linked b0) b"
  shows "returns (\<lambda>_. linked b0) (ask b)" "returns (\<lambda>_. linked b0) (c_alloc b)" "holds (linked b0) (emit ev b)"
    "holds (linked b0) (raise_fault e b)" "holds (linked b0) (c_assert v b)" "holds (linked b0) (b\<lparr>errno := errn\<rparr>)"
    "holds (linked b0) (b\<lparr>rules := rs\<rparr>)" "holds (linked b0) (b\<lparr>used_tables := us\<rparr>)"
    "holds (linked b0) (b\<lparr>rib := rb\<rparr>)" "holds (linked b0) (b\<lparr>sources := st\<rparr>)"
    "holds (linked b0) (b\<lparr>resends := rt\<rparr>)"
  using assms by (auto simp: holds_def returns_def linked_def ask_def c_alloc_def split_beta emit_def raise_fault_def c_assert_def)

lemma linked_route [links]:
  assumes "holds (linked b0) b"
  shows "holds (linked b0) (upd_route rt f b)" "holds (linked b0) (set_smoothed rt sm st b)"
    "holds (linked b0) (set_installed v rt b)" "holds (linked b0) (with_rib g b)" "holds (linked b0) (with_sources h b)"
  using assms by (simp_all add: upd_route_def set_smoothed_def set_installed_def with_rib_def with_sources_def links
      split: option.split)

lemma linked_senders [links]:
  assumes "holds (linked b0) b"
  shows "holds (linked b0) (send_update ifp urgent pre plen sp splen b)"
    "holds (linked b0) (send_update_resend ifp' prefix plen src_prefix splen b)"
    "holds (linked b0) (send_request ifp pre plen sp splen b)"
    "holds (linked b0) (send_unicast_request nb pre plen sp splen b)"
    "holds (linked b0) (send_unicast_multihop_request nb prefix plen src_prefix splen seqno rid hops b)"
    "holds (linked b0) (send_request_resend nb' prefix plen src_prefix splen seqno rid b)"
    "holds (linked b0) (send_hello p b)" "holds (linked b0) (send_self_update p b)"
    "holds (linked b0) (send_ihu nb ifp'' b)" "holds (linked b0) (flush_unicast dofree b)"
    "holds (linked b0) (send_ack nb nonce interval b)"
    "holds (linked b0) (send_multihop_request ifp prefix plen src_prefix splen seqno rid hops b)"
  using assms by (auto intro!: linked_shape [OF _ assms] simp: shaped)

section \<open>The kernel\<close>

lemma linked_kernel:
  assumes "holds (linked b0) b" "beside_kernel c = beside_kernel b"
  shows "holds (linked b0) c"
  using assms(1) arg_cong [OF assms(2), of nbrs] arg_cong [OF assms(2), of ifaces] arg_cong [OF assms(2), of conf]
    arg_cong [OF assms(2), of filters_of] arg_cong [OF assms(2), of xroutes] arg_cong [OF assms(2), of maxxroutes] arg_cong [OF assms(2), of env]
  by (simp add: holds_def linked_def beside_kernel_def)

lemma linked_kernel_ops [links]:
  assumes "holds (linked b0) b"
  shows "returns (\<lambda>_. linked b0) (kernel_route kop t d p s sp g i m ng ni nm nt b)"
    "returns (\<lambda>_. linked b0) (find_table d p s sp b)"
    "returns (\<lambda>_. linked b0) (add_route zone rt b)" "returns (\<lambda>_. linked b0) (del_route zone rt b)"
    "returns (\<lambda>_. linked b0) (chg_route zone rt rt' b)" "returns (\<lambda>_. linked b0) (chg_route_metric zone rt m m' b)"
    "returns (\<lambda>_. linked b0) (min_conflict zone rt b)" "returns (\<lambda>_. linked b0) (conflict_solution rt b)"
    "returns (\<lambda>_. linked b0) (kinstall_result rc b)" "returns (\<lambda>_. linked b0) (kinstall_route rt b)"
    "returns (\<lambda>_. linked b0) (kuninstall_route rt b)"
proof -
  have k: "returns (\<lambda>_. linked b0) r" if "holds (kernel_only b) b \<Longrightarrow> returns (\<lambda>_. kernel_only b) r" for r :: "'x \<times> babel"
    using linked_kernel [OF assms, of "snd r"] kernel_start_returns [OF that]
    by (simp add: returns_def holds_def kernel_only_def)
  show "returns (\<lambda>_. linked b0) (kernel_route kop t d p s sp g i m ng ni nm nt b)"
    "returns (\<lambda>_. linked b0) (find_table d p s sp b)"
    "returns (\<lambda>_. linked b0) (add_route zone rt b)" "returns (\<lambda>_. linked b0) (del_route zone rt b)"
    "returns (\<lambda>_. linked b0) (chg_route zone rt rt' b)" "returns (\<lambda>_. linked b0) (chg_route_metric zone rt m m' b)"
    "returns (\<lambda>_. linked b0) (min_conflict zone rt b)" "returns (\<lambda>_. linked b0) (conflict_solution rt b)"
    "returns (\<lambda>_. linked b0) (kinstall_result rc b)" "returns (\<lambda>_. linked b0) (kinstall_route rt b)"
    "returns (\<lambda>_. linked b0) (kuninstall_route rt b)"
    by (rule k, intro kernels, assumption)+
qed

lemma linked_min_conflict [links]:
  "holds (linked b0) b \<Longrightarrow> returns (\<lambda>_. linked b0) (is_min_conflict rt1 zone rt b)"
  unfolding is_min_conflict_def by (intro inv_rules links)

lemma linked_solves [links]:
  "holds (linked b0) b \<Longrightarrow> returns (\<lambda>_. linked b0) (solves_conflict rt rt1 zone b)"
  unfolding solves_conflict_def by (intro inv_rules links)

lemma linked_switch [links]:
  "holds (linked b0) b \<Longrightarrow> returns (\<lambda>_. linked b0) (kswitch_routes old new b)"
  unfolding kswitch_routes_def kswitch_conflict_def by (intro inv_rules links)

lemma linked_kchange [links]:
  "holds (linked b0) b \<Longrightarrow> returns (\<lambda>_. linked b0) (kchange_route_metric rt refmetric cost add b)"
  unfolding kchange_route_metric_def kchange_conflict_def by (intro inv_rules links)

section \<open>Routes\<close>

lemma linked_smoothed [links]:
  assumes "holds (linked b0) b"
  shows "returns (\<lambda>_. linked b0) (route_smoothed_metric rt b)"
proof (rule route_smoothed_metric_spec [of b rt])
  fix c sm
  assume k: "kernel_only b c" and e: "route_smoothed_metric rt b = (sm, set_smoothed rt sm (tv_sec (now b)) c)"
  have "holds (linked b0) c" using k by (intro linked_kernel [OF assms]) (simp add: kernel_only_def)
  then have "holds (linked b0) (set_smoothed rt sm (tv_sec (now b)) c)" by (rule links)
  then show ?thesis by (simp add: e returns_def holds_def)
qed

lemma linked_best [links]:
  assumes "holds (linked b0) b"
  shows "returns (\<lambda>_. linked b0) (find_best_route prefix plen src_prefix src_plen feasible exclude b)"
    "returns (\<lambda>_. linked b0) (best_for s b)"
proof -
  have a: "returns (\<lambda>_. linked b0) (best_among feasible exclude rs rt c)" if "holds (linked b0) c" for feasible exclude rs rt c
    using that
  proof (induction rs arbitrary: rt c)
    case Nil
    then show ?case by (simp add: inv_rules)
  next
    case (Cons r rs)
    then show ?case by (simp only: best_among.simps) (intro inv_rules links Cons.IH)
  qed
  have "returns (\<lambda>_. linked b0) (best_in_slot feasible exclude slot b)" for feasible exclude slot
    using a [OF assms] assms by (auto simp: best_in_slot_def split_beta returns_def holds_def split: list.split)
  then have f: "returns (\<lambda>_. linked b0) (find_best_route prefix plen src_prefix src_plen feasible exclude b)"
    for prefix plen src_prefix src_plen feasible exclude
    using assms by (simp add: find_best_route_def inv_rules split: slot.split)
  show "returns (\<lambda>_. linked b0) (find_best_route prefix plen src_prefix src_plen feasible exclude b)"
    "returns (\<lambda>_. linked b0) (best_for s b)"
    using f by (simp_all add: best_for_def)
qed

lemma linked_install [links]:
  assumes "holds (linked b0) b"
  shows "holds (linked b0) (install_route rt b)" "holds (linked b0) (uninstall_route rt b)"
proof -
  have s: "holds (linked b0) (case x of Missing i \<Rightarrow> raise_fault e c | Found i \<Rightarrow> f i)"
    if "holds (linked b0) c" "\<And>i. holds (linked b0) (f i)" for x f e c
    using that by (cases x) (simp_all add: links)
  show "holds (linked b0) (install_route rt b)"
    unfolding install_route_def let_values by (intro inv_rules s links assms)
  show "holds (linked b0) (uninstall_route rt b)"
    unfolding uninstall_route_def by (intro inv_rules links assms)
qed

lemma linked_switch_routes [links]:
  "holds (linked b0) b \<Longrightarrow> holds (linked b0) (switch_routes old new b)"
  unfolding switch_routes_def by (intro inv_rules links)

lemma linked_change [links]:
  assumes "holds (linked b0) b"
  shows "holds (linked b0) (change_route_metric rt refmetric cost add b)" "holds (linked b0) (retract_route rt b)"
proof -
  have s: "holds (linked b0) (store_metric rt refmetric cost add c)" if "holds (linked b0) c" for refmetric cost add c
    unfolding store_metric_def by (intro inv_rules links that)
  have c: "holds (linked b0) (change_route_metric rt refmetric cost add b)" for refmetric cost add
    unfolding change_route_metric_def let_values by (intro inv_rules s links assms)
  then show "holds (linked b0) (change_route_metric rt refmetric cost add b)" "holds (linked b0) (retract_route rt b)"
    by (simp_all add: retract_route_def)
qed

lemma linked_triggered [links]:
  assumes "holds (linked b0) b"
  shows "holds (linked b0) (send_update_about u s b)" "holds (linked b0) (send_triggered_update rt oldsrc oldmetric b)"
proof -
  have a: "holds (linked b0) (send_update_about u s b)" for u s
    using assms by (cases u) (simp_all add: send_update_about_def links)
  then show "holds (linked b0) (send_update_about u s b)" .
  show "holds (linked b0) (send_triggered_update rt oldsrc oldmetric b)"
    unfolding send_triggered_update_def let_values Let_def [where 'a = urgency] by (intro inv_rules links assms a)
qed

lemma linked_consider [links]:
  assumes "holds (linked b0) b"
  shows "holds (linked b0) (consider_route rt b)"
proof -
  have p: "returns (\<lambda>_. linked b0) (prefer_route rt b)"
    unfolding prefer_route_def let_values by (intro inv_rules links assms)
  have r: "holds (linked b0) (replace_route installed rt c)" if "holds (linked b0) c" for installed c
    unfolding replace_route_def let_values by (intro inv_rules links that)
  show ?thesis unfolding consider_route_def by (intro inv_rules p r)
qed

lemma linked_changed [links]:
  assumes "holds (linked b0) b"
  shows "holds (linked b0) (route_changed rt oldsrc oldmetric b)" "holds (linked b0) (route_lost p oldmetric b)"
    "holds (linked b0) (send_unfeasible_request nb force seqno metric p b)"
  subgoal unfolding route_changed_def by (intro inv_rules links assms)
  subgoal unfolding route_lost_def let_values by (intro inv_rules links assms)
  subgoal unfolding send_unfeasible_request_def let_values by (intro inv_rules links assms)
  done

section \<open>Updates, walks and removals\<close>

lemma linked_cost [links]:
  assumes "holds (linked b0) b"
  shows "returns (\<lambda>_. linked b0) (neighbour_rttcost nb b)" "returns (\<lambda>_. linked b0) (neighbour_cost nb b)"
proof -
  have r: "returns (\<lambda>_. linked b0) (neighbour_rttcost nb b)"
    unfolding neighbour_rttcost_def let_values by (intro inv_rules links assms)
  then show "returns (\<lambda>_. linked b0) (neighbour_rttcost nb b)" .
  show "returns (\<lambda>_. linked b0) (neighbour_cost nb b)"
    unfolding neighbour_cost_def let_values by (intro inv_rules links assms r)
qed

lemma linked_update_metric [links]:
  "holds (linked b0) b \<Longrightarrow> holds (linked b0) (update_route_metric rt b)"
  unfolding update_route_metric_def let_values Let_def [where 'a = ptr] by (intro inv_rules links)

lemma linked_walk:
  assumes "holds (linked b0) b" "\<And>r c. holds (linked b0) c \<Longrightarrow> holds (linked b0) (f r c)"
  shows "holds (linked b0) (for_all_routes f b)"
proof -
  have w: "holds (linked b0) (walk n f q c)" if "holds (linked b0) c" for n q c
    using that
  proof (induction n arbitrary: q c)
    case (0 q c)
    then show ?case by (cases q) (simp_all add: links)
  next
    case (Suc n q c)
    then show ?case using assms(2) by (cases q) (simp_all add: Let_def)
  qed
  show ?thesis unfolding for_all_routes_def by (intro holds_fold holds_if w assms(1))
qed

lemma linked_walks [links]:
  assumes "holds (linked b0) b"
  shows "holds (linked b0) (update_neighbour_metric nb changed b)" "holds (linked b0) (update_interface_metric ifp b)"
    "holds (linked b0) (retract_neighbour_routes nb b)"
  subgoal unfolding update_neighbour_metric_def by (intro inv_rules linked_walk links assms)
  subgoal unfolding update_interface_metric_def by (intro linked_walk holds_if links assms)
  subgoal unfolding retract_neighbour_routes_def retract_neighbour_route_def let_values
    by (intro linked_walk inv_rules links assms)
  done

lemma linked_flush [links]:
  assumes "holds (linked b0) b"
  shows "holds (linked b0) (flush_route rt b)"
proof -
  have s: "holds (linked b0) (case x of Missing i \<Rightarrow> raise_fault e c | Found i \<Rightarrow> f i)"
    if "holds (linked b0) c" "\<And>i. holds (linked b0) (f i)" for x f e c
    using that by (cases x) (simp_all add: links)
  show ?thesis unfolding flush_route_def let_values Let_def [where 'a = ptr] by (intro inv_rules s links assms)
qed

lemma linked_flush_matching:
  "holds (linked b0) b \<Longrightarrow> holds (linked b0) (flush_matching n q i b)"
proof (induction n q i b rule: flush_matching.induct)
  case (1 n q i b)
  then show ?case
    by (subst flush_matching.simps) (auto simp: links split: option.split nat.split)
qed

lemma linked_flushes [links]:
  assumes "holds (linked b0) b"
  shows "holds (linked b0) (flush_neighbour_routes nb b)" "holds (linked b0) (flush_interface_routes ifp v4only b)"
  unfolding flush_neighbour_routes_def flush_interface_routes_def by (intro linked_flush_matching assms)+

lemma linked_expire_walk: "holds (linked b0) b \<Longrightarrow> returns (\<lambda>_. linked b0) (expire_walk n q b)"
proof (induction n q b rule: expire_walk.induct)
  case (3 n r b)
  let ?c = "update_route_metric r b"
  let ?d = "if r_installed (route ?c r) \<and> r_refmetric (route ?c r) < INFINITY_METRIC \<and> route_old r ?c
    then send_unicast_request (r_neigh (route ?c r)) (Some (s_prefix (route_src ?c r))) (s_plen (route_src ?c r))
           (Some (s_src_prefix (route_src ?c r))) (s_src_plen (route_src ?c r)) ?c else ?c"
  have d: "holds (linked b0) ?d" using "3.prems" by (simp add: links)
  show ?case
  proof (cases "r_time (route b r) > tv_sec (now b) \<or> route_old r b")
    case True
    then show ?thesis using linked_flush [OF "3.prems"] by (simp add: inv_rules)
  next
    case False
    then show ?thesis using "3.IH" [OF False refl refl refl d] by (simp add: Let_def)
  qed
qed (auto intro: inv_rules links)

lemma linked_expire [links]:
  assumes "holds (linked b0) b"
  shows "holds (linked b0) (expire_routes b)"
proof -
  have "holds (linked b0) (expire_slots n i c)" if "holds (linked b0) c" for n i c
    using that
  proof (induction n i c rule: expire_slots.induct)
    case (1 n i c)
    show ?case
    proof (cases "\<not> i < length (routes (rib c)) \<or> fault c \<noteq> None")
      case True
      then show ?thesis using "1.prems" by (subst expire_slots.simps) simp
    next
      case False
      obtain again d where w: "expire_walk (walk_fuel c) (slot_head i c) c = (again, d)" by fastforce
      have "holds (linked b0) d" using linked_expire_walk [OF "1.prems"] w by (metis holds_def returnsD)
      then show ?thesis using False "1.prems" "1.IH" [OF False] w
        by (subst expire_slots.simps) (auto simp: links split: nat.split)
    qed
  qed
  then show ?thesis using assms by (simp add: expire_routes_def)
qed

section \<open>A received update\<close>

lemma linked_channels [links]:
  assumes "holds (linked b0) b"
  shows "holds (linked b0) (set_channels rt channels b)"
  unfolding set_channels_def let_values by (intro inv_rules links assms)

lemma linked_old_route:
  assumes "holds (linked b0) b"
  shows "holds (linked b0) (update_old_route rt p feasible seqno refmetric metric add hold nb channels b)"
  unfolding update_old_route_def let_values Let_def [where 'a = ptr] by (intro inv_rules links assms)

lemma linked_new_route:
  assumes "holds (linked b0) b"
  shows "returns (\<lambda>_. linked b0) (add_new_route p feasible seqno refmetric metric add hold nb nexthop channels b)"
proof -
  have i: "returns (\<lambda>_. linked b0) (case x of
        None \<Rightarrow> (None, raise_fault Assert_failed c)
      | Some (None, rb) \<Rightarrow> (None, c\<lparr>rib := rb\<rparr>)
      | Some (Some (y :: nat), rb) \<Rightarrow>
          let b = c\<lparr>rib := rb\<rparr>; b = emit (Notify_route LOCAL_ADD rt) b in (Some rt, consider_route rt b))"
    if "holds (linked b0) c" for x c rt
    using that by (auto simp: Let_def split: option.split intro!: inv_rules links)
  show ?thesis
    unfolding add_new_route_def let_values Let_def [where 'a = ptr] by (intro inv_rules i links assms)
qed

lemma linked_update_route [links]:
  assumes "holds (linked b0) b"
  shows "returns (\<lambda>_. linked b0)
    (update_route rid prefix plen src_prefix src_plen seqno refmetric interval nb nexthop channels b)"
proof -
  have g: "returns (\<lambda>_. linked b0) (g_find_source rid prefix plen src_prefix src_plen create seqno b)" for create
    using assms by (auto simp: g_find_source_def c_alloc_def ask_def returns_def holds_def linked_def raise_fault_def
        split: option.split)
  have s: "returns (\<lambda>_. linked b0) (update_source_for rt rid prefix plen src_prefix src_plen seqno b)" for rt
    unfolding update_source_for_def by (intro inv_rules g assms)
  show ?thesis
    unfolding update_route_def let_values by (intro inv_rules s links assms linked_old_route linked_new_route)
qed

section \<open>Operations that also change one neighbour\<close>

definition touched :: "ptr \<Rightarrow> babel \<Rightarrow> babel \<Rightarrow> bool" where
  "touched nb b0 b \<longleftrightarrow>
     (\<exists>n. linked (upd_neigh nb (\<lambda>_. n) b0) b \<and> n_ifp n = n_ifp (neigh b0 nb) \<and> n_address n = n_address (neigh b0 nb))"

lemma upd_neigh_filters: "filters_of (upd_neigh nb f b) = filters_of b"
  by (simp add: upd_neigh_def)

lemma upd_neigh_twice: "upd_neigh nb (\<lambda>_. m) (upd_neigh nb f b) = upd_neigh nb (\<lambda>_. m) b"
  by (simp add: upd_neigh_def)

lemma linked_upd_neigh:
  assumes "linked b0 b"
  shows "linked (upd_neigh nb (\<lambda>_. f (neigh b nb)) b0) (upd_neigh nb f b)"
  unfolding linked_def upd_neigh_frame upd_neigh_filters using assms by (intro conjI allI) (simp_all add: linked_def)

lemma touched_start: "holds (touched nb b) b"
proof -
  have "linked (upd_neigh nb (\<lambda>_. neigh b nb) b) b" by (simp add: linked_def upd_neigh_filters)
  then show ?thesis by (auto simp: holds_def touched_def)
qed

lemma linked_trans: "linked a b \<Longrightarrow> linked b c \<Longrightarrow> linked a c"
  by (simp add: linked_def)

lemma touched_linked:
  assumes "holds (touched nb b0) b" "holds (linked b) b \<Longrightarrow> holds (linked b) c"
  shows "holds (touched nb b0) c"
  using assms linked_start linked_trans unfolding touched_def holds_def by blast

lemma touched_linked_returns:
  assumes "holds (touched nb b0) b" "holds (linked b) b \<Longrightarrow> returns (\<lambda>_. linked b) r"
  shows "returns (\<lambda>_. touched nb b0) r"
  using touched_linked [OF assms(1), of "snd r"] assms(2) by (simp add: returns_def holds_def)

lemma touched_upd_neigh:
  assumes "holds (touched nb b0) b"
    and "n_ifp (f (neigh b nb)) = n_ifp (neigh b nb)" "n_address (f (neigh b nb)) = n_address (neigh b nb)"
  shows "holds (touched nb b0) (upd_neigh nb f b)"
proof -
  obtain n where n: "linked (upd_neigh nb (\<lambda>_. n) b0) b" "n_ifp n = n_ifp (neigh b0 nb)" "n_address n = n_address (neigh b0 nb)"
    using assms(1) by (auto simp: holds_def touched_def)
  have q: "quiet_neighbour (neigh b nb) = quiet_neighbour n" using n(1) by (simp add: linked_def)
  have "n_ifp (f (neigh b nb)) = n_ifp (neigh b0 nb)" unfolding assms(2) quiet_neighbour_fields(2) [OF q] by (rule n(2))
  moreover have "n_address (f (neigh b nb)) = n_address (neigh b0 nb)"
    unfolding assms(3) quiet_neighbour_fields(1) [OF q] by (rule n(3))
  moreover have "linked (upd_neigh nb (\<lambda>_. f (neigh b nb)) b0) (upd_neigh nb f b)"
    using linked_upd_neigh [OF n(1), of nb f] by (simp only: upd_neigh_twice)
  ultimately show ?thesis unfolding holds_def touched_def by blast
qed

lemma touchedD:
  assumes "touched nb b0 b"
  shows "neighs (nbrs b) = neighs (nbrs b0)" "n_fresh (nbrs b) = n_fresh (nbrs b0)"
    "interfaces (ifaces b) = interfaces (ifaces b0)" "conf b = conf b0" "xroutes b = xroutes b0" "env b = env b0"
    "n_ifp (neigh b p) = n_ifp (neigh b0 p)" "n_address (neigh b p) = n_address (neigh b0 p)"
    "p \<noteq> nb \<Longrightarrow> quiet_neighbour (neigh b p) = quiet_neighbour (neigh b0 p)"
    "quiet_iface (iface b p) = quiet_iface (iface b0 p)"
proof -
  obtain n where n: "linked (upd_neigh nb (\<lambda>_. n) b0) b" "n_ifp n = n_ifp (neigh b0 nb)" "n_address n = n_address (neigh b0 nb)"
    using assms by (auto simp: touched_def)
  have q: "quiet_neighbour (neigh b p) = quiet_neighbour (if p = nb then n else neigh b0 p)" using n(1) by (simp add: linked_def)
  show "n_ifp (neigh b p) = n_ifp (neigh b0 p)" "n_address (neigh b p) = n_address (neigh b0 p)"
    using quiet_neighbour_fields [OF q] n(2,3) by auto
  show "quiet_neighbour (neigh b p) = quiet_neighbour (neigh b0 p)" if "p \<noteq> nb" using q that by simp
  show "neighs (nbrs b) = neighs (nbrs b0)" "n_fresh (nbrs b) = n_fresh (nbrs b0)"
    "interfaces (ifaces b) = interfaces (ifaces b0)" "conf b = conf b0" "xroutes b = xroutes b0" "env b = env b0"
    "quiet_iface (iface b p) = quiet_iface (iface b0 p)"
    using n(1) by (simp_all add: linked_def)
qed

end
