(* ===== verification/Neighbour_Claims.thy ===== *)
theory Neighbour_Claims
  imports Links A_Router
begin

text \<open>
  The operations on neighbours keep the invariant of the daemon; in particular the neighbour of
  every route stays in the neighbour list.
\<close>

section \<open>Messages\<close>

lemma routing_messages [routed]:
  assumes "holds (routing R W E) b"
  shows "holds (routing R W E) (send_hello ifp b)" "holds (routing R W E) (send_self_update ifp b)"
    "holds (routing R W E) (send_ihu nb None b)" "holds (routing R W E) (send_unicast_request nb None 0 None 0 b)"
    "holds (routing R W E) (flush_unicast dofree b)" "holds (routing R W E) (send_ack nb nonce interval b)"
    "holds (routing R W E) (send_update ifp' urgent None 0 (Some zeroes) 0 b)"
    "holds (routing R W E) (send_update (Some ifp) urgent (Some zeroes) 0 None 0 b)"
    "holds (routing R W E) (send_update ifp' urgent None 0 None 0 b)"
  using assms by (auto intro!: routing_shape [OF _ _ assms] readies simp: shaped opt_dest_ok_def)

lemma routing_ask:
  assumes "holds (routing R W E) b"
  shows "returns (\<lambda>_. routing R W E) (ask b)" "returns (\<lambda>_. routing R W E) (neighbour_rttcost nb b)"
proof -
  have "ready (snd (ask b))" using routingD(1) [OF assms] holds_ready [of "snd (ask b)" b]
    by (simp add: shaped holds_def) (simp add: ready_def buffers_ok_def ask_def)
  then show "returns (\<lambda>_. routing R W E) (ask b)"
    using routing_shape [OF _ _ assms, of "snd (ask b)"] by (simp add: shaped returns_def holds_def)
  show "returns (\<lambda>_. routing R W E) (neighbour_rttcost nb b)"
    using rttcost_bounds(3) [OF routingD(10) [OF assms], of nb] assms by (simp add: returns_def holds_def)
qed

lemma routing_set_timer:
  "holds (routing R W E) b \<Longrightarrow> holds (routing R W E) (b\<lparr>check_neighbours_timeout := t\<rparr>)"
  by (rule routing_nbrs)
    (auto simp: steady_def dest: routing_address routingD(9) routing_linked)

lemma routing_check_timer [routed]:
  "holds (routing R W E) b \<Longrightarrow> holds (routing R W E) (schedule_neighbours_check msecs override b)"
  unfolding schedule_neighbours_check_def Let_def by (intro inv_rules routed routing_set_timer)

section \<open>The history of hellos\<close>

lemma routing_count_missed: 
  assumes "holds (routing R W E) b"
  shows "holds (routing R W E) (count_missed nb missed b)"
proof -
  have s: "returns (\<lambda>_. routing R W E) (shift_reach missed r b)" for r
    unfolding shift_reach_def by (intro inv_rules assms routing_ask)
  show ?thesis
    unfolding count_missed_def by (intro inv_rules s assms routing_upd_neigh mild_fields)
qed

lemma routing_hello_feedback:
  "holds (routing R W E) b \<Longrightarrow> holds (routing R W E) (hello_feedback nb b)"
  unfolding hello_feedback_def by (intro inv_rules routed)

lemma routing_update_neighbour:
  assumes "holds (routing R W E) b"
  shows "returns (\<lambda>_. routing R W E) (update_neighbour nb hello interval b)"
proof (cases hello)
  case None
  show ?thesis
    unfolding update_neighbour_def None option.case
    by (intro inv_rules routing_hello_feedback routing_count_missed routing_upd_neigh assms mild_fields)
next
  case (Some h)
  obtain n missed counts changed where r: "hello_received (now b) h interval (neigh b nb) = (n, missed, counts, changed)"
    by (metis prod_cases4)
  show ?thesis
    unfolding update_neighbour_def Some option.case r prod.case
    by (intro inv_rules routing_hello_feedback routing_count_missed routing_upd_neigh assms mild_fields mild_hello [OF r])
qed

text \<open>Only the neighbour itself changes.\<close>

lemma touched_update_neighbour:
  "returns (\<lambda>_. touched nb b) (update_neighbour nb hello interval b)"
proof -
  have m: "holds (touched nb b) (count_missed nb missed c)" if "holds (touched nb b) c" for missed c
  proof -
    have "returns (\<lambda>_. touched nb b) (shift_reach missed r c)" for r
      unfolding shift_reach_def by (intro inv_rules that touched_linked_returns [OF that] links)
    then show ?thesis
      unfolding count_missed_def by (intro inv_rules that touched_upd_neigh) simp_all
  qed
  have f: "holds (touched nb b) (hello_feedback nb c)" if "holds (touched nb b) c" for c
    by (rule touched_linked [OF that]) (unfold hello_feedback_def, intro inv_rules links)
  show ?thesis
  proof (cases hello)
    case None
    show ?thesis
      unfolding update_neighbour_def None option.case
      by (intro inv_rules f m touched_upd_neigh touched_start) simp_all
  next
    case (Some h)
    obtain n missed counts changed where r: "hello_received (now b) h interval (neigh b nb) = (n, missed, counts, changed)"
      by (metis prod_cases4)
    have n: "n_ifp n = n_ifp (neigh b nb)" "n_address n = n_address (neigh b nb)"
      using mild_hello [OF r] by (simp_all add: mild_def)
    have c: "n_ifp (count_hello h m) = n_ifp m" "n_address (count_hello h m) = n_address m" for m
      by (simp_all add: count_hello_def)
    show ?thesis
      unfolding update_neighbour_def Some option.case r prod.case
      by (intro inv_rules f m touched_upd_neigh touched_start n c)
  qed
qed

section \<open>Creation and removal\<close>

lemma routing_insert_neighbour:
  assumes "holds (routing R W E) b" "length (n_address n) = 16" "link_costs_ok n"
  shows "holds (routing R W E) (b\<lparr>nbrs := insert_neighbour n (nbrs b)\<rparr>)"
proof (rule routing_nbrs [OF assms(1)])
  let ?c = "b\<lparr>nbrs := insert_neighbour n (nbrs b)\<rparr>"
  have st: "steady b" by (rule routingD(9) [OF assms(1)])
  then have fresh: "p < n_fresh (nbrs b)" if "p \<in> set (neighs (nbrs b))" for p using that by (simp add: steady_def)
  show "length (n_address (neigh ?c p)) = 16" for p
    using assms(2) routing_address [OF assms(1)] by (simp add: insert_neighbour_def)
  show "link_costs_ok (neigh ?c p)" for p using assms(3) st by (simp add: insert_neighbour_def steady_def)
  show "distinct (neighs (nbrs ?c))" using st fresh by (auto simp: insert_neighbour_def steady_def)
  show "p < n_fresh (nbrs ?c)" if "p \<in> set (neighs (nbrs ?c))" for p
    using that fresh [of p] by (auto simp: insert_neighbour_def)
  show "n_ifp (neigh ?c (r_neigh (route b rt))) = n_ifp (neigh b (r_neigh (route b rt))) \<and>
      r_neigh (route b rt) \<in> set (neighs (nbrs ?c))" if "rt \<in> R" for rt
    using routing_linked [OF assms(1) that] fresh [of "r_neigh (route b rt)"] by (auto simp: insert_neighbour_def)
qed simp_all

lemma find_neighbour_ok:
  assumes "holds (routing R W E) b" "length address = 16"
  shows "returns (\<lambda>nb c. routing R W E c \<and>
    (\<exists>p. nb = Some p \<and> p \<in> set (neighs (nbrs c)) \<and> n_ifp (neigh c p) = ifp \<and> v6_equal address (n_address (neigh c p))))
    (find_neighbour address ifp b)"
proof (cases "find_neighbour_nocreate address ifp b")
  case (Some nb)
  then have "v6_equal address (n_address (neigh b nb)) \<and> n_ifp (neigh b nb) = ifp \<and> nb \<in> set (neighs (nbrs b))"
    by (auto simp: find_neighbour_nocreate_def find_Some_iff)
  then show ?thesis using assms(1) by (simp add: find_neighbour_def Some returns_def holds_def)
next
  case None
  obtain ok c where a: "c_alloc b = (ok, c)" by fastforce
  have c: "holds (routing R W E) c" using routing_basic(1) [OF assms(1)] a by (metis holds_def returnsD)
  have ok: ok using routingD(4) [OF assms(1)] a by (auto simp: allocs_succeed_def c_alloc_def ask_def)
  let ?n = "new_neighbour address ifp (now c)"
  have n: "length (n_address ?n) = 16" "link_costs_ok ?n" "n_ifp ?n = ifp" "n_address ?n = address"
    using assms(2) by (simp_all add: new_neighbour_def link_costs_ok_def neighbour_zero_def INFINITY_METRIC_def)
  let ?d = "emit (Notify_neighbour LOCAL_ADD (n_fresh (nbrs c))) (c\<lparr>nbrs := insert_neighbour ?n (nbrs c)\<rparr>)"
  have d: "holds (routing R W E) ?d" by (intro routed routing_insert_neighbour c n)
  have l: "linked ?d (send_hello ifp ?d)" using linked_senders(7) [OF linked_start] by (simp add: holds_def)
  let ?p = "n_fresh (nbrs c)"
  have "?p \<in> set (neighs (nbrs ?d))" "n_ifp (neigh ?d ?p) = ifp" "n_address (neigh ?d ?p) = address"
    using n by (simp_all add: insert_neighbour_def emit_def)
  then have "?p \<in> set (neighs (nbrs (send_hello ifp ?d)))" "n_ifp (neigh (send_hello ifp ?d) ?p) = ifp"
    "v6_equal address (n_address (neigh (send_hello ifp ?d) ?p))"
    using l quiet_neighbour_fields [of "neigh (send_hello ifp ?d) ?p" "neigh ?d ?p"]
    by (auto simp: linked_def v6_equal_def)
  moreover have "holds (routing R W E) (send_hello ifp ?d)" by (rule routing_messages(1) [OF d])
  ultimately show ?thesis using None ok
    by (simp add: find_neighbour_def a Let_def returns_def holds_def)
qed

lemma routing_remove_neighbour:
  assumes "holds (routing R W E) b" "\<And>rt. rt \<in> R \<Longrightarrow> r_neigh (route b rt) \<noteq> nb"
  shows "holds (routing R W E) (b\<lparr>nbrs := (nbrs b)\<lparr>neighs := remove1 nb (neighs (nbrs b))\<rparr>\<rparr>)"
proof (rule routing_nbrs [OF assms(1)])
  let ?c = "b\<lparr>nbrs := (nbrs b)\<lparr>neighs := remove1 nb (neighs (nbrs b))\<rparr>\<rparr>"
  have st: "steady b" by (rule routingD(9) [OF assms(1)])
  show "length (n_address (neigh ?c p)) = 16" for p using routing_address [OF assms(1)] by simp
  show "link_costs_ok (neigh ?c p)" for p using st by (simp add: steady_def)
  show "distinct (neighs (nbrs ?c))" using st by (simp add: steady_def)
  show "p < n_fresh (nbrs ?c)" if "p \<in> set (neighs (nbrs ?c))" for p
    using st that notin_set_remove1 by (fastforce simp: steady_def)
  show "n_ifp (neigh ?c (r_neigh (route b rt))) = n_ifp (neigh b (r_neigh (route b rt))) \<and>
      r_neigh (route b rt) \<in> set (neighs (nbrs ?c))" if "rt \<in> R" for rt
    using routing_linked [OF assms(1) that] assms(2) [OF that] by simp
qed simp_all

lemma flush_neighbour_result:
  assumes "daemon_ok b" "nb \<in> set (neighs (nbrs b))"
  shows "holds (routing {rt \<in> rib_routes (rib b). r_neigh (route b rt) \<noteq> nb} (who b) (held_now b)) (flush_neighbour nb b)"
    "neighs (nbrs (flush_neighbour nb b)) = remove1 nb (neighs (nbrs b))"
    "unicast_neighbour (unicast (flush_neighbour nb b)) \<noteq> Some nb"
    "\<And>p. quiet_neighbour (neigh (flush_neighbour nb b) p) = quiet_neighbour (neigh b p)"
    "\<And>p. quiet_iface (iface (flush_neighbour nb b) p) = quiet_iface (iface b p)"
proof -
  let ?R = "{rt \<in> rib_routes (rib b). r_neigh (route b rt) \<noteq> nb}" and ?E = "held_now b"
  let ?c = "flush_neighbour_routes nb b"
  let ?d = "if unicast_neighbour (unicast ?c) = Some nb then flush_unicast True ?c else ?c"
  let ?e = "?d\<lparr>nbrs := (nbrs ?d)\<lparr>neighs := remove1 nb (neighs (nbrs ?d))\<rparr>\<rparr>"
  have c: "holds (routing ?R (who b) ?E) ?c" by (rule flush_neighbour_ok [OF assms(1)])
  have d: "holds (routing ?R (who b) ?E) ?d" using c routing_messages(5) [OF c] by simp
  have u: "unicast_neighbour (unicast ?d) \<noteq> Some nb" by (simp add: flush_unicast_def Let_def)
  have "holds (linked b) ?d" by (intro holds_if links linked_start)
  then have l: "linked b ?d" by (rule holdsD)
  then have in_d: "nb \<in> set (neighs (nbrs ?d))" using assms(2) unfolding linked_def by (simp only:)
  have f: "flush_neighbour nb b = emit (Notify_neighbour LOCAL_FLUSH nb) ?e"
    unfolding flush_neighbour_def Let_def using in_d by simp
  have not: "r_neigh (route ?d rt) \<noteq> nb" if "rt \<in> ?R" for rt
  proof -
    have "who ?d rt = who b rt" by (rule routingD(6) [OF d that])
    then show ?thesis using that unfolding who_def prod.inject by simp
  qed
  have "holds (routing ?R (who b) ?E) ?e" by (rule routing_remove_neighbour [OF d]) (rule not)
  then show "holds (routing ?R (who b) ?E) (flush_neighbour nb b)" unfolding f by (rule routing_basic)
  show "neighs (nbrs (flush_neighbour nb b)) = remove1 nb (neighs (nbrs b))"
    using l unfolding f linked_def by (simp add: emit_def)
  show "unicast_neighbour (unicast (flush_neighbour nb b)) \<noteq> Some nb" using u unfolding f emit_def by simp
  show "quiet_neighbour (neigh (flush_neighbour nb b) p) = quiet_neighbour (neigh b p)"
    "quiet_iface (iface (flush_neighbour nb b) p) = quiet_iface (iface b p)" for p
    using l unfolding f linked_def by (simp_all add: emit_def)
qed

section \<open>The periodic check\<close>

definition alive :: "babel \<Rightarrow> bool" where
  "alive b \<longleftrightarrow> daemon_ok b \<or> fault b = Some Out_of_fuel"

lemma spent_alive: "holds (spent R W E) b \<Longrightarrow> alive b"
  using routing_daemon_ok [of R W E b] by (auto simp: holds_def spent_def alive_def)

lemma daemon_fault: "daemon_ok b \<Longrightarrow> fault b = None"
  using routingD(7) by (simp add: daemon_ok_routing)

text \<open>
  From \<open>b0\<close> on, no interface has changed but for its buffers and timers, and the routes lead
  through interfaces of \<open>S\<close>.
\<close>

definition same_ifaces :: "babel \<Rightarrow> babel \<Rightarrow> bool" where
  "same_ifaces b0 c \<longleftrightarrow> (\<forall>p. quiet_iface (iface c p) = quiet_iface (iface b0 p))"

definition confined :: "ptr set \<Rightarrow> babel \<Rightarrow> babel \<Rightarrow> bool" where
  "confined S b0 c \<longleftrightarrow> daemon_ok c \<and> route_ifps c \<subseteq> S \<and> same_ifaces b0 c \<or> fault c = Some Out_of_fuel"

lemma same_ifaces_refl [simp]: "same_ifaces b b" by (simp add: same_ifaces_def)

lemma same_ifaces_trans: "same_ifaces a b \<Longrightarrow> same_ifaces b c \<Longrightarrow> same_ifaces a c"
  by (simp add: same_ifaces_def)

lemma linked_same: "holds (linked b0) c \<Longrightarrow> same_ifaces b0 c"
  by (simp add: holds_def linked_def same_ifaces_def)

lemma touched_same: "touched nb b0 c \<Longrightarrow> same_ifaces b0 c"
  using touchedD(10) by (simp add: same_ifaces_def)

lemma confined_alive: "confined S b0 c \<Longrightarrow> alive c"
  by (auto simp: confined_def alive_def)

lemma confined_start: "daemon_ok b \<Longrightarrow> route_ifps b \<subseteq> S \<Longrightarrow> confined S b b"
  by (simp add: confined_def)

lemma confined_trans: "same_ifaces a b \<Longrightarrow> confined S b c \<Longrightarrow> confined S a c"
  using same_ifaces_trans by (auto simp: confined_def)

lemma routing_confined:
  assumes "holds (routing R (who b) E) c" "R \<subseteq> rib_routes (rib b)" "route_ifps b \<subseteq> S" "same_ifaces b c"
  shows "confined S b c"
  using assms routing_daemon_ok [OF assms(1)] routing_ifps [OF assms(1)] who_ifps [of b]
  unfolding confined_def by blast

lemma spent_confined:
  assumes "holds (spent R (who b) E) c" "R \<subseteq> rib_routes (rib b)" "route_ifps b \<subseteq> S" "same_ifaces b c"
  shows "confined S b c"
  using assms routing_confined [of R b E c S] by (auto simp: holds_def spent_def confined_def)

lemma reset_txcost_reach: "n_reach (neigh (snd (reset_txcost nb b)) p) = n_reach (neigh b p)"
  by (simp add: reset_txcost_def Let_def)

lemma check_neighbour_ok:
  assumes b: "daemon_ok b" "nb \<in> set (neighs (nbrs b))" "route_ifps b \<subseteq> S" and m: "0 < msecs"
    and c: "check_neighbour nb (msecs, b) = (msecs', c)"
  shows "confined S b c \<and> 0 < msecs' \<and> msecs' \<le> msecs \<and>
    (neighs (nbrs c) = neighs (nbrs b) \<and> n_reach (neigh c nb) \<noteq> 0 \<or> neighs (nbrs c) = remove1 nb (neighs (nbrs b))) \<and>
    (\<forall>p. p \<noteq> nb \<longrightarrow> n_reach (neigh c p) = n_reach (neigh b p))"
proof -
  have r: "holds (routing (rib_routes (rib b)) (who b) (held_now b)) b" using b(1) by (simp add: daemon_ok_routing)
  obtain changed d where d: "update_neighbour nb None 0 b = (changed, d)" by fastforce
  have rd: "holds (routing (rib_routes (rib b)) (who b) (held_now b)) d"
    using routing_update_neighbour [OF r] d by (metis holds_def returnsD)
  then have okd: "daemon_ok d" by (rule routing_daemon_ok)
  have td: "touched nb b d" using touched_update_neighbour d by (metis returnsD)
  note sd = touched_same [OF td] and td = touchedD [OF td]
  have reach_d: "n_reach (neigh d p) = n_reach (neigh b p)" if "p \<noteq> nb" for p
    using quiet_neighbour_fields(3) [OF td(9) [OF that]] .
  show ?thesis
  proof (cases "neighbour_gone nb d")
    case True
    then have "c = flush_neighbour nb d" "msecs' = msecs"
      using c d daemon_fault [OF b(1)] by (simp_all add: check_neighbour_def)
    moreover have "nb \<in> set (neighs (nbrs d))" using b(2) td(1) by simp
    note f = flush_neighbour_result [OF okd this]
    have "confined S d (flush_neighbour nb d)"
    proof (rule routing_confined [OF f(1)])
      show "route_ifps d \<subseteq> S" using b(3) routing_ifps [OF rd] who_ifps [of b] by simp
      show "same_ifaces d (flush_neighbour nb d)" using f(5) by (simp add: same_ifaces_def)
    qed auto
    then have "confined S b (flush_neighbour nb d)" by (rule confined_trans [OF sd])
    ultimately show ?thesis
      using f(2) m td(1) reach_d quiet_neighbour_fields(3) [OF f(4)] by simp
  next
    case False
    obtain reset e where e: "reset_txcost nb d = (reset, e)" by fastforce
    let ?c = "update_neighbour_metric nb (changed \<or> reset) e"
    have ms: "c = ?c" "msecs' = (let msecs = (if n_hello_interval (neigh ?c nb) > 0
          then min msecs (n_hello_interval (neigh ?c nb) * 10) else msecs)
        in if n_ihu_interval (neigh ?c nb) > 0 then min msecs (n_ihu_interval (neigh ?c nb) * 10) else msecs)"
      using c d e False daemon_fault [OF b(1)] by (auto simp: check_neighbour_def Let_def)
    have re: "holds (routing (rib_routes (rib b)) (who b) (held_now b)) e"
    proof -
      have "returns (\<lambda>_. routing (rib_routes (rib b)) (who b) (held_now b)) (reset_txcost nb d)"
        unfolding reset_txcost_def by (intro inv_rules rd routing_upd_neigh mild_fields)
      then show ?thesis using e by (metis holds_def returnsD)
    qed
    have le: "linked e ?c" using linked_walks(1) [OF linked_start] by (simp add: holds_def)
    have "neighs (nbrs e) = neighs (nbrs d)" using e by (auto simp: reset_txcost_def Let_def split: if_splits)
    moreover have "n_reach (neigh ?c p) = n_reach (neigh d p)" for p
      using le reset_txcost_reach [of nb d p] quiet_neighbour_fields(3) [of "neigh ?c p" "neigh e p"] e
      by (simp add: linked_def)
    moreover have "n_reach (neigh d nb) \<noteq> 0" using False by (simp add: neighbour_gone_def)
    moreover have "confined S b ?c"
    proof (rule spent_confined [OF spent_update_neighbour_metric [OF re] _ b(3)])
      have "ifaces e = ifaces d" using e by (auto simp: reset_txcost_def Let_def split: if_splits)
      then have "same_ifaces d e" by (simp add: same_ifaces_def)
      moreover have "same_ifaces e ?c" using le by (simp add: linked_def same_ifaces_def)
      ultimately show "same_ifaces b ?c" using sd same_ifaces_trans by blast
    qed simp
    moreover have "0 < msecs' \<and> msecs' \<le> msecs" using m ms(2) by (auto simp: Let_def)
    ultimately show ?thesis using ms(1) le td(1) reach_d by (simp add: linked_def)
  qed
qed

lemma check_neighbours_ok:
  assumes "daemon_ok b" "0 < msecs" "distinct ns" "set ns \<subseteq> set (neighs (nbrs b))"
    and "fold check_neighbour ns (msecs, b) = (msecs', c)" and "route_ifps b \<subseteq> S"
  shows "confined S b c \<and> 0 < msecs' \<and> msecs' \<le> msecs \<and>
    (fault c = None \<longrightarrow> set (neighs (nbrs c)) \<subseteq> set (neighs (nbrs b)) \<and>
       set (neighs (nbrs b)) - set ns \<subseteq> set (neighs (nbrs c)) \<and>
       (\<forall>p \<in> set ns \<inter> set (neighs (nbrs c)). n_reach (neigh c p) \<noteq> 0) \<and>
       (\<forall>p. p \<notin> set ns \<longrightarrow> n_reach (neigh c p) = n_reach (neigh b p)))"
  using assms
proof (induction ns arbitrary: msecs b)
  case Nil
  then show ?case by (simp add: confined_def)
next
  case (Cons nb ns)
  obtain m d where d: "check_neighbour nb (msecs, b) = (m, d)" by fastforce
  have nb: "nb \<in> set (neighs (nbrs b))" using Cons.prems(4) by simp
  note step = check_neighbour_ok [OF Cons.prems(1) nb Cons.prems(6,2) d]
  have rest: "fold check_neighbour ns (m, d) = (msecs', c)" using Cons.prems(5) d by simp
  show ?case
  proof (cases "daemon_ok d")
    case False
    then have f: "fault d = Some Out_of_fuel" using step by (simp add: confined_def)
    have "fold check_neighbour ns (m, d) = (m, d)"
      by (induction ns) (simp_all add: check_neighbour_def f)
    then show ?thesis using rest f step by (auto simp: confined_def)
  next
    case True
    have dist: "distinct (neighs (nbrs b))" using Cons.prems(1) by (simp add: daemon_ok_def steady_def)
    have ns: "neighs (nbrs d) = neighs (nbrs b) \<or> neighs (nbrs d) = remove1 nb (neighs (nbrs b))" using step by blast
    then have sub: "set (neighs (nbrs d)) \<subseteq> set (neighs (nbrs b))"
      "set (neighs (nbrs b)) - {nb} \<subseteq> set (neighs (nbrs d))" using dist by auto
    then have "set ns \<subseteq> set (neighs (nbrs d))" using Cons.prems(3,4) by auto
    have d_in: "route_ifps d \<subseteq> S" "same_ifaces b d"
      using step daemon_fault [OF True] by (auto simp: confined_def)
    from Cons.IH [OF True _ _ \<open>set ns \<subseteq> set (neighs (nbrs d))\<close> rest d_in(1)] have IH: "confined S d c" "0 < msecs'" "msecs' \<le> m"
      "fault c = None \<Longrightarrow> set (neighs (nbrs c)) \<subseteq> set (neighs (nbrs d))"
      "fault c = None \<Longrightarrow> set (neighs (nbrs d)) - set ns \<subseteq> set (neighs (nbrs c))"
      "\<And>p. fault c = None \<Longrightarrow> p \<in> set ns \<Longrightarrow> p \<in> set (neighs (nbrs c)) \<Longrightarrow> n_reach (neigh c p) \<noteq> 0"
      "\<And>p. fault c = None \<Longrightarrow> p \<notin> set ns \<Longrightarrow> n_reach (neigh c p) = n_reach (neigh d p)"
      using step Cons.prems(3) by auto
    have nin: "nb \<notin> set ns" using Cons.prems(3) by simp
    have heard: "n_reach (neigh d nb) \<noteq> 0 \<or> nb \<notin> set (neighs (nbrs d))"
    proof (cases "neighs (nbrs d) = remove1 nb (neighs (nbrs b))")
      case True
      then show ?thesis using dist by simp
    qed (use step in blast)
    have reach: "n_reach (neigh c p) \<noteq> 0"
      if f: "fault c = None" "p \<in> set (nb # ns)" "p \<in> set (neighs (nbrs c))" for p
    proof (cases "p \<in> set ns")
      case True
      then show ?thesis using IH(6) f by blast
    next
      case False
      then have "p = nb" "p \<in> set (neighs (nbrs d))" using f IH(4) by auto
      then show ?thesis using IH(7) [OF f(1) False] heard by simp
    qed
    have others: "n_reach (neigh c p) = n_reach (neigh b p)" if "fault c = None" "p \<notin> set (nb # ns)" for p
      using IH(7) [OF that(1), of p] that(2) step by auto
    have "set (neighs (nbrs b)) - set (nb # ns) \<subseteq> set (neighs (nbrs c))" if "fault c = None"
      using IH(5) [OF that] sub(2) by auto
    moreover have "set (neighs (nbrs c)) \<subseteq> set (neighs (nbrs b))" if "fault c = None"
      using IH(4) [OF that] sub(1) by blast
    moreover have "msecs' \<le> msecs" using IH(3) step by linarith
    ultimately show ?thesis using confined_trans [OF d_in(2) IH(1)] IH(2) reach others by blast
  qed
qed

section \<open>The claims\<close>

text \<open>
  (safety) A packet from a known sender finds its neighbour; from an unknown one it creates
  it, with its address and interface.  Either way the neighbour is in the list, the invariant of
  the daemon is kept and no route changes.
\<close>

theorem find_neighbour_safe:
  assumes "daemon_ok b" "length address = 16" "find_neighbour address ifp b = (x, c)"
  shows "daemon_ok c \<and> rib_routes (rib c) = rib_routes (rib b) \<and>
    (\<exists>nb. x = Some nb \<and> nb \<in> set (neighs (nbrs c)) \<and> n_ifp (neigh c nb) = ifp \<and>
       v6_equal address (n_address (neigh c nb)))"
proof -
  have b: "holds (routing (rib_routes (rib b)) (who b) (held_now b)) b" using assms(1) by (simp add: daemon_ok_routing)
  have r: "routing (rib_routes (rib b)) (who b) (held_now b) c" and
    n: "\<exists>nb. x = Some nb \<and> nb \<in> set (neighs (nbrs c)) \<and> n_ifp (neigh c nb) = ifp \<and>
       v6_equal address (n_address (neigh c nb))"
    using find_neighbour_ok [OF b assms(2), of ifp] by (auto simp: assms(3) returns_def)
  from r have "holds (routing (rib_routes (rib b)) (who b) (held_now b)) c" by (rule holdsI)
  then show ?thesis using n routing_daemon_ok routingD(5) by blast
qed

theorem find_neighbour_safe_witness: "daemon_ok (snd (find_neighbour (0xfe # 0x80 # replicate 13 0 @ [9]) 1 routed_router))"
  by (rule find_neighbour_safe [OF routed_router_ok, THEN conjunct1]) (auto intro: prod.collapse [symmetric])

text \<open>
  C22: (safety) Removing a neighbour leaves nothing that points to it: it is out of the list,
  exactly its routes are gone from the table, and no unicast packet is being filled for it;
  the invariant of the daemon is kept.
\<close>

theorem flush_neighbour_unlinks:
  assumes "daemon_ok b" "nb \<in> set (neighs (nbrs b))" and "c = flush_neighbour nb b"
  shows "daemon_ok c \<and> neighs (nbrs c) = remove1 nb (neighs (nbrs b)) \<and> nb \<notin> set (neighs (nbrs c)) \<and>
    rib_routes (rib c) = {rt \<in> rib_routes (rib b). r_neigh (route b rt) \<noteq> nb} \<and>
    (\<forall>rt \<in> rib_routes (rib c). r_neigh (route c rt) \<noteq> nb) \<and>
    unicast_neighbour (unicast c) \<noteq> Some nb"
proof -
  note f = flush_neighbour_result [OF assms(1,2), folded assms(3)]
  have ok: "daemon_ok c" by (rule routing_daemon_ok [OF f(1)])
  have "distinct (neighs (nbrs b))" using assms(1) by (simp add: daemon_ok_def steady_def)
  then have nin: "nb \<notin> set (neighs (nbrs c))" unfolding f(2) by simp
  moreover have "r_neigh (route c rt) \<in> set (neighs (nbrs c))" if "rt \<in> rib_routes (rib c)" for rt
    using ok that by (simp add: daemon_ok_def)
  ultimately show ?thesis using ok f(2,3) routingD(5) [OF f(1)] by metis
qed

theorem flush_neighbour_unlinks_witness: "neighs (nbrs (flush_neighbour 1 routed_router)) = []"
  using flush_neighbour_unlinks [OF routed_router_ok _ refl, of 1] by (simp add: routed_router_def a_router_def)



end
