(* ===== verification/Hello_History.thy ===== *)
theory Hello_History
  imports Neighbour_Claims
begin

text \<open>
  The field \<open>reach\<close> of a neighbour is a history of its last sixteen hellos: the abstract value
  is the list of booleans, the latest first, and \<open>update_neighbour\<close> refines the operation that
  puts a received hello, behind the missed ones, in front of that list.
\<close>

definition history :: "u16 \<Rightarrow> bool list" where
  "history r = map (\<lambda>i. bit r (15 - i)) [0..<16]"

definition hear :: "nat \<Rightarrow> bool list \<Rightarrow> bool list" where
  "hear missed h = take 16 (True # replicate missed False @ h)"

lemma length_history [simp]: "length (history r) = 16"
  by (simp add: history_def)

lemma history_nth: "i < 16 \<Longrightarrow> history r ! i = bit r (15 - i)"
  by (simp add: history_def)

lemma bit_heard: "bit (drop_bit 1 r OR (0x8000 :: u16)) n \<longleftrightarrow> bit r (Suc n) \<or> n = 15"
proof -
  have "bit (0x8000 :: u16) n \<longleftrightarrow> n = 15"
  proof -
    have "(0x8000 :: u16) = 2 ^ 15" by simp
    then show ?thesis by (simp only: bit_exp_iff) (auto simp: possible_bit_def)
  qed
  then show ?thesis by (simp add: bit_or_iff bit_drop_bit_eq)
qed

lemma history_heard: "history (drop_bit 1 (drop_bit k r) OR 0x8000) = hear k (history r)"
proof (rule nth_equalityI)
  show "length (history (drop_bit 1 (drop_bit k r) OR 0x8000)) = length (hear k (history r))"
    by (simp add: hear_def)
  fix i assume "i < length (history (drop_bit 1 (drop_bit k r) OR 0x8000))"
  then have i: "i < 16" by simp
  have lhs: "history (drop_bit 1 (drop_bit k r) OR 0x8000) ! i \<longleftrightarrow> bit r (k + Suc (15 - i)) \<or> i = 0"
    using i by (auto simp only: history_nth bit_heard bit_drop_bit_eq comp_def add.commute)
  have out: "\<not> bit r (k + Suc (15 - i))" if "i \<noteq> 0" "i \<le> k" using that i bit_imp_le_length [of r] by fastforce
  have rhs: "hear k (history r) ! i \<longleftrightarrow> (if i = 0 then True else if i \<le> k then False else bit r (15 - (i - 1 - k)))"
    using i by (auto simp: hear_def nth_Cons nth_append history_nth split: nat.split)
  show "history (drop_bit 1 (drop_bit k r) OR 0x8000) ! i = hear k (history r) ! i"
  proof (cases "i = 0 \<or> i \<le> k")
    case True
    then show ?thesis using lhs rhs out by auto
  next
    case False
    then have e: "k + Suc (15 - i) = 15 - (i - 1 - k)" using i by linarith
    show ?thesis using lhs rhs False unfolding e by simp
  qed
qed

text \<open>
  C17: (refinement) A hello that is not late puts itself in front of the history, after one entry
  for each hello that was missed in between; the older ones move on and the oldest are dropped.
  (\<open>missed\<close> is below 32, the width of the type that C shifts.)
\<close>

theorem hello_refines_history:
  assumes "update_neighbour nb (Some hello) interval b = (changed, c)"
    and "missed = (if n_hello_seqno (neigh b nb) \<ge> 0 \<and> n_reach (neigh b nb) > 0
      then seqno_minus hello (word_of_int (n_hello_seqno (neigh b nb))) - 1 else 0)"
    and "0 \<le> missed" "missed < 32"
  shows "history (n_reach (neigh c nb)) = hear (nat missed) (history (n_reach (neigh b nb))) \<and>
    n_hello_seqno (neigh c nb) = uint hello \<and> n_hello_time (neigh c nb) = now b \<and>
    n_hello_interval (neigh c nb) = to_ushort interval"
proof -
  let ?n = "(neigh b nb)\<lparr>n_hello_time := now b, n_hello_interval := to_ushort interval\<rparr>"
  have r: "hello_received (now b) hello interval (neigh b nb) = (?n, missed, True, False)"
    using assms(2,3) by (auto simp: hello_received_def Let_def split: if_splits)
  let ?d = "upd_neigh nb (count_hello hello) (count_missed nb missed (upd_neigh nb (\<lambda>_. ?n) b))"
  have c: "c = hello_feedback nb ?d"
    using assms(1) unfolding update_neighbour_def option.case r prod.case Let_def by simp
  have "holds (linked ?d) (hello_feedback nb ?d)"
    unfolding hello_feedback_def by (intro inv_rules links linked_start)
  then have q: "quiet_neighbour (neigh c nb) = quiet_neighbour (neigh ?d nb)" by (simp only: c holds_def linked_def)
  have "n_reach (neigh ?d nb) = drop_bit 1 (drop_bit (nat missed) (n_reach (neigh b nb))) OR 0x8000"
    using assms(3,4) by (simp add: count_missed_def shift_reach_def count_hello_def)
  moreover have "n_hello_seqno (neigh ?d nb) = uint hello" by (simp add: count_hello_def)
  moreover have "n_hello_time (neigh ?d nb) = now b \<and> n_hello_interval (neigh ?d nb) = to_ushort interval"
    using assms(4) by (simp add: count_missed_def shift_reach_def count_hello_def)
  moreover have "n_hello_seqno (neigh c nb) = n_hello_seqno (neigh ?d nb)" "n_hello_time (neigh c nb) = n_hello_time (neigh ?d nb)"
    "n_hello_interval (neigh c nb) = n_hello_interval (neigh ?d nb)"
    using arg_cong [OF q, of n_hello_seqno] arg_cong [OF q, of n_hello_time] arg_cong [OF q, of n_hello_interval]
    by (simp_all add: quiet_neighbour_def)
  ultimately show ?thesis using history_heard quiet_neighbour_fields(3) [OF q] by simp
qed

theorem hello_refines_history_witness:
  "history (n_reach (neigh (snd (update_neighbour 1 (Some 3) 400 a_router)) 1)) = True # False # False # replicate 13 True"
proof -
  have r: "n_reach (neigh a_router 1) = 0xFFFF" "n_hello_seqno (neigh a_router 1) = 0"
    by (simp_all add: a_router_def the_neigh_def neighbour_zero_def)
  have "2 = (if n_hello_seqno (neigh a_router 1) \<ge> 0 \<and> n_reach (neigh a_router 1) > 0
      then seqno_minus 3 (word_of_int (n_hello_seqno (neigh a_router 1))) - 1 else 0)"
    unfolding r by (simp add: seqno_minus_def)
  from hello_refines_history [OF prod.collapse [symmetric] this, where interval = 400]
  have "history (n_reach (neigh (snd (update_neighbour 1 (Some 3) 400 a_router)) 1)) = hear 2 (history 0xFFFF)"
    unfolding r by simp
  moreover have "history 0xFFFF = replicate 16 True" by (simp add: history_def upt_rec numeral_eq_Suc)
  ultimately show ?thesis by (simp only: hear_def) (simp add: numeral_eq_Suc)
qed

end
