(* ===== verification/Message_In.thy ===== *)
theory Message_In
  imports Neighbour
begin

text \<open>
  Received packets (\<open>message.c\<close>): the decoding of prefixes, sub-TLVs and TLVs, and what each of
  them makes the daemon do.

  The packet is memory (a function from offsets), because the code reads a few bytes past the
  end of it; the claims tell how many.  Decoding a TLV changes only the local variables of
  \<open>parse_packet\<close> (\<open>parse_state\<close>; \<open>None\<close> for a variable whose \<open>have_\<close> flag is 0) and
  yields the calls to make, an \<open>action\<close>; \<open>perform\<close> makes them.
\<close>

section \<open>Reading\<close>

type_synonym memory = "nat \<Rightarrow> byte"

definition shift :: "nat \<Rightarrow> memory \<Rightarrow> memory" where
  "shift k m = (\<lambda>i. m (k + i))"

definition bytes_at :: "memory \<Rightarrow> nat \<Rightarrow> nat \<Rightarrow> byte list" where
  "bytes_at m k n = map m [k..<k + n]"

definition ntohs :: "memory \<Rightarrow> nat \<Rightarrow> u16" where
  "ntohs m k = 256 * ucast (m k) + ucast (m (k + 1))"

definition ntohl :: "memory \<Rightarrow> nat \<Rightarrow> u32" where
  "ntohl m k =
     0x1000000 * ucast (m k) + 0x10000 * ucast (m (k + 1)) + 256 * ucast (m (k + 2)) + ucast (m (k + 3))"

section \<open>Prefixes\<close>

text \<open>\<open>overlay xs k ys\<close>: the array \<open>xs\<close> after \<open>memcpy(xs + k, ys, \<dots>)\<close>.\<close>

definition overlay :: "byte list \<Rightarrow> nat \<Rightarrow> byte list \<Rightarrow> byte list" where
  "overlay xs k ys = take k xs @ ys @ drop (k + length ys) xs"

text \<open>
  The encoding-dependent part: the bytes of the prefix and how many were parsed (which may come
  out negative).  \<open>pb\<close> is the number of bytes that the prefix length calls for.
\<close>

definition prefix_bytes ::
  "nat \<Rightarrow> nat \<Rightarrow> nat \<Rightarrow> memory \<Rightarrow> byte list option \<Rightarrow> nat \<Rightarrow> (int \<times> byte list) option" where
  "prefix_bytes ae pb omitted p dp len =
     (let rest = bytes_at p 0 (pb - omitted) in
      if ae = 0 then Some (0, zeroes)
      else if ae = 1 then
        if omitted > 4 \<or> pb > 4 \<or> (pb > omitted \<and> len < pb - omitted) then None
        else
          (case (if omitted = 0 then Some (take 12 v4prefix @ replicate 4 0)
                 else case dp of None \<Rightarrow> None
                   | Some d \<Rightarrow> if v4mapped d then Some (take (12 + omitted) d @ replicate (4 - omitted) 0) else None) of
             None \<Rightarrow> None
           | Some prefix \<Rightarrow> Some (int pb - int omitted, overlay prefix (12 + omitted) rest))
      else if ae = 2 then
        if omitted > 16 \<or> (pb > omitted \<and> len < pb - omitted) then None
        else
          (case (if omitted = 0 then Some zeroes
                 else case dp of None \<Rightarrow> None
                   | Some d \<Rightarrow> if v4mapped d then None else Some (take omitted d @ replicate (16 - omitted) 0)) of
             None \<Rightarrow> None
           | Some prefix \<Rightarrow> Some (int pb - int omitted, overlay prefix omitted rest))
      else if ae = 3 then
        if pb > 8 \<and> len < pb - 8 then None
        else Some (int pb - 8, overlay llprefix 8 (bytes_at p 0 (pb - 8)))
      else None)"

text \<open>\<open>None\<close> stands for every negative result; a negative \<open>plen\<close> asks for a whole address.\<close>

definition network_prefix ::
  "nat \<Rightarrow> int \<Rightarrow> nat \<Rightarrow> memory \<Rightarrow> byte list option \<Rightarrow> nat \<Rightarrow> (nat \<times> byte list) option" where
  "network_prefix ae plen omitted p dp len =
     (let pb = (if plen \<ge> 0 then nat ((plen + 7) div 8) else if ae = 1 then 4 else 16) in
      if pb > 16 then None
      else case prefix_bytes ae pb omitted p dp len of
        None \<Rightarrow> None
      | Some (ret, prefix) \<Rightarrow>
          if ret < 0 then None
          else Some (nat ret,
            normalize_prefix prefix (if plen < 0 then 128 else if ae = 1 then nat plen + 96 else nat plen)))"

definition network_address :: "nat \<Rightarrow> memory \<Rightarrow> nat \<Rightarrow> (nat \<times> byte list) option" where
  "network_address ae a len = network_prefix ae (-1) 0 a None len"

section \<open>Sub-TLVs\<close>

text \<open>
  The three loops; each looks at the sub-TLV at offset \<open>i\<close> of \<open>alen\<close> bytes.  In those for
  hellos and IHUs the type is read from the first byte of all.
\<close>

function hello_subtlvs :: "memory \<Rightarrow> nat \<Rightarrow> nat \<Rightarrow> u32 option \<Rightarrow> u32 option option" where
  "hello_subtlvs a alen i found =
     (if \<not> i < alen then Some found
      else if a 0 = 0 then hello_subtlvs a alen (i + 1) found
      else
        let len = unat (a (i + 1)) in
        if i + len > alen then None
        else hello_subtlvs a alen (i + len + 2)
               (if uint (a 0) = SUBTLV_TIMESTAMP \<and> len \<ge> 4 then Some (ntohl a (i + 2)) else found))"
  by pat_completeness auto
termination by (relation "measure (\<lambda>(a, alen, i, found). alen - i)") auto

text \<open>The timestamp when the result of the C function is positive.\<close>

definition parse_hello_subtlv :: "memory \<Rightarrow> nat \<Rightarrow> u32 option" where
  "parse_hello_subtlv a alen = (case hello_subtlvs a alen 0 None of None \<Rightarrow> None | Some found \<Rightarrow> found)"

text \<open>The two timestamps are stored as they are found, also when the parsing fails later.\<close>

function parse_ihu_subtlvs :: "memory \<Rightarrow> nat \<Rightarrow> nat \<Rightarrow> u32 \<times> u32 \<Rightarrow> u32 \<times> u32" where
  "parse_ihu_subtlvs a alen i found =
     (if \<not> i < alen then found
      else if a 0 = 0 then parse_ihu_subtlvs a alen (i + 1) found
      else
        let len = unat (a (i + 1)) in
        if i + len > alen then found
        else parse_ihu_subtlvs a alen (i + len + 2)
               (if uint (a 0) = SUBTLV_TIMESTAMP \<and> len \<ge> 8 then (ntohl a (i + 2), ntohl a (i + 6)) else found))"
  by pat_completeness auto
termination by (relation "measure (\<lambda>(a, alen, i, found). alen - i)") auto

text \<open>
  For updates: the array of channels and its length.  On an error the length keeps the value it
  had on entry, the size of the array.
\<close>

function update_subtlvs :: "memory \<Rightarrow> nat \<Rightarrow> nat \<Rightarrow> nat \<Rightarrow> byte list \<times> nat \<Rightarrow> byte list \<times> nat" where
  "update_subtlvs a alen i cap found =
     (if \<not> i < alen then found
      else if a i = 0 then update_subtlvs a alen (i + 1) cap found
      else
        let len = unat (a (i + 1)) in
        if i + len > alen then (fst found, cap)
        else update_subtlvs a alen (i + len + 2) cap
               (if uint (a i) = SUBTLV_DIVERSITY
                then (overlay (fst found) 0 (bytes_at a (i + 2) (min len cap)), min len cap) else found))"
  by pat_completeness auto
termination by (relation "measure (\<lambda>(a, alen, i, cap, found). alen - i)") auto

declare hello_subtlvs.simps [simp del] parse_ihu_subtlvs.simps [simp del] update_subtlvs.simps [simp del]

definition parse_update_subtlv :: "interface \<Rightarrow> int \<Rightarrow> memory \<Rightarrow> nat \<Rightarrow> byte list \<Rightarrow> byte list" where
  "parse_update_subtlv ifp metric a alen stale =
     (let cap = length stale;
          start = (if cap < 1 \<or> if_flag IF_FARAWAY ifp \<or> metric < 256 then (stale, 0)
                   else (stale[0 := word_of_int IF_CHANNEL_INTERFERING], 1))
      in case update_subtlvs a alen 0 cap start of (channels, n) \<Rightarrow> take n channels)"

section \<open>TLVs\<close>

record parse_state =
  ps_router_id :: "byte list option"
  ps_v4_prefix :: "byte list option"
  ps_v6_prefix :: "byte list option"
  ps_v4_nh :: "byte list option"
  ps_v6_nh :: "byte list option"
  ps_hello_rtt :: bool
  ps_hello_send_us :: u32
  ps_receive_time :: u32

definition parse_init :: parse_state where
  "parse_init =
     \<lparr>ps_router_id = None, ps_v4_prefix = None, ps_v6_prefix = None, ps_v4_nh = None, ps_v6_nh = None,
      ps_hello_rtt = False, ps_hello_send_us = 0, ps_receive_time = 0\<rparr>"

text \<open>
  What a TLV makes the daemon do.  The next hop of an update is \<open>None\<close> when it is the address of
  the neighbour; a wildcard request may be for source-specific routes.
\<close>

datatype action =
  Act_nothing
| Act_ack u16 u16
| Act_hello u16 u16 "u32 option"
| Act_ihu u16 u16
| Act_retract
| Act_update "byte list" "byte list" nat "byte list" nat u16 u16 u16 "byte list option" "byte list"
| Act_wildcard_request bool
| Act_request "byte list" nat "byte list" nat
| Act_mh_request "byte list" nat "byte list" nat nat u16 "byte list"

text \<open>\<open>interface_ll_address\<close> of \<open>interface.c\<close>.\<close>

definition interface_ll_address :: "interface \<Rightarrow> byte list \<Rightarrow> bool" where
  "interface_ll_address ifp address \<longleftrightarrow> if_up ifp \<and> (\<exists>ll \<in> set (i_ll ifp). v6_equal ll address)"

definition decode_ihu :: "interface \<Rightarrow> memory \<Rightarrow> nat \<Rightarrow> parse_state \<Rightarrow> action \<times> parse_state" where
  "decode_ihu ifp m len s =
     (if len < 6 then (Act_nothing, s)
      else case network_address (unat (m 2)) (shift 8 m) (len - 6) of
        None \<Rightarrow> (Act_nothing, s)
      | Some (rc, address) \<Rightarrow>
          if m 2 = 0 \<or> interface_ll_address ifp address then
            (Act_ihu (ntohs m 4) (ntohs m 6),
             if len > 10 + rc then
               (case parse_ihu_subtlvs (shift (8 + rc) m) (len - 6 - rc) 0 (ps_hello_send_us s, ps_receive_time s) of
                  (us, rt_us) \<Rightarrow> s\<lparr>ps_hello_send_us := us, ps_receive_time := rt_us\<rparr>)
             else s)
          else (Act_nothing, s))"

definition decode_nh :: "memory \<Rightarrow> nat \<Rightarrow> parse_state \<Rightarrow> parse_state" where
  "decode_nh m len s =
     (case (if len < 2 then None else network_address (unat (m 2)) (shift 4 m) (len - 2)) of
        None \<Rightarrow> s\<lparr>ps_v4_nh := None, ps_v6_nh := None\<rparr>
      | Some (_, nh) \<Rightarrow> if m 2 = 1 then s\<lparr>ps_v4_nh := Some nh\<rparr> else s\<lparr>ps_v6_nh := Some nh\<rparr>)"

text \<open>The prefix of an update, which may take its first bytes from an earlier one.\<close>

definition update_prefix ::
  "byte \<Rightarrow> byte \<Rightarrow> byte \<Rightarrow> memory \<Rightarrow> nat \<Rightarrow> parse_state \<Rightarrow> (nat \<times> byte list) option" where
  "update_prefix ae plen omitted m len s =
     (let dp = (if ae = 1 then ps_v4_prefix s else ps_v6_prefix s) in
      if omitted = 0 \<or> dp \<noteq> None
      then network_prefix (unat ae) (uint plen) (unat omitted) (shift 12 m) dp (len - 10)
      else None)"

text \<open>The flags of an update: \<open>0x80\<close> makes its prefix the default, \<open>0x40\<close> its router identifier.\<close>

definition update_flags :: "byte \<Rightarrow> byte \<Rightarrow> byte list \<Rightarrow> parse_state \<Rightarrow> parse_state" where
  "update_flags flags ae prefix s =
     (let s = (if flags AND 0x80 = 0 then s
               else if ae = 1 then s\<lparr>ps_v4_prefix := Some prefix\<rparr> else s\<lparr>ps_v6_prefix := Some prefix\<rparr>)
      in if flags AND 0x40 = 0 then s
         else s\<lparr>ps_router_id := Some (if ae = 1 then replicate 4 0 @ take 4 (drop 12 prefix)
                                     else take 8 (drop 8 prefix))\<rparr>)"

definition drop_prefixes :: "byte \<Rightarrow> parse_state \<Rightarrow> parse_state" where
  "drop_prefixes flags s = (if flags AND 0x80 = 0 then s else s\<lparr>ps_v4_prefix := None, ps_v6_prefix := None\<rparr>)"

text \<open>
  The next hop and the last checks, the same for both kinds of updates; \<open>parsed\<close> is the number
  of bytes of the body before the sub-TLVs.
\<close>

definition update_action ::
  "interface \<Rightarrow> byte list \<Rightarrow> memory \<Rightarrow> nat \<Rightarrow> nat \<Rightarrow> byte list \<Rightarrow> nat \<Rightarrow> byte list \<Rightarrow> nat \<Rightarrow> parse_state \<Rightarrow> action" where
  "update_action ifp stale m len parsed prefix plen src_prefix src_plen s =
     (case ps_router_id s of
        None \<Rightarrow> Act_nothing
      | Some rid \<Rightarrow>
          let v4 = (m 2 = 1); nh = (if v4 then ps_v4_nh s else ps_v6_nh s) in
          if v4 \<and> (nh = None \<or> i_ipv4 ifp = None) then Act_nothing
          else Act_update rid prefix plen src_prefix src_plen (ntohs m 8) (ntohs m 10) (ntohs m 6) nh
                 (parse_update_subtlv ifp (uint (ntohs m 10)) (shift (2 + parsed) m) (len - parsed) stale))"

definition decode_update ::
  "interface \<Rightarrow> byte list \<Rightarrow> memory \<Rightarrow> nat \<Rightarrow> parse_state \<Rightarrow> action \<times> parse_state" where
  "decode_update ifp stale m len s =
     (if len < 10 then (Act_nothing, if len < 2 then drop_prefixes 0x80 s else drop_prefixes (m 3) s)
      else case update_prefix (m 2) (m 4) (m 5) m len s of
        None \<Rightarrow> (Act_nothing, drop_prefixes (m 3) s)
      | Some (rc, prefix) \<Rightarrow>
          let s = update_flags (m 3) (m 2) prefix s; plen = unat (m 4 + (if m 2 = 1 then 96 else 0)) in
          (if m 2 = 0 then (if ntohs m 10 < 0xFFFF then Act_nothing else Act_retract)
           else update_action ifp stale m len (10 + rc) prefix plen zeroes 0 s, s))"

definition decode_specific_update ::
  "interface \<Rightarrow> byte list \<Rightarrow> memory \<Rightarrow> nat \<Rightarrow> parse_state \<Rightarrow> action" where
  "decode_specific_update ifp stale m len s =
     (if len < 10 then Act_nothing
      else case update_prefix (m 2) (m 4) (m 5) m len s of
        None \<Rightarrow> Act_nothing
      | Some (rc, prefix) \<Rightarrow>
          let parsed = 10 + rc in
          (case network_prefix (unat (m 2)) (uint (m 3)) 0 (shift (2 + parsed) m) None (len - parsed) of
             None \<Rightarrow> Act_nothing
           | Some (rc', src_prefix) \<Rightarrow>
               let off = (if m 2 = 1 then 96 else 0) in
               if ps_router_id s = None then Act_nothing
               else if m 2 = 0 then Act_retract
               else update_action ifp stale m len (parsed + rc') prefix (unat (m 4 + off)) src_prefix (unat (m 3 + off)) s))"

section \<open>Requests\<close>

definition decode_request :: "memory \<Rightarrow> nat \<Rightarrow> action" where
  "decode_request m len =
     (if len < 2 then Act_nothing
      else case network_prefix (unat (m 2)) (uint (m 3)) 0 (shift 4 m) None (len - 2) of
        None \<Rightarrow> Act_nothing
      | Some (_, prefix) \<Rightarrow>
          if m 2 = 0 then Act_wildcard_request False
          else Act_request prefix (unat (m 3 + (if m 2 = 1 then 96 else 0))) zeroes 0)"

definition decode_mh_request :: "memory \<Rightarrow> nat \<Rightarrow> action" where
  "decode_mh_request m len =
     (if len < 14 then Act_nothing
      else case network_prefix (unat (m 2)) (uint (m 3)) 0 (shift 16 m) None (len - 14) of
        None \<Rightarrow> Act_nothing
      | Some (_, prefix) \<Rightarrow>
          Act_mh_request prefix (unat (m 3 + (if m 2 = 1 then 96 else 0))) zeroes 0 (unat (m 6)) (ntohs m 4)
            (bytes_at m 8 8))"

text \<open>The two prefixes of a source-specific request, from offset \<open>parsed\<close>.\<close>

definition request_prefixes ::
  "byte \<Rightarrow> byte \<Rightarrow> byte \<Rightarrow> memory \<Rightarrow> nat \<Rightarrow> nat \<Rightarrow> (byte list \<times> nat \<times> byte list \<times> nat) option" where
  "request_prefixes ae plen src_plen m len parsed =
     (let off = (if ae = 1 then 96 else 0) in
      case network_prefix (unat ae) (uint plen) 0 (shift parsed m) None (len + 2 - parsed) of
        None \<Rightarrow> None
      | Some (rc, prefix) \<Rightarrow>
          (case network_prefix (unat ae) (uint src_plen) 0 (shift (parsed + rc) m) None (len + 2 - (parsed + rc)) of
             None \<Rightarrow> None
           | Some (_, src_prefix) \<Rightarrow> Some (prefix, unat (plen + off), src_prefix, unat (src_plen + off))))"

definition decode_specific_request :: "memory \<Rightarrow> nat \<Rightarrow> action" where
  "decode_specific_request m len =
     (if len < 3 then Act_nothing
      else case request_prefixes (m 2) (m 3) (m 4) m len 5 of
        None \<Rightarrow> Act_nothing
      | Some (prefix, plen, src_prefix, src_plen) \<Rightarrow>
          if m 2 = 0 then Act_wildcard_request True else Act_request prefix plen src_prefix src_plen)"

definition decode_specific_mh_request :: "memory \<Rightarrow> nat \<Rightarrow> action" where
  "decode_specific_mh_request m len =
     (if len < 14 then Act_nothing
      else case request_prefixes (m 2) (m 3) (m 7) m len 16 of
        None \<Rightarrow> Act_nothing
      | Some (prefix, plen, src_prefix, src_plen) \<Rightarrow>
          Act_mh_request prefix plen src_prefix src_plen (unat (m 6)) (ntohs m 4) (bytes_at m 8 8))"

section \<open>One TLV\<close>

definition decode ::
  "interface \<Rightarrow> byte list \<Rightarrow> memory \<Rightarrow> nat \<Rightarrow> parse_state \<Rightarrow> action \<times> parse_state" where
  "decode ifp stale m len s =
     (let type = uint (m 0) in
      if type = MESSAGE_ACK_REQ then
        (if len < 6 then Act_nothing else Act_ack (ntohs m 4) (ntohs m 6), s)
      else if type = MESSAGE_HELLO then
        (if len < 6 then (Act_nothing, s)
         else
           let ts = (if len > 8 then parse_hello_subtlv (shift 8 m) (len - 6) else None)
           in (Act_hello (ntohs m 4) (ntohs m 6) ts, if ts = None then s else s\<lparr>ps_hello_rtt := True\<rparr>))
      else if type = MESSAGE_IHU then decode_ihu ifp m len s
      else if type = MESSAGE_ROUTER_ID then
        (Act_nothing, s\<lparr>ps_router_id := (if len < 10 then None else Some (bytes_at m 4 8))\<rparr>)
      else if type = MESSAGE_NH then (Act_nothing, decode_nh m len s)
      else if type = MESSAGE_UPDATE then decode_update ifp stale m len s
      else if type = MESSAGE_REQUEST then (decode_request m len, s)
      else if type = MESSAGE_MH_REQUEST then (decode_mh_request m len, s)
      else if type = MESSAGE_UPDATE_SRC_SPECIFIC then (decode_specific_update ifp stale m len s, s)
      else if type = MESSAGE_REQUEST_SRC_SPECIFIC then (decode_specific_request m len, s)
      else if type = MESSAGE_MH_REQUEST_SRC_SPECIFIC then (decode_specific_mh_request m len, s)
      else (Act_nothing, s))"

end
