(* ===== verification/Receive.thy ===== *)
theory Receive
  imports Message_In
begin

text \<open>
  What received TLVs make the daemon do: requests are answered or forwarded, updates go to the
  route table, hellos and IHUs to the neighbour; and the loop of \<open>parse_packet\<close> over the body of
  a packet, with the round-trip time at its end.
\<close>

section \<open>Requests\<close>

definition g_request_redundant ::
  "ptr \<Rightarrow> byte list \<Rightarrow> nat \<Rightarrow> byte list \<Rightarrow> nat \<Rightarrow> u16 \<Rightarrow> byte list \<Rightarrow> babel \<Rightarrow> bool" where
  "g_request_redundant ifp prefix plen src_prefix src_plen seqno rid b =
     request_redundant (now b) (Some (ifp, i_hello_interval (iface b ifp))) prefix plen src_prefix src_plen seqno rid
       (resends b)"

text \<open>The request is for one of our own prefixes.\<close>

definition answer_own_request ::
  "ptr \<Rightarrow> byte list \<Rightarrow> nat \<Rightarrow> byte list \<Rightarrow> nat \<Rightarrow> nat \<Rightarrow> u16 \<Rightarrow> byte list \<Rightarrow> babel \<Rightarrow> babel" where
  "answer_own_request nb prefix plen src_prefix src_plen hop_count seqno rid b =
     (let ours = (hop_count > 0 \<and> memcmp rid (myid (conf b)) 8 = 0 \<and> seqno_compare seqno (myseqno b) > 0) in
      if ours \<and> seqno_minus seqno (myseqno b) > 100 then b
      else
        let b = (if ours then update_myseqno b else b)
        in send_update (Some (n_ifp (neigh b nb))) True (Some prefix) plen (Some src_prefix) src_plen b)"

text \<open>The neighbour to forward a request to: the next hop, or that of another route.\<close>

definition request_successor ::
  "ptr \<Rightarrow> byte list \<Rightarrow> nat \<Rightarrow> byte list \<Rightarrow> nat \<Rightarrow> ptr option \<Rightarrow> babel \<Rightarrow> ptr option \<times> babel" where
  "request_successor nb prefix plen src_prefix src_plen rt b =
     (let successor = (case rt of None \<Rightarrow> None
            | Some rt \<Rightarrow> if route_metric (route b rt) < INFINITY_METRIC then Some (r_neigh (route b rt)) else None)
      in
      if successor \<noteq> None \<and> successor \<noteq> Some nb then (successor, b)
      else case find_best_route prefix plen src_prefix src_plen False (Some nb) b of
        (other, b) \<Rightarrow>
          ((case other of None \<Rightarrow> successor
            | Some r \<Rightarrow> if route_metric (route b r) < INFINITY_METRIC then Some (r_neigh (route b r)) else successor), b))"

definition forward_request ::
  "ptr \<Rightarrow> byte list \<Rightarrow> nat \<Rightarrow> byte list \<Rightarrow> nat \<Rightarrow> nat \<Rightarrow> u16 \<Rightarrow> byte list \<Rightarrow> ptr option \<Rightarrow> babel \<Rightarrow> babel" where
  "forward_request nb prefix plen src_prefix src_plen hop_count seqno rid rt b =
     (if g_request_redundant (n_ifp (neigh b nb)) prefix plen src_prefix src_plen seqno rid b then b
      else case request_successor nb prefix plen src_prefix src_plen rt b of
        (None, b) \<Rightarrow> b
      | (Some successor, b) \<Rightarrow>
          if successor = nb then b
          else
            let b = send_unicast_multihop_request successor prefix plen src_prefix src_plen seqno rid (int hop_count - 1) b
            in g_record_resend RESEND_REQUEST prefix plen src_prefix src_plen seqno (Some rid)
                 (Some (n_ifp (neigh b nb))) 0 b)"

definition handle_request ::
  "ptr \<Rightarrow> byte list \<Rightarrow> nat \<Rightarrow> byte list \<Rightarrow> nat \<Rightarrow> nat \<Rightarrow> u16 \<Rightarrow> byte list \<Rightarrow> babel \<Rightarrow> babel" where
  "handle_request nb prefix plen src_prefix src_plen hop_count seqno rid b =
     (let xr = find_xroute prefix plen src_prefix src_plen b;
          rt = find_installed prefix plen src_prefix src_plen b;
          ours = (case xr of None \<Rightarrow> False | Some i \<Rightarrow> rt = None \<or> x_metric (xroutes b ! i) \<le> kernel_metric (conf b));
          satisfied = (case rt of None \<Rightarrow> False | Some rt \<Rightarrow>
            memcmp rid (s_id (route_src b rt)) 8 \<noteq> 0 \<or> seqno_compare seqno (r_seqno (route b rt)) \<le> 0);
          hopeless = (case rt of None \<Rightarrow> False | Some rt \<Rightarrow>
            memcmp rid (s_id (route_src b rt)) 8 = 0 \<and> seqno_minus seqno (r_seqno (route b rt)) > 100)
      in
      if ours then answer_own_request nb prefix plen src_prefix src_plen hop_count seqno rid b
      else if satisfied
      then send_update (Some (n_ifp (neigh b nb))) True (Some prefix) plen (Some src_prefix) src_plen b
      else if hop_count \<le> 1 \<or> hopeless then b
      else forward_request nb prefix plen src_prefix src_plen hop_count seqno rid rt b)"

text \<open>A request for a full dump is ignored shortly after one.\<close>

definition handle_wildcard_request :: "ptr \<Rightarrow> bool \<Rightarrow> babel \<Rightarrow> babel" where
  "handle_wildcard_request nb specific b =
     (let b = send_ihu nb None b; ifp = n_ifp (neigh b nb); i = iface b ifp;
          last = (if specific then i_last_specific_update_time i else i_last_update_time i)
      in if last < tv_sec (now b) - max (i_hello_interval i div 100) 1
         then send_update (Some ifp) False (if specific then Some zeroes else None) 0
                (if specific then None else Some zeroes) 0 b
         else b)"

section \<open>Hellos and IHUs\<close>

definition handle_hello :: "ptr \<Rightarrow> u16 \<Rightarrow> u16 \<Rightarrow> u32 option \<Rightarrow> babel \<Rightarrow> babel" where
  "handle_hello nb seqno interval timestamp b =
     (case update_neighbour nb (Some seqno) (uint interval) b of (changed, b) \<Rightarrow>
        let b = update_neighbour_metric nb changed b;
            b = (if interval > 0 then schedule_neighbours_check (uint interval * 15) False b else b)
        in case timestamp of
             None \<Rightarrow> b
           | Some ts \<Rightarrow>
               upd_neigh nb (\<lambda>n. n\<lparr>n_hello_send_us := ts, n_hello_rtt_receive_time := now b\<rparr>) b)"

definition handle_ihu :: "ptr \<Rightarrow> u16 \<Rightarrow> u16 \<Rightarrow> babel \<Rightarrow> babel" where
  "handle_ihu nb txcost interval b =
     (let changed = (uint txcost \<noteq> n_txcost (neigh b nb));
          b = upd_neigh nb (\<lambda>n. n\<lparr>n_txcost := uint txcost, n_ihu_time := now b, n_ihu_interval := uint interval\<rparr>) b;
          b = update_neighbour_metric nb changed b
      in if interval > 0 then schedule_neighbours_check (uint interval * 45) False b else b)"

section \<open>Performing an action\<close>

definition perform :: "ptr \<Rightarrow> action \<Rightarrow> babel \<Rightarrow> babel" where
  "perform nb a b =
     (case a of
        Act_nothing \<Rightarrow> b
      | Act_ack nonce interval \<Rightarrow> send_ack nb nonce (uint interval) b
      | Act_hello seqno interval ts \<Rightarrow> handle_hello nb seqno interval ts b
      | Act_ihu txcost interval \<Rightarrow> handle_ihu nb txcost interval b
      | Act_retract \<Rightarrow> retract_neighbour_routes nb b
      | Act_update rid prefix plen src_prefix src_plen seqno metric interval nh channels \<Rightarrow>
          snd (update_route rid prefix plen src_prefix src_plen seqno (uint metric) (uint interval) nb
            (case nh of None \<Rightarrow> n_address (neigh b nb) | Some a \<Rightarrow> a) channels b)
      | Act_wildcard_request specific \<Rightarrow> handle_wildcard_request nb specific b
      | Act_request prefix plen src_prefix src_plen \<Rightarrow>
          send_update (Some (n_ifp (neigh b nb))) False (Some prefix) plen (Some src_prefix) src_plen b
      | Act_mh_request prefix plen src_prefix src_plen hop_count seqno rid \<Rightarrow>
          handle_request nb prefix plen src_prefix src_plen hop_count seqno rid b)"

section \<open>The packet\<close>

text \<open>The bytes of an array that was never written: whatever the stack holds.\<close>

fun stale_bytes :: "nat \<Rightarrow> babel \<Rightarrow> byte list \<times> babel" where
  "stale_bytes 0 b = ([], b)"
| "stale_bytes (Suc n) b =
     (case ask b of (a, b) \<Rightarrow> case stale_bytes n b of (as, b) \<Rightarrow> (word_of_int a # as, b))"

text \<open>The loop over the body, which begins at the start of \<open>m\<close>; it stops when a fault is recorded.\<close>

function parse_tlvs ::
  "ptr \<Rightarrow> ptr \<Rightarrow> memory \<Rightarrow> int \<Rightarrow> nat \<Rightarrow> parse_state \<Rightarrow> babel \<Rightarrow> parse_state \<times> babel" where
  "parse_tlvs nb ifp m bodylen i s b =
     (if \<not> int i < bodylen \<or> fault b \<noteq> None then (s, b)
      else if m i = 0 then parse_tlvs nb ifp m bodylen (i + 1) s b
      else
        let len = unat (m (i + 1)) in
        if int (i + len) > bodylen then (s, b)
        else case stale_bytes (nat MAX_CHANNEL_HOPS) b of (stale, b) \<Rightarrow>
          case decode (iface b ifp) stale (shift i m) len s of (a, s) \<Rightarrow>
            parse_tlvs nb ifp m bodylen (i + len + 2) s (perform nb a b))"
  by pat_completeness auto
termination
  by (relation "measure (\<lambda>(nb, ifp, m, bodylen, i, s, b). nat (bodylen - int i))")
    (auto intro: order.strict_trans1 [of _ 0])

declare parse_tlvs.simps [simp del]

text \<open>The new estimate of the round-trip time from a sample.\<close>

definition smoothed_rtt :: "bool \<Rightarrow> int \<Rightarrow> int \<Rightarrow> int \<Rightarrow> int" where
  "smoothed_rtt valid decay old sample =
     (if valid then
        let s = (decay * sample + (256 - decay) * old) mod 4294967296
        in if old \<ge> sample then s div 256 else ((s + 255) mod 4294967296) div 256
      else (2 * sample) mod 4294967296)"

definition process_rtt :: "ptr \<Rightarrow> ptr \<Rightarrow> u32 \<Rightarrow> u32 \<Rightarrow> babel \<Rightarrow> babel" where
  "process_rtt nb ifp hello_send_us receive_time b =
     (let n = neigh b nb;
          remote_waiting = sint (n_hello_send_us n - receive_time);
          local_waiting = sint (time_us (n_hello_rtt_receive_time n) - hello_send_us)
      in
      if remote_waiting < 0 \<or> local_waiting < 0 \<or> remote_waiting > 600000000 \<or> local_waiting > 600000000 then b
      else
        let rtt = max 0 (local_waiting - remote_waiting) in
        case neighbour_rttcost nb b of (old_cost, b) \<Rightarrow>
          let b = upd_neigh nb (\<lambda>n. n\<lparr>n_rtt := smoothed_rtt (valid_rtt nb b) (i_rtt_decay (iface b ifp)) (n_rtt n) rtt\<rparr>) b
          in case neighbour_rttcost nb b of (cost, b) \<Rightarrow>
            let b = update_neighbour_metric nb (cost \<noteq> old_cost) b
            in upd_neigh nb (\<lambda>n. n\<lparr>n_rtt_time := now b\<rparr>) b)"

definition parse_packet :: "byte list \<Rightarrow> ptr \<Rightarrow> memory \<Rightarrow> int \<Rightarrow> babel \<Rightarrow> babel" where
  "parse_packet sender ifp packet packetlen b =
     (let b = (if if_flag IF_TIMESTAMPS (iface b ifp) then gettime b else b) in
      if \<not> linklocal sender then b
      else if packet 0 \<noteq> 42 then b
      else if packet 1 \<noteq> 2 then b
      else case find_neighbour sender ifp b of
        (None, b) \<Rightarrow> b
      | (Some nb, b) \<Rightarrow>
          let bodylen = uint (ntohs packet 2);
              bodylen = (if bodylen + 4 > packetlen then packetlen - 4 else bodylen)
          in case parse_tlvs nb ifp (shift 4 packet) bodylen 0 parse_init b of (s, b) \<Rightarrow>
            if ps_hello_rtt s \<and> ps_hello_send_us s \<noteq> 0 \<and> ps_receive_time s \<noteq> 0
            then process_rtt nb ifp (ps_hello_send_us s) (ps_receive_time s) b
            else b)"

end
