(* ===== verification/Receive_Types.thy ===== *)
theory Receive_Types
  imports Receive
begin

text \<open>
  What decoding yields: addresses of 16 bytes, router identifiers of 8, prefix lengths of at most
  128 bits, an IPv4 prefix behind at least 96 of them.
\<close>

section \<open>Prefixes\<close>

lemma length_overlay [simp]: "k + length ys \<le> length xs \<Longrightarrow> length (overlay xs k ys) = length xs"
  by (simp add: overlay_def)

lemma length_bytes_at [simp]: "length (bytes_at m k n) = n"
  by (simp add: bytes_at_def)

lemma length_zeroes [simp]: "length zeroes = 16" "length v4prefix = 16" "length llprefix = 16"
  by (simp_all add: zeroes_def v4prefix_def llprefix_def)

lemma prefix_bytes_length:
  assumes "prefix_bytes ae pb omitted p dp len = Some (ret, x)" "pb \<le> 16" "\<forall>d. dp = Some d \<longrightarrow> length d = 16"
  shows "length x = 16"
  using assms by (auto simp: prefix_bytes_def Let_def split: if_splits option.splits)

lemma prefix_bytes_v4:
  assumes "prefix_bytes 1 pb omitted p dp len = Some (ret, x)" "\<forall>d. dp = Some d \<longrightarrow> length d = 16"
  shows "take 12 x = take 12 v4prefix \<and> pb \<le> 4"
  using assms
  by (auto simp: prefix_bytes_def Let_def overlay_def min_def v4mapped_def v4mapped2_def take_append
      split: if_splits option.splits)

lemma normalize_keeps: "96 \<le> plen \<Longrightarrow> length x = 16 \<Longrightarrow> take 12 (normalize_prefix x plen) = take 12 x"
  by (auto simp: normalize_prefix_def Let_def min_def take_update_cancel)

lemma network_prefix_typed:
  assumes "network_prefix ae plen omitted p dp len = Some (rc, x)" "\<forall>d. dp = Some d \<longrightarrow> length d = 16"
  shows "length x = 16" "plen \<le> 128" "ae = 1 \<Longrightarrow> plen \<le> 32" "ae = 1 \<Longrightarrow> v4mapped x"
    "ae \<in> {0, 1, 2, 3}"
proof -
  let ?pb = "if plen \<ge> 0 then nat ((plen + 7) div 8) else if ae = 1 then 4 else 16"
  let ?n = "if plen < 0 then 128 else if ae = 1 then nat plen + 96 else nat plen"
  obtain ret y where y: "prefix_bytes ae ?pb omitted p dp len = Some (ret, y)" "?pb \<le> 16" "x = normalize_prefix y ?n"
    using assms(1) unfolding network_prefix_def Let_def
    by (auto simp: not_less split: if_split_asm option.splits)
  have ly: "length y = 16" by (rule prefix_bytes_length [OF y(1,2) assms(2)])
  then show "length x = 16" using y(3) length_normalize_prefix by simp
  show "plen \<le> 128" using y(2) by (cases "plen \<ge> 0") auto
  show "plen \<le> 32" if "ae = 1"
    using prefix_bytes_v4 [of ?pb omitted p dp len ret y] y(1) assms(2) that by (cases "plen \<ge> 0") auto
  show "v4mapped x" if ae: "ae = 1"
  proof -
    have "take 12 y = take 12 v4prefix" using prefix_bytes_v4 [of ?pb omitted p dp len ret y] y(1) assms(2) ae by auto
    moreover have "96 \<le> ?n" using ae by simp
    ultimately have "take 12 x = take 12 v4prefix" using normalize_keeps [OF _ ly] y(3) by metis
    then show ?thesis using \<open>length x = 16\<close> by (simp add: v4mapped_def v4mapped2_def)
  qed
  show "ae \<in> {0, 1, 2, 3}" using y(1) by (auto simp: prefix_bytes_def Let_def split: if_splits)
qed

text \<open>The prefix lengths as the messages carry them, one byte each.\<close>

definition ae_plen :: "byte \<Rightarrow> byte \<Rightarrow> nat" where
  "ae_plen ae plen = unat (plen + (if ae = 1 then 96 else 0))"

lemma ae_plen_bounds:
  assumes "network_prefix (unat ae) (uint plen) omitted p dp len = Some (rc, x)" "\<forall>d. dp = Some d \<longrightarrow> length d = 16"
  shows "ae_plen ae plen \<le> 128" "ae = 1 \<Longrightarrow> 96 \<le> ae_plen ae plen"
proof -
  note t = network_prefix_typed [OF assms]
  have ae: "unat ae = 1" if "ae = 1" using that by simp
  have n: "int (unat plen) \<le> 128" "ae = 1 \<Longrightarrow> int (unat plen) \<le> 32" using t(2) t(3) [OF ae] by simp_all
  have small: "unat plen \<le> 32" if "ae = 1" using n(2) [OF that] by linarith
  have wrap: "unat (plen + 96) = unat plen + 96" if "ae = 1"
    using small [OF that] by (subst unat_plus_if_size) (simp add: word_size)
  show "96 \<le> ae_plen ae plen" if "ae = 1" using wrap [OF that] that by (simp add: ae_plen_def)
  show "ae_plen ae plen \<le> 128"
  proof (cases "ae = 1")
    case True
    then show ?thesis using small wrap by (simp add: ae_plen_def)
  next
    case False
    have "unat plen \<le> 128" using n(1) by linarith
    with False show ?thesis by (simp add: ae_plen_def)
  qed
qed

text \<open>An address cut to fewer than 96 bits is no IPv4 one.\<close>

lemma short_not_v4: "length y = 16 \<Longrightarrow> n < 96 \<Longrightarrow> \<not> v4mapped (normalize_prefix y n)"
proof
  let ?x = "normalize_prefix y n"
  assume y: "length y = 16" "n < 96" and v: "v4mapped ?x"
  have lx: "length ?x = 16" by (rule length_normalize_prefix [OF y(1)])
  then have "take 12 ?x = take 12 v4prefix" using v by (simp add: v4mapped_def v4mapped2_def)
  then have "take 12 ?x ! 11 = take 12 v4prefix ! 11" by simp
  then have "?x ! 11 = 0xFF" using lx by (simp add: v4prefix_def)
  then have "addr_bit ?x 95" by (simp add: addr_bit_def)
  then show False using bit_normalize_prefix [OF y(1), of 95 n] y(2) by simp
qed

lemma network_prefix_short:
  assumes "network_prefix (unat ae) (uint plen) omitted p dp len = Some (rc, x)" "\<forall>d. dp = Some d \<longrightarrow> length d = 16"
    and "ae_plen ae plen < 96"
  shows "\<not> v4mapped x"
proof -
  have ae: "ae \<noteq> 1" using ae_plen_bounds(2) [OF assms(1,2)] assms(3) by fastforce
  then have n: "unat ae \<noteq> 1" "ae_plen ae plen = unat plen" by (simp_all add: ae_plen_def word_unat_eq_iff)
  obtain ret y where y: "prefix_bytes (unat ae) (nat ((uint plen + 7) div 8)) omitted p dp len = Some (ret, y)"
    "nat ((uint plen + 7) div 8) \<le> 16" "x = normalize_prefix y (unat plen)"
    using assms(1) n unfolding network_prefix_def Let_def
    by (auto simp: not_less split: if_split_asm option.splits)
  then show ?thesis using short_not_v4 prefix_bytes_length [OF y(1,2) assms(2)] assms(3) n(2) by simp
qed

section \<open>Actions\<close>

definition pair_typed :: "byte list \<Rightarrow> nat \<Rightarrow> byte list \<Rightarrow> nat \<Rightarrow> bool" where
  "pair_typed prefix plen src_prefix src_plen \<longleftrightarrow>
     length prefix = 16 \<and> length src_prefix = 16 \<and> plen \<le> 128 \<and> src_plen \<le> 128 \<and>
     (src_plen < 96 \<longrightarrow> \<not> v4mapped src_prefix)"

definition action_typed :: "action \<Rightarrow> bool" where
  "action_typed a \<longleftrightarrow>
     (case a of
        Act_update rid prefix plen src_prefix src_plen seqno metric interval nh channels \<Rightarrow>
          length rid = 8 \<and> pair_typed prefix plen src_prefix src_plen \<and> (\<forall>h. nh = Some h \<longrightarrow> length h = 16)
      | Act_request prefix plen src_prefix src_plen \<Rightarrow> pair_typed prefix plen src_prefix src_plen
      | Act_mh_request prefix plen src_prefix src_plen hop_count seqno rid \<Rightarrow>
          pair_typed prefix plen src_prefix src_plen \<and> length rid = 8
      | _ \<Rightarrow> True)"

definition parse_typed :: "parse_state \<Rightarrow> bool" where
  "parse_typed s \<longleftrightarrow>
     (\<forall>r. ps_router_id s = Some r \<longrightarrow> length r = 8) \<and>
     (\<forall>x. ps_v4_prefix s = Some x \<or> ps_v6_prefix s = Some x \<or> ps_v4_nh s = Some x \<or> ps_v6_nh s = Some x \<longrightarrow>
        length x = 16)"

lemma parse_init_typed: "parse_typed parse_init"
  by (simp add: parse_typed_def parse_init_def)

lemma zeroes_not_v4: "\<not> v4mapped zeroes"
proof
  assume "v4mapped zeroes"
  then have "take 12 zeroes ! 11 = take 12 v4prefix ! 11" by (simp add: v4mapped_def v4mapped2_def)
  then show False by (simp add: zeroes_def v4prefix_def)
qed

lemma pair_typed_zeroes:
  assumes "network_prefix (unat ae) (uint plen) omitted p dp len = Some (rc, x)" "\<forall>d. dp = Some d \<longrightarrow> length d = 16"
  shows "pair_typed x (ae_plen ae plen) zeroes 0"
  using network_prefix_typed [OF assms] ae_plen_bounds [OF assms]
  by (simp add: pair_typed_def zeroes_not_v4)

lemma pair_typed_both:
  assumes "network_prefix (unat ae) (uint plen) omitted p dp len = Some (rc, x)" "\<forall>d. dp = Some d \<longrightarrow> length d = 16"
    and "network_prefix (unat ae) (uint src_plen) 0 q None len' = Some (rc', y)"
  shows "pair_typed x (ae_plen ae plen) y (ae_plen ae src_plen)"
  using network_prefix_typed [OF assms(1,2)] ae_plen_bounds [OF assms(1,2)] network_prefix_typed [OF assms(3)]
    ae_plen_bounds [OF assms(3)] network_prefix_short [OF assms(3)]
  by (simp add: pair_typed_def)

lemma update_prefix_typed:
  assumes "update_prefix ae plen om m len s = Some (rc, x)" "parse_typed s"
  obtains dp where "network_prefix (unat ae) (uint plen) (unat om) (shift 12 m) dp (len - 10) = Some (rc, x)"
    "\<forall>d. dp = Some d \<longrightarrow> length d = 16"
proof -
  let ?dp = "if ae = 1 then ps_v4_prefix s else ps_v6_prefix s"
  have "network_prefix (unat ae) (uint plen) (unat om) (shift 12 m) ?dp (len - 10) = Some (rc, x)"
    using assms(1) unfolding update_prefix_def Let_def by (auto split: if_split_asm)
  moreover have "\<forall>d. ?dp = Some d \<longrightarrow> length d = 16" using assms(2) by (auto simp: parse_typed_def)
  ultimately show thesis by (rule that)
qed

lemma update_flags_typed: "length x = 16 \<Longrightarrow> parse_typed s \<Longrightarrow> parse_typed (update_flags flags ae x s)"
  by (auto simp: update_flags_def Let_def parse_typed_def)

lemma drop_prefixes_typed: "parse_typed s \<Longrightarrow> parse_typed (drop_prefixes flags s)"
  by (simp add: drop_prefixes_def parse_typed_def)

lemma update_action_typed:
  assumes "pair_typed prefix plen src_prefix src_plen" "parse_typed s"
  shows "action_typed (update_action ifp stale m len parsed prefix plen src_prefix src_plen s)"
  using assms by (auto simp: update_action_def action_typed_def Let_def parse_typed_def split: option.split)

section \<open>One TLV\<close>

lemma decode_update_typed:
  assumes "decode_update ifp stale m len s = (a, s')" "parse_typed s"
  shows "action_typed a \<and> parse_typed s'"
proof (cases "len < 10 \<or> update_prefix (m 2) (m 4) (m 5) m len s = None")
  case True
  then show ?thesis using assms by (auto simp: decode_update_def action_typed_def drop_prefixes_typed split: if_splits)
next
  case False
  then obtain rc x where x: "update_prefix (m 2) (m 4) (m 5) m len s = Some (rc, x)" by auto
  obtain dp where p: "network_prefix (unat (m 2)) (uint (m 4)) (unat (m 5)) (shift 12 m) dp (len - 10) = Some (rc, x)"
    "\<forall>d. dp = Some d \<longrightarrow> length d = 16" by (rule update_prefix_typed [OF x assms(2)])
  have l: "length x = 16" by (rule network_prefix_typed(1) [OF p])
  note z = pair_typed_zeroes [OF p, unfolded ae_plen_def]
  note t = update_flags_typed [OF l assms(2)]
  show ?thesis
    using assms(1) False update_action_typed [OF z t] t unfolding decode_update_def x option.case prod.case Let_def
    by (auto simp: action_typed_def split: if_splits)
qed

lemma decode_specific_update_typed:
  assumes "parse_typed s"
  shows "action_typed (decode_specific_update ifp stale m len s)"
proof (cases "len < 10 \<or> update_prefix (m 2) (m 4) (m 5) m len s = None")
  case True
  then show ?thesis by (auto simp: decode_specific_update_def action_typed_def)
next
  case False
  then obtain rc x where x: "update_prefix (m 2) (m 4) (m 5) m len s = Some (rc, x)" by auto
  obtain dp where p: "network_prefix (unat (m 2)) (uint (m 4)) (unat (m 5)) (shift 12 m) dp (len - 10) = Some (rc, x)"
    "\<forall>d. dp = Some d \<longrightarrow> length d = 16" by (rule update_prefix_typed [OF x assms])
  show ?thesis
  proof (cases "network_prefix (unat (m 2)) (uint (m 3)) 0 (shift (2 + (10 + rc)) m) None (len - (10 + rc))")
    case None
    then show ?thesis using False unfolding decode_specific_update_def x option.case prod.case Let_def
      by (simp add: action_typed_def)
  next
    case (Some y)
    obtain rc' sp where y: "y = (rc', sp)" by fastforce
    note b = pair_typed_both [OF p Some [unfolded y], unfolded ae_plen_def]
    show ?thesis
      using False update_action_typed [OF b assms]
      unfolding decode_specific_update_def x option.case prod.case Let_def Some y
      by (simp add: action_typed_def)
  qed
qed

lemma decode_requests_typed:
  "action_typed (decode_request m len)" "action_typed (decode_mh_request m len)"
  "action_typed (decode_specific_request m len)" "action_typed (decode_specific_mh_request m len)"
proof -
  have z: "pair_typed x (unat (plen + (if ae = 1 then 96 else 0))) zeroes 0"
    if "network_prefix (unat ae) (uint plen) 0 p None n = Some (rc, x)" for ae plen :: byte and p n rc x
    using pair_typed_zeroes [OF that] by (simp add: ae_plen_def)
  have b: "pair_typed x (unat (plen + (if ae = 1 then 96 else 0))) y (unat (src_plen + (if ae = 1 then 96 else 0)))"
    if "network_prefix (unat ae) (uint plen) 0 p None n = Some (rc, x)"
      "network_prefix (unat ae) (uint src_plen) 0 q None n' = Some (rc', y)" for ae plen :: byte and p n rc x and src_plen :: byte and q n' rc' y
    using pair_typed_both [OF that(1) _ that(2)] by (simp add: ae_plen_def)
  have r: "pair_typed x k y j" if "request_prefixes ae plen src_plen m len parsed = Some (x, k, y, j)"
    for ae plen src_plen parsed x k y j
    using that b by (auto simp: request_prefixes_def Let_def split: option.splits)
  show "action_typed (decode_request m len)"
  proof (cases "network_prefix (unat (m 2)) (uint (m 3)) 0 (shift 4 m) None (len - 2)")
    case (Some y)
    obtain rc x where y: "y = (rc, x)" by fastforce
    show ?thesis
      using z [OF Some [unfolded y]] unfolding decode_request_def Some y option.case prod.case
      by (simp add: action_typed_def)
  qed (simp add: decode_request_def action_typed_def)
  show "action_typed (decode_mh_request m len)"
  proof (cases "network_prefix (unat (m 2)) (uint (m 3)) 0 (shift 16 m) None (len - 14)")
    case (Some y)
    obtain rc x where y: "y = (rc, x)" by fastforce
    show ?thesis
      using z [OF Some [unfolded y]] unfolding decode_mh_request_def Some y option.case prod.case
      by (simp add: action_typed_def)
  qed (simp add: decode_mh_request_def action_typed_def)
  show "action_typed (decode_specific_request m len)"
    using r unfolding decode_specific_request_def by (auto simp: action_typed_def split: option.split)
  show "action_typed (decode_specific_mh_request m len)"
    using r unfolding decode_specific_mh_request_def by (auto simp: action_typed_def split: option.split)
qed

lemma network_address_length: "network_address ae a len = Some (rc, x) \<Longrightarrow> length x = 16"
  using network_prefix_typed(1) [of ae "-1" 0 a None len rc x] by (simp add: network_address_def)

lemma decode_nh_typed: "parse_typed s \<Longrightarrow> parse_typed (decode_nh m len s)"
  unfolding decode_nh_def by (auto simp: parse_typed_def split: option.split dest: network_address_length)

lemma decode_ihu_typed: "parse_typed s \<Longrightarrow> decode_ihu ifp m len s = (a, s') \<Longrightarrow> action_typed a \<and> parse_typed s'"
  by (auto simp: decode_ihu_def action_typed_def parse_typed_def split: if_splits option.splits prod.splits)

lemma decode_typed:
  assumes "decode ifp stale m len s = (a, s')" "parse_typed s"
  shows "action_typed a \<and> parse_typed s'"
proof -
  have n: "action_typed Act_nothing" "action_typed (Act_ack x y)" "action_typed (Act_hello x y z)" for x y z
    by (simp_all add: action_typed_def)
  have r: "parse_typed (s\<lparr>ps_router_id := (if len < 10 then None else Some (bytes_at m 4 8))\<rparr>)"
    "parse_typed (s\<lparr>ps_hello_rtt := v\<rparr>)" for v
    using assms(2) by (simp_all add: parse_typed_def)
  show ?thesis
    using assms(1) n r assms(2) decode_update_typed [of ifp stale m len s a s'] decode_ihu_typed [of s ifp m len a s']
      decode_nh_typed [of s m len] decode_specific_update_typed [of s ifp stale m len] decode_requests_typed [of m len]
    unfolding decode_def Let_def by (auto split: if_splits)
qed

end
