(* ===== verification/Receive_Safe.thy ===== *)
theory Receive_Safe
  imports Receive_Types Neighbour_Claims
begin

text \<open>
  What received messages do keeps the invariant of the daemon, provided they are admissible:
  the source table takes the entry of an update, and a request for a route with a source prefix
  does not mix an IPv4 destination with a short source prefix (the code would send an update
  with a negative length for it).
\<close>

section \<open>Requests\<close>

lemma routing_update_myseqno [routed]:
  "holds (routing R W E) b \<Longrightarrow> holds (routing R W E) (update_myseqno b)"
  by (rule routing_nbrs)
    (auto simp: update_myseqno_def steady_def dest: routing_address routingD(9) routing_linked)

lemma routing_record_resend:
  assumes "holds (routing R W E) b" "dest_ok prefix plen src_prefix src_plen" "\<And>i. rid = Some i \<Longrightarrow> length i = 8"
  shows "holds (routing R W E) (g_record_resend k prefix plen src_prefix src_plen seqno rid ifp delay b)"
  by (rule routing_shape [OF _ ready_basic(7) assms(1)]) (use assms in \<open>auto simp: shaped\<close>)

lemma routing_request_successor:
  assumes "holds (routing R W E) b"
  shows "returns (\<lambda>_. routing R W E) (request_successor nb prefix plen src_prefix src_plen rt b)"
proof -
  obtain x c where x: "find_best_route prefix plen src_prefix src_plen False (Some nb) b = (x, c)" by fastforce
  have "holds (routing R W E) c" 
    using routing_best [OF assms, of prefix plen src_prefix src_plen False "Some nb"] by (simp add: x returns_def holds_def)
  then show ?thesis unfolding request_successor_def Let_def x prod.case by (intro returns_if inv_returns_pair assms)
qed

lemma routing_handle_request:
  assumes b: "holds (routing R W E) b" and d: "dest_ok prefix plen src_prefix src_plen" "length rid = 8"
  shows "holds (routing R W E) (handle_request nb prefix plen src_prefix src_plen hop_count seqno rid b)"
proof -
  have o: "holds (routing R W E) (answer_own_request nb prefix plen src_prefix src_plen hop_count seqno rid b)"
    unfolding answer_own_request_def by (intro inv_rules routed b d)
  have f: "holds (routing R W E) (forward_request nb prefix plen src_prefix src_plen hop_count seqno rid rt b)" for rt
  proof -
    obtain x c where x: "request_successor nb prefix plen src_prefix src_plen rt b = (x, c)" by fastforce
    have "holds (routing R W E) c" using routing_request_successor [OF b] x by (metis holds_def returnsD)
    then show ?thesis
      unfolding forward_request_def x prod.case Let_def
      by (cases x) (auto simp: b d intro!: routing_record_resend routed)
  qed
  show ?thesis unfolding handle_request_def by (intro inv_rules o f b routed d)
qed

lemma routing_wildcard:
  assumes "holds (routing R W E) b"
  shows "holds (routing R W E) (handle_wildcard_request nb specific b)"
proof -
  have u: "holds (routing R W E) (send_update (Some ifp) False (if specific then Some zeroes else None) 0
      (if specific then None else Some zeroes) 0 c)" if "holds (routing R W E) c" for ifp c
    using routing_messages(7,8) [OF that] by (cases specific) simp_all
  show ?thesis
    unfolding handle_wildcard_request_def let_values Let_def [where 'a = ptr] by (intro inv_rules u routing_messages assms)
qed

section \<open>Hellos, IHUs and round-trip times\<close>

lemma spent_step:
  assumes "holds (spent R W E) b" "holds (routing R W E) b \<Longrightarrow> holds (routing R W E) (f b)" "fault (f b) = fault b"
  shows "holds (spent R W E) (f b)"
  using assms by (auto simp: holds_def spent_def)

lemma spent_schedule: "holds (spent R W E) b \<Longrightarrow> holds (spent R W E) (schedule_neighbours_check msecs override b)"
proof (erule spent_step [where f = "schedule_neighbours_check msecs override"])
  show "fault (schedule_neighbours_check msecs override b) = fault b"
    by (simp add: schedule_neighbours_check_def c_roughly_def c_random_def ask_def split_beta Let_def)
qed (rule routing_check_timer)

lemma spent_upd_neigh:
  "holds (spent R W E) b \<Longrightarrow> mild (neigh b nb) (f (neigh b nb)) \<Longrightarrow> holds (spent R W E) (upd_neigh nb f b)"
  by (rule spent_step) (auto intro: routing_upd_neigh)

lemma spent_hello:
  assumes "holds (routing R W E) b"
  shows "holds (spent R W E) (handle_hello nb seqno interval ts b)"
proof -
  obtain changed c where c: "update_neighbour nb (Some seqno) (uint interval) b = (changed, c)" by fastforce
  have "holds (routing R W E) c" using routing_update_neighbour [OF assms] c by (metis holds_def returnsD)
  then have m: "holds (spent R W E) (update_neighbour_metric nb changed c)" by (rule spent_update_neighbour_metric)
  have s: "holds (spent R W E) (if q then schedule_neighbours_check msecs False d else d)" if "holds (spent R W E) d" for q msecs d
    using that spent_schedule by simp
  show ?thesis unfolding handle_hello_def c prod.case
    by (rule holds_let [OF m], rule holds_let, erule s) (intro holds_case_option spent_upd_neigh mild_fields)
qed

lemma spent_ihu:
  assumes "holds (routing R W E) b"
  shows "holds (spent R W E) (handle_ihu nb txcost interval b)"
proof -
  have "uint txcost \<le> INFINITY_METRIC" using uint_lt2p [of txcost] by (simp add: INFINITY_METRIC_def)
  then have u: "holds (routing R W E) (upd_neigh nb (\<lambda>n. n\<lparr>n_txcost := uint txcost, n_ihu_time := now b, n_ihu_interval := uint interval\<rparr>) b)"
    by (intro routing_upd_neigh assms mild_fields) simp_all
  show ?thesis
    unfolding handle_ihu_def let_values
    by (rule holds_let [OF u], rule holds_let, erule spent_update_neighbour_metric) (intro holds_if spent_schedule)
qed

lemma smoothed_rtt_nonneg: "0 \<le> smoothed_rtt valid decay old sample"
  by (simp add: smoothed_rtt_def Let_def pos_imp_zdiv_nonneg_iff)

lemma spent_rtt:
  assumes "holds (routing R W E) b"
  shows "holds (spent R W E) (process_rtt nb ifp us rt_us b)"
proof -
  have rc: "\<exists>x. neighbour_rttcost nb c = (x, c)" if "holds (routing R W E) c" for c
    using rttcost_bounds(3) [OF routingD(10) [OF that], of nb] by (metis prod.collapse)
  obtain old where old: "neighbour_rttcost nb b = (old, b)" using rc [OF assms] by blast
  have last: "holds (spent R W E) (case neighbour_rttcost nb c of (cost, b) \<Rightarrow>
      let b = update_neighbour_metric nb (cost \<noteq> old) b in upd_neigh nb (\<lambda>n. n\<lparr>n_rtt_time := now b\<rparr>) b)"
    if c: "holds (routing R W E) c" for c
  proof -
    obtain cost where cost: "neighbour_rttcost nb c = (cost, c)" using rc [OF c] by blast
    show ?thesis unfolding cost prod.case
      by (rule holds_let, rule spent_update_neighbour_metric [OF c]) (intro spent_upd_neigh mild_fields)
  qed
  have u: "holds (routing R W E) (upd_neigh nb (\<lambda>n. n\<lparr>n_rtt := smoothed_rtt valid decay (n_rtt n) rtt\<rparr>) b)" for valid decay rtt
    by (intro routing_upd_neigh assms mild_fields smoothed_rtt_nonneg)
  show ?thesis
    unfolding process_rtt_def let_values Let_def [where 'a = neighbour] old prod.case
    by (intro holds_if spentI [OF assms], rule holds_let [OF u], rule last)
qed

end
