(* ===== verification/Message_Bounds.thy ===== *)
theory Message_Bounds
  imports Receive A_Router
begin

text \<open>
  How much of a packet \<open>parse_packet\<close> looks at.  The checks of the lengths of TLVs and sub-TLVs
  leave out their headers, so that a few bytes behind the packet may be read; no more than
  four, whatever the packet holds.
\<close>

section \<open>Memories that agree\<close>

definition agree :: "nat \<Rightarrow> memory \<Rightarrow> memory \<Rightarrow> bool" where
  "agree n m m' \<longleftrightarrow> (\<forall>i < n. m i = m' i)"

lemma agree_le: "agree n m m' \<Longrightarrow> k \<le> n \<Longrightarrow> agree k m m'"
  by (simp add: agree_def)

lemma agree_shift: "agree (k + n) m m' \<Longrightarrow> agree n (shift k m) (shift k m')"
  by (simp add: agree_def shift_def)

lemma agree_nth: "agree n m m' \<Longrightarrow> i < n \<Longrightarrow> m i = m' i"
  by (simp add: agree_def)

lemma agree_bytes: "agree n m m' \<Longrightarrow> k + j \<le> n \<Longrightarrow> bytes_at m k j = bytes_at m' k j"
  by (auto simp: agree_def bytes_at_def)

lemma agree_ntohs: "agree n m m' \<Longrightarrow> k + 2 \<le> n \<Longrightarrow> ntohs m k = ntohs m' k"
  by (simp add: agree_def ntohs_def)

lemma agree_ntohl: "agree n m m' \<Longrightarrow> k + 4 \<le> n \<Longrightarrow> ntohl m k = ntohl m' k"
  by (simp add: agree_def ntohl_def)

section \<open>Prefixes\<close>

lemma prefix_bytes_agree:
  assumes "agree len p p'"
  shows "prefix_bytes ae pb omitted p dp len = prefix_bytes ae pb omitted p' dp len"
proof -
  have r: "(pb > omitted \<and> len < pb - omitted) \<or> bytes_at p 0 (pb - omitted) = bytes_at p' 0 (pb - omitted)"
    using agree_bytes [OF assms, of 0 "pb - omitted"] by (cases "pb - omitted \<le> len") (simp, arith)
  have ll: "(pb > 8 \<and> len < pb - 8) \<or> bytes_at p 0 (pb - 8) = bytes_at p' 0 (pb - 8)"
    using agree_bytes [OF assms, of 0 "pb - 8"] by (cases "pb - 8 \<le> len") (simp, arith)
  show ?thesis
  proof (cases "ae = 3")
    case True
    then show ?thesis using ll by (auto simp: prefix_bytes_def)
  next
    case False
    from r show ?thesis
    proof
      assume "pb > omitted \<and> len < pb - omitted"
      then have c: "(omitted > 4 \<or> pb > 4 \<or> (pb > omitted \<and> len < pb - omitted)) = True"
        "(omitted > 16 \<or> (pb > omitted \<and> len < pb - omitted)) = True" by simp_all
      show ?thesis unfolding prefix_bytes_def Let_def c if_True if_not_P [OF False] by (rule refl)
    next
      assume e: "bytes_at p 0 (pb - omitted) = bytes_at p' 0 (pb - omitted)"
      show ?thesis unfolding prefix_bytes_def Let_def e if_not_P [OF False] by (rule refl)
    qed
  qed
qed

lemma network_prefix_agree:
  "agree len p p' \<Longrightarrow> network_prefix ae plen omitted p dp len = network_prefix ae plen omitted p' dp len"
  unfolding network_prefix_def Let_def by (simp only: prefix_bytes_agree)

lemma prefix_bytes_consumed: "prefix_bytes ae pb omitted p dp len = Some (ret, x) \<Longrightarrow> ret \<le> int len"
  by (auto simp: prefix_bytes_def Let_def split: if_splits option.splits)

lemma network_prefix_consumed:
  "network_prefix ae plen omitted p dp len = Some (rc, prefix) \<Longrightarrow> rc \<le> len"
  using prefix_bytes_consumed by (fastforce simp: network_prefix_def Let_def split: if_splits option.splits)

section \<open>Sub-TLVs\<close>

lemma hello_subtlvs_agree:
  "agree (alen + 2) a a' \<Longrightarrow> hello_subtlvs a alen i found = hello_subtlvs a' alen i found"
proof (induction a alen i found rule: hello_subtlvs.induct)
  case (1 a alen i found)
  show ?case
  proof (cases "i < alen")
    case True
    then have e: "a 0 = a' 0" "a (i + 1) = a' (i + 1)" using "1.prems" by (simp_all add: agree_def)
    have t: "ntohl a (i + 2) = ntohl a' (i + 2)" if "i + unat (a' (i + 1)) \<le> alen" "4 \<le> unat (a' (i + 1))"
      using that by (intro agree_ntohl [OF "1.prems"]) simp
    show ?thesis
      by (subst (1 2) hello_subtlvs.simps) (use True "1.IH" "1.prems" t e in \<open>simp add: Let_def\<close>)
  qed (simp add: hello_subtlvs.simps)
qed

lemma ihu_subtlvs_agree:
  "agree (alen + 2) a a' \<Longrightarrow> parse_ihu_subtlvs a alen i found = parse_ihu_subtlvs a' alen i found"
proof (induction a alen i found rule: parse_ihu_subtlvs.induct)
  case (1 a alen i found)
  show ?case
  proof (cases "i < alen")
    case True
    then have e: "a 0 = a' 0" "a (i + 1) = a' (i + 1)" using "1.prems" by (simp_all add: agree_def)
    have t: "ntohl a (i + 2) = ntohl a' (i + 2)" "ntohl a (i + 6) = ntohl a' (i + 6)"
      if "i + unat (a' (i + 1)) \<le> alen" "8 \<le> unat (a' (i + 1))"
      using that by (auto intro!: agree_ntohl [OF "1.prems"])
    show ?thesis
      by (subst (1 2) parse_ihu_subtlvs.simps) (use True "1.IH" "1.prems" t e in \<open>simp add: Let_def\<close>)
  qed (simp add: parse_ihu_subtlvs.simps)
qed

lemma update_subtlvs_agree:
  "agree (alen + 2) a a' \<Longrightarrow> update_subtlvs a alen i cap found = update_subtlvs a' alen i cap found"
proof (induction a alen i cap found rule: update_subtlvs.induct)
  case (1 a alen i cap found)
  show ?case
  proof (cases "i < alen")
    case True
    then have e: "a i = a' i" "a (i + 1) = a' (i + 1)" using "1.prems" by (simp_all add: agree_def)
    have t: "bytes_at a (i + 2) (min (unat (a' (i + 1))) cap) = bytes_at a' (i + 2) (min (unat (a' (i + 1))) cap)"
      if "i + unat (a' (i + 1)) \<le> alen"
      using that by (intro agree_bytes [OF "1.prems"]) simp
    show ?thesis
      by (subst (1 2) update_subtlvs.simps) (use True "1.IH" "1.prems" t e in \<open>simp add: Let_def\<close>)
  qed (simp add: update_subtlvs.simps)
qed

lemma update_subtlv_agree:
  "agree (alen + 2) a a' \<Longrightarrow> parse_update_subtlv ifp metric a alen stale = parse_update_subtlv ifp metric a' alen stale"
  unfolding parse_update_subtlv_def Let_def using update_subtlvs_agree by simp

section \<open>TLVs\<close>

lemma network_address_agree: "agree len p p' \<Longrightarrow> network_address ae p len = network_address ae p' len"
  unfolding network_address_def by (rule network_prefix_agree)

lemma decode_ihu_agree:
  assumes a: "agree (len + 4) m m'" and "6 \<le> len"
  shows "decode_ihu ifp m len s = decode_ihu ifp m' len s"
proof -
  have e: "m 2 = m' 2" "ntohs m 4 = ntohs m' 4" "ntohs m 6 = ntohs m' 6"
    using a assms(2) agree_ntohs [OF a] by (simp_all add: agree_def)
  have n: "network_address (unat (m' 2)) (shift 8 m) (len - 6) = network_address (unat (m' 2)) (shift 8 m') (len - 6)"
    using a assms(2) by (intro network_address_agree agree_shift agree_le [OF a]) simp
  have t: "parse_ihu_subtlvs (shift (8 + rc) m) (len - 6 - rc) 0 x = parse_ihu_subtlvs (shift (8 + rc) m') (len - 6 - rc) 0 x"
    if "network_address (unat (m' 2)) (shift 8 m') (len - 6) = Some (rc, address)" for rc address x
    using that network_prefix_consumed [of _ _ _ _ _ "len - 6" rc] assms(2)
    by (intro ihu_subtlvs_agree agree_shift agree_le [OF a]) (fastforce simp: network_address_def)
  show ?thesis
    using t unfolding decode_ihu_def e n by (auto split: option.split)
qed

lemma decode_nh_agree:
  assumes a: "agree (len + 4) m m'" and "2 \<le> len"
  shows "decode_nh m len s = decode_nh m' len s"
proof -
  have e: "m 2 = m' 2" using a assms(2) by (simp add: agree_def)
  have n: "network_address ae (shift 4 m) (len - 2) = network_address ae (shift 4 m') (len - 2)" for ae
    using assms(2) by (intro network_address_agree agree_shift agree_le [OF a]) simp
  show ?thesis unfolding decode_nh_def e n by (rule refl)
qed

lemma update_prefix_agree:
  "agree (len + 4) m m' \<Longrightarrow> 10 \<le> len \<Longrightarrow> update_prefix ae plen om m len s = update_prefix ae plen om m' len s"
  unfolding update_prefix_def Let_def
  by (intro if_cong refl network_prefix_agree agree_shift) (erule agree_le, simp)

lemma update_prefix_consumed:
  "update_prefix ae plen om m len s = Some (rc, prefix) \<Longrightarrow> rc \<le> len - 10"
  unfolding update_prefix_def Let_def by (auto split: if_splits dest: network_prefix_consumed)

lemma update_action_agree:
  assumes a: "agree (len + 4) m m'" and "10 \<le> len" "parsed \<le> len"
  shows "update_action ifp stale m len parsed prefix plen src_prefix src_plen s =
    update_action ifp stale m' len parsed prefix plen src_prefix src_plen s"
proof -
  have e: "m 2 = m' 2" "ntohs m 8 = ntohs m' 8" "ntohs m 10 = ntohs m' 10" "ntohs m 6 = ntohs m' 6"
    using a assms(2) agree_ntohs [OF a] by (simp_all add: agree_def)
  have t: "parse_update_subtlv ifp metric (shift (2 + parsed) m) (len - parsed) stale =
      parse_update_subtlv ifp metric (shift (2 + parsed) m') (len - parsed) stale" for metric
    using assms(3) by (intro update_subtlv_agree agree_shift agree_le [OF a]) simp
  show ?thesis unfolding update_action_def e t by (rule refl)
qed

lemma decode_update_agree:
  assumes a: "agree (len + 4) m m'"
  shows "decode_update ifp stale m len s = decode_update ifp stale m' len s"
proof (cases "len < 10")
  case True
  have "m 3 = m' 3" using a by (simp add: agree_def)
  then show ?thesis using True by (simp add: decode_update_def)
next
  case False
  then have l: "10 \<le> len" by simp
  have e: "m 2 = m' 2" "m 3 = m' 3" "m 4 = m' 4" "m 5 = m' 5" "ntohs m 10 = ntohs m' 10"
    using a l agree_ntohs [OF a] by (simp_all add: agree_def)
  note p = update_prefix_agree [OF a l]
  have u: "update_action ifp stale m len (10 + rc) prefix plen zeroes 0 t = update_action ifp stale m' len (10 + rc) prefix plen zeroes 0 t"
    if "update_prefix (m' 2) (m' 4) (m' 5) m' len s = Some (rc, prefix)" for rc prefix plen t
    using update_prefix_consumed [OF that] l by (intro update_action_agree [OF a l]) simp
  show ?thesis
    using False u unfolding decode_update_def e p by (auto simp: Let_def split: option.split)
qed

lemma decode_specific_update_agree:
  assumes a: "agree (len + 4) m m'"
  shows "decode_specific_update ifp stale m len s = decode_specific_update ifp stale m' len s"
proof (cases "len < 10")
  case True
  then show ?thesis by (simp add: decode_specific_update_def)
next
  case False
  then have l: "10 \<le> len" by simp
  have e: "m 2 = m' 2" "m 3 = m' 3" "m 4 = m' 4" "m 5 = m' 5" using a l by (simp_all add: agree_def)
  note p = update_prefix_agree [OF a l]
  have n: "network_prefix ae plen 0 (shift (2 + (10 + rc)) m) None (len - (10 + rc)) =
      network_prefix ae plen 0 (shift (2 + (10 + rc)) m') None (len - (10 + rc))"
    if "update_prefix (m' 2) (m' 4) (m' 5) m' len s = Some (rc, prefix)" for rc prefix ae plen
    using update_prefix_consumed [OF that] l by (intro network_prefix_agree agree_shift agree_le [OF a]) simp
  have u: "update_action ifp stale m len (10 + rc + rc') prefix plen sp spl t =
      update_action ifp stale m' len (10 + rc + rc') prefix plen sp spl t"
    if "update_prefix (m' 2) (m' 4) (m' 5) m' len s = Some (rc, prefix)"
      "network_prefix (unat (m' 2)) (uint (m' 3)) 0 (shift (2 + (10 + rc)) m') None (len - (10 + rc)) = Some (rc', sp)"
    for rc prefix plen rc' sp spl t
    using update_prefix_consumed [OF that(1)] network_prefix_consumed [OF that(2)] l
    by (intro update_action_agree [OF a l]) simp
  show ?thesis
  proof (cases "update_prefix (m' 2) (m' 4) (m' 5) m' len s")
    case None
    then show ?thesis unfolding decode_specific_update_def e p by simp
  next
    case (Some x)
    obtain rc prefix where x: "x = (rc, prefix)" by fastforce
    note n = n [OF Some [unfolded x]] and u = u [OF Some [unfolded x]]
    show ?thesis
      using False u unfolding decode_specific_update_def e p Some x option.case prod.case Let_def n
      by (auto split: option.split)
  qed
qed

lemma request_prefixes_agree:
  assumes a: "agree (len + 4) m m'" and "parsed \<le> len + 2"
  shows "request_prefixes ae plen src_plen m len parsed = request_prefixes ae plen src_plen m' len parsed"
proof -
  have n: "network_prefix ae plen 0 (shift k m) None (len + 2 - k) = network_prefix ae plen 0 (shift k m') None (len + 2 - k)"
    if "k \<le> len + 2" for k ae plen
    using that by (intro network_prefix_agree agree_shift agree_le [OF a]) simp
  have c: "parsed + rc \<le> len + 2" if "network_prefix (unat ae) (uint plen) 0 (shift parsed m') None (len + 2 - parsed) = Some (rc, x)"
    for rc x using network_prefix_consumed [OF that] assms(2) by simp
  show ?thesis
    unfolding request_prefixes_def Let_def n [OF assms(2)]
    by (rule option.case_cong [OF refl refl]) (use c n in \<open>auto split: option.split\<close>)
qed

lemma decode_requests_agree:
  assumes a: "agree (len + 4) m m'"
  shows "decode_request m len = decode_request m' len" "decode_mh_request m len = decode_mh_request m' len"
    "decode_specific_request m len = decode_specific_request m' len"
    "decode_specific_mh_request m len = decode_specific_mh_request m' len"
proof -
  have n: "network_prefix ae plen 0 (shift (2 + k) m) None (len - k) = network_prefix ae plen 0 (shift (2 + k) m') None (len - k)"
    if "k \<le> len" for k ae plen
    using that by (intro network_prefix_agree agree_shift agree_le [OF a]) simp
  have e: "m 2 = m' 2" "m 3 = m' 3" using a by (simp_all add: agree_def)
  have f: "m 4 = m' 4" if "\<not> len < 3" using a that by (simp add: agree_def)
  have g: "m 6 = m' 6" "m 7 = m' 7" "ntohs m 4 = ntohs m' 4" "bytes_at m 8 8 = bytes_at m' 8 8" if "\<not> len < 14"
    using a that agree_ntohs [OF a] agree_bytes [OF a] by (simp_all add: agree_def)
  show "decode_request m len = decode_request m' len"
    using n [of 2] unfolding decode_request_def e by (cases "len < 2") simp_all
  show "decode_mh_request m len = decode_mh_request m' len"
  proof (cases "len < 14")
    case False
    then show ?thesis using n [of 14] unfolding decode_mh_request_def e g [OF False] by simp
  qed (simp add: decode_mh_request_def)
  show "decode_specific_request m len = decode_specific_request m' len"
    using request_prefixes_agree [OF a, of 5] f unfolding decode_specific_request_def e by (cases "len < 3") simp_all
  show "decode_specific_mh_request m len = decode_specific_mh_request m' len"
  proof (cases "len < 14")
    case False
    then show ?thesis
      using request_prefixes_agree [OF a, of 16] unfolding decode_specific_mh_request_def e g [OF False] by simp
  qed (simp add: decode_specific_mh_request_def)
qed

lemma decode_agree:
  assumes a: "agree (len + 4) m m'"
  shows "decode ifp stale m len s = decode ifp stale m' len s"
proof -
  have z: "m 0 = m' 0" using a by (simp add: agree_def)
  have h: "ntohs m 4 = ntohs m' 4" "ntohs m 6 = ntohs m' 6" "bytes_at m 4 8 = bytes_at m' 4 8 \<or> len < 10" if "\<not> len < 6"
    using that agree_ntohs [OF a] agree_bytes [OF a, of 4 8] by auto
  have ts: "parse_hello_subtlv (shift 8 m) (len - 6) = parse_hello_subtlv (shift 8 m') (len - 6)" if "\<not> len < 6"
    using that hello_subtlvs_agree [of "len - 6" "shift 8 m" "shift 8 m'"] agree_shift [OF agree_le [OF a], of 8 "len - 6 + 2"]
    by (simp add: parse_hello_subtlv_def)
  have rid: "(if len < 10 then None else Some (bytes_at m 4 8)) = (if len < 10 then None else Some (bytes_at m' 4 8))"
    using h(3) by auto
  have ihu: "decode_ihu ifp m len s = decode_ihu ifp m' len s"
    using decode_ihu_agree [OF a, of ifp s] by (cases "len < 6") (simp_all add: decode_ihu_def)
  have nh: "decode_nh m len s = decode_nh m' len s"
    using decode_nh_agree [OF a, of s] by (cases "len < 2") (simp_all add: decode_nh_def)
  show ?thesis
  proof (cases "len < 6")
    case True
    then show ?thesis
      unfolding decode_def z Let_def rid ihu nh decode_update_agree [OF a] decode_specific_update_agree [OF a]
        decode_requests_agree [OF a] by simp
  next
    case False
    show ?thesis
      unfolding decode_def z Let_def rid ihu nh decode_update_agree [OF a] decode_specific_update_agree [OF a]
        decode_requests_agree [OF a] h(1,2) [OF False] ts [OF False] by (rule refl)
  qed
qed

section \<open>Packets\<close>

lemma parse_tlvs_agree:
  "agree (nat bodylen + 4) m m' \<Longrightarrow> parse_tlvs nb ifp m bodylen i s b = parse_tlvs nb ifp m' bodylen i s b"
proof (induction nb ifp m bodylen i s b rule: parse_tlvs.induct)
  case (1 nb ifp m bodylen i s b)
  show ?case
  proof (cases "int i < bodylen \<and> fault b = None")
    case False
    then show ?thesis by (subst (1 2) parse_tlvs.simps) auto
  next
    case True
    then have "i + 1 < nat bodylen + 4" by linarith
    then have e: "m i = m' i" "m (i + 1) = m' (i + 1)" using agree_nth [OF "1.prems"] by simp_all
    obtain stale c where sc: "stale_bytes (nat MAX_CHANNEL_HOPS) b = (stale, c)" by fastforce
    show ?thesis
    proof (cases "m i = 0 \<or> int (i + unat (m (i + 1))) > bodylen")
      case skip: True
      then show ?thesis using True "1.IH"(1) "1.prems" e by (subst (1 2) parse_tlvs.simps) auto
    next
      case False
      let ?len = "unat (m (i + 1))"
      have "agree (?len + 4) (shift i m) (shift i m')"
      proof -
        from False have "\<not> int (i + ?len) > bodylen" by blast
        then have "i + (?len + 4) \<le> nat bodylen + 4" by linarith
        then show ?thesis by (intro agree_shift agree_le [OF "1.prems"])
      qed
      then have d: "decode (iface c ifp) stale (shift i m) ?len s = decode (iface c ifp) stale (shift i m') ?len s"
        by (rule decode_agree)
      obtain a s' where a: "decode (iface c ifp) stale (shift i m) ?len s = (a, s')" by fastforce
      have "parse_tlvs nb ifp m bodylen (i + ?len + 2) s' (perform nb a c) =
          parse_tlvs nb ifp m' bodylen (i + ?len + 2) s' (perform nb a c)"
        using "1.IH"(2) [OF _ _ refl _ sc [symmetric] a [symmetric] "1.prems"] True False by auto
      then show ?thesis
        using True False sc a a [unfolded d] e by (subst (1 2) parse_tlvs.simps) (simp add: Let_def)
    qed
  qed
qed

text \<open>
  C20: (bounds) What \<open>parse_packet\<close> does depends on no byte beyond the fourth after the end of the
  packet, whatever the packet contains, and its lengths may claim.
\<close>

theorem parse_packet_bounded:
  assumes "0 \<le> packetlen" "\<forall>i < nat packetlen + 4. packet i = packet' i"
  shows "parse_packet sender ifp packet packetlen b = parse_packet sender ifp packet' packetlen b"
proof -
  have a: "agree (nat packetlen + 4) packet packet'" using assms(2) by (simp add: agree_def)
  then have e: "packet 0 = packet' 0" "packet 1 = packet' 1" "ntohs packet 2 = ntohs packet' 2"
    using agree_ntohs [OF a, of 2] by (simp_all add: agree_def)
  have t: "parse_tlvs nb ifp (shift 4 packet) n 0 s c = parse_tlvs nb ifp (shift 4 packet') n 0 s c"
    if "n \<le> packetlen - 4" for nb n s c
  proof (cases "n \<le> 0")
    case True
    then show ?thesis by (simp add: parse_tlvs.simps)
  next
    case False
    then show ?thesis using that by (intro parse_tlvs_agree agree_shift agree_le [OF a]) auto
  qed
  have l: "(if uint x + 4 > packetlen then packetlen - 4 else uint x) \<le> packetlen - 4" for x :: u16 by simp
  show ?thesis unfolding parse_packet_def Let_def e t [OF l] by (rule refl)
qed

text \<open>
  A hello of 11 bytes whose sub-TLV claims one byte more than there is; it passes the check, and
  the last byte of the timestamp is the one behind the TLV.
\<close>

definition a_hello :: "byte list" where
  "a_hello = [4, 11, 0, 0, 0, 7, 1, 0x90, 3, 4, 0, 0, 1]"

definition packet_of :: "byte list \<Rightarrow> byte \<Rightarrow> memory" where
  "packet_of xs behind = (\<lambda>i. if i < length xs then xs ! i else behind)"

theorem parse_packet_bounded_witness:
  "parse_packet (n_address the_neigh) 1 (packet_of ([42, 2, 0, 13] @ a_hello @ [7, 8, 9, 10]) 0) 17 routed_router =
   parse_packet (n_address the_neigh) 1 (packet_of ([42, 2, 0, 13] @ a_hello @ [7, 8, 9, 10]) 1) 17 routed_router"
  by (rule parse_packet_bounded) (simp_all add: packet_of_def a_hello_def)

lemma hello_reads_past_end:
  "fst (decode ifp [] (packet_of a_hello x) 11 s) = Act_hello 7 400 (Some (0x100 + ucast x))"
proof -
  have "hello_subtlvs (shift 8 (packet_of a_hello x)) 5 0 None = Some (Some (0x100 + ucast x))"
    by (simp add: hello_subtlvs.simps packet_of_def a_hello_def shift_def SUBTLV_TIMESTAMP_def ntohl_def Let_def)
  then show ?thesis
    by (simp add: decode_def parse_hello_subtlv_def packet_of_def a_hello_def types MESSAGE_ACK_REQ_def Let_def ntohs_def)
qed

end
