(* ===== verification/Receive_Claims.thy ===== *)
theory Receive_Claims
  imports Receive_Safe Message_Bounds
begin

text \<open>
  The claims about received packets: every TLV that is admissible keeps the invariant of the
  daemon, and so does a packet of such TLVs; the round-trip time; requests.
\<close>

section \<open>One TLV\<close>

definition admissible :: "action \<Rightarrow> babel \<Rightarrow> bool" where
  "admissible a b \<longleftrightarrow>
     (case a of
        Act_update rid prefix plen src_prefix src_plen seqno metric interval nh channels \<Rightarrow>
          source_fits rid prefix plen src_prefix src_plen b \<and> (\<forall>q. s_route_count (src b q) < 65535)
      | Act_request prefix plen src_prefix src_plen \<Rightarrow>
          update_is_v4 prefix plen \<longrightarrow> src_plen = 0 \<or> 96 \<le> src_plen
      | Act_mh_request prefix plen src_prefix src_plen hop_count seqno rid \<Rightarrow>
          update_is_v4 prefix plen \<longrightarrow> src_plen = 0 \<or> 96 \<le> src_plen
      | _ \<Rightarrow> True)"

lemma pair_dest_ok:
  "pair_typed prefix plen src_prefix src_plen \<Longrightarrow> (update_is_v4 prefix plen \<longrightarrow> src_plen = 0 \<or> 96 \<le> src_plen) \<Longrightarrow>
   dest_ok prefix plen src_prefix src_plen"
  by (simp add: pair_typed_def dest_ok_def)

text \<open>An update for an IPv4 prefix with a short source prefix is refused.\<close>

lemma mixed_refused:
  assumes "pair_typed prefix plen src_prefix src_plen" "update_is_v4 prefix plen" "src_plen \<noteq> 0" "src_plen < 96"
  shows "update_refused rid prefix plen src_prefix src_plen b"
  using assms by (simp add: pair_typed_def update_is_v4_def update_refused_def)

lemma refused_nothing:
  "update_refused rid prefix plen src_prefix src_plen b \<Longrightarrow>
   update_route rid prefix plen src_prefix src_plen seqno refmetric interval nb nexthop channels b = (None, b)"
  by (simp add: update_route_def Let_def)

lemma linked_myseqno: "holds (linked b0) b \<Longrightarrow> holds (linked b0) (update_myseqno b)"
  by (simp add: holds_def linked_def update_myseqno_def)

lemma linked_record: "holds (linked b0) b \<Longrightarrow> holds (linked b0) (g_record_resend k p pl s sl sq rid ifp d b)"
  by (rule linked_shape [OF shape_g_resend(1)])

lemma linked_timer: "holds (linked b0) b \<Longrightarrow> holds (linked b0) (schedule_neighbours_check msecs override b)"
  by (simp add: holds_def linked_def schedule_neighbours_check_def c_roughly_def c_random_def ask_def split_beta Let_def)

lemma linked_handle_request:
  assumes "holds (linked b0) b"
  shows "holds (linked b0) (handle_request nb prefix plen src_prefix src_plen hop_count seqno rid b)"
proof -
  have o: "holds (linked b0) (answer_own_request nb prefix plen src_prefix src_plen hop_count seqno rid b)"
    unfolding answer_own_request_def by (intro inv_rules links linked_myseqno assms)
  have f: "holds (linked b0) (forward_request nb prefix plen src_prefix src_plen hop_count seqno rid rt b)" for rt
  proof -
    obtain x c where x: "request_successor nb prefix plen src_prefix src_plen rt b = (x, c)" by fastforce
    have "returns (\<lambda>_. linked b0) (request_successor nb prefix plen src_prefix src_plen rt b)"
      unfolding request_successor_def Let_def by (intro inv_rules links assms)
    then have "holds (linked b0) c" using x by (simp add: returns_def holds_def)
    then show ?thesis
      unfolding forward_request_def x prod.case Let_def
      by (cases x) (simp_all add: assms linked_record links)
  qed
  show ?thesis unfolding handle_request_def by (intro inv_rules o f links assms)
qed

lemma touched_perform: "holds (touched nb b) (perform nb a b)"
proof -
  have h: "holds (touched nb b) (handle_hello nb seqno interval ts b)" for seqno interval ts
  proof -
    obtain changed c where c: "update_neighbour nb (Some seqno) (uint interval) b = (changed, c)" by fastforce
    have t: "holds (touched nb b) c"
      using touched_update_neighbour [of nb b "Some seqno" "uint interval"] c by (simp add: returns_def holds_def)
    have "holds (touched nb b) (if q then schedule_neighbours_check msecs False (update_neighbour_metric nb changed c)
        else update_neighbour_metric nb changed c)" for q msecs
      by (rule touched_linked [OF t]) (intro holds_if linked_timer links)
    then show ?thesis
      unfolding handle_hello_def c prod.case Let_def by (intro holds_case_option touched_upd_neigh) simp_all
  qed
  have i: "holds (touched nb b) (handle_ihu nb txcost interval b)" for txcost interval
  proof -
    have "holds (touched nb b) (upd_neigh nb (\<lambda>n. n\<lparr>n_txcost := uint txcost, n_ihu_time := now b, n_ihu_interval := uint interval\<rparr>) b)"
      by (rule touched_upd_neigh [OF touched_start]) simp_all
    then show ?thesis
      unfolding handle_ihu_def Let_def by (elim touched_linked) (intro holds_if linked_timer links)
  qed
  have w: "holds (linked b) (handle_wildcard_request nb specific b)" for specific
    unfolding handle_wildcard_request_def let_values Let_def [where 'a = ptr] by (intro inv_rules links linked_start)
  have l: "holds (touched nb b) c" if "holds (linked b) c" for c
    using touched_linked [OF touched_start] that by blast
  have u: "holds (linked b) (snd (update_route rid prefix plen src_prefix src_plen seqno metric interval nb nh channels b))"
    for rid prefix plen src_prefix src_plen seqno metric interval nh channels
    by (intro holds_snd links linked_start)
  have s: "holds (linked b) (send_update ifp urgent pre plen sp splen b)" "holds (linked b) (retract_neighbour_routes nb b)"
    "holds (linked b) (send_ack nb nonce k b)" "holds (linked b) (handle_request nb prefix plen src_prefix splen hops seqno rid b)"
    for ifp urgent pre plen sp splen nonce k prefix src_prefix hops seqno rid
    by (intro links linked_handle_request linked_start)+
  show ?thesis
    by (cases a) (simp_all add: perform_def h i w u s l touched_start)
qed

lemma perform_confined:
  assumes "daemon_ok b" "nb \<in> set (neighs (nbrs b))" "action_typed a" "admissible a b"
    and S: "route_ifps b \<subseteq> S" "n_ifp (neigh b nb) \<in> S"
  shows "confined S b (perform nb a b)"
proof -
  let ?R = "rib_routes (rib b)" and ?W = "who b" and ?E = "held_now b"
  have b: "holds (routing ?R ?W ?E) b" using assms(1) by (simp add: daemon_ok_routing)
  note m = routing_messages [OF b, THEN spentI] and s = routing_senders [OF b, THEN spentI]
  have touched: "touched nb b (perform nb a b)" by (rule holdsD [OF touched_perform])
  have "holds (spent ?R ?W ?E) (perform nb a b) \<or> daemon_ok (perform nb a b) \<and> route_ifps (perform nb a b) \<subseteq> S"
  proof (cases a)
    case (Act_update rid prefix plen src_prefix src_plen seqno metric interval nh channels)
    let ?nh = "case nh of None \<Rightarrow> n_address (neigh b nb) | Some a \<Rightarrow> a"
    let ?u = "update_route rid prefix plen src_prefix src_plen seqno (uint metric) (uint interval) nb ?nh channels b"
    have p: "perform nb a b = snd ?u" by (simp add: perform_def Act_update)
    have t: "pair_typed prefix plen src_prefix src_plen" "length rid = 8" using assms(3) by (simp_all add: Act_update action_typed_def)
    show ?thesis
    proof (cases "dest_ok prefix plen src_prefix src_plen")
      case True
      have "source_fits rid prefix plen src_prefix src_plen b" "\<forall>q. s_route_count (src b q) < 65535"
        using assms(4) by (simp_all add: Act_update admissible_def)
      from update_route_result [OF assms(1) True t(2) this assms(2), of seqno "uint metric" "uint interval" ?nh channels "fst ?u" "snd ?u"]
      have "daemon_ok (snd ?u)" "route_ifps (snd ?u) \<subseteq> insert (n_ifp (neigh (snd ?u) nb)) (route_ifps b)" by simp_all
      moreover have "n_ifp (neigh (snd ?u) nb) = n_ifp (neigh b nb)" using touchedD(7) [OF touched, of nb] unfolding p .
      ultimately show ?thesis unfolding p using S by auto
    next
      case False
      then have "update_is_v4 prefix plen" "src_plen \<noteq> 0" "src_plen < 96" using t(1) pair_dest_ok by fastforce+
      then have "update_refused rid prefix plen src_prefix src_plen b" by (rule mixed_refused [OF t(1)])
      from refused_nothing [OF this] show ?thesis unfolding p using spentI [OF b] by simp
    qed
  next
    case (Act_request prefix plen src_prefix src_plen)
    then have "dest_ok prefix plen src_prefix src_plen"
      using assms(3,4) pair_dest_ok by (simp add: action_typed_def admissible_def)
    then show ?thesis using s(1) by (simp add: perform_def Act_request)
  next
    case (Act_mh_request prefix plen src_prefix src_plen hop_count seqno rid)
    then have "dest_ok prefix plen src_prefix src_plen" "length rid = 8"
      using assms(3,4) pair_dest_ok by (simp_all add: action_typed_def admissible_def)
    then show ?thesis using spentI [OF routing_handle_request [OF b]] by (simp add: perform_def Act_mh_request)
  qed (use spentI [OF b] spent_hello [OF b] spent_ihu [OF b] spent_retract_neighbour_routes [OF b]
      spentI [OF routing_wildcard [OF b]] m in \<open>simp_all add: perform_def\<close>)
  then show ?thesis
  proof
    assume "holds (spent ?R ?W ?E) (perform nb a b)"
    then show ?thesis by (rule spent_confined [OF _ subset_refl S(1) touched_same [OF touched]])
  qed (use touched_same [OF touched] in \<open>simp add: confined_def\<close>)
qed

lemma perform_alive:
  "daemon_ok b \<Longrightarrow> nb \<in> set (neighs (nbrs b)) \<Longrightarrow> action_typed a \<Longrightarrow> admissible a b \<Longrightarrow> alive (perform nb a b)"
  using perform_confined [of b nb a UNIV] confined_alive by simp


text \<open>An IHU that says the neighbour hears us at cost 200.\<close>

definition an_ihu :: "byte list" where
  "an_ihu = [5, 6, 0, 0, 0, 200, 1, 0x90]"


section \<open>A packet\<close>

text \<open>
  The packets whose TLVs are admissible when their turn comes: the rules follow \<open>parse_tlvs\<close>.
\<close>

inductive acceptable :: "ptr \<Rightarrow> ptr \<Rightarrow> memory \<Rightarrow> int \<Rightarrow> nat \<Rightarrow> parse_state \<Rightarrow> babel \<Rightarrow> bool"
  for nb ifp m bodylen where
  at_end: "\<not> int i < bodylen \<or> fault b \<noteq> None \<Longrightarrow> acceptable nb ifp m bodylen i s b"
| padding: "m i = 0 \<Longrightarrow> acceptable nb ifp m bodylen (i + 1) s b \<Longrightarrow> acceptable nb ifp m bodylen i s b"
| truncated: "m i \<noteq> 0 \<Longrightarrow> bodylen < int (i + unat (m (i + 1))) \<Longrightarrow> acceptable nb ifp m bodylen i s b"
| tlv: "stale_bytes (nat MAX_CHANNEL_HOPS) b = (stale, c) \<Longrightarrow>
    decode (iface c ifp) stale (shift i m) (unat (m (i + 1))) s = (a, s') \<Longrightarrow> admissible a c \<Longrightarrow>
    acceptable nb ifp m bodylen (i + unat (m (i + 1)) + 2) s' (perform nb a c) \<Longrightarrow> m i \<noteq> 0 \<Longrightarrow>
    acceptable nb ifp m bodylen i s b"

lemma routing_stale_bytes:
  "holds (routing R W E) b \<Longrightarrow> returns (\<lambda>_. routing R W E) (stale_bytes n b)"
proof (induction n arbitrary: b)
  case (Suc n)
  show ?case unfolding stale_bytes.simps by (intro inv_returns_case_prod inv_returns_pair routing_ask Suc)
qed (simp add: returns_def holds_def)

lemma linked_stale_bytes:
  "holds (linked b0) b \<Longrightarrow> returns (\<lambda>_. linked b0) (stale_bytes n b)"
proof (induction n arbitrary: b)
  case (Suc n)
  show ?case unfolding stale_bytes.simps by (intro inv_returns_case_prod inv_returns_pair links Suc)
qed (simp add: returns_def holds_def)

lemma stale_bytes_ok:
  assumes "stale_bytes n b = (stale, c)" "daemon_ok b"
  shows "daemon_ok c" "neighs (nbrs c) = neighs (nbrs b)" "route_ifps c = route_ifps b" "same_ifaces b c"
    "n_ifp (neigh c p) = n_ifp (neigh b p)"
proof -
  have "holds (routing (rib_routes (rib b)) (who b) (held_now b)) b" using assms(2) by (simp add: daemon_ok_routing)
  then have r: "holds (routing (rib_routes (rib b)) (who b) (held_now b)) c"
    using routing_stale_bytes [of _ _ _ b n] assms(1) by (simp add: returns_def holds_def)
  then show "daemon_ok c" by (rule routing_daemon_ok)
  show "route_ifps c = route_ifps b" using routing_ifps [OF r] who_ifps by simp
  have l: "linked b c" using linked_stale_bytes [OF linked_start, of b n] assms(1) by (simp add: returns_def)
  then show "neighs (nbrs c) = neighs (nbrs b)" "same_ifaces b c" by (simp_all add: linked_def same_ifaces_def)
  have "quiet_neighbour (neigh c p) = quiet_neighbour (neigh b p)" using l by (simp add: linked_def)
  then show "n_ifp (neigh c p) = n_ifp (neigh b p)" by (rule quiet_neighbour_fields(2))
qed

lemma parse_tlvs_cases:
  "\<not> int i < bodylen \<or> fault b \<noteq> None \<Longrightarrow> parse_tlvs nb ifp m bodylen i s b = (s, b)"
  "int i < bodylen \<Longrightarrow> fault b = None \<Longrightarrow> m i = 0 \<Longrightarrow>
   parse_tlvs nb ifp m bodylen i s b = parse_tlvs nb ifp m bodylen (i + 1) s b"
  "int i < bodylen \<Longrightarrow> fault b = None \<Longrightarrow> m i \<noteq> 0 \<Longrightarrow> bodylen < int (i + unat (m (i + 1))) \<Longrightarrow>
   parse_tlvs nb ifp m bodylen i s b = (s, b)"
  "int i < bodylen \<Longrightarrow> fault b = None \<Longrightarrow> m i \<noteq> 0 \<Longrightarrow> \<not> bodylen < int (i + unat (m (i + 1))) \<Longrightarrow>
   stale_bytes (nat MAX_CHANNEL_HOPS) b = (stale, c) \<Longrightarrow>
   decode (iface c ifp) stale (shift i m) (unat (m (i + 1))) s = (a, s') \<Longrightarrow>
   parse_tlvs nb ifp m bodylen i s b = parse_tlvs nb ifp m bodylen (i + unat (m (i + 1)) + 2) s' (perform nb a c)"
  by (subst parse_tlvs.simps, auto simp: Let_def)+

lemma acceptable_confined:
  assumes "acceptable nb ifp m bodylen i s b" "confined S b0 b" "nb \<in> set (neighs (nbrs b))" "parse_typed s"
    and "parse_tlvs nb ifp m bodylen i s b = (t, c)" "n_ifp (neigh b nb) \<in> S"
  shows "confined S b0 c"
  using assms
proof (induction i s b rule: acceptable.induct)
  case (at_end i b s)
  then show ?case using parse_tlvs_cases(1) [of i bodylen b nb ifp m s] by simp
next
  case (padding i s b)
  show ?case
  proof (cases "int i < bodylen \<and> fault b = None")
    case True
    then show ?thesis using padding parse_tlvs_cases(2) [of i bodylen b m nb ifp s] by simp
  next
    case False
    then show ?thesis using padding.prems parse_tlvs_cases(1) [of i bodylen b nb ifp m s] by auto
  qed
next
  case (truncated i s b)
  then show ?case
    using parse_tlvs_cases(1) [of i bodylen b nb ifp m s] parse_tlvs_cases(3) [of i bodylen b m nb ifp s]
    by (cases "int i < bodylen \<and> fault b = None") auto
next
  case (tlv b stale d i s a s')
  show ?case
  proof (cases "\<not> int i < bodylen \<or> fault b \<noteq> None \<or> bodylen < int (i + unat (m (i + 1)))")
    case True
    then show ?thesis
      using tlv.prems tlv.hyps(5) parse_tlvs_cases(1) [of i bodylen b nb ifp m s] parse_tlvs_cases(3) [of i bodylen b m nb ifp s]
      by (cases "int i < bodylen \<and> fault b = None") auto
  next
    case False
    then have ok: "daemon_ok b" "route_ifps b \<subseteq> S" "same_ifaces b0 b" using tlv.prems(1) by (auto simp: confined_def)
    note d = stale_bytes_ok [OF tlv.hyps(1) ok(1)]
    have nb: "nb \<in> set (neighs (nbrs d))" using tlv.prems(2) d(2) by simp
    note t = decode_typed [OF tlv.hyps(2) tlv.prems(3)]
    have "n_ifp (neigh d nb) \<in> S" using d(5) tlv.prems(5) by simp
    then have "confined S d (perform nb a d)"
      using perform_confined [OF d(1) nb _ tlv.hyps(3)] t ok(2) d(3) by simp
    then have "confined S b0 (perform nb a d)" by (rule confined_trans [OF same_ifaces_trans [OF ok(3) d(4)]])
    moreover note touchedD(1,7) [OF holdsD [OF touched_perform], of nb a d]
    moreover have "parse_tlvs nb ifp m bodylen (i + unat (m (i + 1)) + 2) s' (perform nb a d) = (t, c)"
      using tlv.prems(4) False parse_tlvs_cases(4) [OF _ _ tlv.hyps(5) _ tlv.hyps(1,2)] by simp
    ultimately show ?thesis using tlv.IH t nb \<open>n_ifp (neigh d nb) \<in> S\<close> by simp
  qed
qed

lemma fold_same: "(\<And>x. f x b = b) \<Longrightarrow> fold f xs b = b"
  by (induction xs) simp_all

lemma update_neighbour_metric_stopped:
  "fault b = Some e \<Longrightarrow> fault (update_neighbour_metric nb changed b) = Some e"
  by (simp add: update_neighbour_metric_def emit_def for_all_routes_def fold_same)

lemma rttcost_stopped: "fault b = Some e \<Longrightarrow> fault (snd (neighbour_rttcost nb b)) = Some e"
  by (simp add: neighbour_rttcost_def Let_def c_assert_def raise_fault_def)

lemma process_rtt_stopped:
  assumes "fault b = Some e"
  shows "fault (process_rtt nb ifp us rt_us b) = Some e"
proof -
  obtain old c where c: "neighbour_rttcost nb b = (old, c)" by fastforce
  have fc: "fault c = Some e" using rttcost_stopped [OF assms, of nb] c by simp
  have "fault (case neighbour_rttcost nb d of (cost, b) \<Rightarrow>
      let b = update_neighbour_metric nb (cost \<noteq> old) b in upd_neigh nb (\<lambda>n. n\<lparr>n_rtt_time := now b\<rparr>) b) = Some e"
    if "fault d = Some e" for d
    using rttcost_stopped [OF that, of nb] update_neighbour_metric_stopped
    by (cases "neighbour_rttcost nb d") (simp add: Let_def)
  then show ?thesis using fc assms unfolding process_rtt_def c Let_def prod.case by simp
qed

definition body_length :: "memory \<Rightarrow> int \<Rightarrow> int" where
  "body_length packet packetlen =
     (let bodylen = uint (ntohs packet 2) in if bodylen + 4 > packetlen then packetlen - 4 else bodylen)"

definition arrived :: "ptr \<Rightarrow> babel \<Rightarrow> babel" where
  "arrived ifp b = (if if_flag IF_TIMESTAMPS (iface b ifp) then gettime b else b)"

lemma routing_gettime: "holds (routing R W E) b \<Longrightarrow> holds (routing R W E) (gettime b)"
  by (rule routing_shape [OF _ ready_basic(4)]) (rule shaped)

lemma find_neighbour_same: "same_ifaces b (snd (find_neighbour address ifp b))"
proof -
  have s: "same_ifaces d (send_hello p d)" for p d by (rule linked_same) (rule linked_senders(7) [OF linked_start])
  have h: "same_ifaces b (send_hello p (emit ev (c\<lparr>nbrs := ns\<rparr>)))" if "ifaces c = ifaces b" for p ev c ns
    using s [of "emit ev (c\<lparr>nbrs := ns\<rparr>)" p] that by (simp add: same_ifaces_def emit_def)
  obtain ok c where c: "c_alloc b = (ok, c)" by fastforce
  then have i: "ifaces c = ifaces b" by (auto simp: c_alloc_def ask_def)
  then show ?thesis using h [OF i] unfolding find_neighbour_def c
    by (auto simp: Let_def same_ifaces_def split: option.split)
qed

lemma touched_process_rtt: "holds (touched nb b) (process_rtt nb ifp us rt_us b)"
proof -
  have rc: "returns (\<lambda>_. touched nb b) (neighbour_rttcost nb c)" if "holds (touched nb b) c" for c
  proof -
    have "returns (\<lambda>_. linked c) (neighbour_rttcost nb c)"
      unfolding neighbour_rttcost_def Let_def by (intro inv_rules links linked_start)
    then show ?thesis using touched_linked_returns [OF that] by blast
  qed
  have m: "holds (touched nb b) (update_neighbour_metric nb v c)" if "holds (touched nb b) c" for v c
    by (rule touched_linked [OF that]) (rule links)
  show ?thesis
    unfolding process_rtt_def let_values Let_def [where 'a = neighbour]
    by (intro inv_rules rc m touched_upd_neigh touched_start) simp_all
qed

lemma process_rtt_same: "same_ifaces b (process_rtt nb ifp us rt_us b)"
  by (rule touched_same [OF holdsD [OF touched_process_rtt]])

lemma parse_packet_confined:
  assumes "daemon_ok b" "length sender = 16"
    and "\<And>nb c. find_neighbour sender ifp (arrived ifp b) = (Some nb, c) \<Longrightarrow>
      acceptable nb ifp (shift 4 packet) (body_length packet packetlen) 0 parse_init c"
    and S: "route_ifps b \<subseteq> S" "ifp \<in> S"
  shows "confined S b (parse_packet sender ifp packet packetlen b)"
proof -
  have b: "holds (routing (rib_routes (rib b)) (who b) (held_now b)) b" using assms(1) by (simp add: daemon_ok_routing)
  then have a: "holds (routing (rib_routes (rib b)) (who b) (held_now b)) (arrived ifp b)"
    using routing_gettime by (simp add: arrived_def)
  have sa: "same_ifaces b (arrived ifp b)" by (simp add: arrived_def same_ifaces_def gettime_def)
  obtain x c where x: "find_neighbour sender ifp (arrived ifp b) = (x, c)" by fastforce
  obtain nb where nb: "x = Some nb" "nb \<in> set (neighs (nbrs c))" "n_ifp (neigh c nb) = ifp"
    and c: "routing (rib_routes (rib b)) (who b) (held_now b) c"
    using find_neighbour_ok [OF a assms(2), of ifp] by (auto simp: x returns_def)
  have "same_ifaces b c" using find_neighbour_same [of "arrived ifp b" sender ifp] sa same_ifaces_trans by (simp add: x)
  moreover have "holds (routing (rib_routes (rib b)) (who b) (held_now b)) c" using c by (simp add: holds_def)
  ultimately have c: "confined S b c" using routing_confined [OF _ subset_refl S(1)] by blast
  obtain t d where p: "parse_tlvs nb ifp (shift 4 packet) (body_length packet packetlen) 0 parse_init c = (t, d)" by fastforce
  have d: "confined S b d"
    using acceptable_confined [OF assms(3) [OF x [unfolded nb(1)]] c nb(2) parse_init_typed p] nb(3) S(2) by simp
  have rtt: "confined S b (process_rtt nb ifp us rt_us d)" for us rt_us
  proof (cases "daemon_ok d")
    case True
    then have "holds (spent (rib_routes (rib d)) (who d) (held_now d)) (process_rtt nb ifp us rt_us d)"
      using spent_rtt daemon_ok_routing by blast
    moreover have "route_ifps d \<subseteq> S" "same_ifaces b d" using d daemon_fault [OF True] by (auto simp: confined_def)
    ultimately show ?thesis using confined_trans spent_confined [OF _ subset_refl _ process_rtt_same] by blast
  next
    case False
    then have f: "fault d = Some Out_of_fuel" using d by (simp add: confined_def)
    then have "fault (process_rtt nb ifp us rt_us d) = Some Out_of_fuel" by (rule process_rtt_stopped)
    then show ?thesis by (simp add: confined_def)
  qed
  have "confined S b (arrived ifp b)" using routing_confined [OF a subset_refl S(1) sa] .
  then show "confined S b (parse_packet sender ifp packet packetlen b)"
    unfolding parse_packet_def arrived_def [symmetric] Let_def x nb(1) body_length_def [unfolded Let_def, symmetric]
    using p c d rtt by (auto simp: x nb)
qed


text \<open>A packet with that IHU and nothing else.\<close>

lemma an_ihu_acceptable:
  "acceptable nb ifp (shift 4 (packet_of ([42, 2, 0, 8] @ an_ihu) 0)) 8 0 parse_init b"
proof -
  let ?m = "shift 4 (packet_of ([42, 2, 0, 8] @ an_ihu) 0)"
  obtain stale c where s: "stale_bytes (nat MAX_CHANNEL_HOPS) b = (stale, c)" by fastforce
  have d: "decode (iface c ifp) stale (shift 0 ?m) (unat (?m (0 + 1))) parse_init = (Act_ihu 200 400, parse_init)"
    by (simp add: decode_def decode_ihu_def network_address_def network_prefix_def prefix_bytes_def packet_of_def an_ihu_def
        shift_def types MESSAGE_ACK_REQ_def Let_def ntohs_def)
  show ?thesis
    by (rule acceptable.tlv [OF s d])
      (simp_all add: admissible_def acceptable.at_end packet_of_def an_ihu_def shift_def)
qed


end
