(* ===== verification/Update_Roundtrip.thy ===== *)
theory Update_Roundtrip
  imports Receive_Types Message_Bounds
begin

text \<open>
  Encoding and decoding an update agree: the bytes that \<open>really_send_update\<close> puts into the send
  buffer are decoded by \<open>parse_packet\<close> to the same destination, sequence number, metric and
  interval, also when the first bytes of the prefix are omitted.
\<close>

section \<open>The bytes of an update\<close>

definition octets :: "int \<Rightarrow> nat" where
  "octets plen = nat ((plen + 7) sdiv 8)"

definition update_tlv ::
  "bool \<Rightarrow> int \<Rightarrow> byte list \<Rightarrow> int \<Rightarrow> nat \<Rightarrow> byte list \<Rightarrow> int \<Rightarrow> bool \<Rightarrow> int \<Rightarrow> u16 \<Rightarrow> int \<Rightarrow> byte list option \<Rightarrow> byte list" where
  "update_tlv v4 flags prefix plen omitted src_prefix src_plen specific interval seqno metric channels =
     (let body = take (octets plen - omitted) (drop omitted prefix);
          from_part = (if specific then take (octets src_plen) src_prefix else []);
          hops = (case channels of None \<Rightarrow> [] | Some cs \<Rightarrow> [2, word_of_int (int (length cs))] @ cs)
      in [word_of_int (if specific then MESSAGE_UPDATE_SRC_SPECIFIC else MESSAGE_UPDATE),
          word_of_int (int (10 + length body + length from_part + length hops)),
          if v4 then 1 else 2, word_of_int (if specific then src_plen else flags), word_of_int plen,
          word_of_int (int omitted)] @
         htons interval @ htons (uint seqno) @ htons metric @ body @ from_part @ hops)"

lemma sendbuf_put [simp]:
  "sendbuf p (put p xs b) = sendbuf p b @ xs" "sendbuf p (accumulate_byte p x b) = sendbuf p b @ [word_of_int x]"
  "sendbuf p (accumulate_short p x b) = sendbuf p b @ htons x"
  "0 \<le> n \<Longrightarrow> n \<le> int (length xs) \<Longrightarrow> sendbuf p (accumulate_bytes p xs n b) = sendbuf p b @ take (nat n) xs"
  "sendbuf p (end_message p type n b) = sendbuf p b"
  by (simp_all add: sendbuf_def put_def upd_iface_def raise_fault_def accumulate_byte_def accumulate_short_def
      accumulate_bytes_def end_message_def schedule_flush_def schedule_flush_in_def c_assert_def Let_def split_beta
      jitter_def set_timeout_def c_roughly_def c_random_def ask_def)

lemma sendbuf_start [simp]:
  "len + 2 \<le> bufsize p b - int (length (sendbuf p b)) \<Longrightarrow>
   sendbuf p (start_message_with flush p type len b) = sendbuf p b @ [word_of_int type, word_of_int len]"
  by (simp add: start_message_with_def Let_def bufsize_def sendbuf_def [symmetric])

text \<open>\<open>send_update_tlv\<close> appends these bytes, when there is room for them.\<close>

lemma send_update_tlv_bytes:
  fixes plen src_plen :: int
  defines "wl \<equiv> (plen + 7) sdiv 8" and "wr \<equiv> (src_plen + 7) sdiv 8"
  assumes "om \<le> nat wl" "0 \<le> wl" "wl \<le> int (length prefix)"
    and "specific \<Longrightarrow> 0 \<le> wr \<and> wr \<le> int (length src_prefix)" "cl \<ge> 0 \<Longrightarrow> cl \<le> int (length cs)"
    and room: "wl - int om + (if specific then wr else 0) + (if cl \<ge> 0 then cl + 2 else 0) + 12 \<le>
      bufsize p b - int (length (sendbuf p b))"
    and i: "interval = (i_update_interval (iface b p) + 5) div 10"
  shows "sendbuf p (send_update_tlv p v4 flags prefix plen (int om) src_prefix src_plen specific seqno metric cs cl b) =
    sendbuf p b @ update_tlv v4 flags prefix plen om src_prefix src_plen specific interval seqno metric
      (if cl \<ge> 0 then Some (take (nat cl) cs) else None)"
proof -
  have body: "length (take (nat wl - om) (drop om prefix)) = nat wl - om" using assms(3-5) by simp
  have sp: "specific \<Longrightarrow> length (take (nat wr) src_prefix) = nat wr" using assms(6) by auto
  have ii: "i_update_interval (iface (put p xs c) p) = i_update_interval (iface c p)" for xs c
    by (simp add: put_def upd_iface_def raise_fault_def Let_def)
  show ?thesis
    using assms(3-7) room body sp
    unfolding send_update_tlv_def update_tlv_def octets_def wl_def [symmetric] wr_def [symmetric] i
    by (auto simp: Let_def ii accumulate_byte_def start_message_with_def bufsize_def sendbuf_def [symmetric] nat_diff_distrib
        htons_def of_nat_diff split: if_splits)
qed

section \<open>Reading them back\<close>

definition stored :: "byte list \<Rightarrow> memory \<Rightarrow> bool" where
  "stored xs m \<longleftrightarrow> (\<forall>i < length xs. m i = xs ! i)"

lemma stored_nth: "stored xs m \<Longrightarrow> i < length xs \<Longrightarrow> m i = xs ! i"
  by (simp add: stored_def)

lemma stored_shift: "stored (xs @ ys) m \<Longrightarrow> k = length xs \<Longrightarrow> stored ys (shift k m)"
  by (auto simp: stored_def shift_def nth_append)

lemma stored_prefix: "stored (xs @ ys) m \<Longrightarrow> stored xs m"
  by (auto simp: stored_def nth_append)

lemma stored_bytes: "stored xs m \<Longrightarrow> n = length xs \<Longrightarrow> bytes_at m 0 n = xs"
  by (rule nth_equalityI) (auto simp: stored_def bytes_at_def)

lemma stored_bytes_at: "stored (xs @ ys) m \<Longrightarrow> bytes_at m (length xs) (length ys) = ys"
  by (rule nth_equalityI) (auto simp: stored_def bytes_at_def nth_append)

lemma ntohs_htons:
  assumes "m k = htons v ! 0" "m (k + 1) = htons v ! 1"
  shows "ntohs m k = word_of_int v"
proof -
  have u: "(ucast (word_of_int x :: byte) :: u16) = word_of_int (x mod 256)" for x
    by (simp add: ucast_eq uint_word_of_int take_bit_eq_mod)
  have "ntohs m k = word_of_int (256 * (v div 256 mod 256) + v mod 256)"
    using assms by (simp add: ntohs_def htons_def u)
  moreover have "256 * (v div 256 mod 256) + v mod 256 = v mod 65536"
    using zmod_zmult2_eq [of 256 v 256] by simp
  moreover have "(word_of_int (v mod 65536) :: u16) = word_of_int v"
    by (rule word_of_int_eq_iff [THEN iffD2]) (simp add: take_bit_eq_mod)
  ultimately show ?thesis by simp
qed

section \<open>Prefixes\<close>

text \<open>A prefix only depends on the bytes that hold its bits.\<close>

lemma normalize_wire:
  assumes "length x = 16" "plen \<le> 128" "k = (plen + 7) div 8"
  shows "normalize_prefix (take k x @ replicate (16 - k) 0) plen = normalize_prefix x plen"
proof (rule addr_eq_bits [THEN iffD2])
  have k: "k \<le> 16" using assms(2,3) by simp
  let ?y = "take k x @ replicate (16 - k) 0"
  have ly: "length ?y = 16" using assms(1) k by simp
  show "length (normalize_prefix ?y plen) = 16" "length (normalize_prefix x plen) = 16"
    using length_normalize_prefix ly assms(1) by simp_all
  have "addr_bit ?y i = addr_bit x i" if "i < plen" for i
  proof -
    have "i div 8 < k" using that assms(3) by linarith
    then show ?thesis using k assms(1) by (simp add: addr_bit_def nth_append)
  qed
  then show "same_bits (normalize_prefix ?y plen) (normalize_prefix x plen) 128"
    using bit_normalize_prefix [OF ly] bit_normalize_prefix [OF assms(1)] by (auto simp: same_bits_def)
qed

lemma omit_bytes_same: "take (omit_bytes xs ys n) xs = take (omit_bytes xs ys n) ys"
  by (induction xs ys n rule: omit_bytes.induct) auto

lemma omit_bytes_length: "omit_bytes xs ys n \<le> n" "omit_bytes xs ys n \<le> length ys" "omit_bytes xs ys n \<le> length xs"
  by (induction xs ys n rule: omit_bytes.induct) auto

lemma octets_nat: "octets (int n) = (n + 7) div 8"
proof -
  have "(int n + 7) sdiv 8 = (int n + 7) div 8" by (rule sdiv_pos) simp_all
  then show ?thesis by (simp add: octets_def nat_div_distrib flip: of_nat_Suc)
qed

text \<open>IPv6, where the bytes shared with the last prefix may be left out.\<close>

lemma network_prefix_v6:
  assumes x: "length x = 16" "plen \<le> 128" "normalize_prefix x plen = x"
    and om: "om = 0 \<or> (\<exists>d. dp = Some d \<and> length d = 16 \<and> \<not> v4mapped d \<and> om = omit_bytes d x (plen div 8))"
    and m: "stored (take (octets (int plen) - om) (drop om x)) p" and len: "octets (int plen) - om \<le> len"
  shows "network_prefix 2 (int plen) om p dp len = Some (octets (int plen) - om, x)"
proof -
  let ?k = "(plen + 7) div 8"
  have k: "?k \<le> 16" "nat ((int plen + 7) div 8) = ?k" using x(2) by (simp_all add: nat_div_distrib flip: of_nat_Suc)
  have "om \<le> plen div 8" using om omit_bytes_length(1) by auto
  moreover have "plen div 8 \<le> ?k" by (rule div_le_mono) simp
  ultimately have o: "om \<le> ?k" "om \<le> 16" using k(1) by linarith+
  have bytes: "bytes_at p 0 (?k - om) = take (?k - om) (drop om x)"
    using m x(1) k(1) by (intro stored_bytes) (auto simp: octets_nat)
  define start where "start = (if om = 0 then zeroes else take om (the dp) @ replicate (16 - om) 0)"
  have st: "take om start = take om x \<and> drop ?k start = replicate (16 - ?k) 0"
  proof (cases "om = 0")
    case True
    then show ?thesis by (simp add: start_def zeroes_def)
  next
    case False
    then obtain d where d: "dp = Some d" "length d = 16" "om = omit_bytes d x (plen div 8)" using om by blast
    then have "take om d = take om x" using omit_bytes_same by metis
    moreover have "drop ?k (take om d @ replicate (16 - om) 0) = replicate (16 - ?k) 0"
      using o d(2) by simp
    ultimately show ?thesis using False d(1,2) o x(1) by (simp add: start_def)
  qed
  have ov: "overlay start om (take (?k - om) (drop om x)) = take ?k x @ replicate (16 - ?k) 0"
  proof -
    have "take ?k x = take om x @ take (?k - om) (drop om x)" using o(1) take_add [of om "?k - om" x] by simp
    moreover have "om + length (take (?k - om) (drop om x)) = ?k" using o k(1) x(1) by simp
    ultimately show ?thesis unfolding overlay_def using st by simp
  qed
  have "prefix_bytes 2 ?k om p dp len = Some (int ?k - int om, overlay start om (take (?k - om) (drop om x)))"
    using om o len unfolding prefix_bytes_def Let_def bytes
    by (auto simp: start_def octets_nat)
  then show ?thesis
    using k o normalize_wire [OF x(1,2) refl] x(3)
    by (simp add: network_prefix_def Let_def ov octets_nat nat_diff_distrib)
qed

text \<open>IPv4: the twelve bytes in front are not sent.\<close>

lemma network_prefix_v4:
  assumes x: "length x = 16" "96 \<le> plen" "plen \<le> 128" "normalize_prefix x plen = x" "v4mapped x"
    and m: "stored (take (octets (int plen - 96)) (drop 12 x)) p" and len: "octets (int plen - 96) \<le> len"
  shows "network_prefix 1 (int plen - 96) 0 p dp len = Some (octets (int plen - 96), x)"
proof -
  obtain n where n: "plen = 96 + n" "n \<le> 32" using x(2,3) by (metis add.commute add_le_cancel_right le_Suc_ex numeral_plus_numeral add_num_simps)
  have w: "octets (int plen - 96) = (n + 7) div 8" using octets_nat [of n] n(1) by simp
  let ?k = "(n + 7) div 8"
  have k: "?k \<le> 4" "nat ((int n + 7) div 8) = ?k" "(plen + 7) div 8 = 12 + ?k"
    using n by (simp_all add: nat_div_distrib flip: of_nat_Suc)
  have bytes: "bytes_at p 0 ?k = take ?k (drop 12 x)"
    using m x(1) k(1) by (intro stored_bytes) (auto simp: w)
  have "take 12 x = take 12 v4prefix" using x(1,5) by (simp add: v4mapped_def v4mapped2_def)
  moreover have "take (12 + ?k) x = take 12 x @ take ?k (drop 12 x)" by (rule take_add)
  moreover have "overlay (v @ replicate 4 0) 12 (take ?k (drop 12 x)) = v @ take ?k (drop 12 x) @ replicate (4 - ?k) 0"
    if "length v = 12" for v :: "byte list"
    using that k(1) x(1) by (simp add: overlay_def min_def)
  moreover have "length (take 12 v4prefix) = 12" by (simp add: v4prefix_def)
  ultimately have ov: "overlay (take 12 v4prefix @ replicate 4 0) 12 (take ?k (drop 12 x)) =
      take (12 + ?k) x @ replicate (16 - (12 + ?k)) 0"
    by simp
  have "prefix_bytes 1 ?k 0 p dp len = Some (int ?k, take (12 + ?k) x @ replicate (16 - (12 + ?k)) 0)"
    using len k(1) unfolding prefix_bytes_def Let_def ov [symmetric]
    by (simp add: w bytes)
  moreover have "int plen - 96 = int n" using n(1) by simp
  ultimately show ?thesis
    using k normalize_wire [OF x(1,3) refl] x(4) n
    by (simp add: network_prefix_def Let_def w octets_nat add.commute)
qed

text \<open>Both at once, for the destination and for the source.\<close>

definition sent_well :: "bool \<Rightarrow> byte list \<Rightarrow> nat \<Rightarrow> bool" where
  "sent_well v4 x plen \<longleftrightarrow>
     length x = 16 \<and> plen \<le> 128 \<and> normalize_prefix x plen = x \<and> (v4 \<longrightarrow> 96 \<le> plen \<and> v4mapped x)"

lemma network_prefix_sent:
  assumes "sent_well v4 x plen"
    and "om = 0 \<or> (\<not> v4 \<and> (\<exists>d. dp = Some d \<and> length d = 16 \<and> \<not> v4mapped d \<and> om = omit_bytes d x (plen div 8)))"
    and "stored (take (octets (wire_plen v4 plen) - om) (drop om (wire_prefix v4 x))) p"
    and "octets (wire_plen v4 plen) - om \<le> len"
  shows "network_prefix (if v4 then 1 else 2) (wire_plen v4 plen) om p dp len = Some (octets (wire_plen v4 plen) - om, x)"
  using assms network_prefix_v4 [of x plen p len dp] network_prefix_v6 [of x plen om dp p len]
  by (cases v4) (auto simp: sent_well_def wire_plen_def wire_prefix_def)

lemma wire_plen_byte:
  assumes "sent_well v4 x plen"
  shows "uint (word_of_int (wire_plen v4 plen) :: byte) = wire_plen v4 plen"
    "unat (word_of_int (wire_plen v4 plen) + (if v4 then 96 else 0) :: byte) = plen"
proof -
  have "0 \<le> wire_plen v4 plen" "wire_plen v4 plen \<le> 128" using assms by (auto simp: sent_well_def wire_plen_def)
  then show "uint (word_of_int (wire_plen v4 plen) :: byte) = wire_plen v4 plen"
    by (simp add: uint_word_of_int take_bit_eq_mod)
  have "(word_of_int (wire_plen v4 plen) + (if v4 then 96 else 0) :: byte) = word_of_int (int plen)"
    by (cases v4) (simp_all add: wire_plen_def)
  moreover have "unat (word_of_int (int plen) :: byte) = plen"
    using assms by (simp add: sent_well_def unat_of_nat)
  ultimately show "unat (word_of_int (wire_plen v4 plen) + (if v4 then 96 else 0) :: byte) = plen" by simp
qed

section \<open>Sub-TLVs\<close>

definition hops_bytes :: "byte list option \<Rightarrow> byte list" where
  "hops_bytes channels = (case channels of None \<Rightarrow> [] | Some cs \<Rightarrow> [2, word_of_int (int (length cs))] @ cs)"

lemma unat_byte_of: "n < 256 \<Longrightarrow> unat (word_of_int (int n) :: byte) = n"
  by (simp add: unat_of_nat)

lemma update_subtlv_hops:
  assumes "stored (hops_bytes (Some cs)) a" "length cs \<le> length stale" "length cs < 256"
  shows "parse_update_subtlv ifp metric a (length (hops_bytes (Some cs))) stale = cs"
proof -
  have l: "unat (word_of_int (int (length cs)) :: byte) = length cs" using assms(3) by (simp add: unat_of_nat)
  have m: "a 0 = 2" "unat (a (0 + 1)) = length cs"
    using assms(1) l by (auto simp: stored_def hops_bytes_def dest: spec [of _ 0] spec [of _ 1])
  have "stored ([2, word_of_int (int (length cs))] @ cs) a" using assms(1) by (simp add: hops_bytes_def)
  then have b: "bytes_at a 2 (length cs) = cs" using stored_bytes_at [of "[2, word_of_int (int (length cs))]" cs a] by (simp add: numeral_2_eq_2)
  have "update_subtlvs a (length cs + 2) 0 (length stale) found = (overlay (fst found) 0 cs, length cs)" for found
    using m b [unfolded numeral_2_eq_2] assms(2) by (subst update_subtlvs.simps) (simp add: update_subtlvs.simps SUBTLV_DIVERSITY_def Let_def min_def)
  then show ?thesis
    by (simp add: parse_update_subtlv_def hops_bytes_def Let_def split_beta overlay_def)
qed

section \<open>The message\<close>

definition update_message ::
  "bool \<Rightarrow> int \<Rightarrow> byte list \<Rightarrow> nat \<Rightarrow> nat \<Rightarrow> byte list \<Rightarrow> nat \<Rightarrow> int \<Rightarrow> u16 \<Rightarrow> int \<Rightarrow> byte list option \<Rightarrow> byte list" where
  "update_message v4 flags prefix plen omitted src_prefix src_plen interval seqno metric channels =
     update_tlv v4 flags (wire_prefix v4 prefix) (wire_plen v4 plen) omitted (wire_prefix v4 src_prefix)
       (wire_plen v4 src_plen) (src_plen \<noteq> 0) interval seqno metric channels"

lemma octets_bound:
  assumes "sent_well v4 x plen"
  shows "octets (wire_plen v4 plen) \<le> length (wire_prefix v4 x) \<and> octets (wire_plen v4 plen) \<le> 16"
proof (cases v4)
  case True
  then obtain n where n: "plen = 96 + n" using assms le_Suc_ex by (auto simp: sent_well_def)
  then have "n \<le> 32" using assms by (simp add: sent_well_def)
  then have "(n + 7) div 8 \<le> 4" by linarith
  then show ?thesis using True n assms octets_nat [of n] by (simp add: sent_well_def wire_plen_def wire_prefix_def)
next
  case False
  have "plen \<le> 128" using assms by (simp add: sent_well_def)
  then have "(plen + 7) div 8 \<le> 16" by linarith
  with False show ?thesis using assms octets_nat [of plen] by (simp add: sent_well_def wire_plen_def wire_prefix_def)
qed

lemma update_message_parts:
  assumes "sent_well v4 prefix plen" "src_plen \<noteq> 0 \<longrightarrow> sent_well v4 src_prefix src_plen"
    and "om \<le> octets (wire_plen v4 plen)" "stored (update_message v4 flags prefix plen om src_prefix src_plen interval seqno metric channels) m"
    and "\<forall>cs. channels = Some cs \<longrightarrow> length cs \<le> 20"
  defines "n \<equiv> octets (wire_plen v4 plen) - om" and "k \<equiv> (if src_plen \<noteq> 0 then octets (wire_plen v4 src_plen) else 0)"
  shows "length (update_message v4 flags prefix plen om src_prefix src_plen interval seqno metric channels) =
      12 + n + k + length (hops_bytes channels)"
    "uint (m 0) = (if src_plen \<noteq> 0 then MESSAGE_UPDATE_SRC_SPECIFIC else MESSAGE_UPDATE)"
    "unat (m 1) = 10 + n + k + length (hops_bytes channels)"
    "m 2 = (if v4 then 1 else 2)" "m 3 = word_of_int (if src_plen \<noteq> 0 then wire_plen v4 src_plen else flags)"
    "m 4 = word_of_int (wire_plen v4 plen)" "unat (m 5) = om"
    "ntohs m 6 = word_of_int interval" "ntohs m 8 = seqno" "ntohs m 10 = word_of_int metric"
    "stored (take n (drop om (wire_prefix v4 prefix))) (shift 12 m)"
    "src_plen \<noteq> 0 \<Longrightarrow> stored (take k (wire_prefix v4 src_prefix)) (shift (12 + n) m)"
    "stored (hops_bytes channels) (shift (12 + n + k) m)"
proof -
  define body where "body = take n (drop om (wire_prefix v4 prefix))"
  define part where "part = (if src_plen \<noteq> 0 then take (octets (wire_plen v4 src_plen)) (wire_prefix v4 src_prefix) else [])"
  define hdr where "hdr = [word_of_int (if src_plen \<noteq> 0 then MESSAGE_UPDATE_SRC_SPECIFIC else MESSAGE_UPDATE),
      word_of_int (int (10 + length body + length part + length (hops_bytes channels))),
      if v4 then 1 else 2, word_of_int (if src_plen \<noteq> 0 then wire_plen v4 src_plen else flags),
      word_of_int (wire_plen v4 plen), word_of_int (int om)] @ htons interval @ htons (uint seqno) @ htons metric"
  let ?t = "update_message v4 flags prefix plen om src_prefix src_plen interval seqno metric channels"
  have t: "?t = hdr @ body @ part @ hops_bytes channels"
    by (simp add: update_message_def update_tlv_def hdr_def body_def part_def n_def hops_bytes_def Let_def)
  have lh: "length hdr = 12" by (simp add: hdr_def htons_def)
  note ob = octets_bound [OF assms(1)] octets_bound [OF assms(2) [rule_format]]
  have lb: "length body = n" "length part = k" "n \<le> 16" "k \<le> 16" "om \<le> 16"
    using ob assms(3) by (auto simp: body_def part_def n_def k_def)
  have lc: "length (hops_bytes channels) \<le> 22" using assms(5) by (cases channels) (simp_all add: hops_bytes_def)
  show "length ?t = 12 + n + k + length (hops_bytes channels)" using lh lb by (simp add: t)
  have mi: "m i = hdr ! i" if "i < 12" for i
    using stored_nth [OF assms(4), of i] that lh by (simp add: t nth_append)
  show "uint (m 0) = (if src_plen \<noteq> 0 then MESSAGE_UPDATE_SRC_SPECIFIC else MESSAGE_UPDATE)"
    using mi [of 0] by (simp add: hdr_def types)
  have "m 1 = word_of_int (int (10 + n + k + length (hops_bytes channels)))" using mi [of 1] lb by (simp add: hdr_def)
  then show "unat (m 1) = 10 + n + k + length (hops_bytes channels)" using lb(3,4) lc unat_byte_of by (simp only:)
  show "m 2 = (if v4 then 1 else 2)" "m 3 = word_of_int (if src_plen \<noteq> 0 then wire_plen v4 src_plen else flags)"
    "m 4 = word_of_int (wire_plen v4 plen)"
    using mi [of 2] mi [of 3] mi [of 4] by (simp_all add: hdr_def)
  have "m 5 = word_of_int (int om)" using mi [of 5] by (simp add: hdr_def)
  then show "unat (m 5) = om" using lb(5) by (simp add: unat_of_nat)
  show "ntohs m 6 = word_of_int interval" "ntohs m 10 = word_of_int metric"
    using mi [of 6] mi [of 7] mi [of 10] mi [of 11] by (auto intro!: ntohs_htons simp: hdr_def htons_def)
  have "ntohs m 8 = word_of_int (uint seqno)"
    using mi [of 8] mi [of 9] by (intro ntohs_htons) (simp_all add: hdr_def htons_def)
  then show "ntohs m 8 = seqno" by simp
  have s: "stored (body @ part @ hops_bytes channels) (shift 12 m)"
    using assms(4) lh unfolding t by (intro stored_shift [of hdr]) simp_all
  then show "stored (take n (drop om (wire_prefix v4 prefix))) (shift 12 m)" by (auto dest: stored_prefix simp: body_def)
  have sh: "shift (i + j) m' = shift j (shift i m')" for i j m' by (simp add: shift_def add.assoc)
  have s2: "stored (part @ hops_bytes channels) (shift (12 + n) m)"
    using stored_shift [OF s lb(1) [symmetric]] by (simp only: sh)
  then show "stored (take k (wire_prefix v4 src_prefix)) (shift (12 + n) m)" if "src_plen \<noteq> 0"
    using that by (auto dest: stored_prefix simp: part_def k_def)
  show "stored (hops_bytes channels) (shift (12 + n + k) m)"
    using stored_shift [OF s2 lb(2) [symmetric]] by (simp only: sh)
qed


text \<open>An update for \<open>fd01::/64\<close> after one for \<open>fd00::/64\<close>, of which the first byte is reused.\<close>

definition next_prefix :: "byte list" where
  "next_prefix = 0xfd # 1 # replicate 14 0"

definition heard_before :: parse_state where
  "heard_before = parse_init\<lparr>ps_router_id := Some the_rid, ps_v6_prefix := Some a_prefix\<rparr>"

definition an_update :: "byte list" where
  "an_update = update_message False 0 next_prefix 64 1 zeroes 0 400 7 96 (Some [])"


end
