(* ===== verification/Xroute_Check.thy ===== *)
theory Xroute_Check
  imports Links
begin

text \<open>
  \<open>check_xroutes\<close> of \<open>xroute.c\<close>: the addresses and routes of the kernel are read, the exported
  routes that have no kernel route any more are removed, and the new ones are added.

  What \<open>kernel_dump\<close> reports is the kernel's answer, so it is a parameter: \<open>reports n\<close> are the
  addresses and the routes that are reported at tick \<open>n\<close> of the environment (fewer than there
  are when the dump fails half way).  Only the fields of a reported route that this code reads
  are modelled.
\<close>

section \<open>Reading the kernel\<close>

record kernel_addr =
  ka_addr :: "byte list"
  ka_ifindex :: nat

record kernel_entry =
  ke_prefix :: "byte list"
  ke_src_prefix :: "byte list"
  ke_plen :: nat
  ke_src_plen :: nat
  ke_proto :: nat
  ke_metric :: int
  ke_ifindex :: nat

type_synonym kernel_reports = "nat \<Rightarrow> kernel_addr list \<times> kernel_entry list"

definition filter_route :: "nat \<Rightarrow> kernel_entry \<Rightarrow> kernel_entry list \<Rightarrow> kernel_entry list" where
  "filter_route maxroutes r found =
     (if length found \<ge> maxroutes then found
      else if martian_prefix (ke_prefix r) (ke_plen r) \<or> martian_prefix (ke_src_prefix r) (ke_src_plen r) then found
      else found @ [r])"

definition kernel_routes :: "nat \<Rightarrow> kernel_entry list \<Rightarrow> kernel_entry list" where
  "kernel_routes maxroutes reported = fold (filter_route maxroutes) reported []"

text \<open>The macro \<open>IN6_IS_ADDR_LINKLOCAL\<close>, and the array that \<open>calloc\<close> cleared.\<close>

definition in6_is_addr_linklocal :: "byte list \<Rightarrow> bool" where
  "in6_is_addr_linklocal a \<longleftrightarrow> a ! 0 = 0xFE \<and> a ! 1 AND 0xC0 = 0x80"

definition address_route :: "kernel_addr \<Rightarrow> kernel_entry" where
  "address_route a =
     \<lparr>ke_prefix = take 16 (ka_addr a), ke_src_prefix = zeroes, ke_plen = 128, ke_src_plen = 0,
      ke_proto = nat (RTPROT_BABEL_LOCAL mod 256), ke_metric = 0, ke_ifindex = ka_ifindex a\<rparr>"

definition filter_address ::
  "nat \<Rightarrow> bool \<Rightarrow> nat \<Rightarrow> kernel_addr \<Rightarrow> kernel_entry list \<Rightarrow> kernel_entry list" where
  "filter_address ifindex ll maxroutes a found =
     (if length found \<ge> maxroutes then found
      else if ll \<noteq> in6_is_addr_linklocal (ka_addr a) then found
      else if ifindex \<noteq> 0 \<and> ka_ifindex a \<noteq> ifindex then found
      else found @ [address_route a])"

definition kernel_addresses :: "nat \<Rightarrow> bool \<Rightarrow> nat \<Rightarrow> kernel_addr list \<Rightarrow> kernel_entry list" where
  "kernel_addresses ifindex ll maxroutes reported = fold (filter_address ifindex ll maxroutes) reported []"

text \<open>One attempt with an array of \<open>maxroutes\<close> entries; \<open>None\<close> when it may have been too small.\<close>

definition kernel_table ::
  "nat \<Rightarrow> kernel_addr list \<times> kernel_entry list \<Rightarrow> (kernel_entry list \<times> kernel_entry list) option" where
  "kernel_table maxroutes reported =
     (let as = kernel_addresses 0 False maxroutes (fst reported) in
      if length as \<ge> maxroutes then None
      else
        let rs = kernel_routes (maxroutes - length as) (snd reported)
        in if length as + length rs \<ge> maxroutes then None else Some (as, rs))"

definition maxmaxroutes :: nat where "maxmaxroutes = 16 * 1024"

text \<open>
  The \<open>again\<close> loop: the tables, if any, and the size of the last array.  \<open>maxroutes\<close> is
  static, starts at 8 and is never less; with 0 the loop would not end.
\<close>

function read_kernel ::
  "kernel_reports \<Rightarrow> nat \<Rightarrow> babel \<Rightarrow> ((kernel_entry list \<times> kernel_entry list) option \<times> nat) \<times> babel" where
  "read_kernel reports maxroutes b =
     (if maxroutes = 0 then ((None, 0), raise_fault Out_of_fuel b)
      else case c_alloc b of (ok, b) \<Rightarrow>
        if \<not> ok then ((None, maxroutes), b)
        else case kernel_table maxroutes (reports (ticks b)) of
          Some r \<Rightarrow> ((Some r, maxroutes), b)
        | None \<Rightarrow>
            if maxroutes \<ge> maxmaxroutes then ((None, maxroutes), b)
            else read_kernel reports (min maxmaxroutes (4 * maxroutes)) b)"
  by pat_completeness auto
termination by (relation "measure (\<lambda>(reports, maxroutes, b). maxmaxroutes - maxroutes)") auto

declare read_kernel.simps [simp del]

text \<open>A redistribution filter may give a kernel route another source prefix.\<close>

definition rewrite_source :: "filters \<Rightarrow> kernel_entry \<Rightarrow> kernel_entry" where
  "rewrite_source fs r =
     (case redistribute_filter fs (ke_prefix r) (ke_plen r) (Some (ke_src_prefix r)) (ke_src_plen r)
             (ke_ifindex r) (int (ke_proto r)) of
        (_, result) \<Rightarrow>
          (case fr_src_prefix result of None \<Rightarrow> r
           | Some p \<Rightarrow> r\<lparr>ke_src_prefix := take 16 p, ke_src_plen := fr_src_plen result\<rparr>))"

section \<open>Removing exported routes\<close>

definition xroute_metric :: "filters \<Rightarrow> xroute \<Rightarrow> int" where
  "xroute_metric fs x =
     fst (redistribute_filter fs (x_prefix x) (x_plen x) (Some (x_src_prefix x)) (x_src_plen x)
            (x_ifindex x) (int (x_proto x)))"

definition same_kernel_route :: "xroute \<Rightarrow> kernel_entry \<Rightarrow> bool" where
  "same_kernel_route x r \<longleftrightarrow>
     x_plen x = ke_plen r \<and> v6_equal (x_prefix x) (ke_prefix r) \<and> x_ifindex x = ke_ifindex r \<and> x_proto x = ke_proto r"

definition still_exported :: "filters \<Rightarrow> kernel_entry list \<Rightarrow> xroute \<Rightarrow> bool" where
  "still_exported fs table x \<longleftrightarrow>
     xroute_metric fs x < INFINITY_METRIC \<and> xroute_metric fs x = x_metric x \<and>
     list_ex (same_kernel_route x) table"

definition retire_xroute :: "bool \<Rightarrow> nat \<Rightarrow> babel \<Rightarrow> babel" where
  "retire_xroute send_updates i b =
     (let x = xroutes b ! i;
          b = flush_xroute i b
      in case find_best_route (x_prefix x) (x_plen x) (x_src_prefix x) (x_src_plen x) True None b of
        (best, b) \<Rightarrow>
          let b = (case best of None \<Rightarrow> b | Some rt \<Rightarrow> install_route rt b)
          in if send_updates
             then send_update_resend None (x_prefix x) (x_plen x) (x_src_prefix x) (x_src_plen x) b
             else b)"

lemma retire_xroute_list:
  "i < length (xroutes b) \<Longrightarrow>
   xroutes (retire_xroute send_updates i b) =
     take (length (xroutes b) - 1) ((xroutes b)[i := xroutes b ! (length (xroutes b) - 1)])"
proof -
  have "holds (linked (flush_xroute i b)) (retire_xroute send_updates i b)"
    unfolding retire_xroute_def Let_def by (intro inv_rules links linked_start)
  then show "i < length (xroutes b) \<Longrightarrow> ?thesis"
    using flush_xroute_cases(1) by (simp add: holds_def linked_def)
qed

function retire_xroutes :: "bool \<Rightarrow> kernel_entry list \<Rightarrow> nat \<Rightarrow> bool \<Rightarrow> babel \<Rightarrow> bool \<times> babel" where
  "retire_xroutes send_updates table i change b =
     (if \<not> i < length (xroutes b) then (change, b)
      else if still_exported (filters_of b) table (xroutes b ! i)
      then retire_xroutes send_updates table (i + 1) change b
      else retire_xroutes send_updates table i True (retire_xroute send_updates i b))"
  by pat_completeness auto
termination
  by (relation "measure (\<lambda>(send_updates, table, i, change, b). length (xroutes b) - i)")
    (auto simp: retire_xroute_list)

declare retire_xroutes.simps [simp del]

section \<open>Adding exported routes\<close>

definition export_metric :: "filters \<Rightarrow> kernel_entry \<Rightarrow> int" where
  "export_metric fs r =
     fst (redistribute_filter fs (ke_prefix r) (ke_plen r) (Some (ke_src_prefix r)) (ke_src_plen r)
            (ke_ifindex r) (int (ke_proto r)))"

definition export_route :: "bool \<Rightarrow> kernel_entry \<Rightarrow> bool \<times> babel \<Rightarrow> bool \<times> babel" where
  "export_route send_updates r = (\<lambda>(change, b).
     (let metric = export_metric (filters_of b) r in
      if martian_prefix (ke_prefix r) (ke_plen r) then (change, b)
      else if \<not> metric < INFINITY_METRIC then (change, b)
      else case add_xroute (ke_prefix r) (ke_plen r) (ke_src_prefix r) (ke_src_plen r) metric
                  (ke_ifindex r) (int (ke_proto r)) b of
        (rc, b) \<Rightarrow>
          if rc \<le> 0 then (change, b)
          else
            let b = (case find_installed (ke_prefix r) (ke_plen r) (ke_src_prefix r) (ke_src_plen r) b of
                       None \<Rightarrow> b
                     | Some rt \<Rightarrow>
                         if allow_duplicates (conf b) < 0 \<or> ke_metric r < allow_duplicates (conf b)
                         then uninstall_route rt b else b);
                b = (if send_updates
                     then send_update None False (Some (ke_prefix r)) (ke_plen r) (Some (ke_src_prefix r)) (ke_src_plen r) b
                     else b)
            in (True, b)))"

text \<open>The result, the new value of the static \<open>maxroutes\<close>, and the state.\<close>

definition check_xroutes :: "kernel_reports \<Rightarrow> bool \<Rightarrow> nat \<Rightarrow> babel \<Rightarrow> (int \<times> nat) \<times> babel" where
  "check_xroutes reports send_updates maxroutes b =
     (case read_kernel reports maxroutes b of
        ((None, maxroutes), b) \<Rightarrow> ((-1, maxroutes), b)
      | ((Some (addresses, reported), maxroutes), b) \<Rightarrow>
          let table = addresses @ map (rewrite_source (filters_of b)) reported in
          case retire_xroutes send_updates table 0 False b of (change, b) \<Rightarrow>
            case fold (export_route send_updates) table (change, b) of (change, b) \<Rightarrow>
              ((if change then 1 else 0, min (length table + 8) maxmaxroutes), b))"

end
