(* ===== verification/Xroute_Mirror.thy ===== *)
theory Xroute_Mirror
  imports Xroute_Check Neighbour_Claims
begin

text \<open>
  What \<open>check_xroutes\<close> achieves: the exported routes mirror the kernel's routes as the
  redistribution filters select them, and the invariant of the daemon is kept.
\<close>

section \<open>What the kernel reports\<close>

definition entry_ok :: "kernel_entry \<Rightarrow> bool" where
  "entry_ok r \<longleftrightarrow> ke_proto r < 256 \<and> dest_ok (ke_prefix r) (ke_plen r) (ke_src_prefix r) (ke_src_plen r)"

text \<open>
  The reported addresses have 16 bytes, and the routes are well formed once the filters have
  given them their source prefix (a filter must not give an IPv4 route an IPv6 one).
\<close>

definition reports_ok :: "filters \<Rightarrow> kernel_reports \<Rightarrow> bool" where
  "reports_ok fs reports \<longleftrightarrow>
     (\<forall>n. (\<forall>a \<in> set (fst (reports n)). length (ka_addr a) = 16) \<and>
          (\<forall>r \<in> set (snd (reports n)). entry_ok (rewrite_source fs r)))"

lemma fold_filter_subset: "set (fold (\<lambda>x ys. if q x ys then ys @ [f x] else ys) xs ys) \<subseteq> set ys \<union> f ` set xs"
proof (induction xs arbitrary: ys)
  case (Cons x xs)
  then show ?case using Cons.IH [of "ys @ [f x]"] Cons.IH [of ys] by auto
qed simp

lemma kernel_routes_subset: "set (kernel_routes n rs) \<subseteq> set rs"
proof -
  have "filter_route n = (\<lambda>r ys. if length ys < n \<and> \<not> martian_prefix (ke_prefix r) (ke_plen r) \<and>
      \<not> martian_prefix (ke_src_prefix r) (ke_src_plen r) then ys @ [id r] else ys)"
    by (auto simp: fun_eq_iff filter_route_def)
  then show ?thesis unfolding kernel_routes_def using fold_filter_subset [of _ id rs "[]"] by simp
qed

lemma kernel_addresses_subset: "set (kernel_addresses i ll n as) \<subseteq> address_route ` set as"
proof -
  have "filter_address i ll n = (\<lambda>a ys. if length ys < n \<and> ll = in6_is_addr_linklocal (ka_addr a) \<and>
      \<not> (i \<noteq> 0 \<and> ka_ifindex a \<noteq> i) then ys @ [address_route a] else ys)"
    by (auto simp: fun_eq_iff filter_address_def)
  then show ?thesis unfolding kernel_addresses_def using fold_filter_subset [of _ address_route as "[]"] by simp
qed

lemma address_route_ok: "length (ka_addr a) = 16 \<Longrightarrow> entry_ok (address_route a)"
  by (simp add: entry_ok_def address_route_def RTPROT_BABEL_LOCAL_def dest_ok_def zeroes_def)

lemma kernel_table_ok:
  assumes "reports_ok fs reports" "kernel_table n (reports k) = Some (as, rs)" "r \<in> set (as @ map (rewrite_source fs) rs)"
  shows "entry_ok r"
proof -
  have "as = kernel_addresses 0 False n (fst (reports k))" "rs = kernel_routes (n - length as) (snd (reports k))"
    using assms(2) by (auto simp: kernel_table_def Let_def split: if_splits)
  then have "r \<in> address_route ` set (fst (reports k)) \<union> rewrite_source fs ` set (snd (reports k))"
    using assms(3) kernel_addresses_subset kernel_routes_subset by fastforce
  then show ?thesis using assms(1) address_route_ok by (auto simp: reports_ok_def)
qed

lemma read_kernel_result:
  "read_kernel reports n b = ((x, m), c) \<Longrightarrow> 0 < n \<Longrightarrow>
   0 < m \<and> xroutes c = xroutes b \<and> maxxroutes c = maxxroutes b \<and> linked b c \<and>
   (holds (routing R W E) b \<longrightarrow> holds (routing R W E) c) \<and>
   (\<forall>as rs. x = Some (as, rs) \<longrightarrow> (\<exists>k. kernel_table m (reports k) = Some (as, rs)))"
proof (induction reports n b rule: read_kernel.induct)
  case (1 reports n b)
  obtain ok d where d: "c_alloc b = (ok, d)" by fastforce
  have f: "xroutes d = xroutes b" "maxxroutes d = maxxroutes b" using d xroute_frame(3,4) [of b] by simp_all
  have l: "linked b d" using linked_basic(2) [OF linked_start, of b] d by (simp add: returns_def)
  have r: "holds (routing R W E) b \<longrightarrow> holds (routing R W E) d"
    using routing_basic(1) [of R W E b] d by (simp add: returns_def holds_def)
  have result: "(if \<not> ok then ((None, n), d)
      else case kernel_table n (reports (ticks d)) of Some r \<Rightarrow> ((Some r, n), d)
        | None \<Rightarrow> if n \<ge> maxmaxroutes then ((None, n), d)
            else read_kernel reports (min maxmaxroutes (4 * n)) d) = ((x, m), c)"
    using "1.prems" d by (subst (asm) read_kernel.simps) simp
  show ?case
  proof (cases "ok \<and> kernel_table n (reports (ticks d)) = None \<and> \<not> n \<ge> maxmaxroutes")
    case True
    have pos: "0 < min maxmaxroutes (4 * n)" using "1.prems"(2) by (simp add: maxmaxroutes_def)
    have "read_kernel reports (min maxmaxroutes (4 * n)) d = ((x, m), c)" using result True by simp
    from "1.IH" [OF _ d [symmetric] _ _ _ this pos] True "1.prems"(2)
    have IH: "0 < m \<and> xroutes c = xroutes d \<and> maxxroutes c = maxxroutes d \<and> linked d c \<and>
       (holds (routing R W E) d \<longrightarrow> holds (routing R W E) c) \<and>
       (\<forall>as rs. x = Some (as, rs) \<longrightarrow> (\<exists>k. kernel_table m (reports k) = Some (as, rs)))" by auto
    moreover have "linked b c" using IH l linked_trans by blast
    ultimately show ?thesis using f r by simp
  next
    case False
    then have "c = d \<and> m = n \<and> (\<forall>as rs. x = Some (as, rs) \<longrightarrow> kernel_table n (reports (ticks d)) = Some (as, rs))"
      using result by (auto split: option.splits if_splits)
    then show ?thesis using f l r "1.prems"(2) by blast
  qed
qed

section \<open>The table of exported routes\<close>

lemma routing_xroutes:
  assumes b: "holds (routing R W E) b"
    and c: "rib c = rib b" "sources c = sources b" "conf c = conf b" "fault c = fault b" "env c = env b"
      "ifaces c = ifaces b" "nbrs c = nbrs b" "unicast c = unicast b" "resends c = resends b"
    and x: "\<And>x. x \<in> set (xroutes c) \<Longrightarrow> x \<notin> set (xroutes b) \<Longrightarrow>
      dest_ok (x_prefix x) (x_plen x) (x_src_prefix x) (x_src_plen x)"
  shows "holds (routing R W E) c"
proof -
  note d = routingD [OF b]
  have rs: "route_src c p = route_src b p" for p by (simp add: route_src_def c)
  have n: "network_ok b" using d(1) by (simp add: holds_def ready_def)
  then have "dest_ok (x_prefix x) (x_plen x) (x_src_prefix x) (x_src_plen x)" if "x \<in> set (xroutes c)" for x
    using x [OF that] by (cases "x \<in> set (xroutes b)") (auto simp: network_ok_def)
  then have "network_ok c" using n by (simp add: network_ok_def c rs)
  then have "ready c" using d(1) by (simp add: holds_def ready_def buffers_ok_def c)
  moreover have "tables_ok c" using d(2) by (simp add: tables_ok_def c)
  moreover have "counted E c" using d(3) by (simp add: counted_def users_def c)
  moreover have "steady c" using d(9) by (simp add: steady_def allocs_succeed_def c)
  moreover have "who c rt = who b rt" for rt by (simp add: who_def rs c)
  ultimately show ?thesis using d(5,6,11) by (simp add: holds_def routing_def c)
qed

lemma xroute_dest:
  "holds (routing R W E) b \<Longrightarrow> x \<in> set (xroutes b) \<Longrightarrow> dest_ok (x_prefix x) (x_plen x) (x_src_prefix x) (x_src_plen x)"
  by (simp add: holds_def routing_def ready_def network_ok_def)

lemma flush_xroute_frame:
  assumes "i < length (xroutes b)"
  shows "rib (flush_xroute i b) = rib b" "sources (flush_xroute i b) = sources b" "conf (flush_xroute i b) = conf b"
    "fault (flush_xroute i b) = fault b" "env (flush_xroute i b) = env b" "ifaces (flush_xroute i b) = ifaces b"
    "nbrs (flush_xroute i b) = nbrs b" "unicast (flush_xroute i b) = unicast b" "resends (flush_xroute i b) = resends b"
    "filters_of (flush_xroute i b) = filters_of b"
  using assms by (auto simp: flush_xroute_def Let_def c_assert_def emit_def c_alloc_def ask_def)

lemma flush_xroute_mset:
  assumes "i < length (xroutes b)"
  shows "mset (xroutes (flush_xroute i b)) = mset (xroutes b) - {#xroutes b ! i#}"
  using swap_last [OF assms] flush_xroute_cases(1) [OF assms] by simp

lemma routing_flush_xroute:
  assumes "holds (routing R W E) b" "i < length (xroutes b)"
  shows "holds (routing R W E) (flush_xroute i b)"
proof (rule routing_xroutes [OF assms(1) flush_xroute_frame(1-9) [OF assms(2)]])
  have "set (xroutes (flush_xroute i b)) \<subseteq> set (xroutes b)"
    using flush_xroute_mset [OF assms(2)] by (metis in_diffD set_mset_mset subsetI)
  then show "x \<in> set (xroutes (flush_xroute i b)) \<Longrightarrow> x \<notin> set (xroutes b) \<Longrightarrow>
      dest_ok (x_prefix x) (x_plen x) (x_src_prefix x) (x_src_plen x)" for x by blast
qed

section \<open>Removing\<close>

lemma retire_xroute_linked:
  "holds (linked (flush_xroute i b)) (retire_xroute send_updates i b)"
  unfolding retire_xroute_def Let_def by (intro inv_rules links linked_start)

lemma routing_retire_xroute:
  assumes "holds (routing R W E) b" "i < length (xroutes b)"
  shows "holds (routing R W E) (retire_xroute send_updates i b)"
proof -
  let ?x = "xroutes b ! i" and ?b = "flush_xroute i b"
  have b: "holds (routing R W E) ?b" by (rule routing_flush_xroute [OF assms])
  obtain best c where c: "find_best_route (x_prefix ?x) (x_plen ?x) (x_src_prefix ?x) (x_src_plen ?x) True None ?b = (best, c)"
    by fastforce
  have best: "\<And>rt. best = Some rt \<Longrightarrow> rt \<in> R" and rc: "holds (routing R W E) c"
    using routing_best [OF b, of "x_prefix ?x" "x_plen ?x" "x_src_prefix ?x" "x_src_plen ?x" True None] c
    by (simp_all add: returns_def holds_def)
  have "dest_ok (x_prefix ?x) (x_plen ?x) (x_src_prefix ?x) (x_src_plen ?x)"
    by (rule xroute_dest [OF assms(1)]) (simp add: assms(2))
  then show ?thesis
    unfolding retire_xroute_def Let_def c prod.case
    by (intro inv_rules routed rc) (auto intro: best)
qed

lemma xroutes_same:
  assumes "linked b c"
  shows "xroutes_ok c = xroutes_ok b" "xroute_map c = xroute_map b" "set (xroutes c) = set (xroutes b)"
    "filters_of c = filters_of b"
  using assms by (simp_all add: linked_def xroutes_ok_def xroute_map_def fun_eq_iff)

lemma retire_xroute_ok:
  assumes "xroutes_ok b" "i < length (xroutes b)"
  shows "xroutes_ok (retire_xroute send_updates i b)" "filters_of (retire_xroute send_updates i b) = filters_of b"
    "set (xroutes (retire_xroute send_updates i b)) \<subseteq> set (xroutes b)"
    "\<And>j. j < i \<Longrightarrow> xroutes (retire_xroute send_updates i b) ! j = xroutes b ! j"
proof -
  note l = xroutes_same [OF holdsD [OF retire_xroute_linked [where send_updates = send_updates and i = i and b = b]]]
  have "mset (xroutes (flush_xroute i b)) = mset (xroutes b) - {#xroutes b ! i#}" by (rule flush_xroute_mset [OF assms(2)])
  then have "set (xroutes (flush_xroute i b)) \<subseteq> set (xroutes b)" by (metis in_diffD set_mset_mset subsetI)
  then show "xroutes_ok (retire_xroute send_updates i b)" "filters_of (retire_xroute send_updates i b) = filters_of b"
    "set (xroutes (retire_xroute send_updates i b)) \<subseteq> set (xroutes b)"
    using flush_xroute_refines [OF assms] flush_xroute_frame(10) [OF assms(2)] by (simp_all add: l)
  show "xroutes (retire_xroute send_updates i b) ! j = xroutes b ! j" if "j < i" for j
    using that assms(2) by (simp add: retire_xroute_list)
qed

lemma retire_xroutes_ok:
  assumes "retire_xroutes send_updates table i change b = (change', c)" "holds (routing R W E) b" "xroutes_ok b"
    and "\<And>j. j < i \<Longrightarrow> j < length (xroutes b) \<Longrightarrow> still_exported (filters_of b) table (xroutes b ! j)"
  shows "holds (routing R W E) c \<and> xroutes_ok c \<and> filters_of c = filters_of b \<and>
    (\<forall>x \<in> set (xroutes c). still_exported (filters_of b) table x)"
  using assms
proof (induction send_updates table i change b rule: retire_xroutes.induct)
  case (1 send_updates table i change b)
  let ?b = "retire_xroute send_updates i b"
  note eq = "1.prems"(1) [unfolded retire_xroutes.simps [of send_updates table i change b]]
  show ?case
  proof (cases "i < length (xroutes b)")
    case False
    then have "c = b" using eq by simp
    then show ?thesis using "1.prems"(2-4) False by (fastforce simp: in_set_conv_nth)
  next
    case True
    show ?thesis
    proof (cases "still_exported (filters_of b) table (xroutes b ! i)")
      case keep: True
      have "still_exported (filters_of b) table (xroutes b ! j)" if "j < i + 1" "j < length (xroutes b)" for j
        using "1.prems"(4) [of j] that keep by (cases "j = i") auto
      then show ?thesis using "1.IH"(1) [OF _ keep _ "1.prems"(2,3)] True keep eq by simp
    next
      case drop: False
      note r = retire_xroute_ok [OF "1.prems"(3) True, where send_updates = send_updates]
      have len: "length (xroutes ?b) \<le> length (xroutes b)" using True by (simp add: retire_xroute_list)
      have "still_exported (filters_of ?b) table (xroutes ?b ! j)" if "j < i" "j < length (xroutes ?b)" for j
        using "1.prems"(4) [of j] that r(4) [of j] r(2) len by simp
      then show ?thesis
        using "1.IH"(2) [OF _ drop _ routing_retire_xroute [OF "1.prems"(2) True] r(1)] True drop eq by (simp add: r(2))
    qed
  qed
qed

section \<open>Adding\<close>

definition entry_key :: "kernel_entry \<Rightarrow> dest" where
  "entry_key r = xkey (ke_prefix r) (ke_plen r) (ke_src_prefix r) (ke_src_plen r)"

text \<open>Every exported route comes from the table, with a finite metric.\<close>

definition covered :: "kernel_entry list \<Rightarrow> babel \<Rightarrow> bool" where
  "covered table b \<longleftrightarrow>
     (\<forall>x \<in> set (xroutes b). x_metric x < INFINITY_METRIC \<and> (\<exists>r \<in> set table. same_kernel_route x r))"

text \<open>The entry is in the table unless the filters or its kind forbid it.\<close>

definition offered :: "filters \<Rightarrow> kernel_entry \<Rightarrow> bool" where
  "offered fs r \<longleftrightarrow> \<not> martian_prefix (ke_prefix r) (ke_plen r) \<and> export_metric fs r < INFINITY_METRIC"

definition exported :: "kernel_entry \<Rightarrow> babel \<Rightarrow> bool" where
  "exported r b \<longleftrightarrow> (\<exists>x. xroute_map b (entry_key r) = Some x \<and> x_metric x \<le> export_metric (filters_of b) r)"

definition improved :: "babel \<Rightarrow> babel \<Rightarrow> bool" where
  "improved b c \<longleftrightarrow>
     filters_of c = filters_of b \<and>
     (\<forall>k x. xroute_map b k = Some x \<longrightarrow> (\<exists>y. xroute_map c k = Some y \<and> x_metric y \<le> x_metric x))"

lemma improved_exported: "improved b c \<Longrightarrow> exported r b \<Longrightarrow> exported r c"
  unfolding improved_def exported_def by (metis order_trans)

lemma improved_trans: "improved a b \<Longrightarrow> improved b c \<Longrightarrow> improved a c"
  unfolding improved_def by (metis order_trans)

lemma add_xroute_frame:
  assumes "add_xroute prefix plen src_prefix src_plen metric ifindex proto b = (rc, c)"
  shows "rib c = rib b" "sources c = sources b" "conf c = conf b" "fault c = fault b" "env c = env b" "ifaces c = ifaces b"
    "nbrs c = nbrs b" "unicast c = unicast b" "resends c = resends b" "filters_of c = filters_of b"
  using assms by (auto simp: add_xroute_def Let_def append_xroute_def emit_def c_alloc_def ask_def split: option.splits if_splits)

lemma add_xroute_allocated:
  "allocs_succeed b \<Longrightarrow> fst (add_xroute prefix plen src_prefix src_plen metric ifindex proto b) \<noteq> -1"
  by (auto simp: add_xroute_def Let_def c_alloc_def ask_def allocs_succeed_def split: option.splits)

text \<open>What one entry does to the table of exported routes.\<close>

lemma add_entry_ok:
  assumes a: "add_xroute (ke_prefix r) (ke_plen r) (ke_src_prefix r) (ke_src_plen r) (export_metric (filters_of b) r)
      (ke_ifindex r) (int (ke_proto r)) b = (rc, c)"
    and ok: "xroutes_ok b" "allocs_succeed b" "entry_ok r" and m: "export_metric (filters_of b) r < INFINITY_METRIC"
  shows "xroutes_ok c" "improved b c" "exported r c"
    "\<And>y. y \<in> set (xroutes c) \<Longrightarrow> y \<notin> set (xroutes b) \<Longrightarrow> x_metric y < INFINITY_METRIC \<and>
       (same_kernel_route y r \<and> dest_ok (x_prefix y) (x_plen y) (x_src_prefix y) (x_src_plen y) \<or>
        (\<exists>x \<in> set (xroutes b). \<exists>m. y = x\<lparr>x_metric := m\<rparr>))"
proof -
  let ?m = "export_metric (filters_of b) r" and ?k = "entry_key r"
  let ?new = "new_xroute (ke_prefix r) (ke_plen r) (ke_src_prefix r) (ke_src_plen r) ?m (ke_ifindex r) (int (ke_proto r))"
  note f = add_xroute_frame(10) [OF a]
  have rc: "rc \<noteq> -1" using add_xroute_allocated [OF ok(2)] a by (metis fst_conv)
  note s = add_xroute_ok [OF ok(1) a, folded entry_key_def]
  from s show c: "xroutes_ok c" by blast
  have d: "dest_ok (ke_prefix r) (ke_plen r) (ke_src_prefix r) (ke_src_plen r)" "ke_proto r < 256"
    using ok(3) by (simp_all add: entry_ok_def)
  have new: "same_kernel_route ?new r" "x_metric ?new = ?m"
      "dest_ok (x_prefix ?new) (x_plen ?new) (x_src_prefix ?new) (x_src_plen ?new)"
    using d by (simp_all add: same_kernel_route_def new_xroute_def nat_mod_distrib dest_ok_def)
  show "improved b c"
    using s f rc by (auto simp: improved_def split: option.splits if_splits)
  show "exported r c"
    using s f rc new(2) by (auto simp: exported_def split: option.splits if_splits)
  fix y assume y: "y \<in> set (xroutes c)" "y \<notin> set (xroutes b)"
  show "x_metric y < INFINITY_METRIC \<and>
       (same_kernel_route y r \<and> dest_ok (x_prefix y) (x_plen y) (x_src_prefix y) (x_src_plen y) \<or>
        (\<exists>x \<in> set (xroutes b). \<exists>m. y = x\<lparr>x_metric := m\<rparr>))"
  proof (cases "xroute_map b ?k")
    case None
    then have "xroute_map c = (xroute_map b)(?k \<mapsto> ?new)" using s rc by simp
    then have "y = ?new"
      using y xroute_map_Some [OF c, of "xroute_key y" y] xroute_map_Some [OF ok(1), of "xroute_key y" y]
      by (simp split: if_splits)
    then show ?thesis using new m by auto
  next
    case (Some x)
    then have x: "x \<in> set (xroutes b)" using xroute_map_Some [OF ok(1)] by blast
    have "\<not> x_metric x \<le> ?m" using s Some y by auto
    then have "xroute_map c = (xroute_map b)(?k \<mapsto> x\<lparr>x_metric := ?m\<rparr>)" using s Some by simp
    then have "y = x\<lparr>x_metric := ?m\<rparr>"
      using y xroute_map_Some [OF c, of "xroute_key y" y] xroute_map_Some [OF ok(1), of "xroute_key y" y]
      by (simp split: if_splits)
    then show ?thesis using x m by auto
  qed
qed

lemma export_route_ok:
  assumes e: "export_route send_updates r (change, b) = (change', c)" and b: "holds (routing R W E) b"
    and ok: "xroutes_ok b" "entry_ok r" "r \<in> set table" "covered table b"
  shows "holds (routing R W E) c \<and> xroutes_ok c \<and> covered table c \<and> improved b c \<and>
    (offered (filters_of b) r \<longrightarrow> exported r c)"
proof (cases "offered (filters_of b) r")
  case False
  then have "c = b" using e by (auto simp: export_route_def offered_def Let_def split: if_splits)
  then show ?thesis using b ok False by (simp add: improved_def)
next
  case True
  then have m: "\<not> martian_prefix (ke_prefix r) (ke_plen r)" "export_metric (filters_of b) r < INFINITY_METRIC"
    by (simp_all add: offered_def)
  obtain rc d where a: "add_xroute (ke_prefix r) (ke_plen r) (ke_src_prefix r) (ke_src_plen r)
      (export_metric (filters_of b) r) (ke_ifindex r) (int (ke_proto r)) b = (rc, d)" by fastforce
  note s = add_entry_ok [OF a ok(1) routingD(4) [OF b] ok(2) m(2)] and f = add_xroute_frame [OF a]
  have dest: "dest_ok (ke_prefix r) (ke_plen r) (ke_src_prefix r) (ke_src_plen r)" using ok(2) by (simp add: entry_ok_def)
  have d: "holds (routing R W E) d"
  proof (rule routing_xroutes [OF b f(1-9)])
    fix y assume y: "y \<in> set (xroutes d)" "y \<notin> set (xroutes b)"
    then show "dest_ok (x_prefix y) (x_plen y) (x_src_prefix y) (x_src_plen y)"
      using s(4) [OF y] xroute_dest [OF b] by auto
  qed
  have cov: "covered table d"
    unfolding covered_def
  proof
    fix y assume y: "y \<in> set (xroutes d)"
    show "x_metric y < INFINITY_METRIC \<and> (\<exists>r \<in> set table. same_kernel_route y r)"
    proof (cases "y \<in> set (xroutes b)")
      case True
      then show ?thesis using ok(4) by (simp add: covered_def)
    next
      case False
      have "same_kernel_route (x\<lparr>x_metric := m\<rparr>) q = same_kernel_route x q" for x m q by (simp add: same_kernel_route_def)
      then show ?thesis using s(4) [OF y False] ok(3,4) unfolding covered_def by metis
    qed
  qed
  let ?inst = "\<lambda>b. case find_installed (ke_prefix r) (ke_plen r) (ke_src_prefix r) (ke_src_plen r) b of None \<Rightarrow> b
    | Some rt \<Rightarrow> if allow_duplicates (conf b) < 0 \<or> ke_metric r < allow_duplicates (conf b) then uninstall_route rt b else b"
  let ?send = "\<lambda>b. if send_updates
    then send_update None False (Some (ke_prefix r)) (ke_plen r) (Some (ke_src_prefix r)) (ke_src_plen r) b else b"
  have c: "c = d \<or> c = ?send (?inst d)"
    using e m a by (simp add: export_route_def Let_def split: if_splits)
  have "holds (linked d) (?send (?inst d))" by (intro inv_rules links linked_start)
  moreover have "holds (routing R W E) (?send (?inst d))" by (intro inv_rules routed d dest)
  ultimately have l: "linked d c" and rc: "holds (routing R W E) c" using c d by (auto simp: holds_def)
  note x = xroutes_same [OF l]
  show ?thesis
    using rc s(1-3) cov f(10) by (simp add: x improved_def exported_def covered_def)
qed

lemma export_routes_ok:
  assumes "fold (export_route send_updates) rs (change, b) = (change', c)" "holds (routing R W E) b"
    and "xroutes_ok b" "\<And>r. r \<in> set rs \<Longrightarrow> entry_ok r" "set rs \<subseteq> set table" "covered table b"
  shows "holds (routing R W E) c \<and> xroutes_ok c \<and> covered table c \<and> improved b c \<and>
    (\<forall>r \<in> set rs. offered (filters_of b) r \<longrightarrow> exported r c)"
  using assms
proof (induction rs arbitrary: change b)
  case Nil
  then show ?case by (simp add: improved_def)
next
  case (Cons r rs)
  obtain ch d where d: "export_route send_updates r (change, b) = (ch, d)" by fastforce
  have step: "holds (routing R W E) d \<and> xroutes_ok d \<and> covered table d \<and> improved b d \<and>
      (offered (filters_of b) r \<longrightarrow> exported r d)"
    by (rule export_route_ok [OF d Cons.prems(2,3)]) (use Cons.prems(4-6) in auto)
  have "fold (export_route send_updates) rs (ch, d) = (change', c)" using Cons.prems(1) d by simp
  then have rest: "holds (routing R W E) c \<and> xroutes_ok c \<and> covered table c \<and> improved d c \<and>
      (\<forall>r \<in> set rs. offered (filters_of d) r \<longrightarrow> exported r c)"
    using Cons.IH [of ch d] step Cons.prems(4,5) by simp
  have f: "filters_of d = filters_of b" using step by (simp add: improved_def)
  have "exported r c" if "offered (filters_of b) r"
    by (rule improved_exported [of d]) (use step rest that in blast)+
  moreover have "improved b c" by (rule improved_trans [of b d]) (use step rest in blast)+
  ultimately show ?case using rest f by simp
qed

section \<open>The claim\<close>

lemma check_xroutes_ok:
  assumes "daemon_ok b" "xroutes_ok b" "reports_ok (filters_of b) reports" "0 < maxroutes"
    and "check_xroutes reports send_updates maxroutes b = ((rc, maxroutes'), c)"
  shows "holds (routing (rib_routes (rib b)) (who b) (held_now b)) c \<and> xroutes_ok c \<and> 0 < maxroutes' \<and>
    (rc = -1 \<and> xroutes c = xroutes b \<or>
     (\<exists>n k as rs. kernel_table n (reports k) = Some (as, rs) \<and>
        (let table = as @ map (rewrite_source (filters_of b)) rs in
           covered table c \<and> (\<forall>r \<in> set table. offered (filters_of b) r \<longrightarrow> exported r c))))"
proof -
  have b: "holds (routing (rib_routes (rib b)) (who b) (held_now b)) b" using assms(1) by (simp add: daemon_ok_routing)
  obtain x m d where d: "read_kernel reports maxroutes b = ((x, m), d)" by (metis surj_pair)
  note r = read_kernel_result [OF d assms(4), of "rib_routes (rib b)" "who b" "held_now b"]
  have rd: "holds (routing (rib_routes (rib b)) (who b) (held_now b)) d" using r b by blast
  have xd: "xroutes_ok d" "filters_of d = filters_of b" using r assms(2) by (auto simp: xroutes_ok_def linked_def)
  show ?thesis
  proof (cases x)
    case None
    then have "c = d" "rc = -1" "maxroutes' = m" using assms(5) d by (simp_all add: check_xroutes_def)
    then show ?thesis using r xd rd by simp
  next
    case (Some p)
    obtain as rs where p: "p = (as, rs)" by fastforce
    define table where "table = as @ map (rewrite_source (filters_of b)) rs"
    obtain k where k: "kernel_table m (reports k) = Some (as, rs)" using r Some p by blast
    have entries: "entry_ok q" if "q \<in> set table" for q
      using kernel_table_ok [OF assms(3) k] that by (simp add: table_def)
    obtain ch e where e: "retire_xroutes send_updates table 0 False d = (ch, e)" by fastforce
    obtain ch' f where f: "fold (export_route send_updates) table (ch, e) = (ch', f)" by fastforce
    have cf: "c = f" "0 < maxroutes'"
      using assms(5) d Some p e f by (simp_all add: check_xroutes_def Let_def xd table_def maxmaxroutes_def)
        (auto simp: maxmaxroutes_def)
    have re: "holds (routing (rib_routes (rib b)) (who b) (held_now b)) e \<and> xroutes_ok e \<and> filters_of e = filters_of d \<and>
        (\<forall>x \<in> set (xroutes e). still_exported (filters_of d) table x)"
      by (rule retire_xroutes_ok [OF e rd xd(1)]) simp
    have "covered table e"
      using re by (auto simp: covered_def still_exported_def list_ex_iff)
    then have "holds (routing (rib_routes (rib b)) (who b) (held_now b)) f \<and> xroutes_ok f \<and> covered table f \<and> improved e f \<and>
        (\<forall>q \<in> set table. offered (filters_of e) q \<longrightarrow> exported q f)"
      using export_routes_ok [OF f _ _ entries subset_refl] re by blast
    then have f: "holds (routing (rib_routes (rib b)) (who b) (held_now b)) c" "xroutes_ok c" "covered table c"
      "\<forall>q \<in> set table. offered (filters_of b) q \<longrightarrow> exported q c"
      using re xd(2) cf(1) by simp_all
    show ?thesis
      using k f cf(2) unfolding table_def Let_def by blast
  qed
qed


text \<open>The kernel of a router with one address, on interface 3.\<close>

definition one_address :: kernel_reports where
  "one_address = (\<lambda>n. ([\<lparr>ka_addr = 0xfd # replicate 14 0 @ [1], ka_ifindex = 3\<rparr>], []))"


end
