(* ===== verification/Interface.thy ===== *)
theory Interface
  imports Xroute_Check Receive
begin

text \<open>
  The interfaces of \<open>interface.c\<close>: adding and removing them, what \<open>interface_up\<close> configures,
  and the periodic check of their addresses.  The results of system calls are answers of the
  environment, except for those that a claim has to say something about: they are the parameter
  \<open>sys\<close>, which gives, at a tick, the addresses and routes that the kernel reports (see theory
  \<open>Xroute_Check\<close>), the index of an interface name and the MTU of an interface.

  The size of the receive buffer is not modelled, so neither is \<open>resize_receive_buffer\<close>; nor
  is the list of configurations that \<open>flush_ifconf\<close> keeps.
\<close>

record system =
  sys_reports :: kernel_reports
  if_nametoindex :: "nat \<Rightarrow> string \<Rightarrow> nat"
  kernel_interface_mtu :: "nat \<Rightarrow> string \<Rightarrow> int"

section \<open>The list\<close>

definition find_interface :: "string \<Rightarrow> babel \<Rightarrow> ptr option" where
  "find_interface ifname b = find (\<lambda>p. i_name (iface b p) = ifname) (interfaces (ifaces b))"

definition new_interface :: "string \<Rightarrow> interface_conf option \<Rightarrow> int \<Rightarrow> int \<Rightarrow> interface" where
  "new_interface ifname if_conf random now_sec =
     interface_zero\<lparr>i_name := take 16 ifname, i_conf := if_conf, i_bucket_time := now_sec,
       i_bucket := BUCKET_TOKENS_MAX, i_hello_seqno := word_of_int random\<rparr>"

definition insert_interface :: "interface \<Rightarrow> interface_table \<Rightarrow> interface_table" where
  "insert_interface i t =
     t\<lparr>i_heap := (i_heap t)(i_fresh t := i), interfaces := interfaces t @ [i_fresh t], i_fresh := i_fresh t + 1\<rparr>"

definition add_interface ::
  "string \<Rightarrow> interface_conf option \<Rightarrow> interface_conf option \<Rightarrow> babel \<Rightarrow> ptr option \<times> babel" where
  "add_interface ifname if_conf default_conf b =
     (case find_interface ifname b of
        Some p \<Rightarrow> (Some p, b)
      | None \<Rightarrow>
          case c_alloc b of (ok, b) \<Rightarrow>
            if \<not> ok then (None, b)
            else case c_random b of (r, b) \<Rightarrow>
              let p = i_fresh (ifaces b);
                  i = new_interface ifname (if if_conf = None then default_conf else if_conf) r (tv_sec (now b));
                  b = b\<lparr>ifaces := insert_interface i (ifaces b)\<rparr>
              in (Some p, emit (Notify_interface LOCAL_ADD p) b))"

section \<open>The configuration of an interface\<close>

definition if_conf :: "(interface_conf \<Rightarrow> int) \<Rightarrow> interface \<Rightarrow> int" where
  "if_conf f i = (case i_conf i of None \<Rightarrow> 0 | Some c \<Rightarrow> f c)"

definition put_flag :: "u16 \<Rightarrow> bool \<Rightarrow> interface \<Rightarrow> interface" where
  "put_flag f on i = i\<lparr>i_flags := (if on then i_flags i OR f else i_flags i AND NOT f)\<rparr>"

text \<open>A flag that the configuration sets or clears, or that depends on the type.\<close>

definition conf_flag :: "u16 \<Rightarrow> int \<Rightarrow> bool \<Rightarrow> interface \<Rightarrow> interface" where
  "conf_flag f setting auto i =
     put_flag f (if setting = CONFIG_YES then True else if setting = CONFIG_NO then False else auto) i"

definition interface_type :: "ptr \<Rightarrow> babel \<Rightarrow> int \<times> babel" where
  "interface_type ifp b =
     (let type = if_conf c_type (iface b ifp) in
      if type \<noteq> IF_TYPE_DEFAULT then (type, b)
      else if all_wireless (conf b) then (IF_TYPE_WIRELESS, b)
      else case ask b of (rc, b) \<Rightarrow> (if rc > 0 then IF_TYPE_WIRELESS else type, b))"

definition configure_flags :: "int \<Rightarrow> interface \<Rightarrow> interface" where
  "configure_flags type i =
     (let i = put_flag IF_WIRELESS (type = IF_TYPE_WIRELESS) i;
          i = conf_flag IF_SPLIT_HORIZON (if_conf c_split_horizon i) (type = IF_TYPE_WIRED) i;
          i = conf_flag IF_LQ (if_conf c_lq i) (type = IF_TYPE_WIRELESS) i;
          i = (if if_conf c_faraway i = CONFIG_YES then put_flag IF_FARAWAY True i else i)
      in conf_flag IF_TIMESTAMPS (if_conf c_enable_timestamps i) True i)"

definition configure_intervals :: "int \<Rightarrow> int \<Rightarrow> int \<Rightarrow> interface \<Rightarrow> interface" where
  "configure_intervals type wireless_hello wired_hello i =
     (let hello = (if if_conf c_hello_interval i > 0 then if_conf c_hello_interval i
                   else if type = IF_TYPE_WIRELESS then wireless_hello else wired_hello)
      in i\<lparr>i_hello_interval := hello,
           i_update_interval := (if if_conf c_update_interval i > 0 then if_conf c_update_interval i
                                 else (hello * 4) mod 4294967296)\<rparr>)"

definition configure_rtt :: "int \<Rightarrow> interface \<Rightarrow> interface" where
  "configure_rtt type i =
     (let rtt_min = (if if_conf c_rtt_min i > 0 then if_conf c_rtt_min i else 10000);
          rtt_max = (if if_conf c_rtt_max i > 0 then if_conf c_rtt_max i else 120000);
          penalty = if_conf c_max_rtt_penalty i
      in i\<lparr>i_rtt_decay := (if if_conf c_rtt_decay i > 0 then if_conf c_rtt_decay i else 42),
           i_rtt_min := rtt_min,
           i_rtt_max := (if rtt_max \<le> rtt_min then (rtt_min + 10000) mod 4294967296 else rtt_max),
           i_max_rtt_penalty := (if penalty = 0 \<and> type = IF_TYPE_TUNNEL then 96 else penalty)\<rparr>)"

definition configure_interface :: "int \<Rightarrow> config \<Rightarrow> interface \<Rightarrow> interface" where
  "configure_interface type cf i =
     (let cost = if_conf c_cost i;
          i = configure_flags type (i\<lparr>i_cost := (if cost \<le> 0 then if type = IF_TYPE_WIRELESS then 256 else 96 else cost)\<rparr>)
      in configure_rtt type
           (configure_intervals type (default_wireless_hello_interval cf) (default_wired_hello_interval cf) i))"

section \<open>Addresses and channels\<close>

text \<open>\<open>check_interface_ipv4\<close>: what the kernel answers is a result code and four bytes.\<close>

definition kernel_interface_ipv4 :: "ptr \<Rightarrow> babel \<Rightarrow> (int \<times> byte list) \<times> babel" where
  "kernel_interface_ipv4 ifp b =
     (if i_ifindex (iface b ifp) > 0 then
        (case ask b of (rc, b) \<Rightarrow> case stale_bytes 4 b of (a, b) \<Rightarrow> ((rc, a), b))
      else ((0, []), b))"

definition check_interface_ipv4 :: "ptr \<Rightarrow> babel \<Rightarrow> int \<times> babel" where
  "check_interface_ipv4 ifp b =
     (case kernel_interface_ipv4 ifp b of ((rc, ipv4), b) \<Rightarrow>
        if rc > 0 then
          if i_ipv4 (iface b ifp) = Some ipv4 then (0, b)
          else
            let b = flush_interface_routes ifp False b in
            (case (if i_ipv4 (iface b ifp) = None then c_alloc b else (True, b)) of (ok, b) \<Rightarrow>
               let b = (if ok then upd_iface ifp (\<lambda>i. i\<lparr>i_ipv4 := Some ipv4\<rparr>) b else b)
               in (1, emit (Notify_interface LOCAL_CHANGE ifp) b))
        else if i_ipv4 (iface b ifp) = None then (0, b)
        else
          let b = flush_interface_routes ifp False b;
              b = upd_iface ifp (\<lambda>i. i\<lparr>i_ipv4 := None\<rparr>) b
          in (1, emit (Notify_interface LOCAL_CHANGE ifp) b))"

text \<open>
  \<open>freq_to_chan\<close> of \<open>kernel_netlink.c\<close>, for a frequency of \<open>m\<close> times \<open>10 ^ e\<close> Hz.  The products are
  computed in an \<open>int\<close> and wrap when \<open>e\<close> is 0 (\<open>2412 * 1000000\<close> is more than \<open>2 ^ 31\<close>).
\<close>

definition freq_to_chan :: "int \<Rightarrow> int \<Rightarrow> int" where
  "freq_to_chan m e =
     (if e = 0 \<and> 0 < m \<and> m < 254 then m
      else if e \<le> 6 then
        let mega = ((\<lambda>x. x sdiv 10) ^^ nat e) 1000000;
            step = 5 * mega;
            c = to_int (1 + to_int (to_int (m - to_int (2412 * mega)) + step sdiv 2) sdiv step)
        in
        if 1 \<le> c \<and> c \<le> 13 then c
        else if 14 \<le> c \<and> m < to_int (to_int (2484 * mega) + step sdiv 2) then 14
        else
          let c = to_int (36 + to_int (to_int (m - to_int (5180 * mega)) + step sdiv 2) sdiv step)
          in if 34 \<le> c \<and> c \<le> 165 then c else -1
      else -1)"

definition kernel_interface_channel :: "babel \<Rightarrow> int \<times> babel" where
  "kernel_interface_channel b =
     (case ask b of (rc, b) \<Rightarrow>
        if rc < 0 then (-1, b)
        else case ask b of (m, b) \<Rightarrow>
          case ask b of (e, b) \<Rightarrow>
            (freq_to_chan (to_int m) (sint (word_of_int e :: u16)), b))"

definition check_interface_channel :: "ptr \<Rightarrow> babel \<Rightarrow> int \<times> babel" where
  "check_interface_channel ifp b =
     (let i = iface b ifp; wireless = if_flag IF_WIRELESS i; channel = if_conf c_channel i in
      case (if channel = IF_CHANNEL_UNKNOWN then kernel_interface_channel b else (channel, b)) of (channel, b) \<Rightarrow>
        let lost = (if_conf c_channel i = IF_CHANNEL_UNKNOWN \<and> channel < 0);
            channel = (if lost then if wireless then IF_CHANNEL_INTERFERING else IF_CHANNEL_NONINTERFERING else channel)
        in if i_channel i \<noteq> channel
           then (if lost \<and> wireless then -1 else 1, upd_iface ifp (\<lambda>i. i\<lparr>i_channel := channel\<rparr>) b)
           else (0, b))"

definition lose_link_local :: "ptr \<Rightarrow> babel \<Rightarrow> babel" where
  "lose_link_local ifp b =
     (let b = upd_iface ifp (\<lambda>i. i\<lparr>i_ll := []\<rparr>) b;
          b = (if i_ipv4 (iface b ifp) \<noteq> None
               then upd_iface ifp (\<lambda>i. i\<lparr>i_ipv4 := None\<rparr>) (flush_interface_routes ifp False b) else b);
          b = upd_iface ifp (put_flag IF_UP False) b;
          b = emit (Notify_interface LOCAL_CHANGE ifp) b
      in schedule_interfaces_check 2000 False b)"

definition check_link_local_addresses :: "system \<Rightarrow> ptr \<Rightarrow> babel \<Rightarrow> int \<times> babel" where
  "check_link_local_addresses sys ifp b =
     (let ll = map ke_prefix (kernel_addresses (i_ifindex (iface b ifp)) True 32 (fst (sys_reports sys (ticks b)))) in
      if ll = [] then (-1, lose_link_local ifp b)
      else if length ll = length (i_ll (iface b ifp)) \<and> list_all2 (\<lambda>x y. v6_nequal x y = 0) (i_ll (iface b ifp)) ll
      then (0, b)
      else case c_alloc b of (ok, b) \<Rightarrow>
        let b = upd_iface ifp (\<lambda>i. i\<lparr>i_ll := (if ok then ll else [])\<rparr>) b
        in (0, emit (Notify_interface LOCAL_CHANGE ifp) b))"

section \<open>Up and down\<close>

definition reset_buffers :: "interface \<Rightarrow> interface" where
  "reset_buffers i = i\<lparr>i_sendbuf := [], i_bufsize := 0, i_buffered_updates := [], i_update_bufsize := 0\<rparr>"

text \<open>The two last answers are those of \<open>setsockopt\<close> and \<open>kernel_setup_interface\<close>.\<close>

definition interface_down :: "ptr \<Rightarrow> babel \<Rightarrow> babel" where
  "interface_down ifp b =
     (let b = flush_interface_routes ifp False b;
          b = upd_iface ifp reset_buffers b;
          b = (if i_ifindex (iface b ifp) > 0 then snd (ask (snd (ask b))) else b);
          b = upd_iface ifp (\<lambda>i. i\<lparr>i_ll := []\<rparr>) b
      in emit (Notify_interface LOCAL_CHANGE ifp) b)"

definition mtu_of :: "int \<Rightarrow> int" where
  "mtu_of answer = (let mtu = (if answer < 0 then 1280 else answer) in if mtu < 128 then 128 else mtu)"

text \<open>
  A fresh send buffer.  \<open>buffered\<close> is not reset, so what counts as used is whatever the memory
  holds (nothing, unless the interface lost its link-local address while messages were waiting).
\<close>

definition open_buffer :: "system \<Rightarrow> ptr \<Rightarrow> babel \<Rightarrow> bool \<times> babel" where
  "open_buffer sys ifp b =
     (let mtu = mtu_of (kernel_interface_mtu sys (ticks b) (i_name (iface b ifp))) in
      case c_alloc b of (ok, b) \<Rightarrow>
      case stale_bytes (length (i_sendbuf (iface b ifp))) b of (xs, b) \<Rightarrow>
        (ok, upd_iface ifp (\<lambda>i. i\<lparr>i_sendbuf := xs, i_bufsize := (if ok then mtu - 64 else 0)\<rparr>) b))"

text \<open>
  The last part of bringing an interface up, from the addresses on; \<open>False\<close> is a \<open>goto fail\<close>.
  Nothing follows a walk that was given up.
\<close>

definition start_interface :: "ptr \<Rightarrow> babel \<Rightarrow> babel" where
  "start_interface ifp b =
     (let b = snd (check_interface_channel ifp b);
          b = update_interface_metric ifp b
      in if fault b \<noteq> None then b
         else case check_interface_ipv4 ifp b of (rc, b) \<Rightarrow>
           case set_timeout (i_hello_interval (iface b ifp)) b of (hello, b) \<Rightarrow>
             let b = upd_iface ifp (\<lambda>i. i\<lparr>i_hello_timeout := hello\<rparr>) b in
             case set_timeout (i_update_interval (iface b ifp)) b of (update, b) \<Rightarrow>
               let b = upd_iface ifp (\<lambda>i. i\<lparr>i_update_timeout := update\<rparr>) b;
                   b = send_hello ifp b;
                   b = (if rc > 0 then send_update (Some ifp) False None 0 None 0 b else b)
               in send_request (Some ifp) None 0 None 0 b)"

definition open_interface :: "system \<Rightarrow> ptr \<Rightarrow> babel \<Rightarrow> bool \<times> babel" where
  "open_interface sys ifp b =
     (if i_ifindex (iface b ifp) = 0 then (False, b)
      else case ask b of (rc, b) \<Rightarrow>
        if rc < 0 then (False, b)
        else case open_buffer sys ifp b of (ok, b) \<Rightarrow>
          if \<not> ok then (False, b)
          else case interface_type ifp b of (type, b) \<Rightarrow>
            let b = upd_iface ifp (configure_interface type (conf b)) b in
            case check_link_local_addresses sys ifp b of (rc, b) \<Rightarrow>
              if rc < 0 then (False, b)
              else case ask b of (rc, b) \<Rightarrow>
                if rc < 0 then (False, b) else (True, start_interface ifp b))"

text \<open>On failure the function calls itself to take the interface down, if it is still up.\<close>

definition interface_up :: "system \<Rightarrow> ptr \<Rightarrow> bool \<Rightarrow> babel \<Rightarrow> int \<times> babel" where
  "interface_up sys ifp up b =
     (if up = if_up (iface b ifp) then (0, b)
      else
        let b = upd_iface ifp (put_flag IF_UP up) b in
        if \<not> up then (1, interface_down ifp b)
        else case open_interface sys ifp b of (ok, b) \<Rightarrow>
          if ok then (1, emit (Notify_interface LOCAL_CHANGE ifp) b)
          else
            let b = (if if_up (iface b ifp) then interface_down ifp (upd_iface ifp (put_flag IF_UP False) b) else b)
            in (-1, emit (Notify_interface LOCAL_CHANGE ifp) b))"

definition flush_interface :: "system \<Rightarrow> string \<Rightarrow> babel \<Rightarrow> int \<times> babel" where
  "flush_interface sys ifname b =
     (case find_interface ifname b of
        None \<Rightarrow> (0, b)
      | Some p \<Rightarrow>
          let b = snd (interface_up sys p False b);
              b = b\<lparr>ifaces := (ifaces b)\<lparr>interfaces := remove1 p (interfaces (ifaces b))\<rparr>\<rparr>;
              b = emit (Notify_interface LOCAL_FLUSH p) b
          in (1, emit (Notify_interface LOCAL_FLUSH p) b))"

section \<open>The periodic check\<close>

definition renumber_interface ::
  "system \<Rightarrow> nat \<Rightarrow> ptr \<Rightarrow> babel \<Rightarrow> bool \<times> babel" where
  "renumber_interface sys ifindex ifp b =
     (if ifindex = i_ifindex (iface b ifp) then (False, b)
      else
        let b = upd_iface ifp (\<lambda>i. i\<lparr>i_ifindex := 0\<rparr>) b;
            b = snd (interface_up sys ifp False b)
        in (True, upd_iface ifp (\<lambda>i. i\<lparr>i_ifindex := ifindex\<rparr>) b))"

text \<open>Nothing follows when bringing the interface up gave up a walk over the routes.\<close>

definition check_interface ::
  "system \<Rightarrow> ptr \<Rightarrow> bool \<times> babel \<Rightarrow> bool \<times> babel" where
  "check_interface sys ifp = (\<lambda>(renumbered, b).
     if fault b \<noteq> None then (renumbered, b)
     else case renumber_interface sys (if_nametoindex sys (ticks b) (i_name (iface b ifp))) ifp b of (changed, b) \<Rightarrow>
       case (if i_ifindex (iface b ifp) > 0 then ask b else (0, b)) of (rc, b) \<Rightarrow>
         let b = snd (interface_up sys ifp (rc > 0) b) in
         if fault b \<noteq> None \<or> \<not> if_up (iface b ifp) then (renumbered \<or> changed, b)
         else
           let b = snd (check_link_local_addresses sys ifp b);
               b = snd (check_interface_channel ifp b) in
           case check_interface_ipv4 ifp b of (rc, b) \<Rightarrow>
             (renumbered \<or> changed,
              if rc > 0 then send_update (Some ifp) False None 0 None 0 (send_request (Some ifp) None 0 None 0 b) else b))"

definition check_interfaces :: "system \<Rightarrow> babel \<Rightarrow> babel" where
  "check_interfaces sys b =
     (case fold (check_interface sys) (interfaces (ifaces b)) (False, b) of (renumbered, b) \<Rightarrow>
        if renumbered then b\<lparr>filters_of := renumber_filters (if_nametoindex sys (ticks b)) (filters_of b)\<rparr> else b)"

end
