(* ===== verification/Main_Loop.thy ===== *)
theory Main_Loop
  imports Interface
begin

text \<open>
  The main loop of \<open>babeld.c\<close>, from the first check of the interfaces to the end of the program:
  what is done at start, one turn of the loop, and the shutdown.

  What a turn finds at its sockets is its input: the changes that the kernel notifies, a packet,
  and whether a signal asked for the log file to be reopened.  What local clients send is not
  modelled.  A walk over the routes that was given up ends the program here (\<open>daemon_step\<close>).
\<close>

section \<open>Notifications of the kernel\<close>

record kernel_changes =
  kernel_routes_changed :: bool
  kernel_rules_changed :: bool
  kernel_link_changed :: bool
  kernel_addr_changed :: bool

datatype kernel_notice = Route_notice | Addr_notice | Link_notice string | Rule_notice kernel_rule

definition kernel_route_notify :: "kernel_changes \<Rightarrow> int \<times> kernel_changes" where
  "kernel_route_notify ch = (-1, ch\<lparr>kernel_routes_changed := True\<rparr>)"

definition kernel_addr_notify :: "kernel_changes \<Rightarrow> int \<times> kernel_changes" where
  "kernel_addr_notify ch = (-1, ch\<lparr>kernel_addr_changed := True\<rparr>)"

definition kernel_link_notify :: "string \<Rightarrow> babel \<Rightarrow> kernel_changes \<Rightarrow> int \<times> kernel_changes" where
  "kernel_link_notify ifname b ch =
     (if find_interface ifname b \<noteq> None then (-1, ch\<lparr>kernel_link_changed := True\<rparr>) else (0, ch))"

definition kernel_rule_notify :: "kernel_rule \<Rightarrow> kernel_changes \<Rightarrow> int \<times> kernel_changes" where
  "kernel_rule_notify r ch =
     (let i = int (kr_priority r) - int src_table_prio in
      if martian_prefix (kr_src r) (kr_src_plen r) then (0, ch)
      else if i < 0 \<or> int SRC_TABLE_NUM \<le> i then (0, ch)
      else (-1, ch\<lparr>kernel_rules_changed := True\<rparr>))"

definition kernel_notify :: "babel \<Rightarrow> kernel_notice \<Rightarrow> kernel_changes \<Rightarrow> kernel_changes" where
  "kernel_notify b n ch =
     snd (case n of
            Route_notice \<Rightarrow> kernel_route_notify ch
          | Addr_notice \<Rightarrow> kernel_addr_notify ch
          | Link_notice ifname \<Rightarrow> kernel_link_notify ifname b ch
          | Rule_notice r \<Rightarrow> kernel_rule_notify r ch)"

section \<open>The state of the loop\<close>

record main_state =
  daemon :: babel
  changes :: kernel_changes
  expiry_time :: int
  source_expiry_time :: int
  kernel_dump_time :: int
  maxroutes :: nat

record main_input =
  notices :: "kernel_notice list"
  received :: "(byte list \<times> nat \<times> memory \<times> int) option"
  reopening :: bool
  kernel_socket :: bool
  reported_rules :: "kernel_rule list"

definition daemon_step :: "(babel \<Rightarrow> babel) \<Rightarrow> main_state \<Rightarrow> main_state" where
  "daemon_step f s = (if fault (daemon s) \<noteq> None then s else s\<lparr>daemon := f (daemon s)\<rparr>)"

text \<open>\<open>now.tv_sec + roughly(secs)\<close>\<close>

definition roughly_from_now :: "int \<Rightarrow> babel \<Rightarrow> int \<times> babel" where
  "roughly_from_now secs b = (case c_roughly secs b of (r, b) \<Rightarrow> (tv_sec (now b) + r, b))"

definition up_interfaces :: "babel \<Rightarrow> ptr list" where
  "up_interfaces b = filter (\<lambda>p. if_up (iface b p)) (interfaces (ifaces b))"

text \<open>\<open>FOR_ALL_INTERFACES\<close>, leaving out those that are not up when their turn comes.\<close>

definition for_up_interfaces :: "(ptr \<Rightarrow> babel \<Rightarrow> babel) \<Rightarrow> babel \<Rightarrow> babel" where
  "for_up_interfaces f b = fold (\<lambda>p b. if \<not> if_up (iface b p) then b else f p b) (interfaces (ifaces b)) b"

section \<open>When to wake up\<close>

definition c_timeval_min_sec :: "timeval \<Rightarrow> int \<Rightarrow> babel \<Rightarrow> timeval \<times> babel" where
  "c_timeval_min_sec d secs b =
     (if tv_sec d = 0 \<or> secs < tv_sec d then (case c_random b of (r, b) \<Rightarrow> (timeval_min_sec r d secs, b))
      else (d, b))"

definition interface_timers :: "interface \<Rightarrow> timeval list" where
  "interface_timers i = [i_flush_timeout i, i_hello_timeout i, i_update_timeout i, i_update_flush_timeout i]"

definition next_deadline :: "main_state \<Rightarrow> timeval \<times> main_state" where
  "next_deadline s =
     (let b = daemon s;
          tv = timeval_min (check_neighbours_timeout b) (check_interfaces_timeout b) in
      case c_timeval_min_sec tv (expiry_time s) b of (tv, b) \<Rightarrow>
      case c_timeval_min_sec tv (source_expiry_time s) b of (tv, b) \<Rightarrow>
      case c_timeval_min_sec tv (kernel_dump_time s) b of (tv, b) \<Rightarrow>
        let tv = timeval_min tv (resend_time (resends b));
            tv = fold (\<lambda>p tv. fold (\<lambda>t d. timeval_min d t) (interface_timers (iface b p)) tv) (up_interfaces b) tv;
            tv = timeval_min tv (unicast_flush_timeout (unicast b))
        in (tv, s\<lparr>daemon := b\<rparr>))"

section \<open>The steps of a turn\<close>

definition receive_step :: "(byte list \<times> nat \<times> memory \<times> int) option \<Rightarrow> babel \<Rightarrow> babel" where
  "receive_step packet b =
     (case packet of
        None \<Rightarrow> b
      | Some (sender, scope, m, len) \<Rightarrow>
          if len < 0 then b
          else case find (\<lambda>p. i_ifindex (iface b p) = scope) (up_interfaces b) of
            None \<Rightarrow> b
          | Some p \<Rightarrow> parse_packet sender p m len b)"

definition reopen_step :: "bool \<Rightarrow> main_state \<Rightarrow> main_state" where
  "reopen_step asked s =
     (if \<not> asked then s
      else s\<lparr>kernel_dump_time := tv_sec (now (daemon s)), expiry_time := tv_sec (now (daemon s)),
             daemon := (daemon s)\<lparr>check_neighbours_timeout := now (daemon s)\<rparr>\<rparr>)"

definition link_step :: "system \<Rightarrow> main_state \<Rightarrow> main_state" where
  "link_step sys s =
     (if kernel_link_changed (changes s) \<or> kernel_addr_changed (changes s)
      then (daemon_step (check_interfaces sys) s)\<lparr>changes := (changes s)\<lparr>kernel_link_changed := False\<rparr>\<rparr>
      else s)"

definition table_step :: "system \<Rightarrow> bool \<Rightarrow> main_state \<Rightarrow> main_state" where
  "table_step sys send_updates s =
     (if fault (daemon s) \<noteq> None then s
      else case check_xroutes (sys_reports sys) send_updates (maxroutes s) (daemon s) of ((rc, n), b) \<Rightarrow>
        s\<lparr>daemon := b, maxroutes := n\<rparr>)"

text \<open>At most \<open>fuel\<close> rules of one priority are deleted (see \<open>check_rules\<close>).\<close>

definition kernel_step :: "system \<Rightarrow> nat \<Rightarrow> bool \<Rightarrow> kernel_rule list \<Rightarrow> main_state \<Rightarrow> main_state" where
  "kernel_step sys fuel socket reported s =
     (let ch = changes s in
      if kernel_routes_changed ch \<or> kernel_addr_changed ch \<or> kernel_rules_changed ch \<or>
         tv_sec (now (daemon s)) \<ge> kernel_dump_time s
      then
        let s = daemon_step (check_rules fuel reported) (table_step sys True s);
            ch = ch\<lparr>kernel_routes_changed := False, kernel_rules_changed := False, kernel_addr_changed := False\<rparr>
        in case roughly_from_now (if socket then 300 else 30) (daemon s) of (t, b) \<Rightarrow>
          s\<lparr>changes := ch, daemon := b, kernel_dump_time := t\<rparr>
      else s)"

definition neighbours_step :: "babel \<Rightarrow> babel" where
  "neighbours_step b =
     (if timeval_compare (check_neighbours_timeout b) (now b) < 0 then
        case check_neighbours b of (msecs, b) \<Rightarrow>
          schedule_neighbours_check (max (3 * msecs div 2) 10) True b
      else b)"

definition interfaces_step :: "system \<Rightarrow> babel \<Rightarrow> babel" where
  "interfaces_step sys b =
     (if timeval_compare (check_interfaces_timeout b) (now b) < 0
      then schedule_interfaces_check 30000 True (check_interfaces sys b)
      else b)"

definition expiry_step :: "main_state \<Rightarrow> main_state" where
  "expiry_step s =
     (if tv_sec (now (daemon s)) \<ge> expiry_time s then
        let b = expire_routes (daemon s);
            b = b\<lparr>resends := expire_resend (now b) (resends b)\<rparr>
        in case roughly_from_now 30 b of (t, b) \<Rightarrow> s\<lparr>daemon := b, expiry_time := t\<rparr>
      else s)"

definition sources_step :: "main_state \<Rightarrow> main_state" where
  "sources_step s =
     (if tv_sec (now (daemon s)) \<ge> source_expiry_time s then
        let b = daemon s;
            b = b\<lparr>sources := expire_sources (tv_sec (now b)) (sources b)\<rparr>
        in case roughly_from_now 300 b of (t, b) \<Rightarrow> s\<lparr>daemon := b, source_expiry_time := t\<rparr>
      else s)"

definition hello_step :: "ptr \<Rightarrow> babel \<Rightarrow> babel" where
  "hello_step p b =
     (let b = (if timeval_compare (now b) (i_hello_timeout (iface b p)) \<ge> 0 then send_hello p b else b);
          b = (if timeval_compare (now b) (i_update_timeout (iface b p)) \<ge> 0
               then send_update (Some p) False None 0 None 0 b else b)
      in if timeval_compare (now b) (i_update_flush_timeout (iface b p)) \<ge> 0 then flushupdates p b else b)"

definition resend_step :: "babel \<Rightarrow> babel" where
  "resend_step b =
     (if tv_sec (resend_time (resends b)) \<noteq> 0 \<and> timeval_compare (now b) (resend_time (resends b)) \<ge> 0
      then do_resend b else b)"

definition unicast_step :: "babel \<Rightarrow> babel" where
  "unicast_step b =
     (if tv_sec (unicast_flush_timeout (unicast b)) \<noteq> 0 \<and> timeval_compare (now b) (unicast_flush_timeout (unicast b)) \<ge> 0
      then flush_unicast True b else b)"

definition flush_step :: "ptr \<Rightarrow> babel \<Rightarrow> babel" where
  "flush_step p b =
     (if tv_sec (i_flush_timeout (iface b p)) \<noteq> 0 \<and> timeval_compare (now b) (i_flush_timeout (iface b p)) \<ge> 0
      then flushbuf p b else b)"

section \<open>A turn\<close>

text \<open>
  Up to the packet: the sockets are looked at only when no timer has expired yet, so the input of
  a turn that is late waits for the next one.
\<close>

definition wake_up :: "main_input \<Rightarrow> main_state \<Rightarrow> bool \<times> main_state" where
  "wake_up i s =
     (case next_deadline (daemon_step gettime s) of (tv, s) \<Rightarrow>
        let listening = (timeval_compare tv (now (daemon s)) > 0);
            s = daemon_step gettime s
        in (listening,
            if listening then s\<lparr>changes := fold (kernel_notify (daemon s)) (notices i) (changes s)\<rparr> else s))"

definition alive_step :: "(main_state \<Rightarrow> main_state) \<Rightarrow> main_state \<Rightarrow> main_state" where
  "alive_step f s = (if fault (daemon s) \<noteq> None then s else f s)"

definition turn :: "system \<Rightarrow> nat \<Rightarrow> main_input \<Rightarrow> main_state \<Rightarrow> main_state" where
  "turn sys fuel i s =
     (case wake_up i s of (listening, s) \<Rightarrow>
      let s = daemon_step (receive_step (if listening then received i else None)) s;
          s = alive_step (reopen_step (reopening i)) s;
          s = alive_step (link_step sys) s;
          s = alive_step (kernel_step sys fuel (kernel_socket i) (reported_rules i)) s;
          s = daemon_step neighbours_step s;
          s = daemon_step (interfaces_step sys) s;
          s = alive_step expiry_step s;
          s = alive_step sources_step s;
          s = daemon_step (for_up_interfaces hello_step) s;
          s = daemon_step resend_step s;
          s = daemon_step unicast_step s
      in daemon_step (for_up_interfaces flush_step) s)"

section \<open>Start and end\<close>

text \<open>\<open>usleep(roughly(usecs)); gettime(&now)\<close>\<close>

definition pause :: "int \<Rightarrow> babel \<Rightarrow> babel" where
  "pause usecs b = gettime (snd (c_roughly usecs b))"

definition greet :: "ptr \<Rightarrow> babel \<Rightarrow> babel" where
  "greet p b = send_wildcard_retraction p (send_hello p (pause 10000 b))"

definition introduce :: "ptr \<Rightarrow> babel \<Rightarrow> babel" where
  "introduce p b =
     (let b = pause 10000 b;
          b = send_hello p b;
          b = send_wildcard_retraction p b;
          b = send_self_update p b;
          b = send_request (Some p) None 0 None 0 b;
          b = flushupdates p b
      in flushbuf p b)"

definition no_changes :: kernel_changes where
  "no_changes =
     \<lparr>kernel_routes_changed = False, kernel_rules_changed = False, kernel_link_changed = False, kernel_addr_changed = False\<rparr>"

definition arm_timers :: "main_state \<Rightarrow> main_state" where
  "arm_timers s =
     (case roughly_from_now 30 (daemon s) of (dump, b) \<Rightarrow>
        let b = schedule_neighbours_check 5000 True b;
            b = schedule_interfaces_check 30000 True b in
        case roughly_from_now 30 b of (expiry, b) \<Rightarrow>
        case roughly_from_now 300 b of (source_expiry, b) \<Rightarrow>
          s\<lparr>daemon := b, changes := no_changes, kernel_dump_time := dump, expiry_time := expiry,
            source_expiry_time := source_expiry\<rparr>)"

definition start_up :: "system \<Rightarrow> nat \<Rightarrow> kernel_rule list \<Rightarrow> babel \<Rightarrow> main_state" where
  "start_up sys fuel reported b =
     (let s = \<lparr>daemon = b, changes = no_changes, expiry_time = 0, source_expiry_time = 0, kernel_dump_time = 0, maxroutes = 8\<rparr>;
          s = daemon_step (check_interfaces sys) s;
          s = table_step sys False s;
          s = daemon_step (check_rules fuel reported) s;
          s = alive_step arm_timers s;
          s = daemon_step (for_up_interfaces greet) s
      in daemon_step (for_up_interfaces introduce) s)"

definition say_goodbye :: "ptr \<Rightarrow> babel \<Rightarrow> babel" where
  "say_goodbye p b = pause 1000 (flushbuf p (send_hello_noupdate p 10 (send_wildcard_retraction p b)))"

definition leave :: "system \<Rightarrow> ptr \<Rightarrow> babel \<Rightarrow> babel" where
  "leave sys p b =
     snd (interface_up sys p False (pause 10000 (flushbuf p (send_hello_noupdate p 1 (send_wildcard_retraction p b)))))"

definition shut_down :: "system \<Rightarrow> babel \<Rightarrow> babel" where
  "shut_down sys b =
     (let b = pause 10000 b;
          b = flush_all_routes b;
          b = for_up_interfaces say_goodbye b;
          b = for_up_interfaces (leave sys) b
      in release_tables b)"

end
