(* ===== verification/Interface_Safe.thy ===== *)
theory Interface_Safe
  imports Interface Receive_Claims
begin

text \<open>
  The operations on interfaces keep the invariant of the daemon.
\<close>

section \<open>One interface\<close>

definition iface_ok :: "interface \<Rightarrow> bool" where
  "iface_ok i \<longleftrightarrow> iface_conf_ok i \<and> buffer_ok i \<and> iface_costs_ok i"

lemma daemon_iface: "daemon_ok b \<Longrightarrow> iface_ok (iface b p)"
  by (auto simp: daemon_ok_def ready_def network_ok_def buffers_ok_def steady_def iface_ok_def)

lemma daemon_upd_iface:
  assumes "daemon_ok b" "iface_ok (f (iface b p))"
  shows "daemon_ok (upd_iface p f b)"
proof -
  let ?c = "upd_iface p f b"
  have e: "rib ?c = rib b" "sources ?c = sources b" "nbrs ?c = nbrs b" "conf ?c = conf b" "xroutes ?c = xroutes b"
    "fault ?c = fault b" "unicast ?c = unicast b" "resends ?c = resends b" "env ?c = env b"
    by (simp_all add: upd_iface_def)
  have i: "iface ?c q = (if q = p then f (iface b p) else iface b q)" for q by (simp add: upd_iface_def)
  have ok: "iface_ok (iface ?c q)" for q using assms daemon_iface [OF assms(1)] by (simp add: i)
  have "route_src ?c rt = route_src b rt" for rt by (simp add: route_src_def e)
  then have "ready ?c"
    using assms(1) ok by (simp add: daemon_ok_def ready_def network_ok_def buffers_ok_def iface_ok_def e)
  moreover have "tables_ok ?c" using assms(1) by (simp add: daemon_ok_def tables_ok_def e)
  moreover have "steady ?c"
    using assms(1) ok by (simp add: daemon_ok_def steady_def iface_ok_def allocs_succeed_def e)
  ultimately show ?thesis using assms(1) by (simp add: daemon_ok_def users_def e)
qed

lemma daemon_upd_iface_same:
  assumes "holds daemon_ok b" "\<And>i. iface_ok i \<Longrightarrow> iface_ok (f i)"
  shows "holds daemon_ok (upd_iface p f b)"
  using daemon_upd_iface daemon_iface assms by (simp add: holds_def)

text \<open>Changes of an interface that are always fine.\<close>

lemmas iface_ok_defs = iface_ok_def iface_conf_ok_def buffer_ok_def iface_costs_ok_def if_flag_def if_up_def

lemma iface_ok_fields:
  assumes "iface_ok i"
  shows "length a = 4 \<Longrightarrow> iface_ok (i\<lparr>i_ipv4 := Some a\<rparr>)" "iface_ok (i\<lparr>i_ipv4 := None\<rparr>)" "iface_ok (i\<lparr>i_ll := ll\<rparr>)"
    "iface_ok (i\<lparr>i_hello_timeout := t\<rparr>)" "iface_ok (i\<lparr>i_update_timeout := t\<rparr>)" "iface_ok (i\<lparr>i_ifindex := n\<rparr>)"
    "ch = IF_CHANNEL_UNKNOWN \<or> ch = IF_CHANNEL_NONINTERFERING \<or> 0 < ch \<and> ch \<le> 255 \<Longrightarrow> iface_ok (i\<lparr>i_channel := ch\<rparr>)"
  using assms by (simp_all add: iface_ok_defs)

text \<open>The flags as bits.\<close>

lemma flag_bits:
  "if_up i \<longleftrightarrow> bit (i_flags i) 0" "if_flag IF_TIMESTAMPS i \<longleftrightarrow> bit (i_flags i) 5"
  using bit_iff_and_push_bit_not_eq_0 [of "i_flags i" 0] bit_iff_and_push_bit_not_eq_0 [of "i_flags i" 5]
  by (simp_all add: if_up_def if_flag_def IF_UP_def IF_TIMESTAMPS_def push_bit_eq_mult)

lemma put_flag_bits:
  "n < 16 \<Longrightarrow> bit (i_flags (put_flag (push_bit k 1) v i)) n = (if n = k then v else bit (i_flags i) n)"
  by (auto simp: put_flag_def bit_simps)

lemma flag_values: "IF_UP = push_bit 0 1" "IF_WIRELESS = push_bit 1 1" "IF_SPLIT_HORIZON = push_bit 2 1"
  "IF_LQ = push_bit 3 1" "IF_FARAWAY = push_bit 4 1" "IF_TIMESTAMPS = push_bit 5 1"
  by (simp_all add: IF_UP_def IF_WIRELESS_def IF_SPLIT_HORIZON_def IF_LQ_def IF_FARAWAY_def IF_TIMESTAMPS_def push_bit_eq_mult)

lemma put_up [simp]:
  "if_up (put_flag IF_UP v i) = v" "if_flag IF_TIMESTAMPS (put_flag IF_UP v i) = if_flag IF_TIMESTAMPS i"
  using put_flag_bits [of 0 0 v i] put_flag_bits [of 5 0 v i] unfolding flag_bits flag_values(1) by simp_all

lemma put_flag_same: "if_up i = v \<Longrightarrow> put_flag IF_UP v i = i"
proof -
  assume v: "if_up i = v"
  have "i_flags (put_flag IF_UP v i) = i_flags i"
    using put_flag_bits [of _ 0 v i] v by (intro bit_word_eqI) (auto simp: flag_bits flag_values(1))
  then show ?thesis by (simp add: put_flag_def)
qed

lemma put_flag_twice: "\<not> if_up i \<Longrightarrow> put_flag IF_UP False (put_flag IF_UP True i) = i"
proof -
  assume v: "\<not> if_up i"
  have "i_flags (put_flag IF_UP False (put_flag IF_UP True i)) = i_flags i"
    using put_flag_bits [of _ 0 False "put_flag IF_UP True i"] put_flag_bits [of _ 0 True i] v
    by (intro bit_word_eqI) (auto simp: flag_bits flag_values(1))
  then show ?thesis by (simp add: put_flag_def)
qed

lemma put_flag_fields [simp]:
  "i_conf (put_flag f v i) = i_conf i" "i_bufsize (put_flag f v i) = i_bufsize i" "i_ipv4 (put_flag f v i) = i_ipv4 i"
  "i_channel (put_flag f v i) = i_channel i" "i_sendbuf (put_flag f v i) = i_sendbuf i"
  "i_buffered_hello (put_flag f v i) = i_buffered_hello i" "i_cost (put_flag f v i) = i_cost i"
  "i_buffered_updates (put_flag f v i) = i_buffered_updates i" "i_update_bufsize (put_flag f v i) = i_update_bufsize i"
  "i_ifindex (put_flag f v i) = i_ifindex i" "i_rtt_min (put_flag f v i) = i_rtt_min i" "i_max_rtt_penalty (put_flag f v i) = i_max_rtt_penalty i"
  by (simp_all add: put_flag_def)

lemma iface_ok_down: "iface_ok i \<Longrightarrow> iface_ok (put_flag IF_UP False i)"
  unfolding iface_ok_def iface_conf_ok_def buffer_ok_def iface_costs_ok_def put_up put_flag_fields by simp

section \<open>Operations that keep the invariant of the daemon\<close>

named_theorems tended \<open>operations that keep the invariant of the daemon\<close>

lemma daemon_lift:
  assumes "holds daemon_ok b" "\<And>R W E. holds (routing R W E) b \<Longrightarrow> holds (routing R W E) c"
  shows "holds daemon_ok c"
  using assms routing_daemon_ok unfolding holds_def [of daemon_ok] daemon_ok_routing by blast

lemma daemon_lift_returns:
  assumes "holds daemon_ok b" "\<And>R W E. holds (routing R W E) b \<Longrightarrow> returns (\<lambda>_. routing R W E) r"
  shows "returns (\<lambda>_. daemon_ok) r"
  using daemon_lift [OF assms(1), of "snd r"] assms(2) by (simp add: returns_def holds_def)

lemma daemon_basic [tended]:
  assumes "holds daemon_ok b"
  shows "returns (\<lambda>_. daemon_ok) (ask b)" "returns (\<lambda>_. daemon_ok) (c_alloc b)" "holds daemon_ok (emit ev b)"
    "returns (\<lambda>_. daemon_ok) (c_roughly v b)" "holds daemon_ok (gettime b)"
  subgoal by (rule daemon_lift_returns [OF assms]) (rule routing_ask)
  subgoal by (rule daemon_lift_returns [OF assms]) (rule routing_basic)
  subgoal by (rule daemon_lift [OF assms]) (rule routing_basic)
  subgoal by (rule daemon_lift_returns [OF assms]) (rule routing_basic)
  subgoal by (rule daemon_lift [OF assms]) (rule routing_gettime)
  done

lemma routing_plain:
  assumes "holds (routing R W E) b"
  shows "holds (routing R W E) (send_hello ifp b)" "holds (routing R W E) (send_self_update ifp b)"
    "holds (routing R W E) (flush_unicast dofree b)" "holds (routing R W E) (send_update ifp' urgent None 0 None 0 b)"
    "holds (routing R W E) (send_request ifp' None 0 None 0 b)"
    "holds (routing R W E) (flushbuf ifp b)" "holds (routing R W E) (flushupdates ifp b)"
proof -
  show "holds (routing R W E) (send_request ifp' None 0 None 0 b)" "holds (routing R W E) (flushbuf ifp b)"
    "holds (routing R W E) (flushupdates ifp b)"
    using assms by (auto intro!: routing_shape [OF _ _ assms] readies simp: shaped opt_dest_ok_def)
qed (rule routing_messages [OF assms])+

lemma daemon_messages [tended]:
  assumes "holds daemon_ok b"
  shows "holds daemon_ok (send_hello ifp b)" "holds daemon_ok (send_self_update ifp b)"
    "holds daemon_ok (flush_unicast dofree b)" "holds daemon_ok (send_update ifp' urgent None 0 None 0 b)"
    "holds daemon_ok (send_request ifp' None 0 None 0 b)"
    "holds daemon_ok (flushbuf ifp b)" "holds daemon_ok (flushupdates ifp b)"
  by (rule daemon_lift [OF assms], erule routing_plain)+

lemma daemon_stale_bytes [tended]:
  "holds daemon_ok b \<Longrightarrow> returns (\<lambda>xs c. length xs = n \<and> daemon_ok c) (stale_bytes n b)"
proof (induction n arbitrary: b)
  case (Suc n)
  obtain a c where c: "ask b = (a, c)" by fastforce
  have "holds daemon_ok c" using daemon_basic(1) [OF Suc.prems] c by (simp add: returns_def holds_def)
  from Suc.IH [OF this] show ?case using c by (auto simp: returns_def split: prod.split)
qed (simp add: returns_def holds_def)

lemma daemon_flush_interface [tended]:
  "holds daemon_ok b \<Longrightarrow> holds daemon_ok (flush_interface_routes ifp v4only b)"
  using routing_daemon_ok [OF flush_interface_ok] by (simp add: holds_def)

lemma daemon_set_timeout [tended]:
  "holds daemon_ok b \<Longrightarrow> returns (\<lambda>_. daemon_ok) (set_timeout msecs b)"
  unfolding set_timeout_def by (intro inv_rules tended)

lemma daemon_check_timer [tended]:
  assumes "holds daemon_ok b"
  shows "holds daemon_ok (schedule_interfaces_check msecs override b)"
    "holds daemon_ok (schedule_neighbours_check msecs override b)"
proof -
  have t: "holds daemon_ok (b\<lparr>check_interfaces_timeout := t\<rparr>)" if "holds daemon_ok b" for t b
    using that by (simp add: holds_def daemon_ok_def ready_def network_ok_def buffers_ok_def tables_ok_def steady_def
        allocs_succeed_def users_def route_src_def)
  show "holds daemon_ok (schedule_interfaces_check msecs override b)"
    unfolding schedule_interfaces_check_def let_values by (intro inv_rules tended t assms)
  show "holds daemon_ok (schedule_neighbours_check msecs override b)"
    by (rule daemon_lift [OF assms]) (rule routing_check_timer)
qed

section \<open>Taking an interface down\<close>

definition routes_via :: "ptr \<Rightarrow> babel \<Rightarrow> ptr set" where
  "routes_via p b = {rt \<in> rib_routes (rib b). route_ifp b rt = p}"

text \<open>An interface that is down, with nothing to send.\<close>

definition idle :: "interface \<Rightarrow> bool" where
  "idle i \<longleftrightarrow> \<not> if_up i \<and> i_sendbuf i = [] \<and> i_bufsize i = 0 \<and> i_buffered_updates i = []"

lemma iface_basic [simp]:
  "ifaces (snd (ask b)) = ifaces b" "ifaces (emit ev b) = ifaces b" "ifaces (snd (c_alloc b)) = ifaces b"
  "rib (snd (ask b)) = rib b" "rib (emit ev b) = rib b" "rib (snd (c_alloc b)) = rib b" "rib (upd_iface p f b) = rib b"
  "nbrs (snd (ask b)) = nbrs b" "nbrs (emit ev b) = nbrs b" "nbrs (snd (c_alloc b)) = nbrs b"
  "nbrs (upd_iface p f b) = nbrs b" "iface (upd_iface p f b) q = (if q = p then f (iface b p) else iface b q)"
  by (simp_all add: ask_def emit_def c_alloc_def upd_iface_def)

lemma via_cong: "rib c = rib b \<Longrightarrow> nbrs c = nbrs b \<Longrightarrow> routes_via p c = routes_via p b"
  by (simp add: routes_via_def route_ifp_def)

lemma iface_ok_reset: "iface_ok i \<Longrightarrow> \<not> if_up i \<Longrightarrow> iface_ok (reset_buffers i)"
  by (simp add: iface_ok_defs reset_buffers_def)

lemma flush_interface_frame:
  assumes "daemon_ok b"
  shows "daemon_ok (flush_interface_routes p False b)" "routes_via p (flush_interface_routes p False b) = {}"
    "rib_routes (rib (flush_interface_routes p False b)) = rib_routes (rib b) - routes_via p b"
    "quiet_iface (iface (flush_interface_routes p False b) q) = quiet_iface (iface b q)"
proof -
  let ?c = "flush_interface_routes p False b"
  note f = flush_interface_ok [OF assms, of p False]
  show "daemon_ok ?c" by (rule routing_daemon_ok [OF f])
  show r: "rib_routes (rib ?c) = rib_routes (rib b) - routes_via p b"
    using routingD(5) [OF f] by (auto simp: routes_via_def)
  have "route_ifp ?c rt = route_ifp b rt" if "rt \<in> rib_routes (rib ?c)" for rt
    using arg_cong [OF routingD(6) [OF f], of rt "\<lambda>w. snd (snd (snd w))"] that
    unfolding routingD(5) [OF f] by (simp add: who_def route_ifp_def)
  then show "routes_via p ?c = {}" using r by (auto simp: routes_via_def)
  show "quiet_iface (iface ?c q) = quiet_iface (iface b q)"
    using linked_flushes(2) [OF linked_start] by (simp add: holds_def linked_def)
qed

text \<open>What happens to one interface leaves the other ones alone.\<close>

definition same_but :: "ptr \<Rightarrow> babel \<Rightarrow> babel \<Rightarrow> bool" where
  "same_but p b c \<longleftrightarrow> (\<forall>q. q \<noteq> p \<longrightarrow> quiet_iface (iface c q) = quiet_iface (iface b q)) \<and> route_ifps c \<subseteq> route_ifps b"

lemma same_but_trans: "same_but p a b \<Longrightarrow> same_but p b c \<Longrightarrow> same_but p a c"
  by (auto simp: same_but_def)

lemma same_but_frame:
  "rib c = rib b \<Longrightarrow> nbrs c = nbrs b \<Longrightarrow> (\<And>q. q \<noteq> p \<Longrightarrow> iface c q = iface b q) \<Longrightarrow> same_but p b c"
  by (simp add: same_but_def route_ifps_def route_ifp_def)

lemma same_but_flush:
  assumes "daemon_ok b"
  shows "same_but p b (flush_interface_routes p False b)"
  unfolding same_but_def using flush_interface_frame(4) [OF assms] routing_ifps [OF flush_interface_ok [OF assms], of p False]
    who_ifps [of b] by auto

lemma quiet_iface_conf:
  assumes "quiet_iface i = quiet_iface j"
  shows "i_conf i = i_conf j"
  using arg_cong [OF assms, of i_conf] by (simp add: quiet_iface_def)

lemma interface_down_ok:
  assumes "daemon_ok b" "\<not> if_up (iface b p)"
  shows "same_but p b (interface_down p b)" "i_conf (iface (interface_down p b) p) = i_conf (iface b p)"
    "i_ifindex (iface (interface_down p b) p) = i_ifindex (iface b p)"
    and "daemon_ok (interface_down p b)" "idle (iface (interface_down p b) p)" "routes_via p (interface_down p b) = {}"
    "rib_routes (rib (interface_down p b)) = rib_routes (rib b) - routes_via p b"
proof -
  note f = flush_interface_frame [OF assms(1)]
  define b1 where "b1 = flush_interface_routes p False b"
  define b2 where "b2 = upd_iface p reset_buffers b1"
  define b3 where "b3 = (if i_ifindex (iface b2 p) > 0 then snd (ask (snd (ask b2))) else b2)"
  define b4 where "b4 = upd_iface p (\<lambda>i. i\<lparr>i_ll := []\<rparr>) b3"
  have d: "interface_down p b = emit (Notify_interface LOCAL_CHANGE p) b4"
    by (simp add: interface_down_def Let_def b1_def b2_def b3_def b4_def)
  have up: "\<not> if_up (iface b1 p)" using quiet_iface_up [OF f(4) [of p p]] assms(2) by (simp add: b1_def)
  have "daemon_ok b2" unfolding b2_def
    by (intro daemon_upd_iface iface_ok_reset daemon_iface up) (simp_all add: b1_def f(1))
  then have "holds daemon_ok b3" unfolding b3_def by (intro inv_rules tended holdsI)
  then have "daemon_ok b4" unfolding b4_def using daemon_upd_iface_same iface_ok_fields(3) by (simp add: holds_def)
  then show "daemon_ok (interface_down p b)" using daemon_basic(3) by (simp add: d holds_def)
  have s: "rib b4 = rib b1" "nbrs b4 = nbrs b1" by (simp_all add: b4_def b3_def b2_def)
  have "same_but p b1 (interface_down p b)" by (rule same_but_frame) (simp_all add: d s, simp add: b4_def b3_def b2_def)
  then show "same_but p b (interface_down p b)" using same_but_flush [OF assms(1), of p] same_but_trans by (simp add: b1_def)
  show "i_conf (iface (interface_down p b) p) = i_conf (iface b p)" "i_ifindex (iface (interface_down p b) p) = i_ifindex (iface b p)"
    using quiet_iface_conf [OF f(4) [of p p]] quiet_iface_fields(5) [OF f(4) [of p p]]
    by (simp_all add: d b4_def b3_def b2_def b1_def reset_buffers_def)
  show "routes_via p (interface_down p b) = {}" using via_cong [of b4 b1 p] s f(2) [of p]
    by (simp add: d routes_via_def route_ifp_def b1_def)
  show "rib_routes (rib (interface_down p b)) = rib_routes (rib b) - routes_via p b"
    using f(3) [of p] s by (simp add: d b1_def)
  show "idle (iface (interface_down p b) p)"
    using up by (simp add: d b4_def b3_def b2_def idle_def reset_buffers_def if_up_def)
qed

lemma interface_down_result:
  assumes "daemon_ok b" "if_up (iface b p)" "interface_up sys p False b = (rc, c)"
  shows "same_but p b c \<and> i_conf (iface c p) = i_conf (iface b p) \<and> i_ifindex (iface c p) = i_ifindex (iface b p) \<and> rc = 1 \<and> daemon_ok c \<and> idle (iface c p) \<and> routes_via p c = {} \<and>
    rib_routes (rib c) = rib_routes (rib b) - routes_via p b"
proof -
  let ?b = "upd_iface p (put_flag IF_UP False) b"
  have d: "daemon_ok ?b" by (intro daemon_upd_iface iface_ok_down daemon_iface assms(1))
  have "rc = 1" "c = interface_down p ?b" using assms(2,3) by (simp_all add: interface_up_def Let_def)
  moreover have "routes_via p ?b = routes_via p b" by (rule via_cong) simp_all
  moreover have "same_but p b ?b" by (rule same_but_frame) simp_all
  ultimately show ?thesis using interface_down_ok [OF d, of p] same_but_trans by simp
qed

end
