(* ===== verification/Interface_Up.thy ===== *)
theory Interface_Up
  imports Interface_Safe
begin

text \<open>
  Bringing an interface up.  The checks of its addresses and channel are made in two
  situations: while it is being configured, when only the rest of the daemon is known to be well
  formed, and periodically.  So what they need of an invariant is stated once, as the locale
  \<open>interface_checks\<close>.
\<close>

section \<open>What the configuration and the system must satisfy\<close>

definition channel_ok :: "int \<Rightarrow> bool" where
  "channel_ok ch \<longleftrightarrow> ch = IF_CHANNEL_UNKNOWN \<or> ch = IF_CHANNEL_NONINTERFERING \<or> 0 < ch \<and> ch \<le> 255"

definition conf_fits :: "interface \<Rightarrow> bool" where
  "conf_fits i \<longleftrightarrow>
     if_conf c_cost i \<le> INFINITY_METRIC \<and> channel_ok (if_conf c_channel i) \<and>
     if_conf c_rtt_min i < 4294957296 \<and>
     0 \<le> if_conf c_max_rtt_penalty i \<and> if_conf c_max_rtt_penalty i \<le> INFINITY_METRIC"

text \<open>An MTU of 142 leaves the 78 bytes that a message may need.\<close>

definition mtu_fits :: "system \<Rightarrow> bool" where
  "mtu_fits sys \<longleftrightarrow> (\<forall>n name. kernel_interface_mtu sys n name < 0 \<or> 142 \<le> kernel_interface_mtu sys n name)"

lemma freq_to_chan_range: "freq_to_chan m e = -1 \<or> 0 < freq_to_chan m e \<and> freq_to_chan m e < 254"
  by (simp add: freq_to_chan_def Let_def)

section \<open>The checks\<close>

locale interface_checks =
  fixes I D :: "babel \<Rightarrow> bool" and p :: ptr
  assumes asking: "holds I b \<Longrightarrow> returns (\<lambda>_. I) (ask b)"
    and emitting: "holds I b \<Longrightarrow> holds I (emit ev b)"
    and flushing: "holds I b \<Longrightarrow> holds I (flush_interface_routes p False b)"
    and losing: "holds I b \<Longrightarrow> holds D (lose_link_local p b)"
    and new_ipv4: "holds I b \<Longrightarrow> length a = 4 \<Longrightarrow> holds I (upd_iface p (\<lambda>i. i\<lparr>i_ipv4 := Some a\<rparr>) b)"
    and no_ipv4: "holds I b \<Longrightarrow> holds I (upd_iface p (\<lambda>i. i\<lparr>i_ipv4 := None\<rparr>) b)"
    and new_ll: "holds I b \<Longrightarrow> holds I (upd_iface p (\<lambda>i. i\<lparr>i_ll := ll\<rparr>) b)"
    and new_channel: "holds I b \<Longrightarrow> channel_ok ch \<Longrightarrow> holds I (upd_iface p (\<lambda>i. i\<lparr>i_channel := ch\<rparr>) b)"
    and fitting: "holds I b \<Longrightarrow> conf_fits (iface b p)"
begin

lemma allocating: "holds I b \<Longrightarrow> returns (\<lambda>_. I) (c_alloc b)"
  unfolding c_alloc_def by (intro inv_rules asking)

lemma stale: "holds I b \<Longrightarrow> returns (\<lambda>xs c. length xs = n \<and> I c) (stale_bytes n b)"
proof (induction n arbitrary: b)
  case (Suc n)
  obtain a c where c: "ask b = (a, c)" by fastforce
  have "holds I c" using asking [OF Suc.prems] c by (simp add: returns_def holds_def)
  from Suc.IH [OF this] show ?case using c by (auto simp: returns_def split: prod.split)
qed (simp add: returns_def holds_def)

lemma ipv4_answer:
  "holds I b \<Longrightarrow> returns (\<lambda>r c. (fst r > 0 \<longrightarrow> length (snd r) = 4) \<and> I c) (kernel_interface_ipv4 p b)"
proof -
  assume b: "holds I b"
  obtain rc c where c: "ask b = (rc, c)" by fastforce
  obtain a d where d: "stale_bytes 4 c = (a, d)" by fastforce
  have "holds I c" using asking [OF b] c by (simp add: returns_def holds_def)
  from stale [OF this, of 4] show ?thesis
    using b by (simp add: kernel_interface_ipv4_def c d returns_def holds_def)
qed

lemma checks_ipv4: "holds I b \<Longrightarrow> returns (\<lambda>_. I) (check_interface_ipv4 p b)"
proof -
  assume b: "holds I b"
  obtain rc a c where k: "kernel_interface_ipv4 p b = ((rc, a), c)" by (metis prod.exhaust)
  have c: "holds I c" "rc > 0 \<Longrightarrow> length a = 4" using ipv4_answer [OF b] by (simp_all add: k returns_def holds_def)
  show ?thesis
    unfolding check_interface_ipv4_def k prod.case let_values
    by (intro inv_rules emitting flushing new_ipv4 no_ipv4 allocating c) assumption+
qed

lemma checks_channel: "holds I b \<Longrightarrow> returns (\<lambda>_. I) (check_interface_channel p b)"
proof -
  assume b: "holds I b"
  let ?ch = "if_conf c_channel (iface b p)"
  obtain ch c where c: "(if ?ch = IF_CHANNEL_UNKNOWN then kernel_interface_channel b else (?ch, b)) = (ch, c)"
    by fastforce
  have "returns (\<lambda>_. I) (kernel_interface_channel b)"
    unfolding kernel_interface_channel_def by (intro inv_rules asking b)
  then have I: "holds I c" using b c by (auto simp: returns_def holds_def split: if_splits)
  have "fst (kernel_interface_channel b) = -1 \<or> 0 < fst (kernel_interface_channel b) \<and> fst (kernel_interface_channel b) < 254"
    using freq_to_chan_range by (simp add: kernel_interface_channel_def split: prod.split)
  then have ch: "channel_ok ch \<or> ?ch = IF_CHANNEL_UNKNOWN \<and> ch < 0"
    using c fitting [OF b] by (auto simp: conf_fits_def channel_ok_def split: if_splits)
  have "channel_ok (if ?ch = IF_CHANNEL_UNKNOWN \<and> ch < 0
      then if w then IF_CHANNEL_INTERFERING else IF_CHANNEL_NONINTERFERING else ch)" for w
    using ch by (auto simp: channel_ok_def IF_CHANNEL_INTERFERING_def)
  then show ?thesis
    unfolding check_interface_channel_def Let_def c prod.case by (intro inv_rules new_channel I)
qed

text \<open>Without link-local addresses the interface is left to \<open>D\<close>.\<close>

lemma checks_link_local:
  "holds I b \<Longrightarrow> returns (\<lambda>rc c. if rc < 0 then D c else I c) (check_link_local_addresses sys p b)"
proof -
  assume b: "holds I b"
  obtain ok c where c: "c_alloc b = (ok, c)" by fastforce
  have "holds I c" using allocating [OF b] c by (simp add: returns_def holds_def)
  then have "holds I (emit (Notify_interface LOCAL_CHANGE p) (upd_iface p (\<lambda>i. i\<lparr>i_ll := ll\<rparr>) c))" for ll
    by (intro emitting new_ll)
  then show ?thesis
    using b losing [OF b] unfolding check_link_local_addresses_def Let_def c prod.case
    by (simp add: returns_def holds_def)
qed

lemma picks_type: "holds I b \<Longrightarrow> returns (\<lambda>_. I) (interface_type p b)"
  unfolding interface_type_def Let_def by (intro inv_rules asking)

end

section \<open>An interface in use\<close>

lemma conf_fits_cong: "i_conf i = i_conf j \<Longrightarrow> conf_fits i = conf_fits j"
  by (simp add: conf_fits_def if_conf_def)

definition serving :: "babel \<Rightarrow> ptr \<Rightarrow> babel \<Rightarrow> bool" where
  "serving b0 p b \<longleftrightarrow> daemon_ok b \<and> conf_fits (iface b p) \<and> if_up (iface b p) \<and> same_but p b0 b \<and>
     i_ifindex (iface b p) = i_ifindex (iface b0 p)"

lemma serving_upd:
  assumes "holds (serving b0 p) b" "iface_ok (iface b p) \<Longrightarrow> iface_ok (f (iface b p))"
    "i_conf (f (iface b p)) = i_conf (iface b p)" "i_flags (f (iface b p)) = i_flags (iface b p)"
    "i_ifindex (f (iface b p)) = i_ifindex (iface b p)"
  shows "holds (serving b0 p) (upd_iface p f b)"
proof -
  have "same_but p b (upd_iface p f b)" by (rule same_but_frame) simp_all
  then have "same_but p b0 (upd_iface p f b)" using assms(1) same_but_trans [of p b0 b] by (simp add: serving_def holds_def)
  then show ?thesis
    using assms daemon_upd_iface [of b f p] daemon_iface [of b p] conf_fits_cong [OF assms(3)]
    by (simp add: serving_def holds_def if_up_def)
qed

lemma serving_frame:
  assumes "holds (serving b0 p) b" "ifaces c = ifaces b" "rib c = rib b" "nbrs c = nbrs b"
    "holds daemon_ok b \<Longrightarrow> holds daemon_ok c"
  shows "holds (serving b0 p) c"
  using assms same_but_trans [OF _ same_but_frame [of c b p]] by (simp add: serving_def holds_def)

lemma serving_quiet:
  assumes "holds (serving b0 p) b" "daemon_ok c" "same_but p b c" "quiet_iface (iface c p) = quiet_iface (iface b p)"
  shows "holds (serving b0 p) c"
  using assms conf_fits_cong [OF quiet_iface_conf [OF assms(4)]] quiet_iface_up [OF assms(4)] quiet_iface_fields(5) [OF assms(4)]
    same_but_trans
  by (simp add: serving_def holds_def) blast

lemma serving_flush: "holds (serving b0 p) b \<Longrightarrow> holds (serving b0 p) (flush_interface_routes p False b)"
  using flush_interface_frame(1,4) [of b p] same_but_flush [of b p] serving_quiet [of b0 p b]
  by (simp add: serving_def holds_def)

lemma holds_daemon_lose: "holds daemon_ok b \<Longrightarrow> holds daemon_ok (lose_link_local p b)"
  unfolding lose_link_local_def let_values
  by (intro inv_rules tended daemon_upd_iface_same iface_ok_fields(2,3) iface_ok_down) assumption+

interpretation serving_checks: interface_checks "serving b0 p" daemon_ok p for b0 p
proof
  fix b assume b: "holds (serving b0 p) b"
  then have d: "holds daemon_ok b" by (simp add: serving_def holds_def)
  show "returns (\<lambda>_. serving b0 p) (ask b)"
    using serving_frame [OF b, of "snd (ask b)"] daemon_basic(1) [OF d] by (simp add: returns_def holds_def)
  show "holds (serving b0 p) (emit ev b)" for ev by (rule serving_frame [OF b]) (simp_all add: tended)
  show "holds (serving b0 p) (flush_interface_routes p False b)" by (rule serving_flush [OF b])
  show "holds daemon_ok (lose_link_local p b)" by (rule holds_daemon_lose [OF d])
  show "length a = 4 \<Longrightarrow> holds (serving b0 p) (upd_iface p (\<lambda>i. i\<lparr>i_ipv4 := Some a\<rparr>) b)" for a
    by (rule serving_upd [OF b]) (simp_all add: iface_ok_fields(1))
  show "holds (serving b0 p) (upd_iface p (\<lambda>i. i\<lparr>i_ipv4 := None\<rparr>) b)"
    by (rule serving_upd [OF b]) (simp_all add: iface_ok_fields(2))
  show "holds (serving b0 p) (upd_iface p (\<lambda>i. i\<lparr>i_ll := ll\<rparr>) b)" for ll
    by (rule serving_upd [OF b]) (simp_all add: iface_ok_fields(3))
  show "channel_ok ch \<Longrightarrow> holds (serving b0 p) (upd_iface p (\<lambda>i. i\<lparr>i_channel := ch\<rparr>) b)" for ch
    by (rule serving_upd [OF b]) (simp_all add: iface_ok_fields(7) channel_ok_def)
  show "conf_fits (iface b p)" using b by (simp add: serving_def holds_def)
qed

section \<open>An interface that is being brought up\<close>

text \<open>The daemon without the interface, to which no route leads.\<close>

definition without :: "ptr \<Rightarrow> babel \<Rightarrow> babel" where
  "without p b = upd_iface p (\<lambda>_. interface_zero) b"

definition arising :: "babel \<Rightarrow> ptr \<Rightarrow> babel \<Rightarrow> bool" where
  "arising b0 p b \<longleftrightarrow>
     daemon_ok (without p b) \<and> routes_via p b = {} \<and> rib b = rib b0 \<and> nbrs b = nbrs b0 \<and>
     (\<forall>q. q \<noteq> p \<longrightarrow> iface b q = iface b0 q)"

lemma zero_ok: "iface_ok interface_zero"
  by (simp add: iface_ok_defs interface_zero_def IF_CHANNEL_UNKNOWN_def INFINITY_METRIC_def)

lemma arising_start: "daemon_ok b \<Longrightarrow> routes_via p b = {} \<Longrightarrow> arising b p b"
  unfolding arising_def without_def by (intro conjI daemon_upd_iface) (simp_all add: zero_ok)

lemma arising_done:
  assumes "arising b0 p b" "iface_ok (iface b p)"
  shows "daemon_ok b"
proof -
  have "upd_iface p (\<lambda>_. iface b p) (without p b) = b" by (simp add: without_def upd_iface_def)
  moreover have "daemon_ok (upd_iface p (\<lambda>_. iface b p) (without p b))"
    using assms by (intro daemon_upd_iface) (simp_all add: arising_def)
  ultimately show ?thesis by simp
qed

lemma arising_same: "arising b0 p b \<Longrightarrow> same_but p b0 b"
  by (rule same_but_frame) (simp_all add: arising_def)

lemma arising_upd [simp]: "arising b0 p (upd_iface p f b) = arising b0 p b"
  using via_cong [of "upd_iface p f b" b] by (simp add: arising_def without_def) (simp add: upd_iface_def)

lemma arising_frame:
  assumes "arising b0 p b" "rib c = rib b" "nbrs c = nbrs b" "ifaces c = ifaces b"
    "holds daemon_ok (without p b) \<Longrightarrow> holds daemon_ok (without p c)"
  shows "arising b0 p c"
  using assms via_cong [of c b p] by (simp add: arising_def holds_def)

lemma arising_fault: "arising b0 p b \<Longrightarrow> fault b = None"
  using daemon_fault [of "without p b"] by (simp add: arising_def without_def upd_iface_def)

lemma without_commutes:
  "without p (snd (ask b)) = snd (ask (without p b))" "without p (emit ev b) = emit ev (without p b)"
  "without p (schedule_interfaces_check m over b) = schedule_interfaces_check m over (without p b)"
  "without p (snd (c_roughly v b)) = snd (c_roughly v (without p b))"
  by (simp_all add: without_def upd_iface_def ask_def emit_def schedule_interfaces_check_def c_roughly_def c_random_def Let_def)

lemma schedule_check_frame [simp]:
  "rib (schedule_interfaces_check m over b) = rib b" "nbrs (schedule_interfaces_check m over b) = nbrs b"
  "ifaces (schedule_interfaces_check m over b) = ifaces b"
  "rib (snd (c_roughly v b)) = rib b" "nbrs (snd (c_roughly v b)) = nbrs b" "ifaces (snd (c_roughly v b)) = ifaces b"
  by (simp_all add: schedule_interfaces_check_def c_roughly_def c_random_def ask_def Let_def)

lemma arising_basic:
  assumes "arising b0 p b"
  shows "arising b0 p (snd (ask b))" "arising b0 p (emit ev b)" "arising b0 p (schedule_interfaces_check m over b)"
    "arising b0 p (snd (c_roughly v b))"
  subgoal by (rule arising_frame [OF assms]) (use daemon_basic(1) in \<open>simp_all add: without_commutes holds_snd\<close>)
  subgoal by (rule arising_frame [OF assms]) (use daemon_basic(3) in \<open>simp_all add: without_commutes\<close>)
  subgoal by (rule arising_frame [OF assms]) (use daemon_check_timer(1) in \<open>simp_all add: without_commutes\<close>)
  subgoal by (rule arising_frame [OF assms]) (use daemon_basic(4) in \<open>simp_all add: without_commutes holds_snd\<close>)
  done

text \<open>No route leads to it, so flushing and measuring its routes does nothing.\<close>

lemma flush_nothing:
  assumes "\<And>r. r \<in> rib_routes (rib b) \<Longrightarrow> \<not> q r b" "length (routes (rib b)) - i \<le> n"
  shows "flush_matching n q i b = b"
  using assms(2)
proof (induction n arbitrary: i)
  case (Suc n)
  have "find (\<lambda>r. q r b) (routes (rib b) ! i) = None" if "i < length (routes (rib b))"
    using assms(1) nth_mem [OF that] by (auto simp: find_None_iff rib_routes_def)
  then show ?case using Suc by (subst flush_matching.simps) auto
qed (subst flush_matching.simps, simp)

lemma arising_flush: "arising b0 p b \<Longrightarrow> flush_interface_routes p False b = b"
  unfolding flush_interface_routes_def
  by (rule flush_nothing) (auto simp: arising_def routes_via_def flush_fuel_def)

lemma walk_nothing:
  assumes "\<And>r. r \<in> rib_routes (rib b) \<Longrightarrow> f r b = b" "\<And>r. q = Some r \<Longrightarrow> r \<in> rib_routes (rib b)"
  shows "walk n f q b = b \<or> walk n f q b = raise_fault Out_of_fuel b"
  using assms(2)
proof (induction n arbitrary: q)
  case 0
  then show ?case by (cases q) auto
next
  case (Suc n)
  then show ?case using assms(1) route_next_member by (cases q) (simp_all add: Let_def)
qed

lemma arising_metric:
  assumes "arising b0 p b"
  shows "update_interface_metric p b = b \<or> fault (update_interface_metric p b) = Some Out_of_fuel"
proof -
  let ?f = "\<lambda>r b. if route_ifp b r = p then update_route_metric r b else b"
  have f: "r \<in> rib_routes (rib b) \<Longrightarrow> ?f r b = b" for r using assms by (auto simp: arising_def routes_via_def)
  have slots: "routes (rib b) ! i \<noteq> []" if "i < length (routes (rib b))" for i
  proof -
    have "tables_ok (without p b)" using assms by (simp add: arising_def daemon_ok_def)
    then have "rib_ok (st_heap (sources b)) (rib b)" by (simp add: tables_ok_def without_def upd_iface_def)
    then show ?thesis using nth_mem [OF that] by (auto simp: rib_ok_def rib_shape_def same_dest_def)
  qed
  have head: "slot_head i b = Some r \<Longrightarrow> r \<in> rib_routes (rib b)" for i r
    using slots nth_mem [of i "routes (rib b)"] hd_in_set
    by (fastforce simp: slot_head_def rib_routes_def split: if_splits)
  have w: "walk n ?f (slot_head i b) b = b \<or> walk n ?f (slot_head i b) b = raise_fault Out_of_fuel b" for n i
    using walk_nothing [of b ?f "slot_head i b" n] f head by blast
  have "fold (\<lambda>i b. if fault b \<noteq> None then b else walk (walk_fuel b) ?f (slot_head i b) b) xs c \<in> {b, raise_fault Out_of_fuel b}"
    if "c \<in> {b, raise_fault Out_of_fuel b}" for xs c
    using that
  proof (induction xs arbitrary: c)
    case (Cons i xs)
    have "(if fault c \<noteq> None then c else walk (walk_fuel c) ?f (slot_head i c) c) \<in> {b, raise_fault Out_of_fuel b}"
      using Cons.prems w [of "walk_fuel b" i] arising_fault [OF assms] by (auto simp: raise_fault_def)
    from Cons.IH [OF this] show ?case by simp
  qed simp
  from this [of b "[0..<length (routes (rib b))]"] show ?thesis using arising_fault [OF assms]
    by (auto simp: update_interface_metric_def for_all_routes_def raise_fault_def)
qed

section \<open>The interface itself\<close>

text \<open>Nothing is buffered, and the queued hello that it may remember does not count.\<close>

definition fine :: "interface \<Rightarrow> bool" where
  "fine i \<longleftrightarrow> conf_fits i \<and> iface_ok (i\<lparr>i_buffered_hello := -1\<rparr>) \<and> i_sendbuf i = [] \<and> i_buffered_updates i = []"

definition configured :: "interface \<Rightarrow> bool" where
  "configured i \<longleftrightarrow> if_up i \<and> 78 \<le> i_bufsize i \<and> 0 < i_cost i \<and> i_rtt_min i < i_rtt_max i"

definition stage :: "babel \<Rightarrow> (interface \<Rightarrow> bool) \<Rightarrow> ptr \<Rightarrow> babel \<Rightarrow> bool" where
  "stage b0 F p b \<longleftrightarrow> arising b0 p b \<and> F (iface b p)"

lemma stage_upd: "holds (stage b0 F p) b \<Longrightarrow> (\<And>i. F i \<Longrightarrow> G (f i)) \<Longrightarrow> holds (stage b0 G p) (upd_iface p f b)"
  by (simp add: stage_def holds_def)

lemma stage_basic:
  assumes "holds (stage b0 F p) b"
  shows "returns (\<lambda>_. stage b0 F p) (ask b)" "holds (stage b0 F p) (emit ev b)"
    "holds (stage b0 F p) (schedule_interfaces_check m over b)" "holds (stage b0 F p) (flush_interface_routes p False b)"
    "returns (\<lambda>_. stage b0 F p) (set_timeout m b)"
proof -
  show "returns (\<lambda>_. stage b0 F p) (set_timeout m b)"
    using assms arising_basic(4) unfolding set_timeout_def
    by (auto simp: stage_def holds_def returns_def split: prod.split)
      (metis schedule_check_frame(6) snd_conv arising_basic(4))+
qed (use assms arising_basic [of b0 p b] arising_flush [of b0 p b] in \<open>simp_all add: stage_def holds_def returns_def\<close>)

lemma fine_fields:
  assumes "fine i"
  shows "length a = 4 \<Longrightarrow> fine (i\<lparr>i_ipv4 := Some a\<rparr>)" "fine (i\<lparr>i_ipv4 := None\<rparr>)" "fine (i\<lparr>i_ll := ll\<rparr>)"
    "fine (i\<lparr>i_hello_timeout := t\<rparr>)" "fine (i\<lparr>i_update_timeout := t\<rparr>)"
    "channel_ok ch \<Longrightarrow> fine (i\<lparr>i_channel := ch\<rparr>)" "fine (put_flag IF_UP False i)"
  subgoal using assms by (simp add: fine_def iface_ok_defs conf_fits_def if_conf_def)
  subgoal using assms by (simp add: fine_def iface_ok_defs conf_fits_def if_conf_def)
  subgoal using assms by (simp add: fine_def iface_ok_defs conf_fits_def if_conf_def)
  subgoal using assms by (simp add: fine_def iface_ok_defs conf_fits_def if_conf_def)
  subgoal using assms by (simp add: fine_def iface_ok_defs conf_fits_def if_conf_def)
  subgoal using assms by (simp add: fine_def iface_ok_defs conf_fits_def if_conf_def channel_ok_def)
  subgoal
  proof -
    have "(put_flag IF_UP False i)\<lparr>i_buffered_hello := -1\<rparr> = put_flag IF_UP False (i\<lparr>i_buffered_hello := -1\<rparr>)"
      by (simp add: put_flag_def)
    then show ?thesis using assms iface_ok_down by (simp add: fine_def conf_fits_def if_conf_def)
  qed
  done

lemma configured_fields:
  assumes "configured i"
  shows "configured (i\<lparr>i_ipv4 := x\<rparr>)" "configured (i\<lparr>i_ll := ll\<rparr>)" "configured (i\<lparr>i_channel := ch\<rparr>)"
    "configured (i\<lparr>i_hello_timeout := t\<rparr>)" "configured (i\<lparr>i_update_timeout := t\<rparr>)"
  using assms by (simp_all add: configured_def if_up_def)

definition begun :: "nat \<Rightarrow> interface \<Rightarrow> bool" where
  "begun n i \<longleftrightarrow> fine i \<and> configured i \<and> i_ifindex i = n"

definition lost :: "interface \<Rightarrow> bool" where
  "lost i \<longleftrightarrow> fine i \<and> \<not> if_up i"

interpretation open_checks: interface_checks "stage b0 (begun n) p" "stage b0 lost p" p for b0 n p
proof
  fix b assume b: "holds (stage b0 (begun n) p) b"
  show "returns (\<lambda>_. stage b0 (begun n) p) (ask b)" "holds (stage b0 (begun n) p) (emit ev b)"
    "holds (stage b0 (begun n) p) (flush_interface_routes p False b)" for ev
    by (rule stage_basic [OF b])+
  show "length a = 4 \<Longrightarrow> holds (stage b0 (begun n) p) (upd_iface p (\<lambda>i. i\<lparr>i_ipv4 := Some a\<rparr>) b)" for a
    by (rule stage_upd [OF b]) (simp add: begun_def fine_fields configured_fields)
  show "holds (stage b0 (begun n) p) (upd_iface p (\<lambda>i. i\<lparr>i_ipv4 := None\<rparr>) b)"
    "holds (stage b0 (begun n) p) (upd_iface p (\<lambda>i. i\<lparr>i_ll := ll\<rparr>) b)" for ll
    by (rule stage_upd [OF b]; simp add: begun_def fine_fields configured_fields)+
  show "channel_ok ch \<Longrightarrow> holds (stage b0 (begun n) p) (upd_iface p (\<lambda>i. i\<lparr>i_channel := ch\<rparr>) b)" for ch
    by (rule stage_upd [OF b]) (simp add: begun_def fine_fields configured_fields)
  show "conf_fits (iface b p)" using b by (simp add: holds_def stage_def begun_def fine_def)
  have down: "holds (stage b0 lost p) (schedule_interfaces_check 2000 False (emit ev (upd_iface p (put_flag IF_UP False) c)))"
    if "holds (stage b0 fine p) c" for c ev
    by (intro stage_basic stage_upd [OF that]) (simp add: lost_def fine_fields)
  have ll: "holds (stage b0 fine p) (upd_iface p (\<lambda>i. i\<lparr>i_ll := []\<rparr>) b)"
    by (rule stage_upd [OF b]) (simp add: begun_def fine_fields)
  show "holds (stage b0 lost p) (lose_link_local p b)"
    unfolding lose_link_local_def Let_def
    by (intro down holds_if ll stage_upd [where F = fine] stage_basic fine_fields) assumption
qed

end
