(* ===== verification/Interface_Claims.thy ===== *)
theory Interface_Claims
  imports Interface_Up
begin

text \<open>
  The claims about interfaces: taking one down, bringing one up, and the periodic check.
\<close>

section \<open>Opening the interface\<close>

lemma flags_of [simp]:
  "if_up (i\<lparr>i_buffered_hello := h\<rparr>) = if_up i" "if_flag f (i\<lparr>i_buffered_hello := h\<rparr>) = if_flag f i"
  "if_up (i\<lparr>i_sendbuf := xs, i_bufsize := n\<rparr>) = if_up i" "if_up (i\<lparr>i_cost := c\<rparr>) = if_up i"
  "if_up (i\<lparr>i_hello_interval := h, i_update_interval := u\<rparr>) = if_up i"
  "if_up (i\<lparr>i_rtt_decay := d, i_rtt_min := a, i_rtt_max := z, i_max_rtt_penalty := m\<rparr>) = if_up i"
  by (simp_all add: if_up_def if_flag_def)

text \<open>An interface whose configuration has only begun, or has failed.\<close>

definition fallen :: "interface \<Rightarrow> bool" where
  "fallen i \<longleftrightarrow> fine (put_flag IF_UP False i)"

definition buffered :: "interface \<Rightarrow> bool" where
  "buffered i \<longleftrightarrow> fine i \<and> if_up i \<and> 78 \<le> i_bufsize i"

lemma put_flag_record:
  "put_flag f v (i\<lparr>i_sendbuf := xs, i_bufsize := n\<rparr>) = (put_flag f v i)\<lparr>i_sendbuf := xs, i_bufsize := n\<rparr>"
  by (simp add: put_flag_def)

lemma put_flag_id: "i_flags (put_flag IF_UP False i) = i_flags i AND NOT IF_UP" by (simp add: put_flag_def)

lemma fine_down:
  "fine (put_flag IF_UP False i) \<longleftrightarrow>
     conf_fits i \<and> 0 \<le> i_bufsize i \<and> (\<forall>a. i_ipv4 i = Some a \<longrightarrow> length a = 4) \<and> channel_ok (i_channel i) \<and>
     0 \<le> i_update_bufsize i \<and> iface_costs_ok i \<and> i_sendbuf i = [] \<and> i_buffered_updates i = []"
  by (auto simp: fine_def iface_ok_def iface_conf_ok_def buffer_ok_def iface_costs_ok_def conf_fits_def if_conf_def channel_ok_def)

lemma fine_iff:
  "fine i \<longleftrightarrow> fallen i \<and> (if_up i \<longrightarrow> 78 \<le> i_bufsize i)"
  unfolding fallen_def fine_down
  by (auto simp: fine_def iface_ok_def iface_conf_ok_def buffer_ok_def iface_costs_ok_def conf_fits_def if_conf_def channel_ok_def)

lemma fallen_buffer:
  "fallen i \<Longrightarrow> if_up i \<Longrightarrow> 78 \<le> n \<Longrightarrow> buffered (i\<lparr>i_sendbuf := [], i_bufsize := n\<rparr>)"
  "fallen i \<Longrightarrow> fallen (i\<lparr>i_sendbuf := [], i_bufsize := 0\<rparr>)"
  by (simp_all add: buffered_def fine_iff, simp_all add: fallen_def fine_down conf_fits_def if_conf_def iface_costs_ok_def)

lemma put_flag_other:
  assumes "0 < k" "k < 16"
  shows "if_up (put_flag (push_bit k 1) v i) = if_up i"
  using put_flag_bits [of 0 k v i] assms by (simp add: flag_bits)

lemma if_up_flags [simp]:
  "if_up (put_flag IF_WIRELESS v i) = if_up i" "if_up (put_flag IF_FARAWAY v i) = if_up i"
  "if_up (conf_flag IF_SPLIT_HORIZON s v i) = if_up i" "if_up (conf_flag IF_LQ s v i) = if_up i"
  "if_up (conf_flag IF_TIMESTAMPS s v i) = if_up i"
  unfolding conf_flag_def flag_values by (rule put_flag_other; simp)+

lemma configure_flags_fields [simp]:
  "if_up (configure_flags t i) = if_up i" "i_conf (configure_flags t i) = i_conf i" "i_bufsize (configure_flags t i) = i_bufsize i"
  "i_ipv4 (configure_flags t i) = i_ipv4 i" "i_channel (configure_flags t i) = i_channel i"
  "i_sendbuf (configure_flags t i) = i_sendbuf i" "i_cost (configure_flags t i) = i_cost i"
  "i_ifindex (configure_flags t i) = i_ifindex i" "i_buffered_updates (configure_flags t i) = i_buffered_updates i" "i_update_bufsize (configure_flags t i) = i_update_bufsize i"
  by (simp_all add: configure_flags_def Let_def, simp_all add: conf_flag_def)

lemma configure_rest_fields [simp]:
  "if_up (configure_intervals t a z i) = if_up i" "i_conf (configure_intervals t a z i) = i_conf i"
  "i_bufsize (configure_intervals t a z i) = i_bufsize i" "i_ipv4 (configure_intervals t a z i) = i_ipv4 i"
  "i_channel (configure_intervals t a z i) = i_channel i" "i_sendbuf (configure_intervals t a z i) = i_sendbuf i"
  "i_cost (configure_intervals t a z i) = i_cost i" "i_update_bufsize (configure_intervals t a z i) = i_update_bufsize i"
  "i_ifindex (configure_intervals t a z i) = i_ifindex i" "i_ifindex (configure_rtt t i) = i_ifindex i"
  "i_buffered_updates (configure_intervals t a z i) = i_buffered_updates i"
  "if_up (configure_rtt t i) = if_up i" "i_conf (configure_rtt t i) = i_conf i"
  "i_bufsize (configure_rtt t i) = i_bufsize i" "i_ipv4 (configure_rtt t i) = i_ipv4 i"
  "i_channel (configure_rtt t i) = i_channel i" "i_sendbuf (configure_rtt t i) = i_sendbuf i"
  "i_cost (configure_rtt t i) = i_cost i" "i_update_bufsize (configure_rtt t i) = i_update_bufsize i"
  "i_buffered_updates (configure_rtt t i) = i_buffered_updates i"
  unfolding configure_intervals_def configure_rtt_def Let_def by simp_all

lemma configure_rtt_values:
  assumes "conf_fits i"
  shows "0 \<le> i_rtt_min (configure_rtt t i)" "i_rtt_min (configure_rtt t i) < i_rtt_max (configure_rtt t i)"
    "0 \<le> i_max_rtt_penalty (configure_rtt t i)" "i_max_rtt_penalty (configure_rtt t i) \<le> INFINITY_METRIC"
  using assms by (auto simp: configure_rtt_def Let_def conf_fits_def INFINITY_METRIC_def)

lemma configure_begun:
  assumes "buffered i"
  shows "begun (i_ifindex i) (configure_interface t cf i)"
proof -
  have c: "conf_fits i" using assms by (simp add: buffered_def fine_def)
  let ?j = "configure_interface t cf i"
  define cost where "cost = (if if_conf c_cost i \<le> 0 then if t = IF_TYPE_WIRELESS then 256 else 96 else if_conf c_cost i)"
  define i' where "i' = configure_intervals t (default_wireless_hello_interval cf) (default_wired_hello_interval cf)
    (configure_flags t (i\<lparr>i_cost := cost\<rparr>))"
  have j: "?j = configure_rtt t i'" by (simp add: configure_interface_def Let_def i'_def cost_def)
  have f: "i_conf ?j = i_conf i" "i_bufsize ?j = i_bufsize i" "i_ipv4 ?j = i_ipv4 i" "i_channel ?j = i_channel i"
    "i_sendbuf ?j = i_sendbuf i" "i_buffered_updates ?j = i_buffered_updates i" "i_update_bufsize ?j = i_update_bufsize i"
    "if_up ?j = if_up i" "i_cost ?j = cost" "i_ifindex ?j = i_ifindex i"
    by (simp_all add: j i'_def)
  have "i_conf i' = i_conf i" by (simp add: i'_def)
  then have "conf_fits i'" using c conf_fits_cong by blast
  note r = configure_rtt_values [OF this, of t, folded j]
  have "0 < cost" "cost \<le> INFINITY_METRIC" using c by (auto simp: cost_def conf_fits_def INFINITY_METRIC_def)
  then have k: "0 < i_cost ?j" "i_rtt_min ?j < i_rtt_max ?j" "iface_costs_ok ?j"
    using r by (simp_all add: f iface_costs_ok_def)
  have "conf_fits ?j" using c conf_fits_cong [OF f(1)] by simp
  moreover have i: "fallen i" "if_up i" "78 \<le> i_bufsize i" using assms by (simp_all add: buffered_def fine_iff)
  ultimately have "fallen ?j" using k(3) unfolding fallen_def fine_down f by simp
  then show ?thesis using i k by (simp add: begun_def configured_def fine_iff f)
qed

section \<open>The first messages\<close>

abbreviation launched :: "babel \<Rightarrow> ptr \<Rightarrow> babel \<Rightarrow> bool" where
  "launched b0 p \<equiv> stage b0 (begun (i_ifindex (iface b0 p))) p"

lemma stage_daemon: "stage b0 fine p b \<Longrightarrow> i_buffered_hello (iface b p) < 0 \<Longrightarrow> daemon_ok b"
  by (rule arising_done) (auto simp: stage_def fine_def iface_ok_def iface_conf_ok_def buffer_ok_def iface_costs_ok_def)

lemma configured_quiet:
  assumes "quiet_iface i = quiet_iface j"
  shows "configured i = configured j"
proof -
  have "i_cost i = i_cost j" "i_rtt_min i = i_rtt_min j" "i_rtt_max i = i_rtt_max j"
    using arg_cong [OF assms, of i_cost] arg_cong [OF assms, of i_rtt_min] arg_cong [OF assms, of i_rtt_max]
    by (simp_all add: quiet_iface_def)
  then show ?thesis using quiet_iface_fields [OF assms] quiet_iface_up [OF assms] by (simp add: configured_def)
qed

definition running :: "babel \<Rightarrow> ptr \<Rightarrow> babel \<Rightarrow> bool" where
  "running b0 p b \<longleftrightarrow> serving b0 p b \<and> configured (iface b p)"

lemma same_step:
  assumes "daemon_ok b" "\<And>R W E. holds (routing R W E) b \<Longrightarrow> holds (routing R W E) c"
    and "holds (linked b) b \<Longrightarrow> holds (linked b) c"
  shows "daemon_ok c" "same_ifaces b c" "route_ifps c = route_ifps b"
proof -
  have r: "holds (routing (rib_routes (rib b)) (who b) (held_now b)) c" using assms(1,2) by (simp add: daemon_ok_routing)
  show "daemon_ok c" by (rule routing_daemon_ok [OF r])
  show "same_ifaces b c" using assms(3) linked_start linked_same by blast
  show "route_ifps c = route_ifps b" using routing_ifps [OF r] who_ifps by simp
qed

lemma serving_step:
  assumes "holds (serving b0 p) b" "\<And>R W E. holds (routing R W E) b \<Longrightarrow> holds (routing R W E) c"
    and "holds (linked b) b \<Longrightarrow> holds (linked b) c"
  shows "holds (serving b0 p) c" "quiet_iface (iface c p) = quiet_iface (iface b p)"
proof -
  have "daemon_ok b" using assms(1) by (simp add: serving_def holds_def)
  note s = same_step [OF this assms(2,3)]
  show "quiet_iface (iface c p) = quiet_iface (iface b p)" using s(2) by (simp add: same_ifaces_def)
  then show "holds (serving b0 p) c"
    using serving_quiet [OF assms(1) s(1)] s(2,3) by (simp add: same_ifaces_def same_but_def)
qed

lemma running_step:
  assumes "holds (running b0 p) b" "\<And>R W E. holds (routing R W E) b \<Longrightarrow> holds (routing R W E) c"
    and "holds (linked b) b \<Longrightarrow> holds (linked b) c"
  shows "holds (running b0 p) c"
proof -
  have b: "holds (serving b0 p) b" "configured (iface b p)" using assms(1) by (simp_all add: running_def holds_def)
  note l = serving_step [OF b(1) assms(2,3)]
  show ?thesis using l(1) b(2) configured_quiet [OF l(2)] by (simp add: running_def holds_def)
qed

text \<open>The hello that the interface remembers, from before it went down, is forgotten first.\<close>

lemma stage_flushbuf:
  assumes "launched b0 p b"
  shows "holds (running b0 p) (flushbuf p b)" "i_buffered_hello (iface (flushbuf p b) p) = -1"
proof -
  have i: "i_sendbuf (iface b p) = []" "i_buffered_updates (iface b p) = []" "0 \<le> i_bufsize (iface b p)"
    "fallen (iface b p)" "if_up (iface b p)" "78 \<le> i_bufsize (iface b p)" "configured (iface b p)"
    using assms by (auto simp: stage_def begun_def configured_def fine_iff) (simp_all add: fallen_def fine_down)
  let ?f = "\<lambda>i. reset_buffer (i\<lparr>i_update_flush_timeout := tv_zero\<rparr>)"
  have e: "flushbuf p b = upd_iface p ?f b"
    using i by (simp add: flushbuf_idle flush_idle_def Let_def c_assert_def flushbuf_raw_def send_packet_def upd_iface_def)
  have q: "quiet_iface (?f (iface b p)) = quiet_iface (iface b p)" by (simp add: quiet_iface_def reset_buffer_def)
  have "i_ifindex (iface (flushbuf p b) p) = i_ifindex (iface b0 p)"
    using assms by (simp add: e stage_def begun_def reset_buffer_def)
  note index = this
  have "conf_fits (?f (iface b p)) = conf_fits (iface b p)" by (rule conf_fits_cong) (simp add: reset_buffer_def)
  then have "fallen (?f (iface b p))" using i(4) by (simp add: fallen_def fine_down reset_buffer_def iface_costs_ok_def)
  then have "fine (?f (iface b p))" using i quiet_iface_up [OF q] by (simp add: fine_iff reset_buffer_def)
  then have st: "stage b0 fine p (flushbuf p b)" using assms by (simp add: stage_def e)
  moreover show h: "i_buffered_hello (iface (flushbuf p b) p) = -1" by (simp add: e reset_buffer_def)
  ultimately have f: "daemon_ok (flushbuf p b)" using stage_daemon [of b0 p] by simp
  have "conf_fits (iface (flushbuf p b) p)" using st by (simp add: stage_def fine_def)
  moreover have "same_but p b0 (flushbuf p b)"
    using st arising_same by (simp add: stage_def)
  ultimately show "holds (running b0 p) (flushbuf p b)"
    using f i(5,7) index quiet_iface_up [OF q] configured_quiet [OF q] by (simp add: running_def serving_def holds_def e)
qed

lemma stage_hello:
  assumes "holds (launched b0 p) b"
  shows "holds (running b0 p) (send_hello p b)"
proof -
  have b: "launched b0 p b" "configured (iface b p)" "stage b0 fine p b"
    using assms by (simp_all add: holds_def stage_def begun_def)
  let ?b = "if i_buffered_hello (iface b p) \<ge> 0 then flushbuf p b else b"
  have "shape (flushbuf p b) = shape b" by (simp add: shaped)
  note interval = quiet_iface_fields(6) [OF shape_eqD(19) [OF this, of p]]
  have a: "(if i_buffered_hello (iface ?b p) \<ge> 0 then flushbuf p ?b else ?b) = ?b"
    by (simp add: stage_flushbuf(2) [OF b(1)])
  have n: "send_hello_noupdate p n ?b = send_hello_noupdate p n b" for n
    unfolding send_hello_noupdate_def a ..
  have "i_hello_interval (iface ?b p) = i_hello_interval (iface b p)" by (simp add: interval)
  then have e: "send_hello p b = send_hello p ?b" by (simp only: send_hello_def n)
  have "holds (running b0 p) ?b"
    using stage_flushbuf(1) [OF b(1)] stage_daemon [OF b(3)] b arising_same [of b0 p b]
    by (auto simp: running_def serving_def holds_def stage_def fine_def configured_def begun_def)
  then show ?thesis unfolding e by (rule running_step) (intro routing_plain links; assumption)+
qed

section \<open>Up\<close>

definition started :: "babel \<Rightarrow> ptr \<Rightarrow> babel \<Rightarrow> bool" where
  "started b0 p b \<longleftrightarrow> running b0 p b \<or> fault b = Some Out_of_fuel"

lemma running_messages:
  assumes "holds (running b0 p) b"
  shows "holds (running b0 p) (send_update ifp urgent None 0 None 0 b)" "holds (running b0 p) (send_request ifp None 0 None 0 b)"
  by (rule running_step [OF assms]; intro routing_plain links; assumption)+

lemma start_interface_ok:
  assumes "holds (launched b0 p) b"
  shows "holds (started b0 p) (start_interface p b)"
proof -
  define b1 where "b1 = snd (check_interface_channel p b)"
  have b1: "holds (launched b0 p) b1" unfolding b1_def by (intro holds_snd open_checks.checks_channel assms)
  show ?thesis
  proof (cases "fault (update_interface_metric p b1) = None")
    case False
    then have "fault (update_interface_metric p b1) = Some Out_of_fuel"
      using arising_metric [of b0 p b1] arising_fault [of b0 p b1] b1 by (auto simp: holds_def stage_def)
    then show ?thesis by (simp add: start_interface_def Let_def b1_def [symmetric] holds_def started_def)
  next
    case True
    then have e: "update_interface_metric p b1 = b1"
      using arising_metric [of b0 p b1] b1 by (auto simp: holds_def stage_def)
    have t: "holds (launched b0 p) (upd_iface p (\<lambda>i. i\<lparr>i_hello_timeout := t\<rparr>) c)"
      "holds (launched b0 p) (upd_iface p (\<lambda>i. i\<lparr>i_update_timeout := t\<rparr>) c)" if "holds (launched b0 p) c" for t c
      by (rule stage_upd [OF that]; simp add: begun_def fine_fields configured_fields)+
    obtain rc b2 where c2: "check_interface_ipv4 p b1 = (rc, b2)" by fastforce
    obtain h b3 where c3: "set_timeout (i_hello_interval (iface b2 p)) b2 = (h, b3)" by fastforce
    define b4 where "b4 = upd_iface p (\<lambda>i. i\<lparr>i_hello_timeout := h\<rparr>) b3"
    obtain u b5 where c5: "set_timeout (i_update_interval (iface b4 p)) b4 = (u, b5)" by fastforce
    define b6 where "b6 = send_hello p (upd_iface p (\<lambda>i. i\<lparr>i_update_timeout := u\<rparr>) b5)"
    have "holds (launched b0 p) b2" using open_checks.checks_ipv4 [OF b1] c2 by (simp add: returns_def holds_def)
    then have "holds (launched b0 p) b4"
      unfolding b4_def using stage_basic(5) c3 t(1) by (metis holds_snd snd_conv)
    then have "holds (running b0 p) b6"
      unfolding b6_def using stage_basic(5) c5 t(2) stage_hello by (metis holds_snd snd_conv)
    then have "holds (running b0 p) (start_interface p b)"
      unfolding start_interface_def b1_def [symmetric] e Let_def c2 c3 prod.case b4_def [symmetric] c5 b6_def [symmetric]
      using True by (simp add: e running_messages)
    then show ?thesis by (simp add: holds_def started_def)
  qed
qed

lemma stage_mono: "holds (stage b0 F p) b \<Longrightarrow> (\<And>i. F i \<Longrightarrow> G i) \<Longrightarrow> holds (stage b0 G p) b"
  by (simp add: holds_def stage_def)

lemma kinds: "buffered i \<Longrightarrow> fallen i" "begun n i \<Longrightarrow> fallen i" "lost i \<Longrightarrow> fallen i"
  by (simp_all add: buffered_def begun_def lost_def fine_iff)

lemma open_buffer_ok:
  assumes "holds (stage b0 (\<lambda>i. fallen i \<and> if_up i \<and> i_ifindex i = n) p) b" "mtu_fits sys"
  shows "returns (\<lambda>ok. stage b0 (\<lambda>i. fallen i \<and> if_up i \<and> i_ifindex i = n \<and> (ok \<longrightarrow> buffered i)) p) (open_buffer sys p b)"
proof -
  define m where "m = mtu_of (kernel_interface_mtu sys (ticks b) (i_name (iface b p))) - 64"
  obtain ok c where c: "c_alloc b = (ok, c)" by fastforce
  have m: "78 \<le> m"
    using assms(2) [unfolded mtu_fits_def, rule_format, of "ticks b" "i_name (iface b p)"]
    by (auto simp: m_def mtu_of_def Let_def)
  have I: "holds (stage b0 (\<lambda>i. fallen i \<and> if_up i \<and> i_ifindex i = n) p) c"
    using stage_basic(1) [OF assms(1)] c by (auto simp: c_alloc_def returns_def holds_def split: prod.splits)
  then have "i_sendbuf (iface c p) = []" by (simp add: holds_def stage_def fallen_def fine_down)
  moreover have "holds (stage b0 (\<lambda>i. fallen i \<and> if_up i \<and> i_ifindex i = n \<and> (ok \<longrightarrow> buffered i)) p)
      (upd_iface p (\<lambda>i. i\<lparr>i_sendbuf := [], i_bufsize := (if ok then m else 0)\<rparr>) c)"
    by (rule stage_upd [OF I]) (use m fallen_buffer kinds(1) in auto)
  ultimately show ?thesis unfolding open_buffer_def m_def [symmetric] Let_def c prod.case
    by (simp add: returns_def holds_def m_def)
qed

text \<open>The kernel always knows a link-local address of the interface.\<close>

definition linked_local :: "system \<Rightarrow> nat \<Rightarrow> bool" where
  "linked_local sys n \<longleftrightarrow> (\<forall>k. kernel_addresses n True 32 (fst (sys_reports sys k)) \<noteq> [])"

lemma link_local_kept: "linked_local sys (i_ifindex (iface b p)) \<Longrightarrow> fst (check_link_local_addresses sys p b) = 0"
  by (auto simp: check_link_local_addresses_def linked_local_def Let_def split: prod.split)

lemma open_interface_ok:
  assumes b: "holds (stage b0 (\<lambda>i. fallen i \<and> if_up i \<and> i_ifindex i = i_ifindex (iface b0 p)) p) b" and "mtu_fits sys"
  shows "returns (\<lambda>ok. if ok then started b0 p
    else stage b0 (\<lambda>i. fallen i \<and> (linked_local sys (i_ifindex (iface b0 p)) \<longrightarrow>
      if_up i \<and> i_ifindex i = i_ifindex (iface b0 p))) p) (open_interface sys p b)"
proof -
  let ?n = "i_ifindex (iface b0 p)"
  let ?F = "\<lambda>i. fallen i \<and> (linked_local sys ?n \<longrightarrow> if_up i \<and> i_ifindex i = ?n)"
  let ?r = "\<lambda>ok. if ok then started b0 p else stage b0 ?F p"
  have fails: "returns ?r (False, c)" if "holds (stage b0 F p) c" "\<And>i. F i \<Longrightarrow> ?F i" for F c
    using stage_mono [OF that] by (simp add: returns_def holds_def)
  obtain r0 b1 where c1: "ask b = (r0, b1)" by fastforce
  obtain ok b2 where c2: "open_buffer sys p b1 = (ok, b2)" by fastforce
  obtain t b3 where c3: "interface_type p b2 = (t, b3)" by fastforce
  define b4 where "b4 = upd_iface p (configure_interface t (conf b3)) b3"
  obtain r1 b5 where c5: "check_link_local_addresses sys p b4 = (r1, b5)" by fastforce
  obtain r2 b6 where c6: "ask b5 = (r2, b6)" by fastforce
  let ?G = "\<lambda>i. fallen i \<and> if_up i \<and> i_ifindex i = ?n \<and> (ok \<longrightarrow> buffered i)"
  have b1: "holds (stage b0 (\<lambda>i. fallen i \<and> if_up i \<and> i_ifindex i = ?n) p) b1"
    using stage_basic(1) [OF b] c1 by (simp add: returns_def holds_def)
  have b2: "holds (stage b0 ?G p) b2" using open_buffer_ok [OF b1 assms(2)] c2 by (simp add: returns_def holds_def)
  have b3: "holds (stage b0 ?G p) b3"
    using stage_basic(1) [OF b2] c3 unfolding interface_type_def Let_def
    by (auto simp: b2 returns_def holds_def split: if_splits prod.splits) (use b2 in \<open>simp_all add: holds_def\<close>)
  have b4: "holds (launched b0 p) b4" if ok
    unfolding b4_def by (rule stage_upd [OF b3]) (use that configure_begun in fastforce)
  have b5: "holds (if r1 < 0 then stage b0 lost p else launched b0 p) b5" if ok
    using open_checks.checks_link_local [OF b4 [OF that], of sys] c5 by (simp add: returns_def holds_def)
  have r1: "\<not> linked_local sys ?n" if ok "r1 < 0"
    using link_local_kept [of sys b4 p] c5 that b4 [OF that(1)] by (auto simp: holds_def stage_def begun_def)
  have b6: "holds (launched b0 p) b6" if ok "\<not> r1 < 0"
    using b5 stage_basic(1) [of b0 "begun ?n" p b5] that c6 by (simp add: returns_def holds_def)
  show ?thesis
    unfolding open_interface_def c1 c2 prod.case c3 Let_def b4_def [symmetric] c5 c6
  proof (intro returns_if)
    show "returns ?r (True, start_interface p b6)" if "\<not> \<not> ok" "\<not> r1 < 0"
      using start_interface_ok [OF b6] that by (simp add: returns_def holds_def)
    show "returns ?r (False, b5)" if "\<not> \<not> ok" "r1 < 0"
    proof (rule fails)
      show "holds (stage b0 lost p) b5" using b5 that by simp
    qed (use r1 that kinds(3) in blast)
    show "returns ?r (False, b6)" if "\<not> \<not> ok" "\<not> r1 < 0"
    proof (rule fails)
      show "holds (launched b0 p) b6" using b6 that by simp
    qed (use kinds(2) in \<open>auto simp: begun_def configured_def\<close>)
    show "returns ?r (False, b1)" by (rule fails [OF b1]) blast
    show "returns ?r (False, b2)" by (rule fails [OF b2]) blast
    show "returns ?r (False, b)" by (rule fails [OF b]) blast
  qed
qed

end
