(* ===== verification/Interface_Settled.thy ===== *)
theory Interface_Settled
  imports Interface_Claims
begin

text \<open>
  The invariant of the interfaces between two turns of the main loop (\<open>settled\<close>): those that are
  down have no buffer and no routes.  Taking interfaces down and up and the periodic check keep
  it, when the system is one that the code is made for (\<open>system_ok\<close>).
\<close>

section \<open>The invariant\<close>

definition settled_iface :: "system \<Rightarrow> interface \<Rightarrow> bool" where
  "settled_iface sys i \<longleftrightarrow>
     conf_fits i \<and> (if_up i \<or> i_bufsize i = 0) \<and> (i_ifindex i = 0 \<or> linked_local sys (i_ifindex i))"

definition settled :: "system \<Rightarrow> babel \<Rightarrow> bool" where
  "settled sys b \<longleftrightarrow> (\<forall>p. settled_iface sys (iface b p)) \<and> route_ifps b \<subseteq> {p. if_up (iface b p)}"

definition sound :: "system \<Rightarrow> babel \<Rightarrow> bool" where
  "sound sys b \<longleftrightarrow> daemon_ok b \<and> settled sys b \<or> fault b = Some Out_of_fuel"

text \<open>Large enough MTUs, and an interface with an index keeps a link-local address.\<close>

definition system_ok :: "system \<Rightarrow> bool" where
  "system_ok sys \<longleftrightarrow>
     mtu_fits sys \<and> (\<forall>n name. if_nametoindex sys n name = 0 \<or> linked_local sys (if_nametoindex sys n name))"

lemma settled_iface_quiet:
  assumes "quiet_iface i = quiet_iface j"
  shows "settled_iface sys i = settled_iface sys j"
  using quiet_iface_fields [OF assms] quiet_iface_up [OF assms] conf_fits_cong [OF quiet_iface_conf [OF assms]]
  by (simp add: settled_iface_def)

lemma settled_same:
  assumes "settled sys b" "same_ifaces b c" "route_ifps c \<subseteq> {p. if_up (iface b p)}"
  shows "settled sys c"
proof -
  have q: "quiet_iface (iface c p) = quiet_iface (iface b p)" for p using assms(2) by (simp add: same_ifaces_def)
  show ?thesis
    using assms(1,3) settled_iface_quiet [OF q] quiet_iface_up [OF q] by (simp add: settled_def)
qed

lemma confined_sound:
  assumes "settled sys b" "confined {p. if_up (iface b p)} b c"
  shows "sound sys c"
  using assms(2) settled_same [OF assms(1)] unfolding sound_def confined_def by blast

lemma settled_but:
  assumes "settled sys b" "same_but p b c" "settled_iface sys (iface c p)" "\<not> if_up (iface c p) \<Longrightarrow> routes_via p c = {}"
  shows "settled sys c"
proof -
  have o: "settled_iface sys (iface c q)" for q
  proof (cases "q = p")
    case False
    then have "quiet_iface (iface c q) = quiet_iface (iface b q)" using assms(2) by (simp add: same_but_def)
    from settled_iface_quiet [OF this] show ?thesis using assms(1) by (simp add: settled_def)
  qed (simp add: assms(3))
  have "if_up (iface c q)" if "q \<in> route_ifps c" for q
  proof (cases "q = p")
    case True
    then have "routes_via p c \<noteq> {}" using that by (auto simp: routes_via_def route_ifps_def)
    then show ?thesis using assms(4) True by blast
  next
    case False
    then have "quiet_iface (iface c q) = quiet_iface (iface b q)" "q \<in> route_ifps b" using assms(2) that by (auto simp: same_but_def)
    then show ?thesis using assms(1) quiet_iface_up [of "iface c q" "iface b q"] by (auto simp: settled_def)
  qed
  then show ?thesis using o by (auto simp: settled_def)
qed

lemma settled_idle:
  assumes "daemon_ok b" "settled sys b" "\<not> if_up (iface b p)"
  shows "idle (iface b p)" "routes_via p b = {}"
proof -
  have "i_bufsize (iface b p) = 0" using assms(2,3) by (auto simp: settled_def settled_iface_def)
  moreover have "buffer_ok (iface b p)" using daemon_iface [OF assms(1), of p] by (simp add: iface_ok_def)
  ultimately show "idle (iface b p)" using assms(3) by (auto simp: idle_def buffer_ok_def)
  show "routes_via p b = {}" using assms(2,3) by (auto simp: settled_def routes_via_def route_ifps_def)
qed

section \<open>Up and down\<close>

lemma idle_fallen:
  assumes "iface_ok i" "idle i" "conf_fits i"
  shows "fallen (put_flag IF_UP True i)" "if_up (put_flag IF_UP True i)"
proof -
  have "fallen i" using assms
    by (simp add: fallen_def fine_down idle_def iface_ok_def iface_conf_ok_def channel_ok_def buffer_ok_def)
  moreover have "put_flag IF_UP False i = i" using assms(2) by (simp add: put_flag_same idle_def)
  ultimately show "fallen (put_flag IF_UP True i)" using assms(2) by (simp add: fallen_def put_flag_twice idle_def)
  show "if_up (put_flag IF_UP True i)" by simp
qed

lemma fallen_down: "fallen i \<Longrightarrow> iface_ok (put_flag IF_UP False i)"
  unfolding fallen_def fine_def iface_ok_def iface_conf_ok_def buffer_ok_def iface_costs_ok_def by simp

text \<open>What an attempt to bring an interface up leaves.\<close>

lemma interface_up_result:
  assumes b: "daemon_ok b" "idle (iface b p)" "routes_via p b = {}" "conf_fits (iface b p)" and sys: "mtu_fits sys"
    and u: "interface_up sys p True b = (rc, c)"
  shows "rc = 1 \<and> (daemon_ok c \<and> serving b p c \<and> configured (iface c p) \<or> fault c = Some Out_of_fuel) \<or>
    rc = -1 \<and> daemon_ok c \<and> \<not> if_up (iface c p) \<and> routes_via p c = {} \<and> same_but p b c \<and> conf_fits (iface c p) \<and>
      (linked_local sys (i_ifindex (iface b p)) \<longrightarrow> idle (iface c p) \<and> i_ifindex (iface c p) = i_ifindex (iface b p))"
proof -
  let ?b = "upd_iface p (put_flag IF_UP True) b"
  let ?F = "\<lambda>i. fallen i \<and> (linked_local sys (i_ifindex (iface b p)) \<longrightarrow>
    if_up i \<and> i_ifindex i = i_ifindex (iface b p))"
  have up: "\<not> if_up (iface b p)" using b(2) by (simp add: idle_def)
  note f = idle_fallen [OF daemon_iface [OF b(1)] b(2,4)]
  have "holds (stage b (\<lambda>i. fallen i \<and> if_up i \<and> i_ifindex i = i_ifindex (iface b p)) p) ?b"
    using arising_start [OF b(1,3)] f by (simp add: stage_def holds_def)
  note o = open_interface_ok [OF this sys]
  obtain ok d where d: "open_interface sys p ?b = (ok, d)" by fastforce
  show ?thesis
  proof (cases ok)
    case True
    then have "rc = 1" "c = emit (Notify_interface LOCAL_CHANGE p) d"
      using u up d by (simp_all add: interface_up_def Let_def)
    moreover have "started b p d" using o d True by (simp add: returns_def)
    moreover have "fault (emit ev d) = fault d" for ev by (simp add: emit_def)
    moreover have "serving b p (emit ev d)" if "serving b p d" for ev
      using serving_checks.emitting [OF holdsI [where I = "serving b p", OF that]] by (simp add: holds_def)
    ultimately show ?thesis by (auto simp: started_def running_def serving_def)
  next
    case False
    then have s: "stage b ?F p d" using o d by (simp add: returns_def)
    then have a: "arising b p d" "fallen (iface d p)" "linked_local sys (i_ifindex (iface b p)) \<Longrightarrow> if_up (iface d p) \<and> i_ifindex (iface d p) = i_ifindex (iface b p)"
      by (auto simp: stage_def)
    define e where "e = upd_iface p (put_flag IF_UP False) d"
    have e: "daemon_ok e" using arising_done [of b p e] a fallen_down by (simp add: e_def)
    have via: "routes_via p e = {}" using a(1) via_cong [of e d] by (simp add: arising_def e_def)
    have sd: "same_but p b e" using arising_same [of b p e] a(1) by (simp add: e_def)
    have cf: "conf_fits (iface e p)" using a(2) by (simp add: fallen_def fine_def e_def)
    have same: "e = d" if "\<not> if_up (iface d p)" using that by (simp add: e_def put_flag_same upd_iface_def)
    define g where "g = (if if_up (iface d p) then interface_down p e else d)"
    have g: "daemon_ok g \<and> \<not> if_up (iface g p) \<and> routes_via p g = {} \<and> same_but p b g \<and> conf_fits (iface g p) \<and>
      (linked_local sys (i_ifindex (iface b p)) \<longrightarrow> idle (iface g p) \<and> i_ifindex (iface g p) = i_ifindex (iface e p))"
    proof (cases "if_up (iface d p)")
      case True
      have "\<not> if_up (iface e p)" by (simp add: e_def)
      note i = interface_down_ok [OF e this]
      show ?thesis
        using True i same_but_trans [OF sd i(1)] cf conf_fits_cong [OF i(2)] by (simp add: g_def idle_def)
    next
      case False
      then have "\<not> linked_local sys (i_ifindex (iface b p))" using a(3) by blast
      then show ?thesis using False e via sd cf same by (simp add: g_def)
    qed
    have index: "i_ifindex (iface e p) = i_ifindex (iface b p)" if "linked_local sys (i_ifindex (iface b p))"
      using a(3) that by (simp add: e_def)
    have "rc = -1" "c = emit (Notify_interface LOCAL_CHANGE p) g"
      using u up d False by (auto simp: interface_up_def Let_def g_def e_def)
    moreover have "daemon_ok (emit ev g)" "routes_via p (emit ev g) = routes_via p g" "same_but p b (emit ev g)" for ev
      using g daemon_basic(3) [of g ev] via_cong [of "emit ev g" g p] same_but_trans [of p b g, OF _ same_but_frame]
      by (simp_all add: holds_def)
    ultimately show ?thesis using g index by simp
  qed
qed

section \<open>The periodic check\<close>

lemma serving_start: "daemon_ok b \<Longrightarrow> conf_fits (iface b p) \<Longrightarrow> if_up (iface b p) \<Longrightarrow> serving b p b"
  by (simp add: serving_def same_but_def)

lemma serving_settled:
  assumes "settled sys b" "serving b p c"
  shows "settled sys c"
proof (rule settled_but [OF assms(1)])
  have "settled_iface sys (iface b p)" using assms(1) by (simp add: settled_def)
  then show "settled_iface sys (iface c p)" using assms(2) by (simp add: serving_def settled_iface_def)
qed (use assms(2) in \<open>simp_all add: serving_def\<close>)

lemma idle_settled:
  assumes "settled sys b" "same_but p b c" "idle (iface c p)" "routes_via p c = {}"
    and "conf_fits (iface c p)" "i_ifindex (iface c p) = i_ifindex (iface b p)"
  shows "settled sys c"
proof (rule settled_but [OF assms(1,2)])
  have "settled_iface sys (iface b p)" using assms(1) by (simp add: settled_def)
  then show "settled_iface sys (iface c p)"
    using assms(3,5,6) by (simp add: settled_iface_def idle_def)
qed (rule assms(4))

lemma toggled:
  assumes b: "daemon_ok b" "settled sys b" and sys: "mtu_fits sys" "v \<Longrightarrow> linked_local sys (i_ifindex (iface b p))"
    and u: "interface_up sys p v b = (rc, c)"
  shows "fault c = Some Out_of_fuel \<or>
    daemon_ok c \<and> settled sys c \<and> (if_up (iface c p) \<longrightarrow> v) \<and> i_ifindex (iface c p) = i_ifindex (iface b p)"
proof (cases "v = if_up (iface b p)")
  case True
  then have "c = b" using u by (simp add: interface_up_def)
  then show ?thesis using b True by simp
next
  case change: False
  show ?thesis
  proof (cases v)
    case True
    then have d: "\<not> if_up (iface b p)" using change by simp
    note i = settled_idle [OF b d]
    have cf: "conf_fits (iface b p)" using b(2) by (simp add: settled_def settled_iface_def)
    have sys': "linked_local sys (i_ifindex (iface b p))" using sys(2) True by simp
    have "interface_up sys p True b = (rc, c)" using u True by simp
    from interface_up_result [OF b(1) i cf sys(1) this] consider
        (up) "daemon_ok c" "serving b p c"
      | (out) "fault c = Some Out_of_fuel"
      | (down) "daemon_ok c" "routes_via p c = {}" "same_but p b c" "conf_fits (iface c p)" "idle (iface c p)"
          "i_ifindex (iface c p) = i_ifindex (iface b p)"
      using sys' by blast
    then show ?thesis
    proof cases
      case up
      then show ?thesis using serving_settled [OF b(2) up(2)] True by (simp add: serving_def)
    next
      case down
      then show ?thesis using idle_settled [OF b(2) down(3,5,2,4,6)] True by simp
    qed simp
  next
    case False
    then have d: "if_up (iface b p)" and u': "interface_up sys p False b = (rc, c)" using change u by simp_all
    note r = interface_down_result [OF b(1) d u']
    have "conf_fits (iface c p)"
      using conf_fits_cong [of "iface c p" "iface b p"] r b(2) by (simp add: settled_def settled_iface_def)
    then have "settled sys c" using idle_settled [OF b(2), of p c] r by blast
    then show ?thesis using r by (simp add: idle_def)
  qed
qed

lemma renumber_ok:
  assumes b: "daemon_ok b" "settled sys b" and n: "n = 0 \<or> linked_local sys n" "mtu_fits sys"
    and r: "renumber_interface sys n p b = (changed, c)"
  shows "daemon_ok c \<and> settled sys c \<and> i_ifindex (iface c p) = n"
proof (cases "n = i_ifindex (iface b p)")
  case True
  then show ?thesis using b r by (simp add: renumber_interface_def)
next
  case False
  have set_index: "daemon_ok (upd_iface p (\<lambda>i. i\<lparr>i_ifindex := m\<rparr>) d) \<and> settled sys (upd_iface p (\<lambda>i. i\<lparr>i_ifindex := m\<rparr>) d)"
    if d: "daemon_ok d" "settled sys d" and m: "m = 0 \<or> linked_local sys m" for m d
  proof
    let ?e = "upd_iface p (\<lambda>i. i\<lparr>i_ifindex := m\<rparr>) d"
    show "daemon_ok ?e" by (rule daemon_upd_iface [OF d(1)]) (rule iface_ok_fields(6) [OF daemon_iface [OF d(1)]])
    have i: "settled_iface sys (iface d p)" using d(2) by (simp add: settled_def)
    show "settled sys ?e"
    proof (rule settled_but [OF d(2) same_but_frame])
      show "settled_iface sys (iface ?e p)" using i m by (simp add: settled_iface_def conf_fits_def if_conf_def if_up_def)
      show "routes_via p ?e = {}" if "\<not> if_up (iface ?e p)"
        using that settled_idle(2) [OF d, of p] via_cong [of ?e d p] by (simp add: if_up_def)
    qed simp_all
  qed
  let ?b = "upd_iface p (\<lambda>i. i\<lparr>i_ifindex := 0\<rparr>) b"
  obtain rc d where d: "interface_up sys p False ?b = (rc, d)" by fastforce
  have "daemon_ok ?b" "settled sys ?b" using set_index [OF b, of 0] by simp_all
  note t = toggled [OF this n(2) _ d]
  have "fault d \<noteq> Some Out_of_fuel"
  proof (cases "if_up (iface ?b p)")
    case True
    then show ?thesis using interface_down_result [OF \<open>daemon_ok ?b\<close> True d] daemon_fault by auto
  next
    case False
    then have "d = ?b" using d by (simp add: interface_up_def)
    then show ?thesis using daemon_fault [OF \<open>daemon_ok ?b\<close>] by simp
  qed
  then have d_ok: "daemon_ok d" "settled sys d" using t by auto
  have "c = upd_iface p (\<lambda>i. i\<lparr>i_ifindex := n\<rparr>) d" using r False d by (auto simp: renumber_interface_def Let_def)
  then show ?thesis using set_index [OF d_ok n(1)] by simp
qed

lemma serving_messages:
  assumes "holds (serving b0 p) b"
  shows "holds (serving b0 p) (send_update ifp urgent None 0 None 0 b)" "holds (serving b0 p) (send_request ifp None 0 None 0 b)"
  by (rule serving_step(1) [OF assms]; intro routing_plain links; assumption)+

text \<open>The checks of an interface that is up.\<close>

lemma checks_serving:
  assumes b: "holds (serving b0 p) b" and ll: "linked_local sys (i_ifindex (iface b p))"
    and c: "c = snd (check_interface_channel p (snd (check_link_local_addresses sys p b)))"
  shows "holds (serving b0 p) c" "check_interface_ipv4 p c = (rc, d) \<Longrightarrow> holds (serving b0 p) d"
proof -
  obtain r b1 where l: "check_link_local_addresses sys p b = (r, b1)" by fastforce
  have "r = 0" using link_local_kept [OF ll] l by simp
  then have "holds (serving b0 p) b1" using serving_checks.checks_link_local [OF b, of sys] l by (simp add: returns_def holds_def)
  then show "holds (serving b0 p) c" unfolding c l snd_conv by (intro holds_snd serving_checks.checks_channel)
  from serving_checks.checks_ipv4 [OF this] show "check_interface_ipv4 p c = (rc, d) \<Longrightarrow> holds (serving b0 p) d"
    by (simp add: returns_def holds_def)
qed

lemma check_interface_sound:
  assumes "sound sys b" "system_ok sys" "check_interface sys p (renumbered, b) = (renumbered', c)"
  shows "sound sys c"
proof (cases "fault b = None")
  case False
  then show ?thesis using assms(1,3) by (simp add: check_interface_def)
next
  case True
  then have b: "daemon_ok b" "settled sys b" using assms(1) by (auto simp: sound_def)
  define n where "n = if_nametoindex sys (ticks b) (i_name (iface b p))"
  have n: "n = 0 \<or> linked_local sys n" "mtu_fits sys" using assms(2) by (simp_all add: system_ok_def n_def)
  obtain changed b1 where r: "renumber_interface sys n p b = (changed, b1)" by fastforce
  have b1: "daemon_ok b1" "settled sys b1" "i_ifindex (iface b1 p) = n" using renumber_ok [OF b n r] by simp_all
  obtain rc b2 where a: "(if i_ifindex (iface b1 p) > 0 then ask b1 else (0, b1)) = (rc, b2)" by fastforce
  have ask_ok: "daemon_ok (snd (ask b1))" using daemon_basic(1) [OF holdsI [where I = daemon_ok, OF b1(1)]] by (simp add: returns_def)
  have "same_ifaces b1 (snd (ask b1))" "route_ifps (snd (ask b1)) = route_ifps b1"
    by (simp_all add: same_ifaces_def route_ifps_def route_ifp_def)
  then have ask_settled: "settled sys (snd (ask b1))" using settled_same [OF b1(2)] b1(2) by (simp add: settled_def)
  have b2: "daemon_ok b2" "settled sys b2" "i_ifindex (iface b2 p) = n" "rc > 0 \<Longrightarrow> n > 0"
    using a b1 ask_ok ask_settled by (auto split: if_splits simp: ask_def)
  obtain r1 b3 where u: "interface_up sys p (rc > 0) b2 = (r1, b3)" by fastforce
  have ll: "linked_local sys (i_ifindex (iface b2 p))" if "rc > 0" using b2(3,4) n(1) that by auto
  have t: "fault b3 = Some Out_of_fuel \<or>
    daemon_ok b3 \<and> settled sys b3 \<and> (if_up (iface b3 p) \<longrightarrow> rc > 0) \<and> i_ifindex (iface b3 p) = n"
    using toggled [OF b2(1,2) n(2) ll u] b2(3) by simp
  show ?thesis
  proof (cases "fault b3 \<noteq> None \<or> \<not> if_up (iface b3 p)")
    case True
    then have "c = b3" using assms(3) \<open>fault b = None\<close> r a u
      unfolding check_interface_def prod.case n_def [symmetric] Let_def by (auto split: prod.splits)
    then show ?thesis using t by (auto simp: sound_def)
  next
    case False
    then have b3: "daemon_ok b3" "settled sys b3" "if_up (iface b3 p)" "linked_local sys (i_ifindex (iface b3 p))"
      using t b2(4) n(1) by auto
    define b4 where "b4 = snd (check_interface_channel p (snd (check_link_local_addresses sys p b3)))"
    obtain r2 b5 where i: "check_interface_ipv4 p b4 = (r2, b5)" by fastforce
    have "conf_fits (iface b3 p)" using b3(2) by (simp add: settled_def settled_iface_def)
    then have l3: "holds (serving b3 p) b3" using serving_start b3 by (simp add: holds_def)
    have b5: "holds (serving b3 p) b5" by (rule checks_serving(2) [OF l3 b3(4) b4_def i])
    have "c = (if r2 > 0 then send_update (Some p) False None 0 None 0 (send_request (Some p) None 0 None 0 b5) else b5)"
      using assms(3) \<open>fault b = None\<close> False r a u i
      unfolding check_interface_def prod.case n_def [symmetric] Let_def b4_def by (auto split: prod.splits)
    then have "holds (serving b3 p) c" using b5 serving_messages by simp
    then show ?thesis using serving_settled [OF b3(2), of p c] by (simp add: holds_def sound_def serving_def)
  qed
qed

lemma check_interfaces_sound:
  assumes "sound sys b" "system_ok sys"
  shows "sound sys (check_interfaces sys b)"
proof -
  have "sound sys (snd (fold (check_interface sys) ps x))" if "sound sys (snd x)" for ps x
    using that
  proof (induction ps arbitrary: x)
    case (Cons p ps)
    have "sound sys (snd (check_interface sys p x))"
      using check_interface_sound [OF Cons.prems assms(2)] by (metis prod.collapse)
    from Cons.IH [OF this] show ?case by simp
  qed simp
  moreover have "sound sys (c\<lparr>filters_of := fs\<rparr>)" if "sound sys c" for c fs
  proof -
    have "daemon_ok (c\<lparr>filters_of := fs\<rparr>) = daemon_ok c"
      by (simp add: daemon_ok_def ready_def network_ok_def buffers_ok_def tables_ok_def steady_def
          allocs_succeed_def users_def route_src_def)
    then show ?thesis using that by (simp add: sound_def settled_def route_ifps_def route_ifp_def)
  qed
  moreover obtain renumbered c where c: "fold (check_interface sys) (interfaces (ifaces b)) (False, b) = (renumbered, c)"
    by fastforce
  ultimately have "sound sys c" "\<And>fs. sound sys (c\<lparr>filters_of := fs\<rparr>)"
    using assms(1) by (metis snd_conv)+
  then show ?thesis by (simp add: check_interfaces_def c)
qed

section \<open>The claims\<close>

text \<open>A system with one interface, of index 3 and with an MTU of 1500, and its link-local address.\<close>

definition a_system :: system where
  "a_system =
     \<lparr>sys_reports = (\<lambda>n. ([\<lparr>ka_addr = 0xfe # 0x80 # replicate 13 0 @ [1], ka_ifindex = 3\<rparr>], [])),
      if_nametoindex = (\<lambda>n name. 3), kernel_interface_mtu = (\<lambda>n name. 1500)\<rparr>"

lemma a_system_ok: "system_ok a_system" "mtu_fits a_system" "linked_local a_system 3"
  by (simp_all add: system_ok_def mtu_fits_def linked_local_def a_system_def kernel_addresses_def filter_address_def
      in6_is_addr_linklocal_def)

lemma the_iface_fits: "conf_fits (iface routed_router p)"
  by (simp add: conf_fits_def if_conf_def routed_router_def a_router_def the_iface_def interface_zero_def
      channel_ok_def IF_CHANNEL_UNKNOWN_def INFINITY_METRIC_def)

lemma routed_router_up: "if_up (iface routed_router 1)"
  by (simp add: routed_router_def a_router_def the_iface_def interface_zero_def if_up_def IF_UP_def)

lemma routed_router_settled: "settled a_system routed_router"
proof -
  have "settled_iface a_system (iface routed_router p)" for p
  proof (cases "p = 1")
    case True
    have "i_ifindex (iface routed_router 1) = 3" by (simp add: routed_router_def a_router_def the_iface_def)
    then show ?thesis using True routed_router_up the_iface_fits a_system_ok(3) by (simp add: settled_iface_def)
  next
    case False
    then have "iface routed_router p = interface_zero" by (simp add: routed_router_def a_router_def)
    then show ?thesis using the_iface_fits [of p] by (simp add: settled_iface_def interface_zero_def)
  qed
  moreover have "route_ifps routed_router \<subseteq> {1}"
    by (auto simp: route_ifps_def route_ifp_def routed_router_def a_router_def the_route_def new_route_def Let_def
        the_neigh_def route_zero_def)
  ultimately show ?thesis using routed_router_up by (auto simp: settled_def)
qed

text \<open>
  C13: (safety) Taking an interface down keeps the invariant of the daemon and leaves the interface
  without a send buffer, without buffered updates and without routes; exactly the routes that
  led through it are gone from the table.
\<close>

theorem interface_down_safe:
  assumes "daemon_ok b" "if_up (iface b p)" "interface_up sys p False b = (rc, c)"
  shows "rc = 1 \<and> daemon_ok c \<and> \<not> if_up (iface c p) \<and> i_sendbuf (iface c p) = [] \<and> i_bufsize (iface c p) = 0 \<and>
    i_buffered_updates (iface c p) = [] \<and> (\<forall>rt \<in> rib_routes (rib c). route_ifp c rt \<noteq> p) \<and>
    rib_routes (rib c) = {rt \<in> rib_routes (rib b). route_ifp b rt \<noteq> p}"
  using interface_down_result [OF assms] by (auto simp: idle_def routes_via_def)

theorem interface_down_safe_witness: "rib_routes (rib (snd (interface_up a_system 1 False routed_router))) = {}"
  using interface_down_safe [OF routed_router_ok routed_router_up prod.collapse [symmetric], of a_system]
  by (simp add: routed_router_def rib_routes_def the_route_def new_route_def Let_def route_zero_def route_ifp_def
      a_router_def the_neigh_def neighbour_zero_def)





end
