(* ===== verification/Main_Steps.thy ===== *)
theory Main_Steps
  imports Main_Loop Interface_Settled Xroute_Mirror
begin

text \<open>
  The operations that only the main loop calls keep the invariant of the daemon: expiring routes,
  sources and requests, resending, checking the rules, and the messages of the start and the end.
\<close>

section \<open>Messages\<close>

lemma routing_goodbyes [routed]:
  assumes "holds (routing R W E) b"
  shows "holds (routing R W E) (send_wildcard_retraction p b)" "holds (routing R W E) (send_hello_noupdate p interval b)"
    "dest_ok prefix plen src_prefix src_plen \<Longrightarrow> length rid = 8 \<Longrightarrow>
      holds (routing R W E) (send_multihop_request ifp prefix plen src_prefix src_plen seqno rid hops b)"
  using assms by (auto intro!: routing_shape [OF _ _ assms] readies simp: shaped)

lemma linked_goodbyes [links]:
  assumes "holds (linked b0) b"
  shows "holds (linked b0) (send_wildcard_retraction p b)" "holds (linked b0) (send_hello_noupdate p interval b)"
    "holds (linked b0) (flushbuf p b)" "holds (linked b0) (flushupdates p b)" "holds (linked b0) (gettime b)"
    "returns (\<lambda>_. linked b0) (c_roughly v b)"
  using assms by (auto intro!: linked_shape [OF _ assms] linked_shape_returns simp: shaped)

section \<open>Resends\<close>

lemma routing_resends:
  assumes "holds (routing R W E) b" "resends_typed rt"
  shows "holds (routing R W E) (b\<lparr>resends := rt\<rparr>)"
proof (rule routing_shape [OF _ _ assms(1)])
  show "shape (b\<lparr>resends := rt\<rparr>) = shape b" by (rule shaped)
  show "holds ready (b\<lparr>resends := rt\<rparr>)" if "holds ready b"
    by (rule holds_ready [OF shape_basic(6) that]) (use assms(2) in \<open>simp add: ready_def buffers_ok_def\<close>)
qed

lemma routing_typed: "holds (routing R W E) b \<Longrightarrow> resends_typed (resends b)"
  using routingD(1) by (auto simp: holds_def ready_def buffers_ok_def)

lemma resend_time_typed [simp]: "resends_typed (recompute_resend_time t rt) = resends_typed rt"
  by (simp add: resends_typed_def recompute_resend_time_def)

lemma expire_resend_typed [simp]: "resends_typed (expire_resend t rt) = resends_typed rt"
  by (simp add: expire_resend_def split: prod.split) (simp add: resends_typed_def Let_def recompute_resend_time_def)

lemma routing_do_resend1:
  assumes "holds (routing R W E) b"
  shows "holds (routing R W E) (do_resend1 p b)"
proof (cases "resend_due (now b) (rt_heap (resends b) p)")
  case True
  let ?r = "rt_heap (resends b) p" and ?c = "resend_again (rt_heap (resends b) p) b"
  have "resend_typed ?r" using routing_typed [OF assms] by (simp add: resends_typed_def)
  moreover have "q_max ?r > 0" using True by (simp add: resend_due_def resend_active_def)
  ultimately have "dest_ok (q_prefix ?r) (q_plen ?r) (q_src_prefix ?r) (q_src_plen ?r)" "length (q_id ?r) = 8"
    by (auto simp: resend_typed_def)
  then have c: "holds (routing R W E) ?c"
    using assms by (cases "q_kind ?r") (simp_all add: resend_again_def routed)
  have "resend_typed (back_off q)" if "resend_typed q" for q
    using that by (auto simp: resend_typed_def back_off_def)
  then have "resends_typed ((resends ?c)\<lparr>rt_heap := (rt_heap (resends ?c))(p := back_off (rt_heap (resends ?c) p))\<rparr>)"
    using routing_typed [OF c] by (simp add: resends_typed_def)
  from routing_resends [OF c this] show ?thesis using True by (simp add: do_resend1_def upd_resend_def Let_def)
qed (use assms in \<open>simp add: do_resend1_def\<close>)

lemma routing_do_resend:
  assumes "holds (routing R W E) b"
  shows "holds (routing R W E) (do_resend b)"
proof -
  have "holds (routing R W E) (c\<lparr>resends := recompute_resend_time t (resends c)\<rparr>)" if "holds (routing R W E) c" for c t
    using routing_resends [OF that] routing_typed [OF that] by simp
  then show ?thesis unfolding do_resend_def by (intro inv_rules assms routing_do_resend1)
qed

lemma linked_do_resend:
  assumes "holds (linked b0) b"
  shows "holds (linked b0) (do_resend b)"
proof -
  have "holds (linked b0) (do_resend1 p c)" if "holds (linked b0) c" for p c
    using that by (cases "q_kind (rt_heap (resends c) p)") (simp_all add: do_resend1_def upd_resend_def resend_again_def links Let_def)
  then show ?thesis unfolding do_resend_def by (intro inv_rules assms) (simp_all add: links)
qed

section \<open>Expiry of routes\<close>

lemma expire_walk_ok:
  assumes "holds (routing R W E) b" "\<And>r. p = Some r \<Longrightarrow> r \<in> R"
  shows "\<exists>R' \<subseteq> R. holds (spent R' W E) (snd (expire_walk n p b))"
  using assms
proof (induction n p b rule: expire_walk.induct)
  case (2 r b)
  then show ?case using routingD(7) [OF "2.prems"(1)] by (auto simp: holds_def spent_def raise_fault_def)
next
  case (3 n r b)
  have r: "r \<in> R" using "3.prems"(2) by simp
  show ?case
  proof (cases "r_time (route b r) > tv_sec (now b) \<or> route_old r b")
    case True
    then show ?thesis using spentI [OF routing_flush [OF "3.prems"(1) r]] by auto
  next
    case False
    let ?c = "update_route_metric r b"
    let ?d = "if r_installed (route ?c r) \<and> r_refmetric (route ?c r) < INFINITY_METRIC \<and> route_old r ?c
      then send_unicast_request (r_neigh (route ?c r)) (Some (s_prefix (route_src ?c r))) (s_plen (route_src ?c r))
             (Some (s_src_prefix (route_src ?c r))) (s_src_plen (route_src ?c r)) ?c else ?c"
    have c: "holds (routing R W E) ?c" using "3.prems"(1) r by (simp add: routed)
    have d: "holds (routing R W E) ?d" using c routing_dest(1) [OF c r] by (simp add: routed)
    have "q \<in> R" if "route_next (rib ?d) r = Some q" for q
      using route_next_member [OF that] routingD(5) [OF d] by simp
    from "3.IH" [OF False refl refl refl d this] show ?thesis using False by (simp add: Let_def)
  qed
qed (auto intro: spentI)

lemma expire_slots_ok:
  assumes "holds (routing R W E) b"
  shows "\<exists>R' \<subseteq> R. holds (spent R' W E) (expire_slots n i b)"
  using assms
proof (induction n i b arbitrary: R rule: expire_slots.induct)
  case (1 n i b)
  show ?case
  proof (cases "i < length (routes (rib b))")
    case False
    then show ?thesis using spentI [OF "1.prems"] by (subst expire_slots.simps) auto
  next
    case i: True
    have nf: "fault b = None" by (rule routingD(7) [OF "1.prems"])
    show ?thesis
    proof (cases n)
      case 0
      then show ?thesis using i nf by (subst expire_slots.simps) (auto simp: holds_def spent_def raise_fault_def)
    next
      case (Suc m)
      obtain again c where w: "expire_walk (walk_fuel b) (slot_head i b) b = (again, c)" by fastforce
      obtain R' where R': "R' \<subseteq> R" "holds (spent R' W E) c"
        using expire_walk_ok [OF "1.prems", of "slot_head i b" "walk_fuel b"] slot_head_member [OF "1.prems"] w by auto
      have "\<exists>R'' \<subseteq> R. holds (spent R'' W E) (expire_slots m j c)" if j: "j = (if again then i else i + 1)" for j
      proof (cases "fault c = None")
        case True
        then have "holds (routing R' W E) c" using R'(2) by (auto simp: holds_def spent_def)
        from "1.IH" [OF _ Suc w [symmetric] this] obtain R'' where "R'' \<subseteq> R'" "holds (spent R'' W E) (expire_slots m j c)"
          using i nf unfolding j by auto
        then show ?thesis using R'(1) by blast
      next
        case False
        then show ?thesis using R' by (subst expire_slots.simps) auto
      qed
      then show ?thesis using Suc i nf w by (subst expire_slots.simps) simp
    qed
  qed
qed

lemma expire_routes_confined:
  assumes "daemon_ok b" "route_ifps b \<subseteq> S"
  shows "confined S b (expire_routes b)"
proof -
  have "holds (routing (rib_routes (rib b)) (who b) (held_now b)) b" using assms(1) by (simp add: daemon_ok_routing)
  from expire_slots_ok [OF this, of "flush_fuel b" 0] obtain R' where
    "R' \<subseteq> rib_routes (rib b)" "holds (spent R' (who b) (held_now b)) (expire_routes b)"
    unfolding expire_routes_def by blast
  then show ?thesis
    using spent_confined [OF _ _ assms(2)] linked_same [OF linked_expire [OF linked_start]] by blast
qed

section \<open>Expiry of sources\<close>

lemma daemon_expire_sources:
  assumes "daemon_ok b"
  shows "daemon_ok (b\<lparr>sources := expire_sources t (sources b)\<rparr>)"
proof -
  let ?c = "b\<lparr>sources := expire_sources t (sources b)\<rparr>"
  let ?d = "b\<lparr>sources := (sources b)\<lparr>st_heap := st_heap (expire_sources t (sources b))\<rparr>\<rparr>"
  note e = expire_sources_parts [of t "sources b"]
  have b: "holds (routing (rib_routes (rib b)) (who b) (held_now b)) b" using assms by (simp add: daemon_ok_routing)
  have "quiet_source (st_heap (expire_sources t (sources b)) p) = quiet_source (src b p)" for p
    by (simp add: e clamp_heap_def clamp_time_def quiet_source_def)
  then have s: "shape ?d = shape b" by (simp add: shape_def comp_def fun_eq_iff)
  have "holds ready ?d" if "holds ready b"
    by (rule holds_ready [OF s that]) (simp add: ready_def buffers_ok_def)
  from routing_daemon_ok [OF routing_shape [OF s this b]] have d: "daemon_ok ?d" .
  have count: "s_route_count (src ?d p) = s_route_count (src b p)" for p
    by (simp add: e clamp_heap_def clamp_time_def)
  have kept: "p \<in> set (st_slots (sources ?c))" if "rt \<in> rib_routes (rib b)" "r_src (route b rt) = p" for rt p
  proof -
    have "finite (users ?d p)" using routing_slots(5) [OF b] by (auto simp: users_def)
    moreover have "rt \<in> users ?d p" using that by (simp add: users_def)
    ultimately have "0 < card (users ?d p)" by (auto simp: card_gt_0_iff)
    then have "0 < s_route_count (src b p)" using d count [of p] unfolding daemon_ok_def by (metis less_le_trans)
    moreover have "p \<in> set (st_slots (sources b))" using assms that by (auto simp: daemon_ok_def tables_ok_def)
    ultimately show ?thesis by (simp add: e source_kept_def)
  qed
  have slots: "set (st_slots (sources ?c)) \<subseteq> set (st_slots (sources ?d))" by (auto simp: e)
  have "source_table_ok (sources b)" using assms by (simp add: daemon_ok_def tables_ok_def)
  from expire_sources_ok [OF this] have st: "source_table_ok (sources ?c)" by simp
  have "ready ?c = ready ?d" "steady ?c = steady ?d"
    by (simp_all add: ready_def network_ok_def buffers_ok_def steady_def allocs_succeed_def route_src_def)
  moreover have "tables_ok ?c" using d st kept by (simp add: daemon_ok_def tables_ok_def)
  moreover have "users ?c p = users ?d p" for p by (simp add: users_def)
  ultimately show ?thesis using d slots by (auto simp: daemon_ok_def)
qed

section \<open>The rules\<close>

text \<open>Only the kernel changes, until the fuel for deleting rules has run out.\<close>

definition tried :: "babel \<Rightarrow> babel \<Rightarrow> bool" where
  "tried b0 b \<longleftrightarrow> beside_kernel b = beside_kernel b0 \<and> fault b \<in> {fault b0, Some Out_of_fuel}"

lemma tried_basic:
  assumes "holds (tried b0) b" "fault b0 = None"
  shows "returns (\<lambda>_. tried b0) (k_flush_rule prio family b)" "returns (\<lambda>_. tried b0) (k_add_rule prio s p t b)"
    "holds (tried b0) (raise_fault Out_of_fuel b)"
  using assms
  by (auto simp: returns_def holds_def tried_def k_flush_rule_def k_add_rule_def syscall_def netlink_talk_def emit_def ask_def
      beside_kernel_def raise_fault_def split: prod.splits)

lemma tried_flush_all:
  "holds (tried b0) b \<Longrightarrow> fault b0 = None \<Longrightarrow> holds (tried b0) (flush_all_rules n prio family b)"
proof (induction n arbitrary: b)
  case 0
  then show ?case by (simp add: tried_basic)
next
  case (Suc n)
  then show ?case by (simp only: flush_all_rules.simps) (intro inv_rules tried_basic Suc.IH)
qed

lemma tried_check_rules:
  assumes "fault b = None"
  shows "tried b (check_rules n reported b)"
proof -
  have "holds (tried b) (install_missing_rules n seen v4 c)" if "holds (tried b) c" for seen v4 c
    unfolding install_missing_rules_def let_values Let_def [where 'a = rule]
    by (intro inv_rules tried_basic tried_flush_all that assms)
  moreover have "holds (tried b) b" by (simp add: holds_def tried_def)
  ultimately have "holds (tried b) (check_rules n reported b)" by (simp add: check_rules_def split: prod.split)
  then show ?thesis by (simp add: holds_def)
qed

lemma kernel_release_tables:
  assumes "holds (kernel_only b0) b"
  shows "holds (kernel_only b0) (release_tables b)"
  unfolding release_tables_def by (intro inv_rules kernels assms)

end
