(* ===== verification/Main_Frame.thy ===== *)
theory Main_Frame
  imports Main_Steps
begin

text \<open>
  Which operations leave the exported routes and the filters alone (\<open>framed\<close>): all of those that a
  turn of the main loop consists of, but for \<open>check_xroutes\<close> and the renumbering of the filters.
\<close>

type_synonym setting = "xroute list \<times> nat \<times> filters"

definition setting :: "babel \<Rightarrow> setting" where
  "setting b = (xroutes b, maxxroutes b, filters_of b)"

definition framed :: "setting \<Rightarrow> babel \<Rightarrow> bool" where
  "framed S b \<longleftrightarrow> setting b = S"

named_theorems framing \<open>operations that leave the exported routes and the filters alone\<close>

lemma framed_linked:
  assumes "holds (framed S) b" "holds (linked b) b \<Longrightarrow> holds (linked b) c"
  shows "holds (framed S) c"
  using assms linked_start by (simp add: holds_def framed_def setting_def linked_def)

lemma framed_linked_returns:
  assumes "holds (framed S) b" "holds (linked b) b \<Longrightarrow> returns (\<lambda>_. linked b) r"
  shows "returns (\<lambda>_. framed S) r"
  using framed_linked [OF assms(1), of "snd r"] assms(2) by (simp add: holds_def returns_def)

lemma framed_touched: "touched nb b c \<Longrightarrow> holds (framed S) b \<Longrightarrow> holds (framed S) c"
  by (auto simp: touched_def linked_def holds_def framed_def setting_def upd_neigh_def)

lemma framed_basic [framing]:
  assumes "holds (framed S) b"
  shows "returns (\<lambda>_. framed S) (ask b)" "returns (\<lambda>_. framed S) (c_alloc b)" "holds (framed S) (emit ev b)"
    "returns (\<lambda>_. framed S) (c_roughly v b)" "holds (framed S) (gettime b)" "holds (framed S) (raise_fault e b)"
    "holds (framed S) (upd_iface p f b)" "holds (framed S) (upd_neigh nb g b)" "holds (framed S) (b\<lparr>nbrs := ns\<rparr>)"
    "holds (framed S) (b\<lparr>ifaces := is\<rparr>)" "holds (framed S) (b\<lparr>resends := rt\<rparr>)" "holds (framed S) (b\<lparr>sources := st\<rparr>)"
    "holds (framed S) (b\<lparr>check_neighbours_timeout := t\<rparr>)" "holds (framed S) (b\<lparr>check_interfaces_timeout := t\<rparr>)"
  using assms
  by (simp_all add: holds_def returns_def framed_def setting_def ask_def c_alloc_def emit_def c_roughly_def c_random_def
      gettime_def raise_fault_def upd_iface_def upd_neigh_def split_beta)

lemma framed_timers [framing]:
  assumes "holds (framed S) b"
  shows "holds (framed S) (schedule_interfaces_check msecs override b)"
    "holds (framed S) (schedule_neighbours_check msecs override b)" "returns (\<lambda>_. framed S) (set_timeout msecs b)"
  subgoal unfolding schedule_interfaces_check_def Let_def by (intro inv_rules framing assms)
  subgoal unfolding schedule_neighbours_check_def Let_def by (intro inv_rules framing assms)
  subgoal unfolding set_timeout_def by (intro inv_rules framing assms)
  done

lemma framed_messages [framing]:
  assumes "holds (framed S) b"
  shows "holds (framed S) (send_update ifp urgent pre plen sp splen b)" "holds (framed S) (send_request ifp pre plen sp splen b)"
    "holds (framed S) (send_hello p b)" "holds (framed S) (flush_unicast dofree b)" "holds (framed S) (flushbuf p b)"
    "holds (framed S) (flushupdates p b)" "holds (framed S) (do_resend b)" "holds (framed S) (expire_routes b)"
    "holds (framed S) (flush_interface_routes p v4only b)" "holds (framed S) (flush_neighbour_routes nb b)"
    "holds (framed S) (update_neighbour_metric nb changed b)" "holds (framed S) (update_interface_metric p b)"
    "returns (\<lambda>_. framed S) (stale_bytes n b)"
  by (rule framed_linked framed_linked_returns, rule assms, (rule links linked_do_resend linked_walks linked_stale_bytes; assumption))+

section \<open>Neighbours\<close>

lemma framed_check_neighbour:
  assumes "framed S b" "check_neighbour nb (msecs, b) = (m, c)"
  shows "framed S c"
proof (cases "fault b = None")
  case True
  have b: "holds (framed S) b" using assms(1) by (simp add: holds_def)
  have u: "returns (\<lambda>_. framed S) (update_neighbour nb None 0 b)"
    using touched_update_neighbour [of nb b None 0] framed_touched b by (auto simp: returns_def holds_def)
  have f: "holds (framed S) (flush_neighbour nb d)" if "holds (framed S) d" for d
    unfolding flush_neighbour_def by (intro inv_rules framing that)
  have t: "returns (\<lambda>_. framed S) (reset_txcost nb d)" if "holds (framed S) d" for d
    unfolding reset_txcost_def let_values Let_def [where 'a = neighbour] by (intro inv_rules framing that)
  have "returns (\<lambda>_. framed S) (check_neighbour nb (msecs, b))"
    unfolding check_neighbour_def prod.case let_values Let_def [where 'a = neighbour] by (intro inv_rules b u f t framing)
  then show ?thesis using assms(2) by (simp add: returns_def)
qed (use assms in \<open>simp add: check_neighbour_def\<close>)

lemma framed_check_neighbours: "holds (framed S) b \<Longrightarrow> returns (\<lambda>_. framed S) (check_neighbours b)"
proof -
  have "framed S (snd (fold check_neighbour ns x))" if "framed S (snd x)" for ns x
    using that by (induction ns arbitrary: x) (auto, metis framed_check_neighbour prod.collapse)
  then show "holds (framed S) b \<Longrightarrow> returns (\<lambda>_. framed S) (check_neighbours b)"
    by (simp add: check_neighbours_def returns_def holds_def)
qed

section \<open>Packets\<close>

lemma framed_find_neighbour: "holds (framed S) b \<Longrightarrow> returns (\<lambda>_. framed S) (find_neighbour address ifp b)"
  unfolding find_neighbour_def let_values Let_def [where 'a = ptr] by (intro inv_rules framing)

lemma framed_parse_tlvs: "framed S b \<Longrightarrow> framed S (snd (parse_tlvs nb ifp m bodylen i s b))"
proof (induction nb ifp m bodylen i s b rule: parse_tlvs.induct)
  case (1 nb ifp m bodylen i s b)
  obtain stale c where st: "stale_bytes (nat MAX_CHANNEL_HOPS) b = (stale, c)" by fastforce
  obtain a s' where d: "decode (iface c ifp) stale (shift i m) (unat (m (i + 1))) s = (a, s')" by fastforce
  have "framed S c" using framed_messages(13) [of S b "nat MAX_CHANNEL_HOPS"] 1 st by (simp add: returns_def holds_def)
  then have p: "framed S (perform nb a c)"
    using framed_touched [OF holdsD [OF touched_perform]] by (simp add: holds_def)
  consider (stop) "\<not> int i < bodylen \<or> fault b \<noteq> None" | (padding) "int i < bodylen" "fault b = None" "m i = 0"
    | (truncated) "int i < bodylen" "fault b = None" "m i \<noteq> 0" "bodylen < int (i + unat (m (i + 1)))"
    | (tlv) "int i < bodylen" "fault b = None" "m i \<noteq> 0" "\<not> bodylen < int (i + unat (m (i + 1)))" by blast
  then show ?case
  proof cases
    case stop
    then show ?thesis using "1.prems" parse_tlvs_cases(1) by simp
  next
    case padding
    then show ?thesis using "1.prems" "1.IH"(1) parse_tlvs_cases(2) [where m = m and i = i, OF padding] by simp
  next
    case truncated
    then show ?thesis using "1.prems" parse_tlvs_cases(3) [where m = m and i = i, OF truncated] by simp
  next
    case tlv
    then show ?thesis
      using "1.IH"(2) [OF _ _ refl _ st [symmetric] d [symmetric] p] parse_tlvs_cases(4) [where m = m and i = i, OF tlv st d] by simp
  qed
qed

lemma framed_parse_packet [framing]:
  assumes "holds (framed S) b"
  shows "holds (framed S) (parse_packet sender ifp packet packetlen b)"
proof -
  have t: "returns (\<lambda>_. framed S) (parse_tlvs nb ifp m bodylen i s c)" if "holds (framed S) c" for nb m bodylen i s c
    using framed_parse_tlvs that by (simp add: returns_def holds_def)
  have r: "holds (framed S) (process_rtt nb ifp us rt_us c)" if "holds (framed S) c" for nb us rt_us c
    using framed_touched [OF holdsD [OF touched_process_rtt] that] .
  show ?thesis
    unfolding parse_packet_def let_values
    by (intro inv_rules holds_case_prod holds_case_option framed_find_neighbour framing assms t r) 
qed

section \<open>Interfaces\<close>

lemma returns_case_address:
  "(\<And>rc a. returns I (f rc a)) \<Longrightarrow> returns I (case x of (rc, a) \<Rightarrow> f rc a)" for x :: "int \<times> byte list"
  by (cases x) simp

lemma framed_checks [framing]:
  assumes "holds (framed S) b"
  shows "returns (\<lambda>_. framed S) (check_interface_ipv4 p b)" "returns (\<lambda>_. framed S) (check_interface_channel p b)"
    "returns (\<lambda>_. framed S) (check_link_local_addresses sys p b)" "returns (\<lambda>_. framed S) (interface_type p b)"
    "returns (\<lambda>_. framed S) (open_buffer sys p b)"
proof -
  have k: "returns (\<lambda>_. framed S) (kernel_interface_ipv4 p b)"
    unfolding kernel_interface_ipv4_def let_values by (intro inv_rules framing assms)
  show "returns (\<lambda>_. framed S) (check_interface_ipv4 p b)"
    unfolding check_interface_ipv4_def by (intro inv_rules returns_case_address k framing)
  have c: "returns (\<lambda>_. framed S) (kernel_interface_channel b)"
    unfolding kernel_interface_channel_def let_values by (intro inv_rules framing assms)
  show "returns (\<lambda>_. framed S) (check_interface_channel p b)"
    unfolding check_interface_channel_def let_values by (intro inv_rules c framing assms)
  show "returns (\<lambda>_. framed S) (check_link_local_addresses sys p b)"
    unfolding check_link_local_addresses_def lose_link_local_def let_values by (intro inv_rules framing assms)
  show "returns (\<lambda>_. framed S) (interface_type p b)" unfolding interface_type_def let_values by (intro inv_rules framing assms)
  show "returns (\<lambda>_. framed S) (open_buffer sys p b)" unfolding open_buffer_def let_values by (intro inv_rules framing assms)
qed

lemma framed_interface_up [framing]:
  assumes "holds (framed S) b"
  shows "returns (\<lambda>_. framed S) (interface_up sys p v b)"
proof -
  have d: "holds (framed S) (interface_down p c)" if "holds (framed S) c" for c
    unfolding interface_down_def by (intro inv_rules framing that)
  have s: "holds (framed S) (start_interface p c)" if "holds (framed S) c" for c
    unfolding start_interface_def by (intro inv_rules framing that)
  have o: "returns (\<lambda>_. framed S) (open_interface sys p c)" if "holds (framed S) c" for c
    unfolding open_interface_def by (intro inv_rules framing s that)
  show ?thesis unfolding interface_up_def by (intro inv_rules framing d o assms)
qed

lemma framed_check_interface:
  assumes "framed S b"
  shows "framed S (snd (check_interface sys p (renumbered, b)))"
proof -
  have r: "returns (\<lambda>_. framed S) (renumber_interface sys n p c)" if "holds (framed S) c" for n c
    unfolding renumber_interface_def by (intro inv_rules framing that)
  have "returns (\<lambda>_. framed S) (check_interface sys p (renumbered, b))"
    unfolding check_interface_def prod.case by (intro inv_rules r framing) (simp_all add: holds_def assms)
  then show ?thesis by (simp add: returns_def)
qed

lemma framed_check_interfaces:
  assumes "holds (framed (x, m, fs)) b"
  shows "\<exists>g. holds (\<lambda>c. framed (x, m, fs) c \<or> framed (x, m, renumber_filters g fs) c) (check_interfaces sys b)"
proof -
  have "framed S (snd (fold (check_interface sys) ps y))" if "framed S (snd y)" for S ps y
    using that by (induction ps arbitrary: y) (auto, metis framed_check_interface prod.collapse)
  from this [of "(x, m, fs)" "(False, b)" "interfaces (ifaces b)"] assms show ?thesis
    by (auto simp: check_interfaces_def holds_def framed_def setting_def split: prod.split)
qed

end
