(* ===== verification/Wake_Up.thy ===== *)
theory Wake_Up
  imports Main_Loop A_Router
begin

text \<open>
  The main loop does not oversleep: the deadline that \<open>babeld.c\<close> computes before it sleeps is the
  earliest of the timers that are armed.
\<close>

text \<open>
  What the computation of the deadline keeps: \<open>d\<close> is not later than any timer of \<open>A\<close> that is
  armed, its seconds are not later than any of \<open>X\<close>, and it comes from one of them.
\<close>

definition soonest :: "timeval \<Rightarrow> timeval set \<Rightarrow> int set \<Rightarrow> bool" where
  "soonest d A X \<longleftrightarrow>
     (\<forall>u \<in> A. tv_sec u = 0 \<or> tv_sec d \<noteq> 0 \<and> timeval_compare d u \<le> 0) \<and>
     (\<forall>x \<in> X. tv_sec d \<noteq> 0 \<and> tv_sec d \<le> x) \<and> (tv_sec d = 0 \<or> d \<in> A \<or> tv_sec d \<in> X)"

lemma timeval_compare_before: "timeval_compare a b \<le> 0 \<longleftrightarrow> (tv_sec a, tv_usec a) \<le> (tv_sec b, tv_usec b)"
  by (auto simp: timeval_compare_def less_eq_prod_def less_prod_def)

lemma soonest_single: "soonest d {d} {}"
  by (simp add: soonest_def timeval_compare_before)

lemma soonest_min:
  assumes "soonest d A X"
  shows "soonest (timeval_min d s) (insert s A) X"
proof -
  consider (none) "tv_sec s = 0" | (first) "tv_sec s \<noteq> 0" "tv_sec d = 0"
    | (sooner) "tv_sec s \<noteq> 0" "tv_sec d \<noteq> 0" "timeval_compare d s > 0"
    | (later) "tv_sec s \<noteq> 0" "tv_sec d \<noteq> 0" "timeval_compare d s \<le> 0" by linarith
  then show ?thesis
  proof cases
    case sooner
    then have sd: "(tv_sec s, tv_usec s) \<le> (tv_sec d, tv_usec d)"
      using timeval_compare_before [of d s] by auto
    then have "tv_sec s \<le> tv_sec d" by (auto simp: less_eq_prod_def)
    then show ?thesis
      using assms sooner order_trans [OF sd] by (fastforce simp: soonest_def timeval_min_def timeval_compare_before)
  next
    case first
    then have "timeval_min d s = s" "A \<subseteq> {u. tv_sec u = 0}" "X = {}"
      using assms by (auto simp: soonest_def timeval_min_def)
    then show ?thesis using first by (auto simp: soonest_def timeval_compare_before)
  qed (use assms in \<open>auto simp: soonest_def timeval_min_def\<close>)
qed

lemma soonest_min_sec:
  assumes "soonest d A X" "0 < x"
  shows "soonest (timeval_min_sec r d x) A (insert x X)"
proof (cases "tv_sec d = 0 \<or> x < tv_sec d")
  case True
  have "(x, us) \<le> (tv_sec u, tv_usec u)" if "u \<in> A" "tv_sec u \<noteq> 0" for u us
  proof -
    have "tv_sec d \<noteq> 0" "(tv_sec d, tv_usec d) \<le> (tv_sec u, tv_usec u)"
      using assms(1) that by (auto simp: soonest_def timeval_compare_before)
    then show ?thesis using True by (auto simp: less_eq_prod_def less_prod_def)
  qed
  then show ?thesis
    using assms True by (auto simp: soonest_def timeval_min_sec_def timeval_compare_before)
qed (use assms in \<open>auto simp: soonest_def timeval_min_sec_def\<close>)

lemma soonest_c_min_sec:
  assumes "soonest d A X" "0 < x" "c_timeval_min_sec d x b = (d', c)"
  shows "soonest d' A (insert x X)" "resends c = resends b" "unicast c = unicast b" "ifaces c = ifaces b"
  using soonest_min_sec [OF assms(1,2)] assms(1,3)
  by (auto simp: c_timeval_min_sec_def c_random_def ask_def soonest_def split: if_splits)

lemma soonest_fold: "soonest d A X \<Longrightarrow> soonest (fold (\<lambda>t d. timeval_min d t) ts d) (set ts \<union> A) X"
proof (induction ts arbitrary: d A)
  case (Cons t ts)
  from Cons.IH [OF soonest_min [OF Cons.prems, of t]] show ?case by simp
qed simp

lemma soonest_interfaces:
  "soonest d A X \<Longrightarrow>
   soonest (fold (\<lambda>p. fold (\<lambda>t d. timeval_min d t) (f p)) ps d) ((\<Union>p \<in> set ps. set (f p)) \<union> A) X"
proof (induction ps arbitrary: d A)
  case (Cons p ps)
  from Cons.IH [OF soonest_fold [OF Cons.prems, of "f p"]] show ?case by (simp add: Un_ac)
qed simp

text \<open>The timers that can be armed.\<close>

definition timers :: "babel \<Rightarrow> timeval set" where
  "timers b =
     {check_neighbours_timeout b, check_interfaces_timeout b, resend_time (resends b), unicast_flush_timeout (unicast b)} \<union>
     (\<Union>p \<in> {p \<in> set (interfaces (ifaces b)). if_up (iface b p)}. set (interface_timers (iface b p)))"

text \<open>
  C15: (liveness) The loop does not oversleep.  The time at which it wakes up is armed, it is not later
  than any timer that is armed (the checks of the neighbours and interfaces, the resends, the
  four timers of each interface that is up, the unicast buffer) nor than the second of the next
  expiry of the routes, of the sources or dump of the kernel; and it is one of these times, so
  the loop does not wake up for nothing.
\<close>

theorem next_deadline_soonest:
  assumes "0 < expiry_time s" "0 < source_expiry_time s" "0 < kernel_dump_time s"
    and "next_deadline s = (tv, s')"
  shows "tv_sec tv \<noteq> 0 \<and>
    (\<forall>t \<in> timers (daemon s). tv_sec t = 0 \<or> timeval_compare tv t \<le> 0) \<and>
    (\<forall>x \<in> {expiry_time s, source_expiry_time s, kernel_dump_time s}. tv_sec tv \<le> x) \<and>
    (tv \<in> timers (daemon s) \<or> tv_sec tv \<in> {expiry_time s, source_expiry_time s, kernel_dump_time s})"
proof -
  let ?b = "daemon s"
  let ?d0 = "timeval_min (check_neighbours_timeout ?b) (check_interfaces_timeout ?b)"
  obtain d1 b1 where m1: "c_timeval_min_sec ?d0 (expiry_time s) ?b = (d1, b1)" by fastforce
  obtain d2 b2 where m2: "c_timeval_min_sec d1 (source_expiry_time s) b1 = (d2, b2)" by fastforce
  obtain d3 b3 where m3: "c_timeval_min_sec d2 (kernel_dump_time s) b2 = (d3, b3)" by fastforce
  note s1 = soonest_c_min_sec [OF soonest_min [OF soonest_single] assms(1) m1]
  note s2 = soonest_c_min_sec [OF s1(1) assms(2) m2]
  note s3 = soonest_c_min_sec [OF s2(1) assms(3) m3]
  have same: "resends b3 = resends ?b" "unicast b3 = unicast ?b" "ifaces b3 = ifaces ?b"
    using s1(2-4) s2(2-4) s3(2-4) by simp_all
  note s4 = soonest_min [OF soonest_interfaces [OF soonest_min [OF s3(1), of "resend_time (resends ?b)"],
    of "\<lambda>p. interface_timers (iface ?b p)" "up_interfaces ?b"], of "unicast_flush_timeout (unicast ?b)"]
  have "up_interfaces b3 = up_interfaces ?b" by (simp add: up_interfaces_def same)
  then have "tv = timeval_min (fold (\<lambda>p. fold (\<lambda>t d. timeval_min d t) (interface_timers (iface ?b p)))
      (up_interfaces ?b) (timeval_min d3 (resend_time (resends ?b)))) (unicast_flush_timeout (unicast ?b))"
    using assms(4) unfolding next_deadline_def Let_def m1 m2 m3 prod.case by (simp add: same)
  then have "soonest tv (timers ?b) {expiry_time s, source_expiry_time s, kernel_dump_time s}"
    using s4 by (simp add: timers_def up_interfaces_def insert_commute)
  then show ?thesis by (auto simp: soonest_def)
qed

definition a_main_state :: main_state where
  "a_main_state =
     \<lparr>daemon = routed_router, changes = no_changes, expiry_time = 40, source_expiry_time = 300, kernel_dump_time = 35,
      maxroutes = 8\<rparr>"

theorem next_deadline_soonest_witness: "tv_sec (fst (next_deadline a_main_state)) \<le> 35"
  using next_deadline_soonest [of a_main_state, OF _ _ _ prod.collapse [symmetric]] by (simp add: a_main_state_def)

end
