(* ===== verification/Main_Claims.thy ===== *)
theory Main_Claims
  imports Main_Frame Wake_Up
begin

text \<open>
  The main loop as a transition system: the state in which every turn begins satisfies the invariants of
  the daemon, of the interfaces and of the exported routes, and the end of the program leaves
  nothing behind.
\<close>

section \<open>Transition systems\<close>

inductive reachable :: "('s \<Rightarrow> bool) \<Rightarrow> ('s \<Rightarrow> 's \<Rightarrow> bool) \<Rightarrow> 's \<Rightarrow> bool"
  for initial :: "'s \<Rightarrow> bool" and step :: "'s \<Rightarrow> 's \<Rightarrow> bool"
where
  start: "initial s \<Longrightarrow> reachable initial step s"
| step: "reachable initial step s \<Longrightarrow> step s t \<Longrightarrow> reachable initial step t"

locale invariant =
  fixes initial :: "'s \<Rightarrow> bool" and step :: "'s \<Rightarrow> 's \<Rightarrow> bool" and inv :: "'s \<Rightarrow> bool"
  assumes at_start: "initial s \<Longrightarrow> inv s"
    and at_step: "inv s \<Longrightarrow> step s t \<Longrightarrow> inv t"
begin

lemma always: "reachable initial step s \<Longrightarrow> inv s"
  by (induction rule: reachable.induct) (blast intro: at_start at_step)+

end

section \<open>The invariant of the loop\<close>

text \<open>
  What the kernel reports can be exported, whatever the interfaces in the filters are numbered.
\<close>

definition filters_fit :: "system \<Rightarrow> filters \<Rightarrow> bool" where
  "filters_fit sys fs \<longleftrightarrow>
     reports_ok fs (sys_reports sys) \<and> (\<forall>g. reports_ok (renumber_filters g fs) (sys_reports sys))"

definition well :: "system \<Rightarrow> babel \<Rightarrow> bool" where
  "well sys b \<longleftrightarrow> daemon_ok b \<and> settled sys b \<and> xroutes_ok b \<and> filters_fit sys (filters_of b)"

definition fit :: "system \<Rightarrow> babel \<Rightarrow> bool" where
  "fit sys b \<longleftrightarrow> well sys b \<or> fault b = Some Out_of_fuel"

definition fit_state :: "system \<Rightarrow> main_state \<Rightarrow> bool" where
  "fit_state sys s \<longleftrightarrow> fit sys (daemon s) \<and> 0 < maxroutes s"

lemma renumber_twice: "renumber_filters g (renumber_filters h fs) = renumber_filters g fs"
  by (auto simp: renumber_filters_def renumber_filter_def split: option.splits)

lemma filters_fit_renumber: "filters_fit sys fs \<Longrightarrow> filters_fit sys (renumber_filters g fs)"
  by (simp add: filters_fit_def renumber_twice)

lemma well_fault: "well sys b \<Longrightarrow> fault b = None"
  using daemon_fault by (simp add: well_def)

lemma fit_well: "fit sys b \<Longrightarrow> fault b = None \<Longrightarrow> well sys b"
  by (auto simp: fit_def)

lemma well_fit: "well sys b \<Longrightarrow> fit sys b"
  by (simp add: fit_def)

lemma well_framed:
  assumes "well sys b" "holds (framed (setting b)) c" "daemon_ok c" "settled sys c"
  shows "well sys c"
  using assms by (simp add: well_def holds_def framed_def setting_def xroutes_ok_def)

lemma framed_start: "holds (framed (setting b)) b"
  by (simp add: holds_def framed_def)

text \<open>The steps that do not touch the routes.\<close>

lemma well_step:
  assumes "holds (well sys) b" "\<And>R W E. holds (routing R W E) b \<Longrightarrow> holds (routing R W E) c"
    and "holds (linked b) b \<Longrightarrow> holds (linked b) c"
  shows "holds (well sys) c"
proof -
  have b: "daemon_ok b" "settled sys b" using assms(1) by (simp_all add: holds_def well_def)
  note s = same_step [OF b(1) assms(2,3)]
  have "settled sys c" using settled_same [OF b(2) s(2)] s(3) b(2) by (simp add: settled_def)
  moreover have "holds (framed (setting b)) c" using framed_linked [OF framed_start assms(3)] .
  ultimately show ?thesis using well_framed [of sys b c] assms(1) s(1) by (simp add: holds_def)
qed

lemma well_step_returns:
  assumes "holds (well sys) b" "\<And>R W E. holds (routing R W E) b \<Longrightarrow> returns (\<lambda>_. routing R W E) r"
    and "holds (linked b) b \<Longrightarrow> returns (\<lambda>_. linked b) r"
  shows "returns (\<lambda>_. well sys) r"
  using well_step [OF assms(1), of "snd r"] assms(2,3) by (simp add: holds_def returns_def)

lemma well_confined:
  assumes "well sys b" "confined {p. if_up (iface b p)} b c" "holds (framed (setting b)) c"
  shows "fit sys c"
proof -
  have "sound sys c" using confined_sound [OF _ assms(2)] assms(1) by (simp add: well_def)
  then show ?thesis using well_framed [OF assms(1,3)] by (auto simp: sound_def fit_def)
qed

lemma well_up: "well sys b \<Longrightarrow> route_ifps b \<subseteq> {p. if_up (iface b p)}"
  by (simp add: well_def settled_def)

named_theorems welling \<open>steps that keep the invariant of the loop\<close>

lemma well_messages [welling]:
  assumes "holds (well sys) b"
  shows "holds (well sys) (send_hello p b)" "holds (well sys) (send_self_update p b)"
    "holds (well sys) (flush_unicast dofree b)" "holds (well sys) (send_update ifp urgent None 0 None 0 b)"
    "holds (well sys) (send_request ifp None 0 None 0 b)" "holds (well sys) (flushbuf p b)" "holds (well sys) (flushupdates p b)"
    "holds (well sys) (send_wildcard_retraction p b)" "holds (well sys) (send_hello_noupdate p interval b)"
    "holds (well sys) (do_resend b)"
  by (rule well_step [OF assms], (rule routing_plain routing_goodbyes routing_do_resend; assumption),
      (rule links linked_do_resend; assumption))+

lemma well_basic [welling]:
  assumes "holds (well sys) b"
  shows "holds (well sys) (gettime b)" "returns (\<lambda>_. well sys) (c_roughly v b)" "returns (\<lambda>_. well sys) (ask b)"
  subgoal by (rule well_step [OF assms routing_gettime linked_goodbyes(5)])
  subgoal by (rule well_step_returns [OF assms routing_basic(3) linked_goodbyes(6)])
  subgoal by (rule well_step_returns [OF assms routing_ask(1) linked_basic(1)])
  done

lemma well_timers [welling]:
  assumes "holds (well sys) b"
  shows "holds (well sys) (b\<lparr>check_neighbours_timeout := t\<rparr>)"
    "holds (well sys) (schedule_neighbours_check msecs override b)"
    "holds (well sys) (schedule_interfaces_check msecs override b)"
    "returns (\<lambda>_. well sys) (roughly_from_now secs b)" "returns (\<lambda>_. well sys) (c_timeval_min_sec d secs b)"
proof -
  have t: "holds (well sys) (c\<lparr>check_neighbours_timeout := t\<rparr>)" if "holds (well sys) c" for c t
    by (rule well_step [OF that]) (erule routing_set_timer, simp add: holds_def linked_def)
  show "holds (well sys) (b\<lparr>check_neighbours_timeout := t\<rparr>)" by (rule t [OF assms])
  show "holds (well sys) (schedule_neighbours_check msecs override b)"
    unfolding schedule_neighbours_check_def Let_def by (intro inv_rules t welling assms)
  have i: "holds (well sys) (c\<lparr>check_interfaces_timeout := t\<rparr>)" if "holds (well sys) c" for c t
  proof -
    have c: "daemon_ok c" "settled sys c" "xroutes_ok c" "filters_fit sys (filters_of c)"
      using that by (simp_all add: holds_def well_def)
    have "daemon_ok (c\<lparr>check_interfaces_timeout := t\<rparr>)"
      using c(1) by (simp add: daemon_ok_def ready_def network_ok_def buffers_ok_def tables_ok_def steady_def
        allocs_succeed_def users_def route_src_def)
    then show ?thesis using c(2-4)
      by (simp add: holds_def well_def settled_def route_ifps_def route_ifp_def xroutes_ok_def)
  qed
  show "holds (well sys) (schedule_interfaces_check msecs override b)"
    unfolding schedule_interfaces_check_def Let_def by (intro inv_rules i welling assms)
  show "returns (\<lambda>_. well sys) (roughly_from_now secs b)"
    unfolding roughly_from_now_def by (intro inv_rules welling assms)
  show "returns (\<lambda>_. well sys) (c_timeval_min_sec d secs b)"
    unfolding c_timeval_min_sec_def c_random_def by (intro inv_rules welling assms)
qed

section \<open>The steps of a turn\<close>

lemma fit_receive:
  assumes "well sys b"
    and "\<And>sender scope m len p nb c. packet = Some (sender, scope, m, len) \<Longrightarrow> length sender = 16 \<and>
      (find_neighbour sender p (arrived p b) = (Some nb, c) \<longrightarrow>
        acceptable nb p (shift 4 m) (body_length m len) 0 parse_init c)"
  shows "fit sys (receive_step packet b)"
proof -
  have "fit sys (parse_packet sender p m len b)"
    if "packet = Some (sender, scope, m, len)" "if_up (iface b p)" for sender scope m len p
  proof -
    have b: "daemon_ok b" using assms(1) by (simp add: well_def)
    have "confined {p. if_up (iface b p)} b (parse_packet sender p m len b)"
      by (rule parse_packet_confined [OF b _ _ well_up [OF assms(1)]]) (use assms(2) [OF that(1)] that(2) in auto)
    then show ?thesis by (rule well_confined [OF assms(1)]) (rule framed_parse_packet [OF framed_start])
  qed
  then show ?thesis
    using well_fit [OF assms(1)]
    by (auto simp: receive_step_def up_interfaces_def find_Some_iff split: option.split prod.split dest!: nth_mem)
qed

lemma fit_check_interfaces:
  assumes "system_ok sys" "well sys b"
  shows "fit sys (check_interfaces sys b)"
proof -
  have "sound sys b" using assms(2) by (simp add: sound_def well_def)
  from check_interfaces_sound [OF this assms(1)] have s: "sound sys (check_interfaces sys b)" .
  obtain x m fs where S: "setting b = (x, m, fs)" by (cases "setting b")
  have "xroutes_ok (check_interfaces sys b) \<and> filters_fit sys (filters_of (check_interfaces sys b))"
    using framed_check_interfaces [of x m fs b sys] framed_start [of b] assms(2) filters_fit_renumber [of sys fs]
    unfolding S by (auto simp: holds_def framed_def setting_def well_def xroutes_ok_def)
  then show ?thesis using s by (auto simp: sound_def fit_def well_def)
qed

text \<open>Checking the exported routes touches no interface and no filter.\<close>

definition moored :: "babel \<Rightarrow> babel \<Rightarrow> bool" where
  "moored b0 c \<longleftrightarrow> same_ifaces b0 c \<and> filters_of c = filters_of b0"

lemma moored_linked:
  assumes "holds (moored b0) b" "holds (linked b) b \<Longrightarrow> holds (linked b) c"
  shows "holds (moored b0) c"
  using assms(1) assms(2) [OF linked_start] by (simp add: holds_def moored_def linked_def same_ifaces_def)

lemma moored_linked_returns:
  assumes "holds (moored b0) b" "holds (linked b) b \<Longrightarrow> returns (\<lambda>_. linked b) r"
  shows "returns (\<lambda>_. moored b0) r"
  using moored_linked [OF assms(1), of "snd r"] assms(2) by (simp add: holds_def returns_def)

lemma moored_tables:
  assumes "holds (moored b0) b"
  shows "holds (moored b0) (flush_xroute i b)" "returns (\<lambda>_. moored b0) (add_xroute pre pl sp sl m ix proto b)"
proof -
  have t: "holds (moored b0) (c\<lparr>xroutes := xs\<rparr>)" "holds (moored b0) (c\<lparr>maxxroutes := n\<rparr>)"
    "holds (moored b0) (append_xroute x c)" if "holds (moored b0) c" for c xs n x
    using that by (simp_all add: holds_def moored_def same_ifaces_def append_xroute_def emit_def)
  have l: "holds (moored b0) (c_assert v c)" "holds (moored b0) (emit ev c)" "returns (\<lambda>_. moored b0) (c_alloc c)"
    if "holds (moored b0) c" for v ev c
    by (rule moored_linked moored_linked_returns, rule that, (rule links; assumption))+
  show "holds (moored b0) (flush_xroute i b)"
    unfolding flush_xroute_def let_values by (intro inv_rules t l assms)
  show "returns (\<lambda>_. moored b0) (add_xroute pre pl sp sl m ix proto b)"
    unfolding add_xroute_def let_values Let_def [where 'a = xroute] by (intro inv_rules t l assms)
qed

lemma moored_retire: "moored b0 b \<Longrightarrow> moored b0 (snd (retire_xroutes send_updates table i change b))"
proof (induction send_updates table i change b rule: retire_xroutes.induct)
  case (1 send_updates table i change b)
  have "holds (moored b0) (flush_xroute i b)" using moored_tables(1) "1.prems" by (simp add: holds_def)
  then have "holds (moored b0) (retire_xroute send_updates i b)"
    by (rule moored_linked) (rule retire_xroute_linked)
  then show ?case using 1 by (subst retire_xroutes.simps) (simp add: holds_def)
qed

lemma moored_export: "moored b0 b \<Longrightarrow> moored b0 (snd (export_route send_updates r (change, b)))"
proof -
  assume b: "moored b0 b"
  have l: "holds (moored b0) (uninstall_route rt c)" "holds (moored b0) (send_update ifp urgent pre plen sp splen c)"
    if "holds (moored b0) c" for rt ifp urgent pre plen sp splen c
    by (rule moored_linked, rule that, (rule links; assumption))+
  have "returns (\<lambda>_. moored b0) (export_route send_updates r (change, b))"
    unfolding export_route_def prod.case let_values by (intro inv_rules l moored_tables) (use b in \<open>simp_all add: holds_def\<close>)
  then show ?thesis by (simp add: returns_def)
qed

lemma check_xroutes_moored:
  assumes "0 < n" "check_xroutes reports send_updates n b = (r, c)"
  shows "moored b c"
proof -
  obtain x m d where d: "read_kernel reports n b = ((x, m), d)" by (metis surj_pair)
  have "linked b d" using read_kernel_result [OF d assms(1)] by blast
  then have "holds (moored b) d" using moored_linked [of b b d] by (simp add: holds_def moored_def)
  then have d': "moored b d" by (simp add: holds_def)
  show ?thesis
  proof (cases x)
    case None
    then show ?thesis using assms(2) d d' by (simp add: check_xroutes_def)
  next
    case (Some p)
    obtain as rs where p: "p = (as, rs)" by fastforce
    define table where "table = as @ map (rewrite_source (filters_of d)) rs"
    obtain ch e where e: "retire_xroutes send_updates table 0 False d = (ch, e)" by fastforce
    have "moored b e" using moored_retire [OF d', of send_updates table 0 False] e by simp
    moreover have "moored b (snd (fold (export_route send_updates) ts y))" if "moored b (snd y)" for ts y
      using that by (induction ts arbitrary: y) (auto, metis moored_export prod.collapse)
    ultimately have "moored b (snd (fold (export_route send_updates) table (ch, e)))" by simp
    then show ?thesis using assms(2) d Some p e by (auto simp: check_xroutes_def table_def Let_def split: prod.splits)
  qed
qed

lemma fit_table_step:
  assumes "fit_state sys s"
  shows "fit_state sys (table_step sys v s)"
proof (cases "fault (daemon s) = None")
  case True
  let ?b = "daemon s"
  have w: "well sys ?b" "0 < maxroutes s" using assms fit_well True by (auto simp: fit_state_def)
  then have b: "daemon_ok ?b" "xroutes_ok ?b" "reports_ok (filters_of ?b) (sys_reports sys)"
    by (simp_all add: well_def filters_fit_def)
  obtain rc n c where c: "check_xroutes (sys_reports sys) v (maxroutes s) ?b = ((rc, n), c)" by (metis surj_pair)
  note x = check_xroutes_ok [OF b w(2) c]
  have m: "moored ?b c" by (rule check_xroutes_moored [OF w(2) c])
  have r: "holds (routing (rib_routes (rib ?b)) (who ?b) (held_now ?b)) c" using x by blast
  have "route_ifps c = route_ifps ?b" using routing_ifps [OF r] who_ifps by simp
  then have "settled sys c" using settled_same [of sys ?b c] w(1) m by (simp add: well_def moored_def settled_def)
  then have "well sys c" using x m w(1) routing_daemon_ok [OF r] by (simp add: well_def moored_def)
  then show ?thesis using True c x by (simp add: table_step_def fit_state_def well_fit)
qed (use assms in \<open>simp add: table_step_def\<close>)

lemma fit_check_rules:
  assumes "well sys b"
  shows "fit sys (check_rules n reported b)"
proof -
  note t = tried_check_rules [OF well_fault [OF assms], of n reported]
  show ?thesis
  proof (cases "fault (check_rules n reported b) = None")
    case True
    have e: "beside_kernel (check_rules n reported b) = beside_kernel b" using t by (simp add: tried_def)
    then have k: "kernel_only b (check_rules n reported b)" using True by (simp add: kernel_only_def)
    have "holds (well sys) (check_rules n reported b)"
      by (rule well_step [of sys b]) (use assms routing_kernel [OF _ k] linked_kernel [OF _ e] in \<open>simp_all add: holds_def\<close>)
    then show ?thesis by (simp add: holds_def fit_def)
  next
    case False
    then show ?thesis using t well_fault [OF assms] by (auto simp: tried_def fit_def)
  qed
qed

text \<open>What follows a step that may have given up.\<close>

lemma fit_after:
  assumes "fit sys c" "holds (well sys) c \<Longrightarrow> holds (well sys) d" "fault d = fault c"
  shows "fit sys d"
  using assms by (auto simp: fit_def holds_def)

lemma fault_timers [simp]:
  "fault (schedule_neighbours_check msecs override b) = fault b" "fault (schedule_interfaces_check msecs override b) = fault b"
  "fault (snd (roughly_from_now secs b)) = fault b"
  by (simp_all add: schedule_neighbours_check_def schedule_interfaces_check_def roughly_from_now_def c_roughly_def c_random_def
      ask_def Let_def)

lemma fit_roughly:
  assumes "fit sys b" "roughly_from_now secs b = (t, c)"
  shows "fit sys c"
proof (rule fit_after [OF assms(1)])
  show "fault c = fault b" using fault_timers(3) [of secs b] assms(2) by simp
  show "holds (well sys) c" if "holds (well sys) b" using well_timers(4) [OF that, of secs] assms(2) by (simp add: returns_def holds_def)
qed

lemma fit_neighbours:
  assumes "well sys b"
  shows "fit sys (neighbours_step b)"
proof -
  obtain msecs c where c: "check_neighbours b = (msecs, c)" by fastforce
  have b: "daemon_ok b" using assms by (simp add: well_def)
  then have d: "distinct (neighs (nbrs b))" by (simp add: daemon_ok_def steady_def)
  have "fold check_neighbour (neighs (nbrs b)) (50000, b) = (msecs, c)" using c by (simp add: check_neighbours_def)
  from check_neighbours_ok [OF b _ d subset_refl this well_up [OF assms]]
  have "confined {p. if_up (iface b p)} b c" by simp
  moreover have "holds (framed (setting b)) c"
    using framed_check_neighbours [OF framed_start, of b] c by (simp add: returns_def holds_def)
  ultimately have "fit sys c" by (rule well_confined [OF assms])
  from fit_after [OF this welling(15)] well_fit [OF assms] show ?thesis by (simp add: neighbours_step_def c)
qed

lemma fit_interfaces:
  assumes "system_ok sys" "well sys b"
  shows "fit sys (interfaces_step sys b)"
  using fit_after [OF fit_check_interfaces [OF assms] well_timers(3)] well_fit [OF assms(2)] by (simp add: interfaces_step_def)

lemma fit_expiry:
  assumes "well sys b"
  shows "fit sys (let c = expire_routes b in c\<lparr>resends := expire_resend (now c) (resends c)\<rparr>)"
proof -
  have b: "daemon_ok b" using assms by (simp add: well_def)
  let ?c = "expire_routes b"
  have "fit sys ?c"
    by (rule well_confined [OF assms expire_routes_confined [OF b well_up [OF assms]]]) (rule framed_messages(8) [OF framed_start])
  moreover have "holds (well sys) (?c\<lparr>resends := expire_resend t (resends ?c)\<rparr>)" if "holds (well sys) ?c" for t
    by (rule well_step [OF that]) (use routing_resends routing_typed in \<open>auto simp: links\<close>)
  ultimately show ?thesis using fit_after [of sys ?c] by (simp add: Let_def)
qed

lemma well_sources:
  assumes "well sys b"
  shows "well sys (b\<lparr>sources := expire_sources t (sources b)\<rparr>)"
proof -
  let ?c = "b\<lparr>sources := expire_sources t (sources b)\<rparr>"
  have "daemon_ok ?c" "settled sys ?c"
    using daemon_expire_sources assms by (simp_all add: well_def settled_def route_ifps_def route_ifp_def)
  then show ?thesis using well_framed [OF assms, of ?c] by (simp add: holds_def framed_def setting_def)
qed

lemma well_hellos:
  assumes "holds (well sys) b"
  shows "holds (well sys) (for_up_interfaces hello_step b)" "holds (well sys) (for_up_interfaces flush_step b)"
    "holds (well sys) (resend_step b)" "holds (well sys) (unicast_step b)"
  subgoal unfolding for_up_interfaces_def hello_step_def by (intro inv_rules welling assms)
  subgoal unfolding for_up_interfaces_def flush_step_def by (intro inv_rules welling assms)
  subgoal unfolding resend_step_def by (intro inv_rules welling assms)
  subgoal unfolding unicast_step_def by (intro inv_rules welling assms)
  done

lemma fit_expiry_step:
  assumes "fit_state sys s" "well sys (daemon s)"
  shows "fit_state sys (expiry_step s)"
proof (cases "tv_sec (now (daemon s)) \<ge> expiry_time s")
  case True
  let ?b = "let c = expire_routes (daemon s) in c\<lparr>resends := expire_resend (now c) (resends c)\<rparr>"
  obtain t c where r: "roughly_from_now 30 ?b = (t, c)" by fastforce
  have "fit sys c" by (rule fit_roughly [OF fit_expiry [OF assms(2)] r])
  moreover have "expiry_step s = s\<lparr>daemon := c, expiry_time := t\<rparr>" using True r by (simp add: expiry_step_def Let_def)
  ultimately show ?thesis using assms(1) by (simp add: fit_state_def)
qed (use assms in \<open>simp add: expiry_step_def\<close>)

lemma fit_sources_step:
  assumes "fit_state sys s" "well sys (daemon s)"
  shows "fit_state sys (sources_step s)"
proof (cases "tv_sec (now (daemon s)) \<ge> source_expiry_time s")
  case True
  let ?b = "let c = daemon s in c\<lparr>sources := expire_sources (tv_sec (now c)) (sources c)\<rparr>"
  obtain t c where r: "roughly_from_now 300 ?b = (t, c)" by fastforce
  have "fit sys ?b" using well_fit [OF well_sources [OF assms(2)]] by (simp add: Let_def)
  then have "fit sys c" using r by (rule fit_roughly)
  moreover have "sources_step s = s\<lparr>daemon := c, source_expiry_time := t\<rparr>" using True r by (simp add: sources_step_def Let_def)
  ultimately show ?thesis using assms(1) by (simp add: fit_state_def)
qed (use assms in \<open>simp add: sources_step_def\<close>)

section \<open>A turn\<close>

lemma fit_daemon_step:
  assumes "fit_state sys s" "well sys (daemon s) \<Longrightarrow> fit sys (f (daemon s))"
  shows "fit_state sys (daemon_step f s)"
  using assms fit_well by (auto simp: fit_state_def daemon_step_def)

lemma fit_alive_step:
  assumes "fit_state sys s" "fit_state sys s \<Longrightarrow> well sys (daemon s) \<Longrightarrow> fit_state sys (f s)"
  shows "fit_state sys (alive_step f s)"
  using assms fit_well by (auto simp: fit_state_def alive_step_def)

lemma fit_wake_up:
  assumes "fit_state sys s"
  shows "fit_state sys (snd (wake_up i s))"
proof -
  have g: "fit_state sys (daemon_step gettime t)" if "fit_state sys t" for t
    by (rule fit_daemon_step [OF that]) (use well_basic(1) in \<open>auto simp: holds_def fit_def\<close>)
  have m: "fit sys c" if "fit sys b" "c_timeval_min_sec d x b = (d', c)" for b d x d' c
  proof (rule fit_after [OF that(1)])
    show "holds (well sys) c" if "holds (well sys) b"
      using well_timers(5) [OF that, of d x] \<open>c_timeval_min_sec d x b = (d', c)\<close> by (simp add: returns_def holds_def)
    show "fault c = fault b" using that(2) by (auto simp: c_timeval_min_sec_def c_random_def ask_def split: if_splits)
  qed
  have n: "fit_state sys t'" if "fit_state sys t" "next_deadline t = (tv, t')" for t tv t'
  proof -
    let ?d0 = "timeval_min (check_neighbours_timeout (daemon t)) (check_interfaces_timeout (daemon t))"
    obtain d1 b1 where m1: "c_timeval_min_sec ?d0 (expiry_time t) (daemon t) = (d1, b1)" by fastforce
    obtain d2 b2 where m2: "c_timeval_min_sec d1 (source_expiry_time t) b1 = (d2, b2)" by fastforce
    obtain d3 b3 where m3: "c_timeval_min_sec d2 (kernel_dump_time t) b2 = (d3, b3)" by fastforce
    have "fit sys b3" using that(1) by (intro m [OF _ m3] m [OF _ m2] m [OF _ m1]) (simp add: fit_state_def)
    moreover have "t' = t\<lparr>daemon := b3\<rparr>" using that(2) unfolding next_deadline_def Let_def m1 m2 m3 prod.case by simp
    ultimately show ?thesis using that(1) by (simp add: fit_state_def)
  qed
  obtain tv t where t: "next_deadline (daemon_step gettime s) = (tv, t)" by fastforce
  have "fit_state sys (daemon_step gettime t)" by (intro g n [OF _ t] assms)
  then show ?thesis by (simp add: wake_up_def t Let_def fit_state_def)
qed

lemma fit_kernel_step:
  assumes "fit_state sys s"
  shows "fit_state sys (kernel_step sys n socket reported s)"
proof -
  let ?s = "daemon_step (check_rules n reported) (table_step sys True s)"
  have "fit_state sys ?s" by (rule fit_daemon_step [OF fit_table_step [OF assms] fit_check_rules])
  then show ?thesis using assms fit_roughly by (auto simp: kernel_step_def Let_def fit_state_def split: prod.split)
qed

text \<open>
  The packet of a turn, if any, comes from an address (16 bytes), and each of its TLVs can be
  handled at its turn (\<open>acceptable\<close>).
\<close>

definition packet_ok :: "(byte list \<times> nat \<times> memory \<times> int) option \<Rightarrow> babel \<Rightarrow> bool" where
  "packet_ok packet b \<longleftrightarrow>
     (case packet of None \<Rightarrow> True
      | Some (sender, scope, m, len) \<Rightarrow> length sender = 16 \<and>
          (\<forall>p nb c. find_neighbour sender p (arrived p b) = (Some nb, c) \<longrightarrow>
             acceptable nb p (shift 4 m) (body_length m len) 0 parse_init c))"

lemma fit_turn:
  assumes "system_ok sys" "fit_state sys s" "packet_ok (received i) (daemon (snd (wake_up i s)))"
  shows "fit_state sys (turn sys n i s)"
proof -
  obtain listening s0 where w: "wake_up i s = (listening, s0)" by fastforce
  define s1 where "s1 = daemon_step (receive_step (if listening then received i else None)) s0"
  define s2 where "s2 = alive_step (reopen_step (reopening i)) s1"
  define s3 where "s3 = alive_step (link_step sys) s2"
  define s4 where "s4 = alive_step (kernel_step sys n (kernel_socket i) (reported_rules i)) s3"
  define s5 where "s5 = daemon_step (interfaces_step sys) (daemon_step neighbours_step s4)"
  define s6 where "s6 = alive_step sources_step (alive_step expiry_step s5)"
  have "fit_state sys s0" using fit_wake_up [OF assms(2), of i] w by simp
  then have "fit_state sys s1" unfolding s1_def
    by (rule fit_daemon_step) (rule fit_receive, use assms(3) w in \<open>auto simp: packet_ok_def split: if_splits\<close>)
  then have "fit_state sys s2" unfolding s2_def
    by (rule fit_alive_step) (use well_timers(1) in \<open>auto simp: reopen_step_def fit_state_def holds_def fit_def\<close>)
  then have "fit_state sys s3" unfolding s3_def
    by (rule fit_alive_step)
      (use fit_daemon_step [OF _ fit_check_interfaces [OF assms(1)]] in \<open>auto simp: link_step_def fit_state_def\<close>)
  then have "fit_state sys s4" unfolding s4_def by (rule fit_alive_step) (rule fit_kernel_step)
  then have "fit_state sys s5" unfolding s5_def by (intro fit_daemon_step fit_neighbours fit_interfaces assms(1))
  then have "fit_state sys s6" unfolding s6_def
    by (intro fit_alive_step fit_expiry_step fit_sources_step)
  then have "fit_state sys (daemon_step (for_up_interfaces flush_step) (daemon_step unicast_step
      (daemon_step resend_step (daemon_step (for_up_interfaces hello_step) s6))))"
    by (intro fit_daemon_step well_fit) (use well_hellos in \<open>simp_all add: holds_def\<close>)
  then show ?thesis
    by (simp add: turn_def w Let_def s6_def s5_def s4_def s3_def s2_def s1_def)
qed

end
