(* ===== verification/Main_End.thy ===== *)
theory Main_End
  imports Main_Claims
begin

text \<open>
  The start of the main loop, the runs of the program, and its end.
\<close>

section \<open>The start\<close>

lemma well_pause [welling]: "holds (well sys) b \<Longrightarrow> holds (well sys) (pause usecs b)"
  unfolding pause_def by (intro inv_rules welling)

lemma well_greetings:
  assumes "holds (well sys) b"
  shows "holds (well sys) (for_up_interfaces greet b)" "holds (well sys) (for_up_interfaces introduce b)"
  subgoal unfolding for_up_interfaces_def greet_def by (intro inv_rules welling assms)
  subgoal unfolding for_up_interfaces_def introduce_def by (intro inv_rules welling assms)
  done

lemma fit_arm_timers:
  assumes "fit_state sys s" "well sys (daemon s)"
  shows "fit_state sys (arm_timers s)"
proof -
  obtain t1 b1 where r1: "roughly_from_now 30 (daemon s) = (t1, b1)" by fastforce
  define b2 where "b2 = schedule_interfaces_check 30000 True (schedule_neighbours_check 5000 True b1)"
  obtain t3 b3 where r3: "roughly_from_now 30 b2 = (t3, b3)" by fastforce
  obtain t4 b4 where r4: "roughly_from_now 300 b3 = (t4, b4)" by fastforce
  have w: "holds (well sys) c" if "holds (well sys) b" "roughly_from_now secs b = (t, c)" for b secs t c
    using well_timers(4) [OF that(1), of secs] that(2) by (simp add: returns_def holds_def)
  have "holds (well sys) b1" using w [OF _ r1] assms(2) by (simp add: holds_def)
  then have "holds (well sys) b2" unfolding b2_def by (intro welling)
  then have "holds (well sys) b4" by (intro w [OF _ r4] w [OF _ r3])
  then have "fit sys b4" by (simp add: holds_def fit_def)
  then show ?thesis using assms(1) r1 r3 r4 by (simp add: arm_timers_def Let_def b2_def fit_state_def)
qed

lemma fit_start_up:
  assumes "system_ok sys" "well sys b"
  shows "fit_state sys (start_up sys n reported b)"
proof -
  define s0 where "s0 = \<lparr>daemon = b, changes = no_changes, expiry_time = 0, source_expiry_time = 0, kernel_dump_time = 0, maxroutes = 8\<rparr>"
  have "fit_state sys s0" using well_fit [OF assms(2)] by (simp add: s0_def fit_state_def)
  then have "fit_state sys (daemon_step (check_rules n reported) (table_step sys False (daemon_step (check_interfaces sys) s0)))"
    by (intro fit_daemon_step [OF _ fit_check_rules] fit_table_step fit_daemon_step [OF _ fit_check_interfaces] assms(1))
  then have "fit_state sys (alive_step arm_timers
      (daemon_step (check_rules n reported) (table_step sys False (daemon_step (check_interfaces sys) s0))))"
    by (rule fit_alive_step) (rule fit_arm_timers)
  then have "fit_state sys (daemon_step (for_up_interfaces introduce) (daemon_step (for_up_interfaces greet) (alive_step arm_timers
      (daemon_step (check_rules n reported) (table_step sys False (daemon_step (check_interfaces sys) s0))))))"
    by (intro fit_daemon_step well_fit) (use well_greetings in \<open>simp_all add: holds_def\<close>)
  then show ?thesis by (simp add: start_up_def Let_def s0_def)
qed

section \<open>Runs\<close>

text \<open>The program begins in a state that the configuration has set up.\<close>

inductive main_start :: "system \<Rightarrow> nat \<Rightarrow> main_state \<Rightarrow> bool" for sys :: system and n :: nat
where
  started: "well sys b \<Longrightarrow> main_start sys n (start_up sys n reported b)"

inductive main_step :: "system \<Rightarrow> nat \<Rightarrow> main_state \<Rightarrow> main_state \<Rightarrow> bool" for sys :: system and n :: nat
where
  turning: "fault (daemon s) = None \<Longrightarrow> packet_ok (received i) (daemon (snd (wake_up i s))) \<Longrightarrow>
    main_step sys n s (turn sys n i s)"

inductive_cases main_startE: "main_start sys n s"
inductive_cases main_stepE: "main_step sys n s t"

interpretation main: invariant "main_start sys n" "main_step sys n" "\<lambda>s. system_ok sys \<longrightarrow> fit_state sys s" for sys n
  by unfold_locales (auto elim!: main_startE main_stepE intro: fit_start_up fit_turn)

section \<open>The end\<close>

lemma linked_flush_all: "holds (linked b0) b \<Longrightarrow> holds (linked b0) (flush_all_routes b)"
proof -
  have t: "holds (linked b0) (flush_tail n i c)" if "holds (linked b0) c" for n i c
    using that
  proof (induction n i c rule: flush_tail.induct)
    case (1 n i c)
    then show ?case by (subst flush_tail.simps) (auto simp: links Let_def split: nat.split)
  qed
  then show "holds (linked b0) b \<Longrightarrow> holds (linked b0) (flush_all_routes b)"
    unfolding flush_all_routes_def by (intro holds_fold)
qed

text \<open>Both invariants hold and no routes are left; the interfaces listed are those of \<open>b0\<close>.\<close>

definition emptied :: "system \<Rightarrow> babel \<Rightarrow> babel \<Rightarrow> bool" where
  "emptied sys b0 c \<longleftrightarrow> daemon_ok c \<and> settled sys c \<and> rib_routes (rib c) = {} \<and>
     (\<forall>p. \<not> if_up (iface b0 p) \<longrightarrow> \<not> if_up (iface c p))"

lemma emptied_step:
  assumes "holds (emptied sys b0) b" "\<And>R W E. holds (routing R W E) b \<Longrightarrow> holds (routing R W E) c"
    and "holds (linked b) b \<Longrightarrow> holds (linked b) c"
  shows "holds (emptied sys b0) c"
proof -
  have b: "daemon_ok b" "settled sys b" "rib_routes (rib b) = {}" "\<forall>p. \<not> if_up (iface b0 p) \<longrightarrow> \<not> if_up (iface b p)"
    using assms(1) by (simp_all add: holds_def emptied_def)
  note s = same_step [OF b(1) assms(2,3)]
  have "settled sys c" using settled_same [OF b(2) s(2)] s(3) b(2) by (simp add: settled_def)
  moreover have "rib_routes (rib c) = {}"
    using routingD(5) [OF assms(2), of "rib_routes (rib b)" "who b" "held_now b"] b(1,3) by (simp add: daemon_ok_routing)
  moreover have "if_up (iface c p) = if_up (iface b p)" for p
    using s(2) quiet_iface_up [of "iface c p" "iface b p"] by (simp add: same_ifaces_def)
  ultimately show ?thesis using s(1) b(4) by (simp add: holds_def emptied_def)
qed

lemma routing_pause: "holds (routing R W E) b \<Longrightarrow> holds (routing R W E) (pause usecs b)"
  unfolding pause_def by (intro inv_rules routed routing_gettime)

lemma linked_pause: "holds (linked b0) b \<Longrightarrow> holds (linked b0) (pause usecs b)"
  unfolding pause_def by (intro inv_rules links)

lemma routing_farewell:
  assumes "holds (routing R W E) b"
  shows "holds (routing R W E) (pause t (flushbuf p (send_hello_noupdate p iv (send_wildcard_retraction p b))))"
  by (intro routing_pause routing_plain(6) routing_goodbyes assms)

lemma linked_farewell:
  assumes "holds (linked b0) b"
  shows "holds (linked b0) (pause t (flushbuf p (send_hello_noupdate p iv (send_wildcard_retraction p b))))"
  by (intro linked_pause linked_goodbyes assms)

text \<open>One interface is taken down.\<close>

lemma leave_ok:
  assumes "holds (emptied sys b0) b"
  shows "holds (emptied sys b0) (if \<not> if_up (iface b p) then b else leave sys p b)"
    "\<not> if_up (iface (if \<not> if_up (iface b p) then b else leave sys p b) p)"
    "\<not> if_up (iface b q) \<Longrightarrow> \<not> if_up (iface (if \<not> if_up (iface b p) then b else leave sys p b) q)"
proof -
  have *: "holds (emptied sys b0) (leave sys p b) \<and> \<not> if_up (iface (leave sys p b) p) \<and>
      (\<forall>q. \<not> if_up (iface b q) \<longrightarrow> \<not> if_up (iface (leave sys p b) q))" if up: "if_up (iface b p)"
  proof -
    define c where "c = pause 10000 (flushbuf p (send_hello_noupdate p 1 (send_wildcard_retraction p b)))"
    have "holds (emptied sys b0) c" unfolding c_def by (rule emptied_step [OF assms routing_farewell linked_farewell])
    then have c: "daemon_ok c" "settled sys c" "rib_routes (rib c) = {}" "\<forall>q. \<not> if_up (iface b0 q) \<longrightarrow> \<not> if_up (iface c q)"
      by (simp_all add: holds_def emptied_def)
    have "same_ifaces b c" unfolding c_def by (rule linked_same [OF linked_farewell [OF linked_start]])
    then have same: "if_up (iface c q) = if_up (iface b q)" for q
      using quiet_iface_up [of "iface c q" "iface b q"] by (simp add: same_ifaces_def)
    obtain rc d where d: "interface_up sys p False c = (rc, d)" by fastforce
    note r = interface_down_result [OF c(1) _ d]
    have r: "same_but p c d" "i_conf (iface d p) = i_conf (iface c p)" "i_ifindex (iface d p) = i_ifindex (iface c p)"
      "daemon_ok d" "idle (iface d p)" "routes_via p d = {}" "rib_routes (rib d) = {}"
      using r same [of p] up c(3) by auto
    have "conf_fits (iface d p)" using conf_fits_cong [OF r(2)] c(2) by (simp add: settled_def settled_iface_def)
    then have "settled sys d" using idle_settled [OF c(2) r(1,5,6)] r(3) by simp
    moreover have "if_up (iface d q) \<longrightarrow> if_up (iface c q)" for q
      using r(1,5) quiet_iface_up [of "iface d q" "iface c q"]
      by (cases "q = p") (auto simp: same_but_def idle_def)
    moreover have "leave sys p b = d" by (simp add: leave_def c_def [symmetric] d)
    ultimately show ?thesis using r same c(4) by (auto simp: holds_def emptied_def idle_def)
  qed
  show "holds (emptied sys b0) (if \<not> if_up (iface b p) then b else leave sys p b)"
    "\<not> if_up (iface (if \<not> if_up (iface b p) then b else leave sys p b) p)"
    "\<not> if_up (iface b q) \<Longrightarrow> \<not> if_up (iface (if \<not> if_up (iface b p) then b else leave sys p b) q)"
    using * assms by auto
qed

lemma leave_all:
  assumes "holds (emptied sys b0) b"
  shows "holds (emptied sys b0) (fold (\<lambda>p b. if \<not> if_up (iface b p) then b else leave sys p b) ps b) \<and>
    (\<forall>p. p \<in> set ps \<or> \<not> if_up (iface b p) \<longrightarrow>
       \<not> if_up (iface (fold (\<lambda>p b. if \<not> if_up (iface b p) then b else leave sys p b) ps b) p))"
  using assms
proof (induction ps arbitrary: b)
  case (Cons p ps)
  define c where "c = (if \<not> if_up (iface b p) then b else leave sys p b)"
  note l = leave_ok [OF Cons.prems, where p = p, folded c_def]
  have "fold (\<lambda>p b. if \<not> if_up (iface b p) then b else leave sys p b) (p # ps) b =
      fold (\<lambda>p b. if \<not> if_up (iface b p) then b else leave sys p b) ps c" by (simp add: c_def)
  then show ?case using Cons.IH [OF l(1)] l(2,3) by auto
qed simp

lemma syscall_rules:
  "rules (snd (k_flush_rule prio family b)) = rules b" "used_tables (snd (k_flush_rule prio family b)) = used_tables b"
  by (simp_all add: k_flush_rule_def syscall_def ask_def emit_def split: prod.split)

lemma release_tables_empty:
  "i < SRC_TABLE_NUM \<Longrightarrow> i < length (rules (release_tables b)) \<Longrightarrow> ru_plen (rules (release_tables b) ! i) = 0"
proof -
  define f where "f = (\<lambda>i b. let b = (if ru_plen (rules b ! i) \<noteq> 0
                 then (let b = snd (k_flush_rule (i + src_table_prio)
                                      (if v4mapped (ru_src (rules b ! i)) then AF_INET else AF_INET6) b)
                       in b\<lparr>rules := (rules b)[i := (rules b ! i)\<lparr>ru_plen := 0\<rparr>]\<rparr>)
                 else b)
        in b\<lparr>used_tables := (used_tables b)[i := False]\<rparr>)"
  have f: "length (rules (f n c)) = length (rules c)"
    "i < length (rules c) \<Longrightarrow> ru_plen (rules (f n c) ! i) = (if i = n then 0 else ru_plen (rules c ! i))" for n c i
    by (simp_all add: f_def Let_def syscall_rules nth_list_update)
  have "length (rules (fold f [0..<n] b)) = length (rules b) \<and>
      (\<forall>i < n. i < length (rules b) \<longrightarrow> ru_plen (rules (fold f [0..<n] b) ! i) = 0)" for n
    by (induction n) (simp_all add: f less_Suc_eq)
  moreover have "release_tables b = fold f [0..<SRC_TABLE_NUM] b" by (simp only: release_tables_def f_def)
  ultimately have "length (rules (release_tables b)) = length (rules b)"
    "\<forall>i < SRC_TABLE_NUM. i < length (rules b) \<longrightarrow> ru_plen (rules (release_tables b) ! i) = 0" by simp_all
  then show "i < SRC_TABLE_NUM \<Longrightarrow> i < length (rules (release_tables b)) \<Longrightarrow> ru_plen (rules (release_tables b) ! i) = 0"
    by simp
qed

lemma shut_down_result:
  assumes "daemon_ok b" "settled sys b"
  shows "emptied sys b (shut_down sys b)" "p \<in> set (interfaces (ifaces b)) \<Longrightarrow> \<not> if_up (iface (shut_down sys b) p)"
proof -
  define c where "c = pause 10000 b"
  define d where "d = flush_all_routes c"
  define e where "e = for_up_interfaces say_goodbye d"
  define f where "f = for_up_interfaces (leave sys) e"
  have b: "holds (routing (rib_routes (rib b)) (who b) (held_now b)) b" using assms(1) by (simp add: daemon_ok_routing)
  have rd: "holds (routing {} (who b) (held_now b)) d" unfolding d_def c_def by (rule flush_all_ok [OF routing_pause [OF b]])
  have ld: "holds (linked b) d" unfolding d_def c_def by (intro linked_flush_all linked_pause linked_start)
  have sd: "same_ifaces b d" by (rule linked_same [OF ld])
  have "settled sys d" using settled_same [OF assms(2) sd] routing_ifps [OF rd] by simp
  moreover have "if_up (iface d q) = if_up (iface b q)" for q
    using quiet_iface_up [of "iface d q" "iface b q"] sd by (simp add: same_ifaces_def)
  ultimately have d: "holds (emptied sys b) d"
    using routing_daemon_ok [OF rd] routingD(5) [OF rd] by (simp add: holds_def emptied_def)
  have "holds (emptied sys b) (say_goodbye q x)" if "holds (emptied sys b) x" for q x
    unfolding say_goodbye_def by (rule emptied_step [OF that routing_farewell linked_farewell])
  then have e: "holds (emptied sys b) e" unfolding e_def for_up_interfaces_def by (intro holds_fold holds_if d)
  have "holds (linked b) (say_goodbye q x)" if "holds (linked b) x" for q x
    unfolding say_goodbye_def by (rule linked_farewell [OF that])
  then have "holds (linked b) e" unfolding e_def for_up_interfaces_def by (intro holds_fold holds_if ld)
  then have i: "interfaces (ifaces e) = interfaces (ifaces b)" by (simp add: holds_def linked_def)
  note l = leave_all [OF e, of "interfaces (ifaces e)", folded for_up_interfaces_def, folded f_def, unfolded i]
  have k: "kernel_only f (release_tables f)" by (rule kernel_start) (rule kernel_release_tables)
  have r: "shut_down sys b = release_tables f" by (simp add: shut_down_def c_def d_def e_def f_def Let_def)
  have "holds (emptied sys b) (release_tables f)"
    by (rule emptied_step [OF conjunct1 [OF l]])
      (use routing_kernel [OF _ k] linked_kernel k in \<open>auto simp: kernel_only_def\<close>)
  then show "emptied sys b (shut_down sys b)" by (simp add: r holds_def)
  have "iface (release_tables f) p = iface f p" using kernel_only_eqs [OF k] by simp
  then show "\<not> if_up (iface (shut_down sys b) p)" if "p \<in> set (interfaces (ifaces b))" using l that by (simp add: r)
qed

section \<open>The claims\<close>


text \<open>A run with one turn, in which the neighbour sends an IHU.\<close>

definition a_turn :: main_input where
  "a_turn =
     \<lparr>notices = [], received = Some (n_address the_neigh, 3, packet_of ([42, 2, 0, 8] @ an_ihu) 0, 12),
      reopening = False, kernel_socket = True, reported_rules = []\<rparr>"

lemma a_turn_ok: "packet_ok (received a_turn) b"
proof -
  have "body_length (packet_of ([42, 2, 0, 8] @ an_ihu) 0) 12 = 8"
    by (simp add: body_length_def packet_of_def an_ihu_def ntohs_def)
  then show ?thesis
    using an_ihu_acceptable by (simp add: packet_ok_def a_turn_def the_neigh_def)
qed

lemma a_filters_fit: "filters_fit a_system (filters_of routed_router)"
  by (simp add: filters_fit_def reports_ok_def a_system_def)

lemma routed_router_well: "well a_system routed_router"
  using routed_router_ok routed_router_settled a_filters_fit
  by (simp add: well_def) (simp add: xroutes_ok_def routed_router_def a_router_def babel_init_def)


text \<open>
  C7: (safety) The end of the program.  From a state that satisfies the invariants it always
  comes to an end that satisfies them too, without giving anything up; all routes are gone,
  the interfaces are down and have no buffers, and no rule for source prefixes is left.
\<close>

theorem shut_down_clean:
  assumes "daemon_ok b" "settled sys b"
  shows "daemon_ok (shut_down sys b) \<and> rib_routes (rib (shut_down sys b)) = {} \<and>
    (\<forall>p \<in> set (interfaces (ifaces b)). \<not> if_up (iface (shut_down sys b) p) \<and>
       i_sendbuf (iface (shut_down sys b) p) = [] \<and> i_bufsize (iface (shut_down sys b) p) = 0) \<and>
    (\<forall>i < SRC_TABLE_NUM. i < length (rules (shut_down sys b)) \<longrightarrow> ru_plen (rules (shut_down sys b) ! i) = 0)"
proof -
  note r = shut_down_result [OF assms]
  then have e: "daemon_ok (shut_down sys b)" "settled sys (shut_down sys b)" "rib_routes (rib (shut_down sys b)) = {}"
    by (simp_all add: emptied_def)
  have "idle (iface (shut_down sys b) p)" if "p \<in> set (interfaces (ifaces b))" for p
    by (rule settled_idle(1) [OF e(1,2) r(2) [OF that]])
  moreover have "ru_plen (rules (shut_down sys b) ! i) = 0" if "i < SRC_TABLE_NUM" "i < length (rules (shut_down sys b))" for i
    using release_tables_empty that unfolding shut_down_def Let_def by blast
  ultimately show ?thesis using e by (simp add: idle_def)
qed

theorem shut_down_clean_witness: "\<not> if_up (iface (shut_down a_system routed_router) 1)"
  using shut_down_clean [OF routed_router_ok routed_router_settled]
  by (simp add: routed_router_def a_router_def)

end
