(* ===== verification/Message_Errors.thy ===== *)
theory Message_Errors
  imports Receive_Claims
begin

text \<open>
  What the parser of \<open>message.c\<close> does with messages that are too short and types that it does not
  know.
\<close>

text \<open>The bytes that the body of a TLV must have; none for a type that is ignored.\<close>

definition tlv_minimum :: "int \<Rightarrow> nat option" where
  "tlv_minimum type =
     map_of [(MESSAGE_ACK_REQ, 6), (MESSAGE_HELLO, 6), (MESSAGE_IHU, 6), (MESSAGE_ROUTER_ID, 10), (MESSAGE_NH, 2),
       (MESSAGE_UPDATE, 10), (MESSAGE_REQUEST, 2), (MESSAGE_MH_REQUEST, 14), (MESSAGE_UPDATE_SRC_SPECIFIC, 10),
       (MESSAGE_REQUEST_SRC_SPECIFIC, 3), (MESSAGE_MH_REQUEST_SRC_SPECIFIC, 14)] type"

definition short_tlv :: "memory \<Rightarrow> nat \<Rightarrow> bool" where
  "short_tlv m len \<longleftrightarrow> (case tlv_minimum (uint (m 0)) of None \<Rightarrow> True | Some n \<Rightarrow> len < n)"

text \<open>The state of the parser may lose what earlier TLVs said, and nothing else.\<close>

definition weaker :: "'a option \<Rightarrow> 'a option \<Rightarrow> bool" where
  "weaker x y \<longleftrightarrow> y = x \<or> y = None"

definition forgets :: "parse_state \<Rightarrow> parse_state \<Rightarrow> bool" where
  "forgets s t \<longleftrightarrow>
     weaker (ps_router_id s) (ps_router_id t) \<and> weaker (ps_v4_prefix s) (ps_v4_prefix t) \<and>
     weaker (ps_v6_prefix s) (ps_v6_prefix t) \<and> weaker (ps_v4_nh s) (ps_v4_nh t) \<and> weaker (ps_v6_nh s) (ps_v6_nh t) \<and>
     ps_hello_rtt t = ps_hello_rtt s \<and> ps_hello_send_us t = ps_hello_send_us s \<and> ps_receive_time t = ps_receive_time s"

lemma forgets_refl: "forgets s s"
  by (simp add: forgets_def weaker_def)

lemma forgets_cases:
  "forgets s (drop_prefixes flags s)" "len < 2 \<Longrightarrow> forgets s (decode_nh m len s)" "forgets s (s\<lparr>ps_router_id := None\<rparr>)"
  by (simp_all add: forgets_def weaker_def drop_prefixes_def decode_nh_def)

lemma short_decoded:
  assumes "short_tlv m len" "decode ifp stale m len s = (a, s')"
  shows "a = Act_nothing" "forgets s s'"
proof -
  define t where "t = uint (m 0)"
  note codes = types MESSAGE_ACK_REQ_def
  consider "t \<in> {2, 4, 5, 6, 7, 8}" | "t \<in> {9, 10, 13, 14, 15}" | "t \<notin> {2, 4, 5, 6, 7, 8}" "t \<notin> {9, 10, 13, 14, 15}" by blast
  then have d: "fst (decode ifp stale m len s) = Act_nothing \<and> forgets s (snd (decode ifp stale m len s))"
  proof cases
    case 1
    then show ?thesis using assms(1) forgets_cases forgets_refl [of s]
      unfolding short_tlv_def tlv_minimum_def decode_def t_def [symmetric] codes
      by (elim insertE emptyE) (simp_all add: decode_ihu_def decode_update_def)
  next
    case 2
    then show ?thesis using assms(1) forgets_refl [of s]
      unfolding short_tlv_def tlv_minimum_def decode_def t_def [symmetric] codes
      by (elim insertE emptyE) (simp_all add: decode_request_def decode_mh_request_def decode_specific_update_def
        decode_specific_request_def decode_specific_mh_request_def)
  next
    case 3
    then show ?thesis using forgets_refl [of s] unfolding decode_def t_def [symmetric] codes by simp
  qed
  show "a = Act_nothing" "forgets s s'" using d assms(2) by simp_all
qed



text \<open>
  (error) A datagram that does not come from a link-local address, or does not begin with the magic
  number and version of the protocol, changes nothing but the clock, which is read on
  interfaces with time stamps.
\<close>

theorem alien_packet_ignored:
  assumes "\<not> linklocal sender \<or> packet 0 \<noteq> 42 \<or> packet 1 \<noteq> 2"
  shows "parse_packet sender ifp packet packetlen b = arrived ifp b"
  using assms by (auto simp: parse_packet_def arrived_def Let_def)

text \<open>A packet of another version.\<close>

theorem alien_packet_ignored_witness:
  "parse_packet (n_address the_neigh) 1 (packet_of ([42, 3, 0, 8] @ an_ihu) 0) 12 routed_router = arrived 1 routed_router"
  using alien_packet_ignored [of "n_address the_neigh" "packet_of ([42, 3, 0, 8] @ an_ihu) 0" 1 12 routed_router]
  by (simp add: packet_of_def)

end
