(* ===== verification/Spec2Isabelle.thy ===== *)
theory Spec2Isabelle
  imports Disambiguation Route_Claims Route_Best Route_Feasible Hello_History Receive_Claims
    Update_Roundtrip Xroute_Mirror Main_End Message_Errors
begin

text \<open>
  A model of \<open>rabeld\<close>, a daemon that speaks the Babel routing protocol (a distance-vector protocol
  whose feasibility condition keeps the routing free of loops), and what is proved of it.

  The program.  \<open>babeld.c\<close> is one loop around \<open>select\<close>.  Packets go to \<open>parse_packet\<close>
  (\<open>message.c\<close>), which turns TLVs into updates of the neighbours (\<open>neighbour.c\<close>) and of the routes
  (\<open>route.c\<close>), and into answers.  The route table keeps, for each destination, the routes learnt
  from the neighbours and at most one installed route; a decision compares metrics and consults
  the feasibility distances of \<open>source.c\<close>.  Installing a route goes through
  \<open>disambiguation.c\<close> (source-specific routes that conflict) and \<open>rule.c\<close> to the kernel
  (\<open>kernel_netlink.c\<close>).  \<open>xroute.c\<close> mirrors the kernel's own routes, which the daemon announces;
  \<open>interface.c\<close> follows the interfaces; \<open>resend.c\<close> keeps the requests and updates that are
  repeated; \<open>configuration.c\<close> holds the filters; \<open>util.c\<close> the arithmetic of prefixes, sequence
  numbers and times.

  The state.  Theory \<open>State\<close> has the record \<open>babel\<close>: a field for each global variable or table,
  structs in heaps that are functions from addresses, lists of addresses for the lists of
  the code.  An operation takes the state last and returns it, paired with its result
  when it has one.  What the program reads from outside (\<open>malloc\<close>, \<open>random\<close>, the clock, results
  of system calls) are answers of an arbitrary environment, one for each question (\<open>ask\<close>); what it
  sends out is appended to \<open>out\<close>.  An abort is a state with a \<open>fault\<close>: a failed assertion, a NULL
  dereference, a write outside a buffer, a read of memory never written.  Machine integers are
  words or have their wrap-around written out.

  The theories, from the bottom:
  \<^item> \<open>Babel_Prelude\<close>: types, generic lemmas, the binary search of \<open>source.c\<close> and \<open>route.c\<close> as a
    locale, interpreted in both.  \<open>Util\<close>, \<open>Prefix\<close>: \<open>util.c\<close>, \<open>util.h\<close>.
  \<^item> \<open>Source\<close>: \<open>source.c\<close>.  \<open>Filters\<close>: the filters of \<open>configuration.c\<close>.  \<open>Resend\<close>: \<open>resend.c\<close>.
    \<open>Rib\<close>: the table of \<open>route.c\<close> as a data structure.
  \<^item> \<open>State\<close>, and \<open>Calculus\<close>: rules for proving that a sequence of operations keeps a property.
  \<^item> \<open>Kernel_Route\<close> (\<open>kernel_route\<close>), \<open>Rules\<close> (\<open>rule.c\<close>), \<open>Disambiguation\<close>, \<open>Neighbour_Cost\<close>,
    \<open>Xroutes\<close> (the table of \<open>xroute.c\<close>).
  \<^item> \<open>Message_Buffer\<close>, \<open>Tlv\<close> (the contract of a message between \<open>start_message\<close> and \<open>end_message\<close>, a
    locale interpreted for both kinds of buffer), \<open>Send_Update\<close>, \<open>Send_Message\<close>: the sending half of
    \<open>message.c\<close>.  \<open>Send_Frame\<close>, \<open>Send_Ready\<close>, \<open>Send_Safe\<close>, \<open>Send_Safe2\<close>: what sending leaves alone, and
    that from a well-formed state it trips no assertion and stays in its buffers.
  \<^item> \<open>Route_Metric\<close>, \<open>Route_Change\<close>, \<open>Route_Update\<close>: the rest of \<open>route.c\<close>.  \<open>Kernel_Safe\<close>,
    \<open>Route_Inv\<close>, \<open>Route_Safe\<close>, \<open>Route_Safe2\<close>, \<open>Route_Safe3\<close>, \<open>Route_Safe4\<close>, \<open>Route_Props\<close>: the invariant of the daemon
    (\<open>daemon_ok\<close>) across them.  \<open>Route_Flush\<close>: the loops that remove routes end.  \<open>Route_Best\<close>,
    \<open>Route_Feasible\<close>: the best route, and feasibility.  \<open>Route_Claims\<close>: the claims.
  \<^item> \<open>Neighbour\<close> (\<open>neighbour.c\<close>, \<open>do_resend\<close>), \<open>Links\<close> (what operations on routes never touch),
    \<open>Neighbour_Safe\<close>, \<open>Neighbour_Claims\<close>, \<open>Hello_History\<close> (the reach register as a list of hellos).
  \<^item> \<open>Message_In\<close>, \<open>Receive\<close>: \<open>parse_packet\<close>.  \<open>Message_Bounds\<close>: how far it reads.  \<open>Receive_Types\<close>,
    \<open>Receive_Safe\<close>, \<open>Receive_Claims\<close>: what a packet does to the invariant.  \<open>Update_Roundtrip\<close>: a decoded
    update is the one that was encoded.
  \<^item> \<open>Xroute_Check\<close>, \<open>Xroute_Mirror\<close>: \<open>check_xroutes\<close> and what it achieves.
  \<^item> \<open>Interface\<close>: \<open>interface.c\<close>.  \<open>Interface_Safe\<close> (taking an interface down), \<open>Interface_Up\<close> (a locale for the
    checks that an interface undergoes while it comes up and while it is up, interpreted for both),
    \<open>Interface_Claims\<close>, \<open>Interface_Settled\<close> (the invariant of the interfaces, and the claims).
  \<^item> \<open>Main_Loop\<close>: the loop of \<open>babeld.c\<close>, each condition of the loop a step, \<open>turn\<close> their sequence.
    \<open>Wake_Up\<close>: when it wakes up.  \<open>Main_Steps\<close>: what only the loop calls keeps the invariant;
    \<open>Main_Frame\<close>: which operations leave the exported routes and filters alone; \<open>Main_Claims\<close>: a
    turn keeps the invariants; reachable states, and invariants of transition systems as a locale.
    \<open>Main_End\<close>: the start, the runs (an interpretation of that locale), and the shutdown.
  \<^item> \<open>Message_Errors\<close>: TLVs that are too short or unknown.
  \<^item> \<open>A_Router\<close>: a concrete daemon with a route, to which the claims are applied.

  The invariant \<open>daemon_ok\<close>: no fault has happened; both sorted tables are well formed, with one
  source or slot for each key; each source is referenced at least as often as routes name it;
  the installed route of a slot is at its head; each route's neighbour is in the list of
  neighbours; addresses have 16 bytes, router identifiers 8; send buffers hold what their
  sizes allow and a queued hello has room for its time stamp; costs are within range; pending
  requests can be sent.  To it the main loop adds \<open>settled\<close> (an interface that is down has no
  buffer and no route leads through it; configurations are within range) and \<open>xroutes_ok\<close> (no
  prefix is exported twice).

  Bounds and fuel.  The loops that remove routes have fuel that is proved to be enough.
  The walks \<open>update_neighbour_metric\<close> and \<open>update_interface_metric\<close> restart when a route moves:
  with an environment whose clock jumps between any two steps they need not end, so they have fuel
  \<open>(n + 1)^2\<close> for \<open>n\<close> routes, running out is the fault \<open>Out_of_fuel\<close>, the model stops there, and
  \<open>alive\<close> is the invariant or that fault.  Every other loop is structural or has a measure.

  Assumptions.  The claims on the route table assume that allocations succeed (what fails
  otherwise is stated where it matters: \<open>find_source\<close>, \<open>record_resend\<close>).  The claims on packets
  assume that the TLVs are \<open>admissible\<close>: the code has no check for the other ones, and for the
  kinds that break it there are findings.  The claims on interfaces and on the main loop assume
  MTUs of at least 142 bytes and that an interface with an index has a link-local address
  whenever the kernel is asked (\<open>system_ok\<close>; for what happens otherwise there are findings too), and that the
  addresses that the kernel reports are addresses (\<open>filters_fit\<close>).  A run ends when a walk over the
  routes is given up, or when the kernel has more rules of one priority to delete than the fuel
  of \<open>check_rules\<close>.

  Not modelled: the parser of the configuration file and of the commands of local clients, the text
  of notifications, logging, netlink framing and the parsing of kernel dumps, sockets and
  signals, what \<open>main\<close> does before the loop (arguments, daemonising, the state file), \<open>kernel_socket.c\<close> (the BSD variant of the kernel interface), the size of the receive
  buffer, and the nl80211 tool: input and output against the kernel, or strings without a
  part in the protocol.
\<close>

end
